(* ===== verification/Prelude.thy ===== *)
theory Prelude
  imports Main "HOL-Library.AList"
begin

text \<open>
  Shared vocabulary of the development.

  A thrown \<^verbatim>\<open>Error\<close> is the left summand of \<open>'a result\<close>, so every raise of the source is a
  branch of the model; \<open>bindE\<close> is the sequencing of statements that may throw, \<open>ensure\<close> is
  \<^verbatim>\<open>if (!condition) throw\<close>, and \<open>traverseE\<close> is a \<^verbatim>\<open>for ... of\<close> loop whose body may throw.
  A JavaScript \<^verbatim>\<open>Map\<close> or \<^verbatim>\<open>Set\<close> iterates in insertion order: a map is an association
  list written with \<open>AList.update\<close> (replace in place, else append) and a set is a duplicate
  free list written with \<open>set_add\<close>.
\<close>

named_theorems result_simps \<open>sequencing of computations that may throw\<close>
named_theorems collection_simps \<open>insertion-ordered maps and sets\<close>

type_synonym 'a result = "string + 'a"

subsection \<open>Computations that may throw\<close>

fun bindE :: "'e + 'a \<Rightarrow> ('a \<Rightarrow> 'e + 'b) \<Rightarrow> 'e + 'b" where
  "bindE (Inl e) f = Inl e"
| "bindE (Inr x) f = f x"

definition ensure :: "bool \<Rightarrow> 'e \<Rightarrow> 'e + unit" where
  "ensure c e = (if c then Inr () else Inl e)"

fun traverseE :: "('a \<Rightarrow> 'e + unit) \<Rightarrow> 'a list \<Rightarrow> 'e + unit" where
  "traverseE f [] = Inr ()"
| "traverseE f (x # xs) = bindE (f x) (\<lambda>_. traverseE f xs)"

fun mapE :: "('a \<Rightarrow> 'e + 'b) \<Rightarrow> 'a list \<Rightarrow> 'e + 'b list" where
  "mapE f [] = Inr []"
| "mapE f (x # xs) = bindE (f x) (\<lambda>y. bindE (mapE f xs) (\<lambda>ys. Inr (y # ys)))"

text \<open>\<^verbatim>\<open>every\<close> and \<^verbatim>\<open>some\<close> with a predicate that may throw; both stop at the deciding element.\<close>

fun allE :: "('a \<Rightarrow> 'e + bool) \<Rightarrow> 'a list \<Rightarrow> 'e + bool" where
  "allE f [] = Inr True"
| "allE f (x # xs) = bindE (f x) (\<lambda>b. if b then allE f xs else Inr False)"

fun anyE :: "('a \<Rightarrow> 'e + bool) \<Rightarrow> 'a list \<Rightarrow> 'e + bool" where
  "anyE f [] = Inr False"
| "anyE f (x # xs) = bindE (f x) (\<lambda>b. if b then Inr True else anyE f xs)"

definition succeeds :: "'e + 'a \<Rightarrow> bool" where
  "succeeds r = (case r of Inl _ \<Rightarrow> False | Inr _ \<Rightarrow> True)"

lemma succeeds_simps [simp]: "succeeds (Inr x)" "\<not> succeeds (Inl e)"
  by (simp_all add: succeeds_def)

lemma succeeds_iff: "succeeds r \<longleftrightarrow> (\<exists>x. r = Inr x)"
  by (cases r) auto

lemma bindE_Inr_iff [result_simps]: "bindE m f = Inr y \<longleftrightarrow> (\<exists>x. m = Inr x \<and> f x = Inr y)"
  by (cases m) auto

lemma bindE_Inl_iff [result_simps]:
  "bindE m f = Inl e \<longleftrightarrow> m = Inl e \<or> (\<exists>x. m = Inr x \<and> f x = Inl e)"
  by (cases m) auto

lemma bindE_assoc: "bindE (bindE m f) g = bindE m (\<lambda>x. bindE (f x) g)"
  by (cases m) auto

lemma ensure_Inr_iff [result_simps]: "ensure c e = Inr u \<longleftrightarrow> c"
  by (simp add: ensure_def)

lemma ensure_Inl_iff [result_simps]: "ensure c e = Inl e' \<longleftrightarrow> \<not> c \<and> e' = e"
  by (auto simp: ensure_def)

lemma ensure_True [simp]: "ensure True e = Inr ()"
  by (simp add: ensure_def)

lemma ensure_False [simp]: "ensure False e = Inl e"
  by (simp add: ensure_def)

lemma traverseE_Inr_iff [result_simps]:
  "traverseE f xs = Inr u \<longleftrightarrow> (\<forall>x\<in>set xs. f x = Inr ())"
  by (induction xs) (auto simp: result_simps)

lemma traverseE_InlD: "traverseE f xs = Inl e \<Longrightarrow> \<exists>x\<in>set xs. f x = Inl e"
  by (induction xs) (auto simp: result_simps)

lemma mapE_Inr_iff [result_simps]:
  "mapE f xs = Inr ys \<longleftrightarrow> list_all2 (\<lambda>x y. f x = Inr y) xs ys"
  by (induction xs arbitrary: ys) (auto simp: result_simps list_all2_Cons1)

lemma allE_True_iff [result_simps]: "allE f xs = Inr True \<longleftrightarrow> (\<forall>x\<in>set xs. f x = Inr True)"
  by (induction xs) (auto simp: result_simps)

lemma anyE_TrueD: "anyE f xs = Inr True \<Longrightarrow> \<exists>x\<in>set xs. f x = Inr True"
  by (induction xs) (auto simp: result_simps split: if_splits)

subsection \<open>First match of a sequence of checks\<close>

definition orElse :: "'a option \<Rightarrow> 'a option \<Rightarrow> 'a option" where
  "orElse a b = (case a of Some x \<Rightarrow> Some x | None \<Rightarrow> b)"

fun first_some :: "('a \<Rightarrow> 'b option) \<Rightarrow> 'a list \<Rightarrow> 'b option" where
  "first_some f [] = None"
| "first_some f (x # xs) = orElse (f x) (first_some f xs)"

lemma orElse_simps [simp]: "orElse None b = b" "orElse (Some x) b = Some x"
  by (simp_all add: orElse_def)

lemma orElse_None_iff [simp]: "orElse a b = None \<longleftrightarrow> a = None \<and> b = None"
  by (cases a) simp_all

lemma first_some_None_iff [simp]: "first_some f xs = None \<longleftrightarrow> (\<forall>x\<in>set xs. f x = None)"
  by (induction xs) auto

lemma first_some_SomeD: "first_some f xs = Some y \<Longrightarrow> \<exists>x\<in>set xs. f x = Some y"
  by (induction xs) (auto simp: orElse_def split: option.splits)

subsection \<open>Searching a table\<close>

lemma find_map_cond:
  "(\<And>x. x \<in> set xs \<Longrightarrow> P (f x) = P x) \<Longrightarrow> find P (map f xs) = map_option f (find P xs)"
  by (induction xs) auto

lemma find_append: "find P (xs @ ys) = (case find P xs of Some x \<Rightarrow> Some x | None \<Rightarrow> find P ys)"
  by (induction xs) auto

lemma filter_map_unchanged:
  assumes "\<And>x. x \<in> set xs \<Longrightarrow> P (f x) = P x" "\<And>x. x \<in> set xs \<Longrightarrow> P x \<Longrightarrow> f x = x"
  shows "filter P (map f xs) = filter P xs"
  using assms by (induction xs) auto

subsection \<open>Insertion-ordered maps and sets\<close>

definition map_of_entries :: "('k \<times> 'v) list \<Rightarrow> ('k \<times> 'v) list" where
  "map_of_entries es = fold (\<lambda>(k, v) m. AList.update k v m) es []"

definition set_add :: "'a \<Rightarrow> 'a list \<Rightarrow> 'a list" where
  "set_add x xs = (if x \<in> set xs then xs else xs @ [x])"

lemma set_set_add [simp, collection_simps]: "set (set_add x xs) = insert x (set xs)"
  by (auto simp: set_add_def)

lemma distinct_set_add [simp, collection_simps]: "distinct (set_add x xs) = distinct xs"
  by (auto simp: set_add_def)

lemma distinct_fold_update:
  "distinct (map fst m) \<Longrightarrow> distinct (map fst (fold (\<lambda>(k, v) m. AList.update k v m) es m))"
  by (induction es arbitrary: m) (auto simp: distinct_update)

lemma distinct_map_of_entries [simp, collection_simps]: "distinct (map fst (map_of_entries es))"
  by (simp add: map_of_entries_def distinct_fold_update)

lemma map_of_fold_update:
  "map_of (fold (\<lambda>(k, v) m. AList.update k v m) es m) = map_of m ++ map_of (rev es)"
  by (induction es arbitrary: m) (auto simp: update_conv')

lemma map_of_map_of_entries [collection_simps]: "map_of (map_of_entries es) = map_of (rev es)"
  by (simp add: map_of_entries_def map_of_fold_update)

lemma fst_set_map_of_entries [collection_simps]: "fst ` set (map_of_entries es) = fst ` set es"
  by (metis dom_map_of_conv_image_fst map_of_map_of_entries set_rev)

text \<open>The size of the map counts the distinct keys, so it is the number of entries exactly when no
  key repeats.\<close>

lemma length_map_of_entries:
  "length (map_of_entries es) = card (fst ` set es)"
proof -
  have "length (map_of_entries es) = card (set (map fst (map_of_entries es)))"
    using distinct_card [OF distinct_map_of_entries [of es]] by simp
  then show ?thesis by (simp add: fst_set_map_of_entries)
qed

lemma length_map_of_entries_distinct:
  "length (map_of_entries es) = length es \<longleftrightarrow> distinct (map fst es)"
  using card_distinct [of "map fst es"] distinct_card [of "map fst es"]
  by (auto simp: length_map_of_entries)

lemma map_of_map_of_entries_distinct:
  "distinct (map fst es) \<Longrightarrow> map_of (map_of_entries es) = map_of es"
  by (simp add: map_of_map_of_entries map_of_inject_set rev_map flip: rev_map)

end
