(* ===== verification/Entity_Id.thy ===== *)
theory Entity_Id
  imports Prelude "HOL-Library.Word"
begin

text \<open>
  Entity identifiers of the protocol (\<^verbatim>\<open>packages/protocol/src/common/entity-id.ts\<close>): the table of entity
  kinds, the canonical text rule of an identifier, and the allocation of a UUIDv7 identifier.

  A compiled regular expression of the source is the list of the character classes it demands,
  one per position; matching is anchored at both ends, as \<^verbatim>\<open>^\<close> and the final negative lookahead
  are in the source. Bytes are \<open>8 word\<close>s. \<^verbatim>\<open>date.getTime()\<close> is an integer or \<^verbatim>\<open>NaN\<close> (\<open>None\<close>), and
  \<^verbatim>\<open>crypto.getRandomValues\<close> is the argument \<open>entropy\<close>.
\<close>

unbundle bit_operations_syntax

subsection \<open>Kinds and canonical text\<close>

definition ENTITY_KINDS :: "string list" where
  "ENTITY_KINDS =
    [''usr'', ''ws'', ''th'', ''tu'', ''it'', ''ar'', ''mat'', ''mrev'', ''arev'', ''kr'', ''as'',
     ''auto'', ''occ'', ''range'', ''auth'', ''acct'', ''verif'', ''tok'', ''nhtok'', ''inv'', ''cap'',
     ''pd'', ''use'', ''aud'', ''dep'', ''kb'', ''ks'', ''ko'', ''kc'', ''kf'', ''krt'', ''attempt'',
     ''wst'', ''vault'', ''grant'', ''vu'', ''cand'', ''col'', ''fld'', ''pres'', ''wsexp'', ''wsbak'',
     ''drb'']"

definition DERIVED_NAMESPACES :: "(string \<times> string) list" where
  "DERIVED_NAMESPACES =
    [(''occ'', ''fc01b827-9017-53dc-b41b-387a2110d905''),
     (''tok'', ''e87fb49e-00c1-53f3-adbd-a5cf0de72bcc''),
     (''ws'', ''41710f31-94f8-5e51-9589-1744ce75680d''),
     (''th'', ''1ea1147f-0d1a-5ae4-ba03-7ba2cd6a0eea''),
     (''tu'', ''946f39c9-520d-5df2-985f-afaf05790c9d''),
     (''it'', ''585ca877-60b4-584f-a217-02b4aea5c651''),
     (''ar'', ''fbb6ef57-8026-536c-aa29-0892c321c113''),
     (''mat'', ''68a8d824-718c-5c44-831a-3292e9846783''),
     (''mrev'', ''c027bad1-40fa-5b1e-a480-421753232801''),
     (''arev'', ''59bffd58-b464-5c91-917f-a066bc9ce605''),
     (''kr'', ''5e78300b-9458-5519-b104-d47e32923804''),
     (''cap'', ''b447467a-3e9c-5e36-b988-7b4961a0d817''),
     (''aud'', ''c3d8713d-557b-5bf8-aa9c-a28bf50775d4''),
     (''pd'', ''bcf1702a-4e6a-59c6-86ac-75352a8fc41d''),
     (''krt'', ''32a06e66-912c-53a4-b9d2-85b0a9edfe0b''),
     (''wsexp'', ''d8e266d0-77a0-5e91-b599-de82740626ff'')]"

definition hexDigits :: string where
  "hexDigits = ''0123456789abcdef''"

definition hexClass :: "char \<Rightarrow> bool" where
  "hexClass c = (c \<in> set hexDigits)"

definition oneOf :: "string \<Rightarrow> char \<Rightarrow> bool" where
  "oneOf cs c = (c \<in> set cs)"

text \<open>Anchored matching of a string against one character class per position.\<close>

definition matches :: "(char \<Rightarrow> bool) list \<Rightarrow> string \<Rightarrow> bool" where
  "matches ps s = list_all2 (\<lambda>p c. p c) ps s"

definition entityIdPattern :: "string \<Rightarrow> (char \<Rightarrow> bool) list result" where
  "entityIdPattern kind =
    (if kind \<notin> set ENTITY_KINDS then Inl ''Unknown entity kind''
     else
       let version = (if kind \<in> fst ` set DERIVED_NAMESPACES then ''57'' else ''7'');
           hex = (\<lambda>n. replicate n hexClass);
           dash = [oneOf ''-'']
       in Inr (map (\<lambda>c. oneOf [c]) kind @ [oneOf ''_''] @ hex 8 @ dash @ hex 4 @ dash
            @ [oneOf version] @ hex 3 @ dash @ [oneOf ''89ab''] @ hex 3 @ dash @ hex 12))"

definition isEntityId :: "string \<Rightarrow> string \<Rightarrow> bool" where
  "isEntityId kind s = (case entityIdPattern kind of Inl _ \<Rightarrow> False | Inr ps \<Rightarrow> matches ps s)"

subsection \<open>Allocation\<close>

definition hexByte :: "8 word \<Rightarrow> string" where
  "hexByte b = [hexDigits ! (unat b div 16), hexDigits ! (unat b mod 16)]"

definition formatUuid :: "8 word list \<Rightarrow> string" where
  "formatUuid bytes =
    (let hex = concat (map hexByte bytes)
     in take 8 hex @ ''-'' @ take 4 (drop 8 hex) @ ''-'' @ take 4 (drop 12 hex) @ ''-''
        @ take 4 (drop 16 hex) @ ''-'' @ drop 20 hex)"

text \<open>The loop \<^verbatim>\<open>for (let index = 5; index >= 0; index -= 1)\<close>: \<open>n\<close> is \<^verbatim>\<open>index + 1\<close>.\<close>

fun stampBytes :: "nat \<Rightarrow> int \<Rightarrow> 8 word list \<Rightarrow> 8 word list" where
  "stampBytes 0 timestamp bytes = bytes"
| "stampBytes (Suc i) timestamp bytes =
    stampBytes i (drop_bit 8 timestamp) (bytes[i := word_of_int (timestamp AND 0xff)])"

definition MAX_SAFE_INTEGER :: int where
  "MAX_SAFE_INTEGER = 9007199254740991"

definition isSafeInteger :: "int \<Rightarrow> bool" where
  "isSafeInteger n = (\<bar>n\<bar> \<le> MAX_SAFE_INTEGER)"

definition allocateEntityId :: "8 word list \<Rightarrow> string \<Rightarrow> int option \<Rightarrow> string result" where
  "allocateEntityId entropy kind date =
    bindE (ensure (kind \<in> set ENTITY_KINDS) ''Unknown entity kind'') (\<lambda>_.
    case date of
      None \<Rightarrow> Inl ''UUIDv7 timestamp must be an unsigned 48-bit integer''
    | Some milliseconds \<Rightarrow>
        bindE (ensure (isSafeInteger milliseconds \<and> 0 \<le> milliseconds \<and> milliseconds \<le> 0xffffffffffff)
          ''UUIDv7 timestamp must be an unsigned 48-bit integer'') (\<lambda>_.
        let bytes = stampBytes 6 milliseconds entropy;
            bytes = bytes[6 := (bytes ! 6 AND 0x0f) OR 0x70];
            bytes = bytes[8 := (bytes ! 8 AND 0x3f) OR 0x80]
        in Inr (kind @ ''_'' @ formatUuid bytes)))"

subsection \<open>Reading an identifier back\<close>

text \<open>The value of a hexadecimal digit and of a big-endian string of digits, and the millisecond
  timestamp that RFC 9562 places in the first 48 bits of a UUIDv7.\<close>

fun indexOf :: "'a \<Rightarrow> 'a list \<Rightarrow> nat" where
  "indexOf x [] = 0"
| "indexOf x (y # ys) = (if x = y then 0 else Suc (indexOf x ys))"

definition hexNumber :: "string \<Rightarrow> int" where
  "hexNumber s = foldl (\<lambda>n c. 16 * n + int (indexOf c hexDigits)) 0 s"

definition uuidTimestamp :: "string \<Rightarrow> string \<Rightarrow> int" where
  "uuidTimestamp kind s =
    (let uuid = drop (length kind + 1) s in hexNumber (take 8 uuid @ take 4 (drop 9 uuid)))"

lemma indexOf_nth: "distinct xs \<Longrightarrow> i < length xs \<Longrightarrow> indexOf (xs ! i) xs = i"
  by (induction xs arbitrary: i) (auto simp: nth_Cons split: nat.splits)

lemma indexOf_hexDigit [simp]: "n < 16 \<Longrightarrow> indexOf (hexDigits ! n) hexDigits = n"
  by (rule indexOf_nth) (simp_all add: hexDigits_def)

lemma hexClass_hexDigit [simp]: "n < 16 \<Longrightarrow> hexClass (hexDigits ! n)"
  unfolding hexClass_def by (rule nth_mem) (simp add: hexDigits_def)

lemma unat_byte_less: "unat (b :: 8 word) < 256"
proof -
  have "unat b < 2 ^ LENGTH(8)" by (rule unsigned_less)
  then show ?thesis by simp
qed

lemma unat_byte_div [simp]: "unat (b :: 8 word) div 16 < 16"
  using unat_byte_less [of b] by simp

lemma unat_div_16: "unat (b :: 8 word) div 16 = unat (drop_bit 4 b)"
  by (simp add: drop_bit_eq_div unat_div)

lemma version_nibble: "unat ((b AND 0x0f) OR 0x70 :: 8 word) div 16 = 7"
proof -
  have "drop_bit 4 ((b AND 0x0f) OR 0x70) = (7 :: 8 word)"
    by (simp add: drop_bit_and drop_bit_or)
  then show ?thesis by (simp add: unat_div_16)
qed

lemma variant_nibble: "unat ((b AND 0x3f) OR 0x80 :: 8 word) div 16 \<in> {8, 9, 10, 11}"
proof -
  define x where "x = drop_bit 4 b AND 3"
  have drop: "drop_bit 4 ((b AND 0x3f) OR 0x80) = x OR 8"
    by (simp add: x_def drop_bit_and drop_bit_or)
  have "unat x \<le> unat (3 :: 8 word)" 
    unfolding x_def by (rule word_le_nat_alt [THEN iffD1]) (rule word_and_le1)
  then have "unat x \<in> {0, 1, 2, 3}" by auto
  then have "x \<in> {0, 1, 2, 3}" by (auto simp: word_unat_eq_iff)
  then show ?thesis unfolding unat_div_16 drop by auto
qed

lemma length_stampBytes [simp]: "length (stampBytes n ts bytes) = length bytes"
  by (induction n ts bytes rule: stampBytes.induct) simp_all

lemma stampBytes_nth: "n \<le> i \<Longrightarrow> stampBytes n ts bytes ! i = bytes ! i"
  by (induction n ts bytes rule: stampBytes.induct) simp_all

definition bytesNumber :: "8 word list \<Rightarrow> int" where
  "bytesNumber bs = foldl (\<lambda>n b. 256 * n + uint b) 0 bs"

lemma uint_low_byte: "uint (word_of_int (ts AND 0xff) :: 8 word) = ts mod 256"
proof -
  have "ts AND 0xff = take_bit 8 ts" by (simp add: take_bit_eq_mask mask_numeral)
  then show ?thesis by (simp add: unsigned_of_int take_bit_eq_mod)
qed

lemma bytesNumber_stampBytes:
  "n \<le> length bytes \<Longrightarrow> bytesNumber (take n (stampBytes n ts bytes)) = ts mod 256 ^ n"
proof (induction n ts bytes rule: stampBytes.induct)
  case (1 ts bytes)
  then show ?case by (simp add: bytesNumber_def)
next
  case (2 i ts bytes)
  let ?b = "bytes[i := word_of_int (ts AND 0xff)]"
  have "bytesNumber (take (Suc i) (stampBytes (Suc i) ts bytes))
      = 256 * (ts div 256 mod 256 ^ i) + ts mod 256"
    using 2 by (simp add: take_Suc_conv_app_nth stampBytes_nth bytesNumber_def uint_low_byte drop_bit_eq_div)
  then show ?case by (simp add: zmod_zmult2_eq)
qed

lemma hexNumber_hexBytes: "hexNumber (concat (map hexByte bs)) = bytesNumber bs"
proof -
  have "foldl (\<lambda>n c. 16 * n + int (indexOf c hexDigits)) a (concat (map hexByte bs))
      = foldl (\<lambda>n b. 256 * n + uint b) a bs" for a
  proof (induction bs arbitrary: a)
    case (Cons b bs)
    have byte: "256 * a + 16 * int (unat b div 16) + int (unat b mod 16) = 256 * a + uint b"
      by (simp add: zdiv_int zmod_int)
    show ?case using Cons by (simp add: hexByte_def byte)
  qed simp
  then show ?thesis by (simp add: hexNumber_def bytesNumber_def)
qed

lemma list_16:
  assumes "length xs = 16"
  obtains a b c d e f g h i j k l m n p q where "xs = [a, b, c, d, e, f, g, h, i, j, k, l, m, n, p, q]"
  using assms by (auto simp: numeral_eq_Suc length_Suc_conv)

lemma matches_append [simp]: "length ps = length s \<Longrightarrow> matches (ps @ qs) (s @ t) \<longleftrightarrow> matches ps s \<and> matches qs t"
  by (simp add: matches_def list_all2_append)

lemma matches_kind [simp]: "matches (map (\<lambda>c. oneOf [c]) kind) kind"
  by (simp add: matches_def oneOf_def list_all2_conv_all_nth)

lemma replicate_eval: "replicate (numeral k) x = x # replicate (pred_numeral k) x"
  by (simp add: numeral_eq_Suc)

lemma formatUuid_matches:
  assumes "length bytes = 16" "hexDigits ! (unat (bytes ! 6) div 16) \<in> set version" "unat (bytes ! 8) div 16 \<in> {8, 9, 10, 11}"
  shows "matches (replicate 8 hexClass @ [oneOf ''-''] @ replicate 4 hexClass @ [oneOf ''-'']
           @ [oneOf version] @ replicate 3 hexClass @ [oneOf ''-''] @ [oneOf ''89ab''] @ replicate 3 hexClass
           @ [oneOf ''-''] @ replicate 12 hexClass) (formatUuid bytes)"
proof -
  obtain a b c d e f g h i j k l m n p q where xs: "bytes = [a, b, c, d, e, f, g, h, i, j, k, l, m, n, p, q]"
    using list_16 [OF assms(1)] by blast
  have "oneOf ''89ab'' (hexDigits ! (unat i div 16))"
    using assms(3) by (auto simp: xs hexDigits_def oneOf_def)
  then show ?thesis
    using assms(2)
    by (simp add: formatUuid_def xs hexByte_def matches_def replicate_eval oneOf_def)
qed

lemma formatUuid_canonical:
  assumes "length bytes = 16" "unat (bytes ! 8) div 16 \<in> {8, 9, 10, 11}" "kind \<in> set ENTITY_KINDS"
    and "hexDigits ! (unat (bytes ! 6) div 16) \<in> set (if kind \<in> fst ` set DERIVED_NAMESPACES then ''57'' else ''7'')"
  shows "isEntityId kind (kind @ ''_'' @ formatUuid bytes)"
proof -
  have "matches (oneOf ''_'' # ps) (CHR ''_'' # s) = matches ps s" for ps s by (simp add: matches_def oneOf_def)
  then show ?thesis using formatUuid_matches [OF assms(1,4,2)] assms(3) by (simp add: isEntityId_def entityIdPattern_def Let_def)
qed

lemma uuidTimestamp_formatUuid:
  assumes "length bytes = 16"
  shows "uuidTimestamp kind (kind @ ''_'' @ formatUuid bytes) = bytesNumber (take 6 bytes)"
proof -
  obtain a b c d e f g h i j k l m n p q where xs: "bytes = [a, b, c, d, e, f, g, h, i, j, k, l, m, n, p, q]"
    using list_16 [OF assms] by blast
  have "uuidTimestamp kind (kind @ ''_'' @ formatUuid bytes) = hexNumber (concat (map hexByte (take 6 bytes)))"
    by (simp add: uuidTimestamp_def formatUuid_def xs hexByte_def)
  then show ?thesis by (simp add: hexNumber_hexBytes)
qed

text \<open>C32: \<^verbatim>\<open>allocateEntityId\<close> with 16 bytes of entropy succeeds exactly for a known entity kind and a
  timestamp that fits 48 bits; the identifier it returns is canonical text of that kind, whatever
  the entropy, and the first 48 bits of its UUID read back as the given milliseconds. Every other
  input is refused.\<close>

theorem entity_allocate_canonical:
  assumes "length entropy = 16"
  shows "if kind \<in> set ENTITY_KINDS \<and> 0 \<le> ms \<and> ms < 2 ^ 48
    then \<exists>s. allocateEntityId entropy kind (Some ms) = Inr s \<and> isEntityId kind s \<and> uuidTimestamp kind s = ms
    else \<exists>e. allocateEntityId entropy kind (Some ms) = Inl e"
proof (cases "kind \<in> set ENTITY_KINDS \<and> 0 \<le> ms \<and> ms < 2 ^ 48")
  case True
  define stamped where "stamped = stampBytes 6 ms entropy"
  define bytes where "bytes = (stamped[6 := (stamped ! 6 AND 0x0f) OR 0x70])
    [8 := (stamped ! 8 AND 0x3f) OR 0x80]"
  let ?id = "kind @ ''_'' @ formatUuid bytes"
  have len: "length bytes = 16" by (simp add: bytes_def stamped_def assms)
  have "allocateEntityId entropy kind (Some ms) = Inr ?id"
    using True by (simp add: allocateEntityId_def isSafeInteger_def MAX_SAFE_INTEGER_def
        bytes_def stamped_def Let_def)
  moreover have "isEntityId kind ?id"
  proof (rule formatUuid_canonical [OF len])
    have "unat (bytes ! 6) div 16 = 7" using assms version_nibble by (simp add: bytes_def stamped_def)
    then show "hexDigits ! (unat (bytes ! 6) div 16) \<in> set (if kind \<in> fst ` set DERIVED_NAMESPACES then ''57'' else ''7'')"
      by (simp add: hexDigits_def)
    show "unat (bytes ! 8) div 16 \<in> {8, 9, 10, 11}" using assms variant_nibble by (simp add: bytes_def stamped_def)
  qed (use True in blast)
  moreover have "uuidTimestamp kind ?id = ms"
  proof -
    have "take 6 bytes = take 6 stamped" by (simp add: bytes_def)
    then show ?thesis
      using True assms bytesNumber_stampBytes [of 6 entropy ms]
        uuidTimestamp_formatUuid [OF len, of kind]
      by (simp add: stamped_def)
  qed
  ultimately show ?thesis using True by auto
next
  case False
  then show ?thesis
    by (cases "kind \<in> set ENTITY_KINDS")
      (auto simp: allocateEntityId_def isSafeInteger_def MAX_SAFE_INTEGER_def result_simps)
qed

theorem entity_allocate_canonical_witness:
  "\<exists>s. allocateEntityId (replicate 16 (0xff :: 8 word)) ''ws'' (Some 1700000000000) = Inr s
     \<and> isEntityId ''ws'' s \<and> uuidTimestamp ''ws'' s = 1700000000000"
  using entity_allocate_canonical [of "replicate 16 0xff" "''ws''" 1700000000000]
  by (simp add: ENTITY_KINDS_def)

end
