(* ===== verification/Schema.thy ===== *)
theory Schema
  imports Entity_Id
begin

text \<open>
  Schemas. A zod schema is the boolean test of the values it accepts: the transforms of the sources
  only drop members that are \<^verbatim>\<open>undefined\<close>, which an absent \<open>option\<close> already is, so a parse is
  \<open>parseWith\<close> of the test and returns its argument or the error \<open>ZodError\<close>. \<open>textSchema\<close> is
  \<^verbatim>\<open>z.string().min(1)\<close>, \<open>countSchema\<close> is \<^verbatim>\<open>z.number().int().nonnegative()\<close> on safe integers, and
  \<open>nullable\<close> is \<^verbatim>\<open>nullable()\<close> or \<^verbatim>\<open>optional()\<close> of a schema.
\<close>

definition ZodError :: string where
  "ZodError = ''ZodError''"

definition parseWith :: "('a \<Rightarrow> bool) \<Rightarrow> 'a \<Rightarrow> 'a result" where
  "parseWith ok v = (if ok v then Inr v else Inl ZodError)"

lemma parseWith_Inr_iff [result_simps]: "parseWith ok v = Inr w \<longleftrightarrow> ok v \<and> w = v"
  by (auto simp: parseWith_def)

lemma parseWith_ok [simp]: "ok v \<Longrightarrow> parseWith ok v = Inr v"
  by (simp add: parseWith_def)

definition nullable :: "('a \<Rightarrow> bool) \<Rightarrow> 'a option \<Rightarrow> bool" where
  "nullable ok v = (case v of None \<Rightarrow> True | Some x \<Rightarrow> ok x)"

lemma nullable_simps [simp]: "nullable ok None" "nullable ok (Some x) = ok x"
  by (simp_all add: nullable_def)

definition textSchema :: "string \<Rightarrow> bool" where
  "textSchema s = (s \<noteq> [])"

definition countSchema :: "int \<Rightarrow> bool" where
  "countSchema n = (0 \<le> n \<and> n \<le> MAX_SAFE_INTEGER)"

definition textsSchema :: "string list \<Rightarrow> bool" where
  "textsSchema = list_all textSchema"

text \<open>The exact form \<^verbatim>\<open>sha256:\<close> followed by 64 hexadecimal digits.\<close>

definition digestSchema :: "string \<Rightarrow> bool" where
  "digestSchema s = matches (map (\<lambda>c. oneOf [c]) ''sha256:'' @ replicate 64 hexClass) s"

end
