(* ===== verification/Protocol_Actors.thy ===== *)
theory Protocol_Actors
  imports Schema
begin

text \<open>
  Owners and actors of the protocol (\<^verbatim>\<open>packages/protocol/src/models/work-owner.ts\<close> and \<^verbatim>\<open>actor.ts\<close>).
\<close>

datatype WorkOwner = WorkspaceOwner string | ServerOwner

definition WorkOwnerSchema :: "WorkOwner \<Rightarrow> bool" where
  "WorkOwnerSchema owner =
    (case owner of WorkspaceOwner ws \<Rightarrow> isEntityId ''ws'' ws | ServerOwner \<Rightarrow> True)"

fun workspaceIdForOwner :: "WorkOwner option \<Rightarrow> string option result" where
  "workspaceIdForOwner None = Inr None"
| "workspaceIdForOwner (Some ServerOwner) = Inl ''Workspace-owned work is required.''"
| "workspaceIdForOwner (Some (WorkspaceOwner ws)) = Inr (Some ws)"

datatype ResponsibleActorKind = AgentActor | IntegrationActor | SystemActor

datatype ActorRef =
    UserActor string
  | ResponsibleActor ResponsibleActorKind string "string option"
  | AutomationActor string "string option"

fun ActorRefSchema :: "ActorRef \<Rightarrow> bool" where
  "ActorRefSchema (UserActor u) = isEntityId ''usr'' u"
| "ActorRefSchema (ResponsibleActor k a r) = (textSchema a \<and> nullable (isEntityId ''usr'') r)"
| "ActorRefSchema (AutomationActor a r) = (isEntityId ''auto'' a \<and> nullable (isEntityId ''usr'') r)"

fun responsibleUserIdForActor :: "ActorRef \<Rightarrow> string option" where
  "responsibleUserIdForActor (UserActor u) = Some u"
| "responsibleUserIdForActor (ResponsibleActor k a r) = r"
| "responsibleUserIdForActor (AutomationActor a r) = r"

end
