(* ===== verification/Journal_Types.thy ===== *)
theory Journal_Types
  imports Complex_Main Protocol_Actors
begin

text \<open>
  Data model of the execution journal: the interfaces of
  \<^verbatim>\<open>apps/nanocore/src/runtime/execution-step-journal.ts\<close> and the schemas at the top of
  \<^verbatim>\<open>execution-journal.ts\<close>.

  An interface is a record, a union is a datatype and an optional or nullable member an \<open>option\<close>.
  A schema is the boolean test of the value it accepts: the transforms of the source only drop
  members that are \<^verbatim>\<open>undefined\<close>, which an absent \<open>option\<close> already is, so a parse is \<open>parseWith\<close>
  of the test, and it returns its argument or the error \<open>ZodError\<close>. JavaScript numbers that the
  schemas restrict to integers, and bigints, are \<open>int\<close>; the doubles of an attribute keep the
  values that JSON spells specially apart.
\<close>

subsection \<open>Scalars\<close>

definition nanoSchema :: "int \<Rightarrow> bool" where
  "nanoSchema n = (0 \<le> n \<and> n \<le> 18446744073709551615)"

definition int64Schema :: "int \<Rightarrow> bool" where
  "int64Schema n = (-9223372036854775808 \<le> n \<and> n \<le> 9223372036854775807)"

definition hexIdSchema :: "nat \<Rightarrow> string \<Rightarrow> bool" where
  "hexIdSchema n s = (matches (replicate n hexClass) s \<and> (\<exists>c\<in>set s. oneOf ''123456789abcdef'' c))"

definition traceIdSchema :: "string \<Rightarrow> bool" where
  "traceIdSchema = hexIdSchema 32"

definition spanIdSchema :: "string \<Rightarrow> bool" where
  "spanIdSchema = hexIdSchema 16"

subsection \<open>Attribute values\<close>

datatype js_double = DNaN | DInfinity | DNegInfinity | DNegZero | DFinite rat

datatype AnyValue =
    EmptyValue
  | StringValue string
  | BooleanValue bool
  | IntValue int
  | DoubleValue js_double
  | BytesValue "int list"
  | ArrayValue "AnyValue list"
  | KvlistValue "(string \<times> AnyValue) list"

fun anyValueSchema :: "AnyValue \<Rightarrow> bool" where
  "anyValueSchema EmptyValue = True"
| "anyValueSchema (StringValue s) = True"
| "anyValueSchema (BooleanValue b) = True"
| "anyValueSchema (IntValue n) = int64Schema n"
| "anyValueSchema (DoubleValue d) = True"
| "anyValueSchema (BytesValue bs) = (\<forall>b\<in>set bs. 0 \<le> b \<and> b \<le> 255)"
| "anyValueSchema (ArrayValue vs) = (\<forall>v\<in>set vs. anyValueSchema v)"
| "anyValueSchema (KvlistValue kvs) = (\<forall>kv\<in>set kvs. anyValueSchema (snd kv))"

type_synonym Attribute = "string \<times> AnyValue"

definition attributesSchema :: "Attribute list \<Rightarrow> bool" where
  "attributesSchema as = (\<forall>a\<in>set as. anyValueSchema (snd a))"

subsection \<open>Spans\<close>

record JournalEvent =
  ev_timeUnixNano :: int
  ev_name :: string
  ev_attributes :: "Attribute list"
  ev_droppedAttributesCount :: int

record JournalLink =
  ln_traceId :: string
  ln_spanId :: string
  ln_traceState :: "string option"
  ln_flags :: int
  ln_attributes :: "Attribute list"
  ln_droppedAttributesCount :: int

record InstrumentationScope =
  sc_name :: string
  sc_version :: "string option"
  sc_attributes :: "Attribute list"
  sc_droppedAttributesCount :: int
  sc_schemaUrl :: "string option"

record JournalResource =
  rs_attributes :: "Attribute list"
  rs_droppedAttributesCount :: int
  rs_schemaUrl :: "string option"

datatype SpanKind = KUnspecified | KInternal | KServer | KClient | KProducer | KConsumer

datatype StatusCode = UNSET | OK | ERROR

record SpanStatus =
  su_code :: StatusCode
  su_description :: "string option"

record JournalSpan =
  sp_traceId :: string
  sp_spanId :: string
  sp_parentSpanId :: "string option"
  sp_traceState :: "string option"
  sp_flags :: int
  sp_name :: string
  sp_kind :: SpanKind
  sp_startTimeUnixNano :: int
  sp_endTimeUnixNano :: "int option"
  sp_status :: SpanStatus
  sp_attributes :: "Attribute list"
  sp_droppedAttributesCount :: int
  sp_events :: "JournalEvent list"
  sp_droppedEventsCount :: int
  sp_links :: "JournalLink list"
  sp_droppedLinksCount :: int
  sp_instrumentationScope :: InstrumentationScope
  sp_resource :: JournalResource

definition flagsSchema :: "int \<Rightarrow> bool" where
  "flagsSchema n = (countSchema n \<and> n \<le> 0xffffffff)"

definition eventSchema :: "JournalEvent \<Rightarrow> bool" where
  "eventSchema e =
    (nanoSchema (ev_timeUnixNano e) \<and> textSchema (ev_name e) \<and> attributesSchema (ev_attributes e)
     \<and> countSchema (ev_droppedAttributesCount e))"

definition linkSchema :: "JournalLink \<Rightarrow> bool" where
  "linkSchema l =
    (traceIdSchema (ln_traceId l) \<and> spanIdSchema (ln_spanId l) \<and> flagsSchema (ln_flags l)
     \<and> attributesSchema (ln_attributes l) \<and> countSchema (ln_droppedAttributesCount l))"

definition spanSchema :: "JournalSpan \<Rightarrow> bool" where
  "spanSchema s =
    (traceIdSchema (sp_traceId s) \<and> spanIdSchema (sp_spanId s)
     \<and> nullable spanIdSchema (sp_parentSpanId s)
     \<and> flagsSchema (sp_flags s) \<and> textSchema (sp_name s)
     \<and> nanoSchema (sp_startTimeUnixNano s) \<and> nullable nanoSchema (sp_endTimeUnixNano s)
     \<and> attributesSchema (sp_attributes s) \<and> countSchema (sp_droppedAttributesCount s)
     \<and> list_all eventSchema (sp_events s) \<and> countSchema (sp_droppedEventsCount s)
     \<and> list_all linkSchema (sp_links s) \<and> countSchema (sp_droppedLinksCount s)
     \<and> attributesSchema (sc_attributes (sp_instrumentationScope s))
     \<and> countSchema (sc_droppedAttributesCount (sp_instrumentationScope s))
     \<and> textSchema (sc_name (sp_instrumentationScope s))
     \<and> attributesSchema (rs_attributes (sp_resource s))
     \<and> countSchema (rs_droppedAttributesCount (sp_resource s))
     \<and> (case sp_endTimeUnixNano s of None \<Rightarrow> True | Some e \<Rightarrow> sp_startTimeUnixNano s \<le> e))"

subsection \<open>References, control facts and invocations\<close>

record ExecutionJournalRef =
  er_owner :: WorkOwner
  er_executionId :: string

record ExecutionStepRef =
  sr_execution :: ExecutionJournalRef
  sr_stepId :: string

definition refSchema :: "ExecutionJournalRef \<Rightarrow> bool" where
  "refSchema r = (WorkOwnerSchema (er_owner r) \<and> textSchema (er_executionId r))"

definition stepRefSchema :: "ExecutionStepRef \<Rightarrow> bool" where
  "stepRefSchema r = (refSchema (sr_execution r) \<and> textSchema (sr_stepId r))"

definition CORE_IMAGE_ACQUIRE_EXECUTION_DEFINITION :: string where
  "CORE_IMAGE_ACQUIRE_EXECUTION_DEFINITION = ''core-image-acquire/v1''"

definition CORE_IDLE_CLEANUP_EXECUTION_DEFINITION :: string where
  "CORE_IDLE_CLEANUP_EXECUTION_DEFINITION = ''core-idle-cleanup/v1''"

definition WORKSPACE_WORKER_TURN_EXECUTION_DEFINITION :: string where
  "WORKSPACE_WORKER_TURN_EXECUTION_DEFINITION = ''workspace-worker-turn/v1''"

definition definitionSchema :: "string \<Rightarrow> bool" where
  "definitionSchema d =
    (d \<in> {CORE_IMAGE_ACQUIRE_EXECUTION_DEFINITION, CORE_IDLE_CLEANUP_EXECUTION_DEFINITION,
          WORKSPACE_WORKER_TURN_EXECUTION_DEFINITION})"

datatype StepKind =
    Admit | QueueCapacityWait | Reserve | ResolveSetup | ValidateSetup | Materialize | OpenSession
  | InspectSession | DeliverStart | Observe | Collect | TerminalPublication | Cancel | HumanWait
  | ConsumeReceipt | InspectCleanup | Fence | Release

datatype StepState = Intent | Completed | Failed | Unknown | Cancelled

datatype Phase = Open | Closing | Closed

record StepTarget =
  tg_backendKind :: string
  tg_targetId :: string
  tg_allocationRef :: "string option"

record StepControl =
  ct_definitionVersion :: string
  ct_kind :: StepKind
  ct_target :: "StepTarget option"
  ct_workId :: string
  ct_operationId :: "string option"
  ct_attemptId :: "string option"
  ct_invocationId :: string
  ct_actor :: ActorRef
  ct_inputRefs :: "string list"
  ct_outputRefs :: "string list"
  ct_fingerprint :: string
  ct_permittingDecisionRef :: "string option"
  ct_authorityRefs :: "string list"
  ct_retryDeclarationRef :: "string option"
  ct_retryPermitted :: bool
  ct_deadlineUnixNano :: "int option"
  ct_physicalFenceRefs :: "string list"

definition targetSchema :: "StepTarget \<Rightarrow> bool" where
  "targetSchema t =
    (textSchema (tg_backendKind t) \<and> textSchema (tg_targetId t) \<and> nullable textSchema (tg_allocationRef t))"

definition controlSchema :: "StepControl \<Rightarrow> bool" where
  "controlSchema c =
    (definitionSchema (ct_definitionVersion c) \<and> nullable targetSchema (ct_target c)
     \<and> textSchema (ct_workId c) \<and> nullable textSchema (ct_operationId c)
     \<and> nullable textSchema (ct_attemptId c) \<and> textSchema (ct_invocationId c)
     \<and> ActorRefSchema (ct_actor c) \<and> textsSchema (ct_inputRefs c) \<and> textsSchema (ct_outputRefs c)
     \<and> textSchema (ct_fingerprint c) \<and> nullable textSchema (ct_permittingDecisionRef c)
     \<and> textsSchema (ct_authorityRefs c) \<and> nullable textSchema (ct_retryDeclarationRef c)
     \<and> nullable nanoSchema (ct_deadlineUnixNano c) \<and> textsSchema (ct_physicalFenceRefs c))"

record InvocationParent =
  ip_ref :: ExecutionStepRef
  ip_deadlineUnixNano :: "int option"

record InvocationCarriage =
  ca_operation :: string
  ca_requestId :: string
  ca_sequence :: "int option"
  ca_bindingRef :: "string option"

record InvocationClock =
  ck_processWitness :: string
  ck_admittedUnixNano :: int
  ck_admittedMonotonicNano :: int

record StoredInvocation =
  in_parent :: "InvocationParent option"
  in_carriage :: InvocationCarriage
  in_clock :: InvocationClock

definition parentSchema :: "InvocationParent \<Rightarrow> bool" where
  "parentSchema p = (stepRefSchema (ip_ref p) \<and> nullable nanoSchema (ip_deadlineUnixNano p))"

definition carriageSchema :: "InvocationCarriage \<Rightarrow> bool" where
  "carriageSchema c =
    (textSchema (ca_operation c) \<and> textSchema (ca_requestId c) \<and> nullable countSchema (ca_sequence c)
     \<and> nullable textSchema (ca_bindingRef c))"

definition clockSchema :: "InvocationClock \<Rightarrow> bool" where
  "clockSchema c =
    (textSchema (ck_processWitness c) \<and> nanoSchema (ck_admittedUnixNano c)
     \<and> nanoSchema (ck_admittedMonotonicNano c))"

definition invocationSchema :: "StoredInvocation \<Rightarrow> bool" where
  "invocationSchema i =
    (nullable parentSchema (in_parent i) \<and> carriageSchema (in_carriage i) \<and> clockSchema (in_clock i))"

subsection \<open>Views and commands\<close>

record ExecutionInvocation =
  ei_ref :: ExecutionStepRef
  ei_state :: StepState
  ei_control :: StepControl
  ei_invocation :: StoredInvocation
  ei_remainingMs :: int

record JournalExecution =
  je_ref :: ExecutionJournalRef
  je_definitionVersion :: string
  je_workId :: string
  je_fingerprint :: string
  je_phase :: Phase
  je_revision :: int
  je_terminalCause :: "string option"
  je_exclusionRefs :: "string list"
  je_span :: JournalSpan
  je_openSteps :: "ExecutionStepRef list"

record JournalAdmission =
  ad_ref :: ExecutionJournalRef
  ad_definitionVersion :: string
  ad_workId :: string
  ad_fingerprint :: string
  ad_exclusionRefs :: "string list"
  ad_span :: JournalSpan

record JournalIntent =
  ji_execution :: JournalAdmission
  ji_stepId :: string
  ji_parentStepId :: "string option"
  ji_control :: StepControl
  ji_parent :: "InvocationParent option"
  ji_carriage :: InvocationCarriage
  ji_inspectedStep :: "ExecutionStepRef option"
  ji_span :: JournalSpan

record JournalSettlement =
  js_ref :: ExecutionStepRef
  js_expectedExecutionRevision :: int
  js_state :: StepState
  js_outputRefs :: "string list"
  js_span :: JournalSpan
  js_nextPhase :: Phase
  js_terminalCause :: "string option"
  js_exclusionRefs :: "string list"

record EndedExecutionStep =
  ee_ref :: ExecutionStepRef
  ee_state :: StepState
  ee_control :: StepControl
  ee_rootSpanId :: string
  ee_span :: JournalSpan

record LinkedInspection =
  li_inspectedStep :: ExecutionStepRef
  li_inspection :: EndedExecutionStep

end
