(* ===== verification/Execution_Journal.thy ===== *)
theory Execution_Journal
  imports Journal_Types "HOL-Library.Char_ord" "HOL-Library.List_Lexorder" "HOL-Library.Product_Lexorder"
begin

text \<open>
  The execution journal of NanoCore (\<^verbatim>\<open>apps/nanocore/src/runtime/execution-journal.ts\<close>): the durable
  record of what an execution intended, what became of each step, and which exclusions it still
  holds.

  The state is the part of the owning SQLite database the code reads and writes: the tables
  \<^verbatim>\<open>control_executions\<close>, \<^verbatim>\<open>control_execution_steps\<close> and \<^verbatim>\<open>control_turns\<close>, the scope of the
  connection and whether a transaction is open. A JSON column holds its decoded value, and reading
  it applies the schema again, as \<^verbatim>\<open>decode\<close> does. The constraints and triggers of
  \<^verbatim>\<open>drizzle/workspace/0012_execution_journal.sql\<close> and \<^verbatim>\<open>drizzle/core/0014_execution_journal.sql\<close> are checked
  by every insert and update and raise \<open>SqliteError\<close>. An operation returns the new database or an
  error; on an error the caller's transaction rolls back, so the database stays as it was.

  The process is a record of readings: its witness, and the successive values of \<^verbatim>\<open>Date.now()\<close> and
  \<^verbatim>\<open>process.hrtime.bigint()\<close> during one call, by position, so that time may pass within a call.
\<close>

subsection \<open>Tables\<close>

datatype DbScope = CoreScope | WorkspaceScope string

record RootRow =
  r_id :: string
  r_owner :: WorkOwner
  r_work_id :: string
  r_definition_version :: string
  r_input_fingerprint :: string
  r_phase :: Phase
  r_revision :: int
  r_terminal_cause :: "string option"
  r_exclusion_refs :: "string list"
  r_span :: JournalSpan

record StepRow =
  s_execution_id :: string
  s_step_id :: string
  s_ordinal :: int
  s_parent_step_id :: "string option"
  s_state :: StepState
  s_invocation_id :: string
  s_control :: StepControl
  s_invocation :: StoredInvocation
  s_span :: JournalSpan
  s_inspected_execution_id :: "string option"
  s_inspected_step_id :: "string option"

record TurnRecord =
  tr_owner :: "WorkOwner option"
  tr_agentSessionId :: "string option"

record JournalDb =
  db_scope :: DbScope
  db_inTransaction :: bool
  db_executions :: "RootRow list"
  db_steps :: "StepRow list"
  db_turns :: "(string \<times> TurnRecord) list"

record Process =
  pr_isMainThread :: bool
  pr_witness :: string
  pr_dateNow :: "nat \<Rightarrow> int"
  pr_hrtime :: "nat \<Rightarrow> int"

definition rootRowSchema :: "RootRow \<Rightarrow> bool" where
  "rootRowSchema r =
    (textSchema (r_id r) \<and> textSchema (r_work_id r) \<and> definitionSchema (r_definition_version r)
     \<and> textSchema (r_input_fingerprint r) \<and> countSchema (r_revision r) \<and> 1 \<le> r_revision r
     \<and> nullable textSchema (r_terminal_cause r))"

definition stepRowSchema :: "StepRow \<Rightarrow> bool" where
  "stepRowSchema s =
    (textSchema (s_execution_id s) \<and> textSchema (s_step_id s) \<and> countSchema (s_ordinal s) \<and> 1 \<le> s_ordinal s
     \<and> nullable textSchema (s_parent_step_id s) \<and> textSchema (s_invocation_id s)
     \<and> nullable textSchema (s_inspected_execution_id s) \<and> nullable textSchema (s_inspected_step_id s))"

definition workspaceStepKinds :: "StepKind list" where
  "workspaceStepKinds =
    [ResolveSetup, ValidateSetup, Materialize, OpenSession, InspectSession, DeliverStart, Collect,
     TerminalPublication, Cancel, ConsumeReceipt, InspectCleanup, Release]"

definition idleCleanupStepKinds :: "StepKind list" where
  "idleCleanupStepKinds = [InspectCleanup, Collect, Release, ConsumeReceipt]"

subsection \<open>Statements on the tables\<close>

definition SqliteError :: string where
  "SqliteError = ''SqliteError''"

definition findRoot :: "JournalDb \<Rightarrow> string \<Rightarrow> RootRow option" where
  "findRoot db e = find (\<lambda>r. r_id r = e) (db_executions db)"

definition findStep :: "JournalDb \<Rightarrow> string \<Rightarrow> string \<Rightarrow> StepRow option" where
  "findStep db e s = find (\<lambda>r. s_execution_id r = e \<and> s_step_id r = s) (db_steps db)"

definition stepsOf :: "JournalDb \<Rightarrow> string \<Rightarrow> StepRow list" where
  "stepsOf db e = filter (\<lambda>r. s_execution_id r = e) (db_steps db)"

text \<open>The \<^verbatim>\<open>CHECK\<close> constraints of the two tables.\<close>

definition sqlRootChecks :: "DbScope \<Rightarrow> RootRow \<Rightarrow> bool" where
  "sqlRootChecks scope r =
    (r_id r \<noteq> [] \<and> r_work_id r \<noteq> [] \<and> r_input_fingerprint r \<noteq> []
     \<and> (case (scope, r_owner r) of
          (CoreScope, ServerOwner) \<Rightarrow> r_definition_version r \<noteq> []
        | (WorkspaceScope _, WorkspaceOwner ws) \<Rightarrow>
            ws \<noteq> [] \<and> r_definition_version r = WORKSPACE_WORKER_TURN_EXECUTION_DEFINITION
        | _ \<Rightarrow> False)
     \<and> 1 \<le> r_revision r \<and> r_revision r \<le> MAX_SAFE_INTEGER)"

definition sqlStepChecks :: "DbScope \<Rightarrow> StepRow \<Rightarrow> bool" where
  "sqlStepChecks scope s =
    (s_step_id s \<noteq> [] \<and> 1 \<le> s_ordinal s \<and> s_ordinal s \<le> MAX_SAFE_INTEGER
     \<and> s_parent_step_id s \<noteq> Some (s_step_id s)
     \<and> s_invocation_id s \<noteq> []
     \<and> (case scope of CoreScope \<Rightarrow> True | WorkspaceScope _ \<Rightarrow> ct_kind (s_control s) \<in> set workspaceStepKinds)
     \<and> ct_invocationId (s_control s) = s_invocation_id s
     \<and> (s_inspected_execution_id s = None) = (s_inspected_step_id s = None)
     \<and> \<not> (s_inspected_execution_id s = Some (s_execution_id s) \<and> s_inspected_step_id s = Some (s_step_id s))
     \<and> (s_state s = Intent) = (sp_endTimeUnixNano (s_span s) = None)
     \<and> (s_state s = Unknown \<longrightarrow> su_code (sp_status (s_span s)) = ERROR))"

definition insertRoot :: "JournalDb \<Rightarrow> RootRow \<Rightarrow> JournalDb result" where
  "insertRoot db row =
    (if sqlRootChecks (db_scope db) row \<and> findRoot db (r_id row) = None
     then Inr (db\<lparr>db_executions := db_executions db @ [row]\<rparr>) else Inl SqliteError)"

text \<open>Primary key, unique indexes, foreign keys and the two insert triggers of the step table.\<close>

definition insertStep :: "JournalDb \<Rightarrow> StepRow \<Rightarrow> JournalDb result" where
  "insertStep db row =
    (if sqlStepChecks (db_scope db) row
        \<and> findStep db (s_execution_id row) (s_step_id row) = None
        \<and> (\<forall>s\<in>set (stepsOf db (s_execution_id row)). s_ordinal s \<noteq> s_ordinal row)
        \<and> (\<forall>s\<in>set (db_steps db). s_invocation_id s \<noteq> s_invocation_id row)
        \<and> (case s_parent_step_id row of None \<Rightarrow> True
           | Some p \<Rightarrow> (case findStep db (s_execution_id row) p of None \<Rightarrow> False
                       | Some parent \<Rightarrow> s_ordinal parent < s_ordinal row))
        \<and> (case (s_inspected_execution_id row, s_inspected_step_id row) of
             (Some e, Some s) \<Rightarrow> findStep db e s \<noteq> None
           | _ \<Rightarrow> True)
        \<and> (case findRoot db (s_execution_id row) of None \<Rightarrow> False
           | Some owner \<Rightarrow> r_work_id owner = ct_workId (s_control row)
               \<and> r_definition_version owner = ct_definitionVersion (s_control row))
     then Inr (db\<lparr>db_steps := db_steps db @ [row]\<rparr>) else Inl SqliteError)"

text \<open>Trigger \<^verbatim>\<open>control_executions_identity_immutable\<close>, and \<^verbatim>\<open>UPDATE ... WHERE id = ? AND revision = ?\<close>
  with its number of changed rows.\<close>

definition rootIdentityKept :: "RootRow \<Rightarrow> RootRow \<Rightarrow> bool" where
  "rootIdentityKept old new =
    (r_id new = r_id old \<and> r_owner new = r_owner old \<and> r_work_id new = r_work_id old
     \<and> r_definition_version new = r_definition_version old
     \<and> r_input_fingerprint new = r_input_fingerprint old
     \<and> sp_traceId (r_span new) = sp_traceId (r_span old)
     \<and> sp_spanId (r_span new) = sp_spanId (r_span old)
     \<and> sp_startTimeUnixNano (r_span new) = sp_startTimeUnixNano (r_span old)
     \<and> (r_phase old = Closed \<longrightarrow> r_phase new = Closed))"

definition updateRoot :: "JournalDb \<Rightarrow> string \<Rightarrow> int \<Rightarrow> (RootRow \<Rightarrow> RootRow) \<Rightarrow> (JournalDb \<times> nat) result" where
  "updateRoot db e revision change =
    (let hit = (\<lambda>r. r_id r = e \<and> r_revision r = revision);
         hits = filter hit (db_executions db)
     in if \<forall>r\<in>set hits. rootIdentityKept r (change r) \<and> sqlRootChecks (db_scope db) (change r)
        then Inr (db\<lparr>db_executions := map (\<lambda>r. if hit r then change r else r) (db_executions db)\<rparr>, length hits)
        else Inl SqliteError)"

text \<open>Trigger \<^verbatim>\<open>control_execution_steps_settle_once\<close>, and \<^verbatim>\<open>UPDATE ... WHERE execution_id = ? AND
  step_id = ? AND state = 'intent'\<close>.\<close>

definition settlesOnce :: "StepRow \<Rightarrow> StepRow \<Rightarrow> bool" where
  "settlesOnce old new =
    (s_state old = Intent \<and> s_state new \<noteq> Intent
     \<and> s_execution_id new = s_execution_id old \<and> s_step_id new = s_step_id old
     \<and> s_ordinal new = s_ordinal old \<and> s_parent_step_id new = s_parent_step_id old
     \<and> s_invocation_id new = s_invocation_id old
     \<and> s_inspected_execution_id new = s_inspected_execution_id old
     \<and> s_inspected_step_id new = s_inspected_step_id old
     \<and> s_invocation new = s_invocation old
     \<and> (s_control new)\<lparr>ct_outputRefs := []\<rparr> = (s_control old)\<lparr>ct_outputRefs := []\<rparr>
     \<and> sp_traceId (s_span new) = sp_traceId (s_span old)
     \<and> sp_spanId (s_span new) = sp_spanId (s_span old)
     \<and> sp_parentSpanId (s_span new) = sp_parentSpanId (s_span old)
     \<and> sp_startTimeUnixNano (s_span new) = sp_startTimeUnixNano (s_span old)
     \<and> sp_name (s_span new) = sp_name (s_span old)
     \<and> sp_kind (s_span new) = sp_kind (s_span old))"

definition updateIntentStep :: "JournalDb \<Rightarrow> string \<Rightarrow> string \<Rightarrow> (StepRow \<Rightarrow> StepRow) \<Rightarrow> (JournalDb \<times> nat) result" where
  "updateIntentStep db e s change =
    (let hit = (\<lambda>r. s_execution_id r = e \<and> s_step_id r = s \<and> s_state r = Intent);
         hits = filter hit (db_steps db)
     in if \<forall>r\<in>set hits. settlesOnce r (change r) \<and> sqlStepChecks (db_scope db) (change r)
        then Inr (db\<lparr>db_steps := map (\<lambda>r. if hit r then change r else r) (db_steps db)\<rparr>, length hits)
        else Inl SqliteError)"

subsection \<open>Guards of an operation\<close>

definition requireScope :: "JournalDb \<Rightarrow> WorkOwner \<Rightarrow> unit result" where
  "requireScope db owner =
    bindE (parseWith WorkOwnerSchema owner) (\<lambda>_.
    ensure (case db_scope db of CoreScope \<Rightarrow> owner = ServerOwner | WorkspaceScope ws \<Rightarrow> owner = WorkspaceOwner ws)
      ''Execution journal scope or owner conflicts.'')"

definition requireWriter :: "JournalDb \<Rightarrow> ExecutionJournalRef \<Rightarrow> unit result" where
  "requireWriter db ref =
    bindE (requireScope db (er_owner ref)) (\<lambda>_.
    bindE (parseWith refSchema ref) (\<lambda>_.
    ensure (db_inTransaction db) ''Execution journal requires the owning transaction.''))"

definition requireDefinition :: "JournalDb \<Rightarrow> string \<Rightarrow> unit result" where
  "requireDefinition db d =
    ensure (case db_scope db of
        CoreScope \<Rightarrow> d = CORE_IMAGE_ACQUIRE_EXECUTION_DEFINITION \<or> d = CORE_IDLE_CLEANUP_EXECUTION_DEFINITION
      | WorkspaceScope _ \<Rightarrow> d = WORKSPACE_WORKER_TURN_EXECUTION_DEFINITION)
      ''Execution definition conflicts with its physical owner.''"

text \<open>The admitted producers of a step kind, checked by both the reader and the writer.\<close>

definition requireProducer :: "JournalDb \<Rightarrow> string \<Rightarrow> StepKind \<Rightarrow> unit result" where
  "requireProducer db d kind =
    bindE (ensure (\<not> (db_scope db = CoreScope \<and> d = CORE_IDLE_CLEANUP_EXECUTION_DEFINITION
             \<and> kind \<notin> set idleCleanupStepKinds))
        ''Core idle cleanup step has no admitted producer.'') (\<lambda>_.
    ensure (db_scope db = CoreScope \<or> kind \<in> set workspaceStepKinds)
        ''Workspace execution step has no admitted producer.'')"

subsection \<open>Readers\<close>

definition readRoot :: "JournalDb \<Rightarrow> ExecutionJournalRef \<Rightarrow> JournalExecution result" where
  "readRoot db ref =
    bindE (requireScope db (er_owner ref)) (\<lambda>_.
    bindE (parseWith refSchema ref) (\<lambda>_.
    case findRoot db (er_executionId ref) of
      None \<Rightarrow> Inl ZodError
    | Some found \<Rightarrow>
        bindE (parseWith rootRowSchema found) (\<lambda>row.
        bindE (parseWith WorkOwnerSchema (r_owner row)) (\<lambda>owner.
        bindE (requireDefinition db (r_definition_version row)) (\<lambda>_.
        bindE (ensure (owner = er_owner ref) ''Execution owner conflicts.'') (\<lambda>_.
        bindE (parseWith spanSchema (r_span row)) (\<lambda>span.
        bindE (ensure ((r_phase row = Closed) = (sp_endTimeUnixNano span \<noteq> None))
            ''Execution root phase conflicts with its span.'') (\<lambda>_.
        let steps = sort_key s_ordinal (filter (\<lambda>s. s_state s = Intent) (stepsOf db (r_id row))) in
        bindE (parseWith textsSchema (r_exclusion_refs row)) (\<lambda>exclusionRefs.
        bindE (mapE (\<lambda>s. bindE (parseWith textSchema (s_step_id s))
                 (\<lambda>stepId. Inr \<lparr>sr_execution = ref, sr_stepId = stepId\<rparr>)) steps) (\<lambda>openSteps.
        Inr \<lparr>je_ref = ref, je_definitionVersion = r_definition_version row, je_workId = r_work_id row,
             je_fingerprint = r_input_fingerprint row, je_phase = r_phase row,
             je_revision = r_revision row, je_terminalCause = r_terminal_cause row,
             je_exclusionRefs = exclusionRefs, je_span = span, je_openSteps = openSteps\<rparr>))))))))))"

record StoredStep =
  ss_root :: JournalExecution
  ss_row :: StepRow

abbreviation ss_control :: "StoredStep \<Rightarrow> StepControl" where
  "ss_control s \<equiv> s_control (ss_row s)"

abbreviation ss_invocation :: "StoredStep \<Rightarrow> StoredInvocation" where
  "ss_invocation s \<equiv> s_invocation (ss_row s)"

abbreviation ss_span :: "StoredStep \<Rightarrow> JournalSpan" where
  "ss_span s \<equiv> s_span (ss_row s)"

definition storedStep :: "JournalDb \<Rightarrow> ExecutionStepRef \<Rightarrow> StoredStep result" where
  "storedStep db ref =
    bindE (parseWith stepRefSchema ref) (\<lambda>_.
    bindE (readRoot db (sr_execution ref)) (\<lambda>root.
    case findStep db (er_executionId (sr_execution ref)) (sr_stepId ref) of
      None \<Rightarrow> Inl ZodError
    | Some found \<Rightarrow>
        bindE (parseWith stepRowSchema found) (\<lambda>row.
        bindE (parseWith controlSchema (s_control row)) (\<lambda>control.
        bindE (requireProducer db (je_definitionVersion root) (ct_kind control)) (\<lambda>_.
        bindE (parseWith invocationSchema (s_invocation row)) (\<lambda>_.
        bindE (parseWith spanSchema (s_span row)) (\<lambda>span.
        bindE (ensure (ct_invocationId control = s_invocation_id row
              \<and> ct_definitionVersion control = je_definitionVersion root
              \<and> ct_workId control = je_workId root
              \<and> (s_state row = Intent) = (sp_endTimeUnixNano span = None)
              \<and> (s_state row = Unknown \<longrightarrow> su_code (sp_status span) = ERROR))
            ''Execution step conflicts with retained authority.'') (\<lambda>_.
        bindE (ensure ((s_inspected_execution_id row = None) = (s_inspected_step_id row = None))
            ''Execution inspection reference is incomplete.'') (\<lambda>_.
        Inr \<lparr>ss_root = root, ss_row = row\<rparr>)))))))))"

text \<open>The allowance of one invocation from its own clock anchor, before its parent narrows it.\<close>

definition ownRemainingMs :: "Process \<Rightarrow> nat \<Rightarrow> StoredStep \<Rightarrow> int" where
  "ownRemainingMs proc k stored =
    (let clock = in_clock (ss_invocation stored) in
     case ct_deadlineUnixNano (ss_control stored) of
       None \<Rightarrow> 0
     | Some expiry \<Rightarrow>
         if s_state (ss_row stored) = Intent \<and> ck_processWitness clock = pr_witness proc
         then
           let now = pr_dateNow proc k * 1000000;
               elapsed = pr_hrtime proc k - ck_admittedMonotonicNano clock
           in if 0 \<le> elapsed \<and> ck_admittedUnixNano clock \<le> now
              then
                let wallRemaining = expiry - now;
                    monotonicRemaining = expiry - ck_admittedUnixNano clock - elapsed;
                    remaining = (if wallRemaining < monotonicRemaining then wallRemaining else monotonicRemaining)
                in if 0 < remaining then remaining div 1000000 else 0
              else 0
         else 0)"

definition invocationView :: "ExecutionStepRef \<Rightarrow> StoredStep \<Rightarrow> int \<Rightarrow> ExecutionInvocation" where
  "invocationView ref stored remainingMs =
    \<lparr>ei_ref = ref, ei_state = s_state (ss_row stored), ei_control = ss_control stored,
     ei_invocation = ss_invocation stored, ei_remainingMs = remainingMs\<rparr>"

text \<open>A deadline under a parent's cap: present whenever the parent has one, and not later.\<close>

definition exceedsCap :: "int option \<Rightarrow> int option \<Rightarrow> bool" where
  "exceedsCap deadline cap =
    (case cap of None \<Rightarrow> False
     | Some c \<Rightarrow> (case deadline of None \<Rightarrow> True | Some d \<Rightarrow> c < d))"

text \<open>Basic facts of the readers, needed to see that the walk over the parents ends.\<close>

definition scopeOwner :: "JournalDb \<Rightarrow> WorkOwner" where
  "scopeOwner db = (case db_scope db of CoreScope \<Rightarrow> ServerOwner | WorkspaceScope ws \<Rightarrow> WorkspaceOwner ws)"

definition rowRef :: "JournalDb \<Rightarrow> StepRow \<Rightarrow> ExecutionStepRef" where
  "rowRef db s =
    \<lparr>sr_execution = \<lparr>er_owner = scopeOwner db, er_executionId = s_execution_id s\<rparr>, sr_stepId = s_step_id s\<rparr>"

lemma requireScope_Inr_iff [result_simps]:
  "requireScope db owner = Inr u \<longleftrightarrow> WorkOwnerSchema (scopeOwner db) \<and> owner = scopeOwner db"
  by (auto simp: requireScope_def scopeOwner_def result_simps split: DbScope.splits)

lemma findStep_SomeD:
  "findStep db e s = Some row \<Longrightarrow> row \<in> set (db_steps db) \<and> s_execution_id row = e \<and> s_step_id row = s"
  by (auto simp: findStep_def find_Some_iff)

lemma findRoot_SomeD: "findRoot db e = Some row \<Longrightarrow> row \<in> set (db_executions db) \<and> r_id row = e"
  by (auto simp: findRoot_def find_Some_iff)

lemma readRoot_scope: "readRoot db ref = Inr x \<Longrightarrow> er_owner ref = scopeOwner db"
  by (auto simp: readRoot_def result_simps)

lemma storedStep_ref:
  assumes "storedStep db ref = Inr stored"
  shows "ss_row stored \<in> set (db_steps db)" "rowRef db (ss_row stored) = ref"
proof -
  from assms obtain x where x: "readRoot db (sr_execution ref) = Inr x"
      "findStep db (er_executionId (sr_execution ref)) (sr_stepId ref) = Some (ss_row stored)"
    by (auto simp: storedStep_def result_simps split: option.splits)
  with findStep_SomeD [OF x(2)] readRoot_scope [OF x(1)]
  show "ss_row stored \<in> set (db_steps db)" "rowRef db (ss_row stored) = ref"
    by (simp_all add: rowRef_def)
qed

function readExecutionJournalInvocation ::
  "Process \<Rightarrow> nat \<Rightarrow> JournalDb \<Rightarrow> ExecutionStepRef \<Rightarrow> ExecutionStepRef list \<Rightarrow> ExecutionInvocation result" where
  "readExecutionJournalInvocation proc k db ref ancestors =
    (if ref \<in> set ancestors then Inl ''Execution parent lineage contains a cycle.''
     else case storedStep db ref of
       Inl e \<Rightarrow> Inl e
     | Inr stored \<Rightarrow>
         let remainingMs = ownRemainingMs proc k stored in
         case in_parent (ss_invocation stored) of
           None \<Rightarrow> Inr (invocationView ref stored remainingMs)
         | Some parent \<Rightarrow>
             if 0 < remainingMs
             then bindE (readExecutionJournalInvocation proc (Suc k) db (ip_ref parent) (set_add ref ancestors))
               (\<lambda>originalParent.
                if ip_deadlineUnixNano parent \<noteq> ct_deadlineUnixNano (ei_control originalParent)
                   \<or> exceedsCap (ct_deadlineUnixNano (ss_control stored)) (ip_deadlineUnixNano parent)
                then Inl ''Execution parent cap conflicts.''
                else Inr (invocationView ref stored (min remainingMs (ei_remainingMs originalParent))))
             else Inr (invocationView ref stored remainingMs))"
  by pat_completeness auto
termination
proof (relation "measure (\<lambda>(proc, k, db, ref, ancestors). card (rowRef db ` set (db_steps db) - set ancestors))")
  fix proc k db ref ancestors stored remainingMs parent
  assume new: "ref \<notin> set ancestors" and stored: "storedStep db ref = Inr stored"
  let ?refs = "rowRef db ` set (db_steps db)"
  have "ref \<in> ?refs" using storedStep_ref [OF stored] by (metis imageI)
  then have "?refs - set (set_add ref ancestors) \<subset> ?refs - set ancestors" using new by auto
  then show "((proc, Suc k, db, ip_ref parent, set_add ref ancestors), proc, k, db, ref, ancestors)
      \<in> measure (\<lambda>(proc, k, db, ref, ancestors). card (rowRef db ` set (db_steps db) - set ancestors))"
    by (simp add: psubset_card_mono)
qed simp

declare readExecutionJournalInvocation.simps [simp del]

definition endedStep :: "JournalDb \<Rightarrow> ExecutionStepRef \<Rightarrow> EndedExecutionStep result" where
  "endedStep db ref =
    bindE (storedStep db ref) (\<lambda>stored.
    bindE (ensure (s_state (ss_row stored) \<noteq> Intent \<and> sp_endTimeUnixNano (ss_span stored) \<noteq> None)
        ''Execution step has not ended.'') (\<lambda>_.
    Inr \<lparr>ee_ref = ref, ee_state = s_state (ss_row stored), ee_control = ss_control stored,
         ee_rootSpanId = sp_spanId (je_span (ss_root stored)), ee_span = ss_span stored\<rparr>))"

definition readExecutionJournalLinkedInspections ::
  "JournalDb \<Rightarrow> ExecutionStepRef \<Rightarrow> LinkedInspection list result" where
  "readExecutionJournalLinkedInspections db ref =
    (let owner = er_owner (sr_execution ref) in
    bindE (requireScope db owner) (\<lambda>_.
    bindE (storedStep db ref) (\<lambda>_.
    let rows = sort_key (\<lambda>s. (s_execution_id s, s_ordinal s))
          (filter (\<lambda>s. s_inspected_execution_id s = Some (er_executionId (sr_execution ref))
             \<and> s_inspected_step_id s = Some (sr_stepId ref) \<and> s_state s \<noteq> Intent) (db_steps db))
    in mapE (\<lambda>row.
         bindE (endedStep db \<lparr>sr_execution = \<lparr>er_owner = owner, er_executionId = s_execution_id row\<rparr>,
                              sr_stepId = s_step_id row\<rparr>)
           (\<lambda>inspection. Inr \<lparr>li_inspectedStep = ref, li_inspection = inspection\<rparr>)) rows)))"

record JournalReader =
  rd_readExecution :: "ExecutionJournalRef \<Rightarrow> JournalExecution result"
  rd_readInvocation :: "ExecutionStepRef \<Rightarrow> ExecutionInvocation result"
  rd_readEndedSteps :: "ExecutionJournalRef \<Rightarrow> EndedExecutionStep list result"
  rd_readLinkedInspections :: "ExecutionStepRef \<Rightarrow> LinkedInspection list result"

definition createExecutionStepJournalReader ::
  "Process \<Rightarrow> JournalDb \<Rightarrow> WorkOwner \<Rightarrow> JournalReader result" where
  "createExecutionStepJournalReader proc db owner =
    bindE (requireScope db owner) (\<lambda>_.
    let check = (\<lambda>ref. ensure (er_owner ref = owner) ''Execution reader owner conflicts.'') in
    Inr \<lparr>rd_readExecution = (\<lambda>ref. bindE (check ref) (\<lambda>_. readRoot db ref)),
         rd_readInvocation = (\<lambda>ref. bindE (check (sr_execution ref)) (\<lambda>_.
            readExecutionJournalInvocation proc 0 db ref [])),
         rd_readEndedSteps = (\<lambda>ref. bindE (check ref) (\<lambda>_. bindE (readRoot db ref) (\<lambda>_.
            mapE (\<lambda>row. bindE (parseWith textSchema (s_step_id row)) (\<lambda>stepId.
                    endedStep db \<lparr>sr_execution = ref, sr_stepId = stepId\<rparr>))
              (sort_key s_ordinal (filter (\<lambda>s. s_state s \<noteq> Intent) (stepsOf db (er_executionId ref))))))),
         rd_readLinkedInspections = (\<lambda>ref. bindE (check (sr_execution ref)) (\<lambda>_.
            readExecutionJournalLinkedInspections db ref))\<rparr>)"

subsection \<open>Writing an intent\<close>

text \<open>The guards before the first statement on the step tables.\<close>

definition checkIntent :: "JournalDb \<Rightarrow> JournalIntent \<Rightarrow> unit result" where
  "checkIntent db input =
    (let admission = ji_execution input; control = ji_control input in
    bindE (requireWriter db (ad_ref admission)) (\<lambda>_.
    bindE (parseWith controlSchema control) (\<lambda>_.
    bindE (parseWith spanSchema (ji_span input)) (\<lambda>span.
    bindE (parseWith spanSchema (ad_span admission)) (\<lambda>rootSpan.
    bindE (parseWith definitionSchema (ad_definitionVersion admission)) (\<lambda>_.
    bindE (requireDefinition db (ad_definitionVersion admission)) (\<lambda>_.
    bindE (requireProducer db (ad_definitionVersion admission) (ct_kind control)) (\<lambda>_.
    bindE (parseWith textSchema (ad_workId admission)) (\<lambda>_.
    bindE (parseWith textSchema (ad_fingerprint admission)) (\<lambda>_.
    bindE (parseWith textSchema (ji_stepId input)) (\<lambda>_.
    ensure (sp_endTimeUnixNano span = None \<and> sp_endTimeUnixNano rootSpan = None
        \<and> ct_workId control = ad_workId admission
        \<and> ct_definitionVersion control = ad_definitionVersion admission)
      ''Execution intent conflicts with its admission.'')))))))))))"

definition intentRef :: "JournalIntent \<Rightarrow> ExecutionStepRef" where
  "intentRef input = \<lparr>sr_execution = ad_ref (ji_execution input), sr_stepId = ji_stepId input\<rparr>"

definition inspectedExecutionId :: "JournalIntent \<Rightarrow> string option" where
  "inspectedExecutionId input = map_option (\<lambda>r. er_executionId (sr_execution r)) (ji_inspectedStep input)"

definition inspectedStepId :: "JournalIntent \<Rightarrow> string option" where
  "inspectedStepId input = map_option sr_stepId (ji_inspectedStep input)"

text \<open>A repeat of a retained invocation must be identical; it returns the retained invocation.\<close>

definition repeatsIntent :: "StoredStep \<Rightarrow> JournalIntent \<Rightarrow> bool" where
  "repeatsIntent stored input =
    (ss_control stored = ji_control input
     \<and> in_parent (ss_invocation stored) = ji_parent input
     \<and> in_carriage (ss_invocation stored) = ji_carriage input
     \<and> s_parent_step_id (ss_row stored) = ji_parentStepId input
     \<and> s_inspected_execution_id (ss_row stored) = inspectedExecutionId input
     \<and> s_inspected_step_id (ss_row stored) = inspectedStepId input
     \<and> je_fingerprint (ss_root stored) = ad_fingerprint (ji_execution input)
     \<and> ss_span stored = ji_span input)"

text \<open>The root is inserted open, at revision 1, when the execution does not exist yet.\<close>

definition ensureRoot :: "JournalDb \<Rightarrow> JournalAdmission \<Rightarrow> JournalDb result" where
  "ensureRoot db admission =
    (case findRoot db (er_executionId (ad_ref admission)) of
       Some _ \<Rightarrow> Inr db
     | None \<Rightarrow>
         bindE (parseWith WorkOwnerSchema (er_owner (ad_ref admission))) (\<lambda>owner.
         bindE (parseWith textsSchema (ad_exclusionRefs admission)) (\<lambda>exclusionRefs.
         insertRoot db
           \<lparr>r_id = er_executionId (ad_ref admission), r_owner = owner, r_work_id = ad_workId admission,
            r_definition_version = ad_definitionVersion admission,
            r_input_fingerprint = ad_fingerprint admission, r_phase = Open, r_revision = 1,
            r_terminal_cause = None, r_exclusion_refs = exclusionRefs, r_span = ad_span admission\<rparr>)))"

definition closingKinds :: "JournalDb \<Rightarrow> StepKind list" where
  "closingKinds db =
    [InspectCleanup, ConsumeReceipt] @ (if db_scope db = CoreScope then [] else [Release])"

definition checkAdmission :: "JournalDb \<Rightarrow> JournalExecution \<Rightarrow> JournalIntent \<Rightarrow> unit result" where
  "checkAdmission db execution input =
    (let admission = ji_execution input; rootSpan = ad_span admission in
    bindE (ensure (je_phase execution \<noteq> Closed
          \<and> (je_phase execution = Closing \<longrightarrow> ct_kind (ji_control input) \<in> set (closingKinds db))
          \<and> je_workId execution = ad_workId admission
          \<and> je_fingerprint execution = ad_fingerprint admission
          \<and> je_definitionVersion execution = ad_definitionVersion admission
          \<and> sp_traceId (je_span execution) = sp_traceId rootSpan
          \<and> sp_spanId (je_span execution) = sp_spanId rootSpan
          \<and> sp_startTimeUnixNano (je_span execution) = sp_startTimeUnixNano rootSpan)
        ''Execution admission conflicts with retained authority.'') (\<lambda>_.
    ensure (sp_traceId (ji_span input) = sp_traceId (je_span execution)) ''Execution step trace conflicts.''))"

definition checkParent :: "JournalDb \<Rightarrow> JournalIntent \<Rightarrow> unit result" where
  "checkParent db input =
    (case ji_parent input of
       None \<Rightarrow> ensure (ji_parentStepId input = None) ''Execution parent authority is missing.''
     | Some given \<Rightarrow>
         bindE (storedStep db (ip_ref given)) (\<lambda>parent.
         bindE (ensure (s_state (ss_row parent) = Intent
               \<and> ip_deadlineUnixNano given = ct_deadlineUnixNano (ss_control parent)
               \<and> \<not> exceedsCap (ct_deadlineUnixNano (ji_control input)) (ip_deadlineUnixNano given))
             ''Execution parent authority cannot be renewed.'') (\<lambda>_.
         ensure (if er_executionId (sr_execution (ip_ref given)) = er_executionId (ad_ref (ji_execution input))
                 then ji_parentStepId input = Some (sr_stepId (ip_ref given))
                      \<and> sp_parentSpanId (ji_span input) = Some (sp_spanId (ss_span parent))
                 else ji_parentStepId input = None)
           ''Execution control parent conflicts.'')))"

definition checkInspection :: "JournalDb \<Rightarrow> JournalIntent \<Rightarrow> unit result" where
  "checkInspection db input =
    (case ji_inspectedStep input of
       None \<Rightarrow> Inr ()
     | Some ref \<Rightarrow>
         bindE (storedStep db ref) (\<lambda>inspected.
         ensure (\<exists>link\<in>set (sp_links (ji_span input)).
               ln_traceId link = sp_traceId (ss_span inspected) \<and> ln_spanId link = sp_spanId (ss_span inspected))
           ''Inspection must link its original span.''))"

definition nextOrdinal :: "JournalDb \<Rightarrow> string \<Rightarrow> int" where
  "nextOrdinal db e = fold max (map s_ordinal (stepsOf db e)) 0 + 1"

definition intentInvocation :: "Process \<Rightarrow> JournalDb \<Rightarrow> JournalIntent \<Rightarrow> string option \<Rightarrow> StoredInvocation result" where
  "intentInvocation proc db input producerProcessWitness =
    bindE (case (db_scope db, producerProcessWitness) of
        (CoreScope, Some w) \<Rightarrow> parseWith textSchema w
      | _ \<Rightarrow> Inr (pr_witness proc)) (\<lambda>witness.
    parseWith invocationSchema
      \<lparr>in_parent = ji_parent input, in_carriage = ji_carriage input,
       in_clock = \<lparr>ck_processWitness = witness, ck_admittedUnixNano = pr_dateNow proc 0 * 1000000,
                   ck_admittedMonotonicNano = pr_hrtime proc 0\<rparr>\<rparr>)"

definition intentRow :: "JournalIntent \<Rightarrow> int \<Rightarrow> StoredInvocation \<Rightarrow> StepRow" where
  "intentRow input ordinal invocation =
    \<lparr>s_execution_id = er_executionId (ad_ref (ji_execution input)), s_step_id = ji_stepId input,
     s_ordinal = ordinal, s_parent_step_id = ji_parentStepId input, s_state = Intent,
     s_invocation_id = ct_invocationId (ji_control input), s_control = ji_control input,
     s_invocation = invocation, s_span = ji_span input,
     s_inspected_execution_id = inspectedExecutionId input, s_inspected_step_id = inspectedStepId input\<rparr>"

text \<open>A new invocation: every check against the retained root, parent and inspected step, then the
  step row and the advance of the root's revision.\<close>

definition admitIntent ::
  "Process \<Rightarrow> JournalDb \<Rightarrow> JournalIntent \<Rightarrow> string option \<Rightarrow> JournalDb result" where
  "admitIntent proc db input producerProcessWitness =
    (let admission = ji_execution input; e = er_executionId (ad_ref admission) in
    bindE (ensureRoot db admission) (\<lambda>db1.
    bindE (readRoot db1 (ad_ref admission)) (\<lambda>root.
    bindE (checkAdmission db1 root input) (\<lambda>_.
    bindE (checkParent db1 input) (\<lambda>_.
    bindE (checkInspection db1 input) (\<lambda>_.
    bindE (intentInvocation proc db1 input producerProcessWitness) (\<lambda>invocation.
    bindE (parseWith (\<lambda>n. countSchema n \<and> 1 \<le> n) (nextOrdinal db1 e)) (\<lambda>ordinal.
    bindE (insertStep db1 (intentRow input ordinal invocation)) (\<lambda>db2.
    bindE (updateRoot db2 e (je_revision root) (\<lambda>r. r\<lparr>r_revision := r_revision r + 1\<rparr>)) (\<lambda>(db3, _).
    Inr db3))))))))))"

definition writeExecutionJournalIntent ::
  "Process \<Rightarrow> JournalDb \<Rightarrow> JournalIntent \<Rightarrow> string option \<Rightarrow> (JournalDb \<times> ExecutionInvocation) result" where
  "writeExecutionJournalIntent proc db input producerProcessWitness =
    bindE (checkIntent db input) (\<lambda>_.
    case findStep db (er_executionId (ad_ref (ji_execution input))) (ji_stepId input) of
      Some _ \<Rightarrow>
        bindE (storedStep db (intentRef input)) (\<lambda>stored.
        bindE (ensure (repeatsIntent stored input) ''Execution invocation input conflicts.'') (\<lambda>_.
        bindE (readExecutionJournalInvocation proc 1 db (intentRef input) []) (\<lambda>invocation.
        Inr (db, invocation))))
    | None \<Rightarrow>
        bindE (admitIntent proc db input producerProcessWitness) (\<lambda>db'.
        bindE (readExecutionJournalInvocation proc 1 db' (intentRef input) []) (\<lambda>invocation.
        Inr (db', invocation))))"

subsection \<open>Settling a step\<close>

definition keepsSpanIdentity :: "JournalSpan \<Rightarrow> JournalSpan \<Rightarrow> bool" where
  "keepsSpanIdentity given original =
    (sp_traceId given = sp_traceId original \<and> sp_spanId given = sp_spanId original
     \<and> sp_parentSpanId given = sp_parentSpanId original
     \<and> sp_startTimeUnixNano given = sp_startTimeUnixNano original
     \<and> sp_name given = sp_name original \<and> sp_kind given = sp_kind original)"

text \<open>The guards of a settlement on the stored step and the given outcome.\<close>

definition checkSettlement :: "StoredStep \<Rightarrow> JournalSettlement \<Rightarrow> unit result" where
  "checkSettlement stored input =
    (let outcome = js_state input in
    bindE (parseWith spanSchema (js_span input)) (\<lambda>span.
    bindE (parseWith (\<lambda>s. s \<noteq> Intent) outcome) (\<lambda>_.
    bindE (ensure (s_state (ss_row stored) = Intent
          \<and> je_revision (ss_root stored) = js_expectedExecutionRevision input
          \<and> je_phase (ss_root stored) \<noteq> Closed
          \<and> sp_endTimeUnixNano span \<noteq> None
          \<and> sp_startTimeUnixNano span \<le> the (sp_endTimeUnixNano span)
          \<and> (outcome = Unknown \<longrightarrow> su_code (sp_status span) = ERROR))
        ''Execution settlement is stale or conflicts.'') (\<lambda>_.
    bindE (ensure (keepsSpanIdentity span (ss_span stored)) ''Execution span identity is immutable.'') (\<lambda>_.
    bindE (parseWith textsSchema (js_outputRefs input)) (\<lambda>_.
    bindE (parseWith textsSchema (js_exclusionRefs input)) (\<lambda>_. Inr ())))))))"

definition hasUnknown :: "JournalDb \<Rightarrow> JournalSettlement \<Rightarrow> bool" where
  "hasUnknown db input =
    (js_state input = Unknown
     \<or> (\<exists>s\<in>set (stepsOf db (er_executionId (sr_execution (js_ref input)))). s_state s = Unknown))"

definition inspectedRelease :: "JournalDb \<Rightarrow> StoredStep \<Rightarrow> JournalSettlement \<Rightarrow> StoredStep option result" where
  "inspectedRelease db stored input =
    (case s_inspected_step_id (ss_row stored) of
       None \<Rightarrow> Inr None
     | Some s \<Rightarrow>
         bindE (storedStep db
             \<lparr>sr_execution = \<lparr>er_owner = er_owner (sr_execution (js_ref input)),
                             er_executionId = the (s_inspected_execution_id (ss_row stored))\<rparr>,
              sr_stepId = s\<rparr>) (\<lambda>inspected. Inr (Some inspected)))"

definition releaseProof :: "StoredStep \<Rightarrow> StoredStep option \<Rightarrow> JournalSettlement \<Rightarrow> bool" where
  "releaseProof stored inspected input =
    (ct_kind (ss_control stored) = Release
     \<or> (ct_kind (ss_control stored) = InspectCleanup
        \<and> s_inspected_execution_id (ss_row stored) = Some (er_executionId (sr_execution (js_ref input)))
        \<and> (case inspected of None \<Rightarrow> False
           | Some i \<Rightarrow> s_state (ss_row i) = Completed \<and> ct_kind (ss_control i) = Release
               \<and> ct_outputRefs (ss_control i) = js_outputRefs input)))"

text \<open>Every unknown step of the execution has a completed cleanup inspection with the same output.\<close>

definition unknownsInspected :: "JournalDb \<Rightarrow> JournalSettlement \<Rightarrow> bool result" where
  "unknownsInspected db input =
    (let ref = sr_execution (js_ref input); steps = stepsOf db (er_executionId ref) in
     allE (\<lambda>unknown.
       anyE (\<lambda>proof.
           bindE (storedStep db \<lparr>sr_execution = ref, sr_stepId = s_step_id proof\<rparr>) (\<lambda>observed.
           Inr (ct_kind (ss_control observed) = InspectCleanup
              \<and> ct_outputRefs (ss_control observed) = js_outputRefs input)))
         (filter (\<lambda>s. s_inspected_execution_id s = Some (er_executionId ref)
            \<and> s_inspected_step_id s = Some (s_step_id unknown) \<and> s_state s = Completed) steps))
       (filter (\<lambda>s. s_state s = Unknown) steps))"

definition qualifiedRelease ::
  "JournalDb \<Rightarrow> StoredStep \<Rightarrow> StoredStep option \<Rightarrow> JournalSettlement \<Rightarrow> bool result" where
  "qualifiedRelease db stored inspected input =
    (if db_scope db \<noteq> CoreScope \<and> releaseProof stored inspected input \<and> js_state input = Completed
        \<and> length (js_outputRefs input) = 1
     then unknownsInspected db input else Inr False)"

text \<open>Retention of exclusions while a child is unknown, and the conditions of closing.\<close>

definition checkRelease :: "JournalDb \<Rightarrow> StoredStep \<Rightarrow> JournalSettlement \<Rightarrow> unit result" where
  "checkRelease db stored input =
    bindE (inspectedRelease db stored input) (\<lambda>inspected.
    bindE (qualifiedRelease db stored inspected input) (\<lambda>qualified.
    bindE (ensure (\<not> (hasUnknown db input \<and> \<not> qualified
           \<and> (js_nextPhase input = Closed
              \<or> (\<exists>ref\<in>set (je_exclusionRefs (ss_root stored)). ref \<notin> set (js_exclusionRefs input)))))
        ''Unknown children retain exclusion; parent completion cannot release them.'') (\<lambda>_.
    ensure (\<not> (js_nextPhase input = Closed
           \<and> ((\<exists>ref\<in>set (je_openSteps (ss_root stored)). sr_stepId ref \<noteq> sr_stepId (js_ref input))
              \<or> js_exclusionRefs input \<noteq> [] \<or> js_state input = Unknown)))
      ''Execution cannot close with unresolved work.'')))"

text \<open>Members of the settled span override the retained ones; an absent optional member keeps the
  retained value.\<close>

definition mergeSpan :: "JournalSpan \<Rightarrow> JournalSpan \<Rightarrow> JournalSpan" where
  "mergeSpan retained given =
    given\<lparr>sp_parentSpanId := orElse (sp_parentSpanId given) (sp_parentSpanId retained),
         sp_traceState := orElse (sp_traceState given) (sp_traceState retained)\<rparr>"

definition settledRow :: "JournalSettlement \<Rightarrow> StepRow \<Rightarrow> StepRow" where
  "settledRow input row =
    row\<lparr>s_state := js_state input,
        s_control := (s_control row)\<lparr>ct_outputRefs := js_outputRefs input\<rparr>,
        s_span := mergeSpan (s_span row) (js_span input)\<rparr>"

definition advancedRoot :: "JournalSettlement \<Rightarrow> RootRow \<Rightarrow> RootRow" where
  "advancedRoot input row =
    row\<lparr>r_phase := js_nextPhase input, r_revision := r_revision row + 1,
        r_terminal_cause := js_terminalCause input, r_exclusion_refs := js_exclusionRefs input,
        r_span := (if js_nextPhase input = Closed
          then (r_span row)\<lparr>sp_endTimeUnixNano := sp_endTimeUnixNano (js_span input),
                            sp_status := sp_status (js_span input)\<rparr>
          else r_span row)\<rparr>"

definition settleExecutionJournalStep ::
  "JournalDb \<Rightarrow> JournalSettlement \<Rightarrow> (JournalDb \<times> EndedExecutionStep) result" where
  "settleExecutionJournalStep db input =
    (let ref = sr_execution (js_ref input); e = er_executionId ref in
    bindE (requireWriter db ref) (\<lambda>_.
    bindE (storedStep db (js_ref input)) (\<lambda>stored.
    bindE (checkSettlement stored input) (\<lambda>_.
    bindE (checkRelease db stored input) (\<lambda>_.
    bindE (updateIntentStep db e (sr_stepId (js_ref input)) (settledRow input)) (\<lambda>(db1, changed).
    bindE (ensure (changed = 1) ''Execution outcome lost its conditional transition.'') (\<lambda>_.
    bindE (case findRoot db1 e of None \<Rightarrow> Inl ZodError | Some row \<Rightarrow> parseWith rootRowSchema row) (\<lambda>_.
    bindE (updateRoot db1 e (js_expectedExecutionRevision input) (advancedRoot input)) (\<lambda>(db2, advanced).
    bindE (ensure (advanced = 1) ''Execution revision conflicts.'') (\<lambda>_.
    bindE (endedStep db2 (js_ref input)) (\<lambda>ended.
    Inr (db2, ended))))))))))))"

subsection \<open>Native mutation of a Workspace journal\<close>

datatype JournalCommand = IntentCommand JournalIntent | SettleCommand JournalSettlement "JournalIntent option"

datatype JournalReply = InvocationReply ExecutionInvocation | EndedReply EndedExecutionStep

definition intentSchema :: "JournalIntent \<Rightarrow> bool" where
  "intentSchema i =
    (let a = ji_execution i in
     refSchema (ad_ref a) \<and> definitionSchema (ad_definitionVersion a) \<and> textSchema (ad_workId a)
     \<and> textSchema (ad_fingerprint a) \<and> textsSchema (ad_exclusionRefs a)
     \<and> spanSchema (ad_span a) \<and> sp_endTimeUnixNano (ad_span a) = None
     \<and> textSchema (ji_stepId i) \<and> nullable textSchema (ji_parentStepId i) \<and> controlSchema (ji_control i)
     \<and> nullable parentSchema (ji_parent i) \<and> carriageSchema (ji_carriage i)
     \<and> nullable stepRefSchema (ji_inspectedStep i)
     \<and> spanSchema (ji_span i) \<and> sp_endTimeUnixNano (ji_span i) = None)"

definition settlementSchema :: "JournalSettlement \<Rightarrow> bool" where
  "settlementSchema s =
    (stepRefSchema (js_ref s) \<and> countSchema (js_expectedExecutionRevision s)
     \<and> 1 \<le> js_expectedExecutionRevision s \<and> js_state s \<noteq> Intent \<and> textsSchema (js_outputRefs s)
     \<and> spanSchema (js_span s) \<and> sp_endTimeUnixNano (js_span s) \<noteq> None
     \<and> nullable textSchema (js_terminalCause s) \<and> textsSchema (js_exclusionRefs s))"

definition decodeExecutionJournalIntent :: "JournalIntent \<Rightarrow> JournalIntent result" where
  "decodeExecutionJournalIntent = parseWith intentSchema"

definition decodeExecutionJournalSettlement :: "JournalSettlement \<Rightarrow> JournalSettlement result" where
  "decodeExecutionJournalSettlement = parseWith settlementSchema"

text \<open>The lineage of a mutation: the owner of the database, the admitted Turn with its worker binding,
  and no second root for the same work.\<close>

definition checkLineage :: "JournalDb \<Rightarrow> ExecutionJournalRef \<Rightarrow> string \<Rightarrow> unit result" where
  "checkLineage db ref workId =
    bindE (ensure (case (db_scope db, er_owner ref) of
          (WorkspaceScope w, WorkspaceOwner ws) \<Rightarrow> ws = w | _ \<Rightarrow> False)
        ''Workspace execution owner conflicts.'') (\<lambda>_.
    case map_of (db_turns db) workId of
      None \<Rightarrow> Inl ''Workspace execution requires its admitted Turn.''
    | Some turn \<Rightarrow>
        bindE (ensure (tr_owner turn = Some (er_owner ref)
              \<and> (case tr_agentSessionId turn of None \<Rightarrow> False | Some a \<Rightarrow> a \<noteq> []))
            ''Workspace execution requires its actual Worker binding.'') (\<lambda>_.
        ensure (\<forall>r\<in>set (db_executions db). r_work_id r = workId \<longrightarrow> r_id r = er_executionId ref)
          ''Workspace execution root conflicts.''))"

definition checkConsume ::
  "JournalDb \<Rightarrow> JournalIntent \<Rightarrow> JournalSettlement \<Rightarrow> string \<Rightarrow> EndedExecutionStep \<Rightarrow> unit result" where
  "checkConsume db consume settlement workId ended =
    (if ad_ref (ji_execution consume) = sr_execution (js_ref settlement)
        \<and> ad_workId (ji_execution consume) = workId
        \<and> ct_kind (ji_control consume) = ConsumeReceipt
        \<and> ct_operationId (ji_control consume) = ct_operationId (ee_control ended)
        \<and> ji_inspectedStep consume = Some (js_ref settlement)
     then bindE (storedStep db (js_ref settlement)) (\<lambda>stored.
       ensure (ji_carriage consume = in_carriage (ss_invocation stored))
         ''Receipt consumption conflicts with its original outcome.'')
     else Inl ''Receipt consumption conflicts with its original outcome.'')"

definition applyControlExecutionJournal ::
  "Process \<Rightarrow> JournalDb \<Rightarrow> JournalCommand \<Rightarrow> (JournalDb \<times> JournalReply) result" where
  "applyControlExecutionJournal proc db command =
    bindE (ensure (\<not> pr_isMainThread proc \<and> db_inTransaction db)
        ''Workspace execution mutations require the native writer transaction.'') (\<lambda>_.
    case command of
      IntentCommand given \<Rightarrow>
        bindE (decodeExecutionJournalIntent given) (\<lambda>input.
        bindE (checkLineage db (ad_ref (ji_execution input)) (ad_workId (ji_execution input))) (\<lambda>_.
        bindE (writeExecutionJournalIntent proc db input None) (\<lambda>(db', invocation).
        Inr (db', InvocationReply invocation))))
    | SettleCommand given consumeIntent \<Rightarrow>
        bindE (decodeExecutionJournalSettlement given) (\<lambda>settlement.
        bindE (readRoot db (sr_execution (js_ref settlement))) (\<lambda>execution.
        bindE (checkLineage db (sr_execution (js_ref settlement)) (je_workId execution)) (\<lambda>_.
        bindE (settleExecutionJournalStep db settlement) (\<lambda>(db1, ended).
        case consumeIntent of
          None \<Rightarrow> Inr (db1, EndedReply ended)
        | Some consumeInput \<Rightarrow>
            bindE (decodeExecutionJournalIntent consumeInput) (\<lambda>consume.
            bindE (checkConsume db1 consume settlement (je_workId execution) ended) (\<lambda>_.
            bindE (writeExecutionJournalIntent proc db1 consume None) (\<lambda>(db2, _).
            Inr (db2, EndedReply ended)))))))))"

end
