(* ===== verification/Journal_Invariant.thy ===== *)
theory Journal_Invariant
  imports Execution_Journal
begin

text \<open>
  The invariant of the execution journal and the exact effect of its operations.

  \<open>readRoot_Inr_iff\<close> and \<open>storedStep_Inr_iff\<close> characterise the readers; \<open>journal_ok\<close> collects what the
  tables satisfy after any sequence of operations (unique identities, gapless ordinals in admission
  order, rows that every reader accepts, closed roots without open work, parents and inspected steps
  that precede their children); the lemmas \<open>journal_ok_...\<close> show that each statement and each
  operation keeps it, and \<open>admitIntent_effect\<close> and \<open>settle_effect\<close> say exactly what changes.
\<close>

subsection \<open>What the readers accept\<close>

definition rootOk :: "JournalDb \<Rightarrow> RootRow \<Rightarrow> bool" where
  "rootOk db r =
    (rootRowSchema r \<and> WorkOwnerSchema (scopeOwner db) \<and> r_owner r = scopeOwner db
     \<and> succeeds (requireDefinition db (r_definition_version r)) \<and> spanSchema (r_span r)
     \<and> (r_phase r = Closed) = (sp_endTimeUnixNano (r_span r) \<noteq> None) \<and> textsSchema (r_exclusion_refs r))"

definition openRows :: "JournalDb \<Rightarrow> string \<Rightarrow> StepRow list" where
  "openRows db e = sort_key s_ordinal (filter (\<lambda>s. s_state s = Intent) (stepsOf db e))"

definition rootView :: "JournalDb \<Rightarrow> ExecutionJournalRef \<Rightarrow> RootRow \<Rightarrow> JournalExecution" where
  "rootView db ref row =
    \<lparr>je_ref = ref, je_definitionVersion = r_definition_version row, je_workId = r_work_id row,
     je_fingerprint = r_input_fingerprint row, je_phase = r_phase row,
     je_revision = r_revision row, je_terminalCause = r_terminal_cause row,
     je_exclusionRefs = r_exclusion_refs row, je_span = r_span row,
     je_openSteps = map (\<lambda>s. \<lparr>sr_execution = ref, sr_stepId = s_step_id s\<rparr>) (openRows db (r_id row))\<rparr>"

lemma requireDefinition_succeeds: "requireDefinition db d = Inr u \<longleftrightarrow> succeeds (requireDefinition db d)"
  by (cases "requireDefinition db d") auto

lemma requireProducer_succeeds: "requireProducer db d k = Inr u \<longleftrightarrow> succeeds (requireProducer db d k)"
  by (cases "requireProducer db d k") auto

lemma mapE_parse_steps:
  "mapE (\<lambda>s. bindE (parseWith textSchema (s_step_id s)) (\<lambda>i. Inr (g i))) steps = Inr xs
    \<longleftrightarrow> (\<forall>s\<in>set steps. textSchema (s_step_id s)) \<and> xs = map (\<lambda>s. g (s_step_id s)) steps"
  by (induction steps arbitrary: xs) (auto simp: result_simps)

lemma readRoot_Inr_iff:
  "readRoot db ref = Inr x \<longleftrightarrow>
    refSchema ref \<and> er_owner ref = scopeOwner db
    \<and> (\<exists>row. findRoot db (er_executionId ref) = Some row \<and> rootOk db row
         \<and> (\<forall>s\<in>set (openRows db (er_executionId ref)). textSchema (s_step_id s))
         \<and> x = rootView db ref row)"
  unfolding readRoot_def rootView_def rootOk_def openRows_def Let_def
  by (auto simp: result_simps mapE_parse_steps requireDefinition_succeeds refSchema_def
      simp del: mapE_Inr_iff split: option.splits dest!: findRoot_SomeD)

definition stepOk :: "JournalDb \<Rightarrow> RootRow \<Rightarrow> StepRow \<Rightarrow> bool" where
  "stepOk db rt s =
    (stepRowSchema s \<and> controlSchema (s_control s)
     \<and> succeeds (requireProducer db (r_definition_version rt) (ct_kind (s_control s)))
     \<and> invocationSchema (s_invocation s) \<and> spanSchema (s_span s)
     \<and> ct_invocationId (s_control s) = s_invocation_id s
     \<and> ct_definitionVersion (s_control s) = r_definition_version rt
     \<and> ct_workId (s_control s) = r_work_id rt
     \<and> (s_state s = Intent) = (sp_endTimeUnixNano (s_span s) = None)
     \<and> (s_state s = Unknown \<longrightarrow> su_code (sp_status (s_span s)) = ERROR)
     \<and> (s_inspected_execution_id s = None) = (s_inspected_step_id s = None))"

lemma storedStep_Inr_iff:
  "storedStep db ref = Inr st \<longleftrightarrow>
    stepRefSchema ref \<and> readRoot db (sr_execution ref) = Inr (ss_root st)
    \<and> findStep db (er_executionId (sr_execution ref)) (sr_stepId ref) = Some (ss_row st)
    \<and> (\<exists>rt. findRoot db (er_executionId (sr_execution ref)) = Some rt \<and> stepOk db rt (ss_row st))"
  apply (cases st)
  unfolding storedStep_def
  by (auto simp: result_simps stepOk_def requireProducer_succeeds readRoot_Inr_iff rootView_def
      split: option.splits)
lemma scope_congs:
  assumes "db_scope db' = db_scope db"
  shows "scopeOwner db' = scopeOwner db" "requireDefinition db' = requireDefinition db"
    "requireProducer db' = requireProducer db" "rootOk db' = rootOk db" "stepOk db' = stepOk db"
    "rowRef db' = rowRef db" "requireScope db' = requireScope db" "closingKinds db' = closingKinds db"
  using assms
  by (auto simp: scopeOwner_def requireDefinition_def requireProducer_def rootOk_def stepOk_def rowRef_def
      requireScope_def closingKinds_def fun_eq_iff)

subsection \<open>The invariant of the journal\<close>

definition stepKey :: "StepRow \<Rightarrow> string \<times> string" where
  "stepKey s = (s_execution_id s, s_step_id s)"

text \<open>What a settlement may not change of a step.\<close>

definition stepIdentity :: "StepRow \<Rightarrow> (string \<times> string) \<times> int \<times> string option \<times> string \<times> StoredInvocation
    \<times> StepControl \<times> string option \<times> string option" where
  "stepIdentity s =
    (stepKey s, s_ordinal s, s_parent_step_id s, s_invocation_id s, s_invocation s,
     (s_control s)\<lparr>ct_outputRefs := []\<rparr>, s_inspected_execution_id s, s_inspected_step_id s)"

definition deadlineOf :: "StepRow \<Rightarrow> int option" where
  "deadlineOf s = ct_deadlineUnixNano (s_control s)"

text \<open>Lineage: the parent invocation and the inspected step of a row are earlier rows, the recorded
  cap is the parent's own deadline, and the row's deadline stays under it.\<close>

definition priorLineage :: "WorkOwner \<Rightarrow> StepRow list \<Rightarrow> StepRow \<Rightarrow> bool" where
  "priorLineage owner earlier s =
    ((\<forall>p. in_parent (s_invocation s) = Some p \<longrightarrow>
        (\<exists>q\<in>set earlier. ip_ref p = \<lparr>sr_execution = \<lparr>er_owner = owner, er_executionId = s_execution_id q\<rparr>,
                                    sr_stepId = s_step_id q\<rparr>
           \<and> deadlineOf q = ip_deadlineUnixNano p \<and> \<not> exceedsCap (deadlineOf s) (ip_deadlineUnixNano p)))
     \<and> (\<forall>e i. s_inspected_execution_id s = Some e \<and> s_inspected_step_id s = Some i \<longrightarrow>
        (\<exists>q\<in>set earlier. stepKey q = (e, i))))"

definition lineageOk :: "WorkOwner \<Rightarrow> StepRow list \<Rightarrow> bool" where
  "lineageOk owner steps = (\<forall>i<length steps. priorLineage owner (take i steps) (steps ! i))"

definition rootSettled :: "JournalDb \<Rightarrow> RootRow \<Rightarrow> bool" where
  "rootSettled db r =
    (r_phase r = Closed \<longrightarrow> r_exclusion_refs r = [] \<and> (\<forall>s\<in>set (stepsOf db (r_id r)). s_state s \<noteq> Intent))"

definition journal_ok :: "JournalDb \<Rightarrow> bool" where
  "journal_ok db =
    (distinct (map r_id (db_executions db))
     \<and> distinct (map stepKey (db_steps db))
     \<and> distinct (map s_invocation_id (db_steps db))
     \<and> (\<forall>e. map s_ordinal (stepsOf db e) = map int [1..<Suc (length (stepsOf db e))])
     \<and> (\<forall>r\<in>set (db_executions db). rootOk db r \<and> rootSettled db r)
     \<and> (\<forall>s\<in>set (db_steps db). \<exists>r\<in>set (db_executions db). r_id r = s_execution_id s \<and> stepOk db r s)
     \<and> lineageOk (scopeOwner db) (db_steps db))"

lemma lineageOk_append [simp]:
  "lineageOk owner (steps @ [s]) \<longleftrightarrow> lineageOk owner steps \<and> priorLineage owner steps s"
  by (auto simp: lineageOk_def nth_append less_Suc_eq)

lemma stepIdentity_facts:
  assumes "stepIdentity s' = stepIdentity s"
  shows "stepKey s' = stepKey s" "deadlineOf s' = deadlineOf s" "s_invocation s' = s_invocation s"
    "s_inspected_execution_id s' = s_inspected_execution_id s" "s_inspected_step_id s' = s_inspected_step_id s"
    "s_ordinal s' = s_ordinal s" "s_invocation_id s' = s_invocation_id s" "s_execution_id s' = s_execution_id s"
    "s_step_id s' = s_step_id s"
proof -
  have control: "(s_control s')\<lparr>ct_outputRefs := []\<rparr> = (s_control s)\<lparr>ct_outputRefs := []\<rparr>"
    using assms by (simp add: stepIdentity_def)
  show "deadlineOf s' = deadlineOf s"
    using arg_cong [OF control, of ct_deadlineUnixNano] by (simp add: deadlineOf_def)
qed (use assms in \<open>simp_all add: stepIdentity_def stepKey_def\<close>)

lemma priorLineage_identity:
  assumes "map stepIdentity earlier' = map stepIdentity earlier" "stepIdentity s' = stepIdentity s"
    and "priorLineage owner earlier s"
  shows "priorLineage owner earlier' s'"
proof -
  have later: "\<exists>q'\<in>set earlier'. stepIdentity q' = stepIdentity q" if "q \<in> set earlier" for q
  proof -
    have "stepIdentity q \<in> set (map stepIdentity earlier')" using assms(1) that by simp
    then show ?thesis by auto
  qed
  note same = stepIdentity_facts [OF assms(2)]
  show ?thesis unfolding priorLineage_def
  proof (intro conjI allI impI)
    fix p assume "in_parent (s_invocation s') = Some p"
    then obtain q where q: "q \<in> set earlier" "ip_ref p = \<lparr>sr_execution = \<lparr>er_owner = owner,
        er_executionId = s_execution_id q\<rparr>, sr_stepId = s_step_id q\<rparr>" "deadlineOf q = ip_deadlineUnixNano p"
        "\<not> exceedsCap (deadlineOf s) (ip_deadlineUnixNano p)"
      using assms(3) unfolding priorLineage_def same by blast
    from later [OF q(1)] obtain q' where q': "q' \<in> set earlier'" "stepIdentity q' = stepIdentity q" by blast
    show "\<exists>q\<in>set earlier'. ip_ref p = \<lparr>sr_execution = \<lparr>er_owner = owner, er_executionId = s_execution_id q\<rparr>,
        sr_stepId = s_step_id q\<rparr> \<and> deadlineOf q = ip_deadlineUnixNano p
        \<and> \<not> exceedsCap (deadlineOf s') (ip_deadlineUnixNano p)"
      using q q' by (intro bexI [of _ q']) (simp_all add: same stepIdentity_facts [OF q'(2)])
  next
    fix e i assume "s_inspected_execution_id s' = Some e \<and> s_inspected_step_id s' = Some i"
    then obtain q where q: "q \<in> set earlier" "stepKey q = (e, i)"
      using assms(3) by (auto simp: priorLineage_def same)
    from later [OF q(1)] obtain q' where q': "q' \<in> set earlier'" "stepIdentity q' = stepIdentity q" by blast
    show "\<exists>q\<in>set earlier'. stepKey q = (e, i)"
      using q q' by (intro bexI [of _ q']) (simp_all add: stepIdentity_facts [OF q'(2)])
  qed
qed

lemma lineageOk_identity:
  assumes "map stepIdentity steps' = map stepIdentity steps" "lineageOk owner steps"
  shows "lineageOk owner steps'"
  unfolding lineageOk_def
proof (intro allI impI)
  fix i assume "i < length steps'"
  moreover have len: "length steps' = length steps" using assms(1) by (metis length_map)
  ultimately have "stepIdentity (steps' ! i) = stepIdentity (steps ! i)"
    using assms(1) by (metis nth_map)
  moreover have "map stepIdentity (take i steps') = map stepIdentity (take i steps)"
    using assms(1) by (metis take_map)
  ultimately show "priorLineage owner (take i steps') (steps' ! i)"
    using assms(2) len \<open>i < length steps'\<close> by (metis lineageOk_def priorLineage_identity)
qed

subsection \<open>Preservation by the statements\<close>

lemma stepsOf_append: "stepsOf (db\<lparr>db_steps := db_steps db @ [s]\<rparr>) e = stepsOf db e @ (if s_execution_id s = e then [s] else [])"
  by (simp add: stepsOf_def)

lemma stepsOf_executions [simp]: "stepsOf (db\<lparr>db_executions := x\<rparr>) e = stepsOf db e"
  by (simp add: stepsOf_def)

lemma findStep_executions [simp]: "findStep (db\<lparr>db_executions := x\<rparr>) e s = findStep db e s"
  by (simp add: findStep_def)

lemma findRoot_steps [simp]: "findRoot (db\<lparr>db_steps := x\<rparr>) e = findRoot db e"
  by (simp add: findRoot_def)

lemma findRoot_None_iff: "findRoot db e = None \<longleftrightarrow> e \<notin> r_id ` set (db_executions db)"
  by (auto simp: findRoot_def find_None_iff)

lemma findStep_None_iff: "findStep db e s = None \<longleftrightarrow> (e, s) \<notin> stepKey ` set (db_steps db)"
  by (auto simp: findStep_def find_None_iff stepKey_def)

lemma findRoot_unique:
  assumes "distinct (map r_id (db_executions db))"
  shows "findRoot db e = Some r \<longleftrightarrow> r \<in> set (db_executions db) \<and> r_id r = e"
proof
  assume r: "r \<in> set (db_executions db) \<and> r_id r = e"
  then have "findRoot db e \<noteq> None" by (auto simp: findRoot_None_iff)
  then obtain r' where r': "findRoot db e = Some r'" by blast
  with findRoot_SomeD [OF r'] r show "findRoot db e = Some r"
    by (metis assms inj_on_def distinct_map)
qed (use findRoot_SomeD in blast)

lemma findStep_unique:
  assumes "distinct (map stepKey (db_steps db))"
  shows "findStep db e i = Some s \<longleftrightarrow> s \<in> set (db_steps db) \<and> stepKey s = (e, i)"
proof
  assume s: "s \<in> set (db_steps db) \<and> stepKey s = (e, i)"
  then have "findStep db e i \<noteq> None" by (metis findStep_None_iff imageI)
  then obtain s' where s': "findStep db e i = Some s'" by blast
  with findStep_SomeD [OF s'] s show "findStep db e i = Some s"
    by (metis assms inj_on_def distinct_map stepKey_def)
qed (auto simp: stepKey_def dest: findStep_SomeD)

lemma journal_ok_insertRoot:
  assumes "journal_ok db" "insertRoot db row = Inr db'" "rootOk db row" "r_phase row \<noteq> Closed"
  shows "journal_ok db'"
proof -
  have db': "db' = db\<lparr>db_executions := db_executions db @ [row]\<rparr>" and "findRoot db (r_id row) = None"
    using assms(2) by (auto simp: insertRoot_def split: if_splits)
  moreover have scope: "db_scope db' = db_scope db" by (simp add: db')
  moreover have "rootSettled db' = rootSettled db" by (simp add: rootSettled_def fun_eq_iff db')
  ultimately show ?thesis
    using assms(1,3,4) unfolding journal_ok_def scope_congs [OF scope]
    by (auto simp: findRoot_None_iff rootSettled_def)
qed

lemma nextOrdinal_ok:
  assumes "journal_ok db"
  shows "nextOrdinal db e = int (length (stepsOf db e)) + 1"
proof -
  have "fold max (map int [1..<Suc n]) 0 = int n" for n
    by (induction n) auto
  then show ?thesis using assms by (simp add: nextOrdinal_def journal_ok_def del: upt_Suc)
qed

lemma journal_ok_insertStep:
  assumes ok: "journal_ok db" and ins: "insertStep db row = Inr db'"
    and ordinal: "s_ordinal row = nextOrdinal db (s_execution_id row)"
    and rt: "findRoot db (s_execution_id row) = Some rt" "r_phase rt \<noteq> Closed" "stepOk db rt row"
    and lineage: "priorLineage (scopeOwner db) (db_steps db) row"
  shows "journal_ok db'"
proof -
  have db': "db' = db\<lparr>db_steps := db_steps db @ [row]\<rparr>"
    and new: "findStep db (s_execution_id row) (s_step_id row) = None"
      "s_invocation_id row \<notin> s_invocation_id ` set (db_steps db)"
    using ins by (auto simp: insertStep_def split: if_splits)
  have scope: "db_scope db' = db_scope db" by (simp add: db')
  have uniq: "distinct (map r_id (db_executions db))" using ok by (simp add: journal_ok_def)
  have settled: "rootSettled db' r" if "r \<in> set (db_executions db)" for r
  proof -
    have "rootSettled db r" using ok that by (simp add: journal_ok_def)
    moreover have "r_phase r = Closed \<Longrightarrow> r_id r \<noteq> s_execution_id row"
      using rt that findRoot_unique [OF uniq] by (metis option.inject)
    ultimately show ?thesis by (auto simp: rootSettled_def db' stepsOf_append)
  qed
  have "distinct (map stepKey (db_steps db'))"
    using ok new(1) by (auto simp: journal_ok_def db' findStep_None_iff stepKey_def)
  moreover have "map s_ordinal (stepsOf db' e) = map int [1..<Suc (length (stepsOf db' e))]" for e
    using ok ordinal nextOrdinal_ok [OF ok] by (auto simp: journal_ok_def db' stepsOf_append)
  moreover have "\<exists>r\<in>set (db_executions db). r_id r = s_execution_id row \<and> stepOk db r row"
    using rt findRoot_SomeD by blast
  ultimately show ?thesis
    using ok new(2) lineage settled unfolding journal_ok_def scope_congs [OF scope]
    by (auto simp: db')
qed

lemma updateRootE:
  assumes "updateRoot db e n0 change = Inr (db', n)"
  obtains f where "f = (\<lambda>r. if r_id r = e \<and> r_revision r = n0 then change r else r)"
    "db' = db\<lparr>db_executions := map f (db_executions db)\<rparr>"
    "n = length (filter (\<lambda>r. r_id r = e \<and> r_revision r = n0) (db_executions db))"
    "\<And>r. r \<in> set (db_executions db) \<Longrightarrow> rootIdentityKept r (f r)"
    "\<And>r. r \<in> set (db_executions db) \<Longrightarrow> r_id r = e \<Longrightarrow> r_revision r = n0 \<Longrightarrow> sqlRootChecks (db_scope db) (f r)"
  using assms by (auto simp: updateRoot_def Let_def rootIdentityKept_def split: if_splits)

lemma journal_ok_updateRoot:
  assumes ok: "journal_ok db" and upd: "updateRoot db e n0 change = Inr (db', n)"
    and valid: "\<And>r. r \<in> set (db_executions db) \<Longrightarrow> r_id r = e \<Longrightarrow> r_revision r = n0 \<Longrightarrow>
      sqlRootChecks (db_scope db) (change r) \<Longrightarrow> rootOk db (change r) \<and> rootSettled db (change r)"
  shows "journal_ok db'"
proof -
  obtain f where f: "f = (\<lambda>r. if r_id r = e \<and> r_revision r = n0 then change r else r)"
    and db': "db' = db\<lparr>db_executions := map f (db_executions db)\<rparr>"
    and kept: "\<And>r. r \<in> set (db_executions db) \<Longrightarrow> rootIdentityKept r (f r)"
    and sql: "\<And>r. r \<in> set (db_executions db) \<Longrightarrow> r_id r = e \<Longrightarrow> r_revision r = n0 \<Longrightarrow> sqlRootChecks (db_scope db) (f r)"
    by (rule updateRootE [OF upd]) blast
  have scope: "db_scope db' = db_scope db" by (simp add: db')
  have settled: "rootSettled db' = rootSettled db" by (simp add: rootSettled_def fun_eq_iff db')
  have ids: "map r_id (map f (db_executions db)) = map r_id (db_executions db)"
    using kept by (simp add: rootIdentityKept_def)
  have steps: "stepOk db (f r) s = stepOk db r s" if "r \<in> set (db_executions db)" for r s
    using kept [OF that] by (simp add: stepOk_def rootIdentityKept_def)
  have "rootOk db (f r) \<and> rootSettled db (f r)" if "r \<in> set (db_executions db)" for r
    using ok valid [OF that] sql [OF that] that by (simp add: f journal_ok_def)
  moreover have "\<exists>r\<in>set (map f (db_executions db)). r_id r = s_execution_id s \<and> stepOk db r s"
    if "s \<in> set (db_steps db)" for s
  proof -
    obtain r where "r \<in> set (db_executions db)" "r_id r = s_execution_id s" "stepOk db r s"
      using ok \<open>s \<in> set (db_steps db)\<close> by (auto simp: journal_ok_def)
    then show ?thesis
      using kept steps by (intro bexI [of _ "f r"]) (auto simp: rootIdentityKept_def)
  qed
  moreover have "stepsOf db' = stepsOf db" by (simp add: db' fun_eq_iff)
  ultimately show ?thesis
    using ok ids unfolding journal_ok_def scope_congs [OF scope] settled by (simp add: db' del: map_map upt_Suc)
qed

lemma settlesOnce_identity: "settlesOnce s s' \<Longrightarrow> stepIdentity s' = stepIdentity s"
  by (simp add: settlesOnce_def stepIdentity_def stepKey_def)

lemma updateIntentStepE:
  assumes "updateIntentStep db e i change = Inr (db', n)"
  obtains f where "f = (\<lambda>s. if stepKey s = (e, i) \<and> s_state s = Intent then change s else s)"
    "db' = db\<lparr>db_steps := map f (db_steps db)\<rparr>"
    "n = length (filter (\<lambda>s. stepKey s = (e, i) \<and> s_state s = Intent) (db_steps db))"
    "\<And>s. s \<in> set (db_steps db) \<Longrightarrow> stepIdentity (f s) = stepIdentity s"
    "\<And>s. s \<in> set (db_steps db) \<Longrightarrow> s_state (f s) = Intent \<Longrightarrow> f s = s"
    "\<And>s. s \<in> set (db_steps db) \<Longrightarrow> s_state s \<noteq> Intent \<Longrightarrow> f s = s"
proof
  let ?f = "\<lambda>s. if stepKey s = (e, i) \<and> s_state s = Intent then change s else s"
  have all: "\<forall>s\<in>set (db_steps db). stepKey s = (e, i) \<and> s_state s = Intent \<longrightarrow> settlesOnce s (change s)"
    using assms by (auto simp: updateIntentStep_def Let_def stepKey_def split: if_splits)
  show "db' = db\<lparr>db_steps := map ?f (db_steps db)\<rparr>"
    "n = length (filter (\<lambda>s. stepKey s = (e, i) \<and> s_state s = Intent) (db_steps db))"
    using assms by (auto simp: updateIntentStep_def Let_def stepKey_def conj_assoc split: if_splits)
  show "\<And>s. s \<in> set (db_steps db) \<Longrightarrow> stepIdentity (?f s) = stepIdentity s"
    using all settlesOnce_identity by simp
  show "\<And>s. s \<in> set (db_steps db) \<Longrightarrow> s_state (?f s) = Intent \<Longrightarrow> ?f s = s"
    using all by (auto simp: settlesOnce_def)
qed simp_all

lemma stepsOf_map:
  assumes "db' = db\<lparr>db_steps := map f (db_steps db)\<rparr>"
    and "\<And>s. s \<in> set (db_steps db) \<Longrightarrow> s_execution_id (f s) = s_execution_id s"
  shows "stepsOf db' e = map f (stepsOf db e)"
  using assms(2) by (auto simp: assms(1) stepsOf_def filter_map o_def intro!: arg_cong [of _ _ "map f"] filter_cong)

lemma journal_ok_updateIntentStep:
  assumes ok: "journal_ok db" and upd: "updateIntentStep db e i change = Inr (db', n)"
    and valid: "\<And>s r. s \<in> set (db_steps db) \<Longrightarrow> stepKey s = (e, i) \<Longrightarrow> s_state s = Intent \<Longrightarrow>
      r \<in> set (db_executions db) \<Longrightarrow> r_id r = e \<Longrightarrow> stepOk db r s \<Longrightarrow> stepOk db r (change s)"
  shows "journal_ok db'"
proof -
  obtain f where f: "f = (\<lambda>s. if stepKey s = (e, i) \<and> s_state s = Intent then change s else s)"
    and db': "db' = db\<lparr>db_steps := map f (db_steps db)\<rparr>"
    and ident: "\<And>s. s \<in> set (db_steps db) \<Longrightarrow> stepIdentity (f s) = stepIdentity s"
    and intent: "\<And>s. s \<in> set (db_steps db) \<Longrightarrow> s_state (f s) = Intent \<Longrightarrow> f s = s"
    by (rule updateIntentStepE [OF upd]) blast
  note same = stepIdentity_facts [OF ident]
  have scope: "db_scope db' = db_scope db" by (simp add: db')
  have of: "stepsOf db' x = map f (stepsOf db x)" for x
    using stepsOf_map [OF db'] same by blast
  have sub: "s \<in> set (db_steps db)" if "s \<in> set (stepsOf db x)" for s x
    using that by (simp add: stepsOf_def)
  have maps: "map stepKey (map f (db_steps db)) = map stepKey (db_steps db)"
    "map s_invocation_id (map f (db_steps db)) = map s_invocation_id (db_steps db)"
    "map stepIdentity (map f (db_steps db)) = map stepIdentity (db_steps db)"
    using same ident by simp_all
  have ords: "map s_ordinal (map f (stepsOf db x)) = map s_ordinal (stepsOf db x)" for x
    using same sub by simp
  have settled: "rootSettled db' r" if "r \<in> set (db_executions db)" for r
  proof -
    have "rootSettled db r" using ok that by (simp add: journal_ok_def)
    then show ?thesis using intent sub by (fastforce simp: rootSettled_def of)
  qed
  have steps: "\<exists>r\<in>set (db_executions db). r_id r = s_execution_id (f s) \<and> stepOk db r (f s)"
    if s: "s \<in> set (db_steps db)" for s
  proof -
    obtain r where "r \<in> set (db_executions db)" "r_id r = s_execution_id s" "stepOk db r s"
      using ok s by (auto simp: journal_ok_def)
    then show ?thesis
      using valid [OF s] by (intro bexI [of _ r]) (auto simp: same s, auto simp: f stepKey_def)
  qed
  show ?thesis
    using ok maps ords lineageOk_identity [OF maps(3)] settled steps
    unfolding journal_ok_def scope_congs [OF scope] of by (simp add: db' del: map_map upt_Suc)
qed

subsection \<open>Preservation by the operations\<close>

lemma checkIntentD:
  assumes "checkIntent db input = Inr ()"
  shows "refSchema (ad_ref (ji_execution input))" "er_owner (ad_ref (ji_execution input)) = scopeOwner db"
    "WorkOwnerSchema (scopeOwner db)" "db_inTransaction db"
    "controlSchema (ji_control input)" "spanSchema (ji_span input)" "spanSchema (ad_span (ji_execution input))"
    "definitionSchema (ad_definitionVersion (ji_execution input))"
    "succeeds (requireDefinition db (ad_definitionVersion (ji_execution input)))"
    "succeeds (requireProducer db (ad_definitionVersion (ji_execution input)) (ct_kind (ji_control input)))"
    "textSchema (ad_workId (ji_execution input))" "textSchema (ad_fingerprint (ji_execution input))"
    "textSchema (ji_stepId input)" "sp_endTimeUnixNano (ji_span input) = None"
    "sp_endTimeUnixNano (ad_span (ji_execution input)) = None"
    "ct_workId (ji_control input) = ad_workId (ji_execution input)"
    "ct_definitionVersion (ji_control input) = ad_definitionVersion (ji_execution input)"
  using assms
  by (simp_all add: checkIntent_def requireWriter_def result_simps requireDefinition_succeeds
      requireProducer_succeeds Let_def)

lemma ensureRoot_frame:
  assumes "ensureRoot db admission = Inr db1"
  shows "db_scope db1 = db_scope db" "db_steps db1 = db_steps db"
    "db_inTransaction db1 = db_inTransaction db" "db_turns db1 = db_turns db"
  using assms by (auto simp: ensureRoot_def insertRoot_def result_simps split: option.splits if_splits)

lemma journal_ok_ensureRoot:
  assumes ok: "journal_ok db" and check: "checkIntent db input = Inr ()"
    and ins: "ensureRoot db (ji_execution input) = Inr db1"
  shows "journal_ok db1"
proof (cases "findRoot db (er_executionId (ad_ref (ji_execution input)))")
  case (Some r)
  then show ?thesis using ok ins by (simp add: ensureRoot_def)
next
  case None
  note c = checkIntentD [OF check]
  let ?a = "ji_execution input"
  let ?row = "\<lparr>r_id = er_executionId (ad_ref ?a), r_owner = er_owner (ad_ref ?a), r_work_id = ad_workId ?a,
    r_definition_version = ad_definitionVersion ?a, r_input_fingerprint = ad_fingerprint ?a, r_phase = Open,
    r_revision = 1, r_terminal_cause = None, r_exclusion_refs = ad_exclusionRefs ?a, r_span = ad_span ?a\<rparr>"
  have "insertRoot db ?row = Inr db1" and "textsSchema (ad_exclusionRefs ?a)"
    using ins None by (auto simp: ensureRoot_def result_simps)
  moreover have "rootOk db ?row"
    using c calculation(2) by (simp add: rootOk_def rootRowSchema_def refSchema_def countSchema_def MAX_SAFE_INTEGER_def)
  ultimately show ?thesis using journal_ok_insertRoot [OF ok] by simp
qed

lemma checkParentD:
  assumes "checkParent db input = Inr ()"
  shows "nullable textSchema (ji_parentStepId input)"
    "ji_parent input = Some p \<Longrightarrow> \<exists>q\<in>set (db_steps db). ip_ref p = rowRef db q
       \<and> deadlineOf q = ip_deadlineUnixNano p \<and> s_state q = Intent
       \<and> \<not> exceedsCap (ct_deadlineUnixNano (ji_control input)) (ip_deadlineUnixNano p)"
proof -
  show "nullable textSchema (ji_parentStepId input)"
    using assms
    by (auto simp: checkParent_def result_simps storedStep_Inr_iff stepRefSchema_def split: option.splits if_splits)
  assume "ji_parent input = Some p"
  then obtain parent where stored: "storedStep db (ip_ref p) = Inr parent"
      and "s_state (ss_row parent) = Intent" "ip_deadlineUnixNano p = ct_deadlineUnixNano (ss_control parent)"
      "\<not> exceedsCap (ct_deadlineUnixNano (ji_control input)) (ip_deadlineUnixNano p)"
    using assms by (auto simp: checkParent_def result_simps)
  with storedStep_ref [OF stored]
  show "\<exists>q\<in>set (db_steps db). ip_ref p = rowRef db q
       \<and> deadlineOf q = ip_deadlineUnixNano p \<and> s_state q = Intent
       \<and> \<not> exceedsCap (ct_deadlineUnixNano (ji_control input)) (ip_deadlineUnixNano p)"
    by (intro bexI [of _ "ss_row parent"]) (auto simp: deadlineOf_def)
qed

lemma checkInspectionD:
  assumes "checkInspection db input = Inr ()" "ji_inspectedStep input = Some ref"
  shows "textSchema (er_executionId (sr_execution ref))" "textSchema (sr_stepId ref)"
    "\<exists>q\<in>set (db_steps db). stepKey q = (er_executionId (sr_execution ref), sr_stepId ref)"
proof -
  obtain stored where stored: "storedStep db ref = Inr stored"
    using assms by (auto simp: checkInspection_def result_simps)
  then show "textSchema (er_executionId (sr_execution ref))" "textSchema (sr_stepId ref)"
    by (simp_all add: storedStep_Inr_iff stepRefSchema_def refSchema_def)
  show "\<exists>q\<in>set (db_steps db). stepKey q = (er_executionId (sr_execution ref), sr_stepId ref)"
    using storedStep_ref [OF stored] by (intro bexI [of _ "ss_row stored"]) (auto simp: rowRef_def stepKey_def)
qed

lemma admitIntentE:
  assumes "admitIntent proc db input w = Inr db'"
  obtains db1 db2 rt invocation n e where
    "e = er_executionId (ad_ref (ji_execution input))"
    "ensureRoot db (ji_execution input) = Inr db1"
    "findRoot db1 e = Some rt" "rootOk db1 rt"
    "checkAdmission db1 (rootView db1 (ad_ref (ji_execution input)) rt) input = Inr ()"
    "checkParent db1 input = Inr ()" "checkInspection db1 input = Inr ()"
    "intentInvocation proc db1 input w = Inr invocation" "invocationSchema invocation"
    "in_parent invocation = ji_parent input"
    "countSchema (nextOrdinal db1 e)" "1 \<le> nextOrdinal db1 e"
    "insertStep db1 (intentRow input (nextOrdinal db1 e) invocation) = Inr db2"
    "updateRoot db2 e (r_revision rt) (\<lambda>r. r\<lparr>r_revision := r_revision r + 1\<rparr>) = Inr (db', n)"
  using assms
  by (auto simp: admitIntent_def Let_def result_simps readRoot_Inr_iff intentInvocation_def rootView_def
      split: prod.splits)

lemma journal_ok_admitIntent:
  assumes ok: "journal_ok db" and check: "checkIntent db input = Inr ()"
    and adm: "admitIntent proc db input w = Inr db'"
  shows "journal_ok db'"
proof -
  obtain db1 db2 rt invocation n e where e: "e = er_executionId (ad_ref (ji_execution input))"
    and db1: "ensureRoot db (ji_execution input) = Inr db1"
    and rt: "findRoot db1 e = Some rt" "rootOk db1 rt"
    and adm: "checkAdmission db1 (rootView db1 (ad_ref (ji_execution input)) rt) input = Inr ()"
    and parent: "checkParent db1 input = Inr ()" and inspect: "checkInspection db1 input = Inr ()"
    and inv: "invocationSchema invocation" "in_parent invocation = ji_parent input"
    and ord: "countSchema (nextOrdinal db1 e)" "1 \<le> nextOrdinal db1 e"
    and ins: "insertStep db1 (intentRow input (nextOrdinal db1 e) invocation) = Inr db2"
    and upd: "updateRoot db2 e (r_revision rt) (\<lambda>r. r\<lparr>r_revision := r_revision r + 1\<rparr>) = Inr (db', n)"
    by (rule admitIntentE [OF adm])
  let ?row = "intentRow input (nextOrdinal db1 e) invocation"
  have scope: "db_scope db1 = db_scope db" using ensureRoot_frame [OF db1] by simp
  note c = checkIntentD [OF check, folded scope_congs [OF scope]]
  have ok1: "journal_ok db1" by (rule journal_ok_ensureRoot [OF ok check db1])
  have fields: "s_execution_id ?row = e" "s_ordinal ?row = nextOrdinal db1 e" "s_control ?row = ji_control input"
    by (simp_all add: intentRow_def e)
  have open_root: "r_phase rt \<noteq> Closed" "r_definition_version rt = ad_definitionVersion (ji_execution input)"
    "r_work_id rt = ad_workId (ji_execution input)"
    using adm by (auto simp: checkAdmission_def rootView_def Let_def result_simps)
  have "stepOk db1 rt ?row"
    using c inv ord open_root checkParentD(1) [OF parent] checkInspectionD(1,2) [OF inspect]
    by (auto simp: stepOk_def stepRowSchema_def intentRow_def e refSchema_def inspectedExecutionId_def
        inspectedStepId_def nullable_def controlSchema_def split: option.splits)
  moreover have "priorLineage (scopeOwner db1) (db_steps db1) ?row"
    using checkParentD(2) [OF parent] checkInspectionD(3) [OF inspect]
    by (auto simp: priorLineage_def intentRow_def inv inspectedExecutionId_def inspectedStepId_def
        deadlineOf_def rowRef_def)
  ultimately have ok2: "journal_ok db2"
    using journal_ok_insertStep [OF ok1 ins] rt(1) open_root(1) by (simp add: fields)
  show ?thesis
  proof (rule journal_ok_updateRoot [OF ok2 upd])
    fix r assume r: "r \<in> set (db_executions db2)" and sql: "sqlRootChecks (db_scope db2) (r\<lparr>r_revision := r_revision r + 1\<rparr>)"
    then have "rootOk db2 r" "rootSettled db2 r" using ok2 by (auto simp: journal_ok_def)
    then show "rootOk db2 (r\<lparr>r_revision := r_revision r + 1\<rparr>) \<and> rootSettled db2 (r\<lparr>r_revision := r_revision r + 1\<rparr>)"
      using sql by (simp add: rootOk_def rootRowSchema_def rootSettled_def sqlRootChecks_def countSchema_def)
  qed
qed

lemma writeExecutionJournalIntent_cases:
  assumes "writeExecutionJournalIntent proc db input w = Inr (db', invocation)"
  obtains "checkIntent db input = Inr ()" "db' = db"
      "findStep db (er_executionId (ad_ref (ji_execution input))) (ji_stepId input) \<noteq> None"
  | "checkIntent db input = Inr ()" "admitIntent proc db input w = Inr db'"
      "findStep db (er_executionId (ad_ref (ji_execution input))) (ji_stepId input) = None"
  using assms by (auto simp: writeExecutionJournalIntent_def result_simps split: option.splits)

lemma journal_ok_write:
  "journal_ok db \<Longrightarrow> writeExecutionJournalIntent proc db input w = Inr (db', invocation) \<Longrightarrow> journal_ok db'"
  by (erule writeExecutionJournalIntent_cases) (auto intro: journal_ok_admitIntent)

lemma settleE:
  assumes "settleExecutionJournalStep db input = Inr (db', ended)"
  obtains stored rt db1 n1 n2 e i where
    "e = er_executionId (sr_execution (js_ref input))" "i = sr_stepId (js_ref input)"
    "requireWriter db (sr_execution (js_ref input)) = Inr ()"
    "storedStep db (js_ref input) = Inr stored"
    "findRoot db e = Some rt" "ss_root stored = rootView db (sr_execution (js_ref input)) rt"
    "checkSettlement stored input = Inr ()" "checkRelease db stored input = Inr ()"
    "updateIntentStep db e i (settledRow input) = Inr (db1, 1)"
    "updateRoot db1 e (js_expectedExecutionRevision input) (advancedRoot input) = Inr (db', 1)"
    "endedStep db' (js_ref input) = Inr ended"
  using assms
  by (auto simp: settleExecutionJournalStep_def Let_def result_simps storedStep_Inr_iff readRoot_Inr_iff
      split: prod.splits)

lemma checkSettlementD:
  assumes "checkSettlement stored input = Inr ()"
  shows "spanSchema (js_span input)" "js_state input \<noteq> Intent" "s_state (ss_row stored) = Intent"
    "je_revision (ss_root stored) = js_expectedExecutionRevision input" "je_phase (ss_root stored) \<noteq> Closed"
    "sp_endTimeUnixNano (js_span input) \<noteq> None"
    "js_state input = Unknown \<Longrightarrow> su_code (sp_status (js_span input)) = ERROR"
    "keepsSpanIdentity (js_span input) (ss_span stored)"
    "textsSchema (js_outputRefs input)" "textsSchema (js_exclusionRefs input)"
  using assms by (auto simp: checkSettlement_def Let_def result_simps)

lemma checkRelease_closedD:
  assumes "checkRelease db stored input = Inr ()" "js_nextPhase input = Closed"
  shows "js_exclusionRefs input = []" "js_state input \<noteq> Unknown"
    "\<forall>ref\<in>set (je_openSteps (ss_root stored)). sr_stepId ref = sr_stepId (js_ref input)"
  using assms by (auto simp: checkRelease_def result_simps)

lemma mergeSpan_identity:
  assumes "keepsSpanIdentity given old"
  shows "mergeSpan old given = given\<lparr>sp_traceState := orElse (sp_traceState given) (sp_traceState old)\<rparr>"
  using assms by (cases "sp_parentSpanId old") (auto simp: mergeSpan_def keepsSpanIdentity_def)

lemma spanSchema_traceState [simp]: "spanSchema (s\<lparr>sp_traceState := x\<rparr>) = spanSchema s"
  by (cases "sp_endTimeUnixNano s") (simp_all add: spanSchema_def)

lemma controlSchema_outputRefs:
  "controlSchema c \<Longrightarrow> textsSchema refs \<Longrightarrow> controlSchema (c\<lparr>ct_outputRefs := refs\<rparr>)"
  by (simp add: controlSchema_def)

lemma stepOk_settledRow:
  assumes "stepOk db r s" "checkSettlement stored input = Inr ()" "s = ss_row stored"
  shows "stepOk db r (settledRow input s)"
proof -
  note c = checkSettlementD [OF assms(2)]
  have "spanSchema (mergeSpan (s_span s) (js_span input))"
    using c(1) mergeSpan_identity [OF c(8)] by (simp add: assms(3))
  moreover have "controlSchema ((s_control s)\<lparr>ct_outputRefs := js_outputRefs input\<rparr>)"
    using assms(1) c(9) by (simp add: stepOk_def controlSchema_outputRefs)
  ultimately show ?thesis
    using assms(1) c(2,6,7) by (auto simp: stepOk_def settledRow_def stepRowSchema_def mergeSpan_def)
qed

lemma journal_ok_settle:
  assumes ok: "journal_ok db" and settle: "settleExecutionJournalStep db input = Inr (db', ended)"
  shows "journal_ok db'"
proof -
  obtain stored rt db1 n1 n2 e i where ei: "e = er_executionId (sr_execution (js_ref input))" "i = sr_stepId (js_ref input)"
    and stored: "storedStep db (js_ref input) = Inr stored"
    and rt: "findRoot db e = Some rt" "ss_root stored = rootView db (sr_execution (js_ref input)) rt"
    and check: "checkSettlement stored input = Inr ()" "checkRelease db stored input = Inr ()"
    and upd1: "updateIntentStep db e i (settledRow input) = Inr (db1, 1)"
    and upd2: "updateRoot db1 e (js_expectedExecutionRevision input) (advancedRoot input) = Inr (db', 1)"
    and ended: "endedStep db' (js_ref input) = Inr ended"
    by (rule settleE [OF settle])
  have row: "findStep db e i = Some (ss_row stored)" using stored by (simp add: storedStep_Inr_iff ei)
  have uniq: "distinct (map stepKey (db_steps db))" "distinct (map r_id (db_executions db))"
    using ok by (simp_all add: journal_ok_def)
  have ok1: "journal_ok db1"
  proof (rule journal_ok_updateIntentStep [OF ok upd1])
    fix s r assume s: "s \<in> set (db_steps db)" "stepKey s = (e, i)" and "stepOk db r s"
    moreover have "s = ss_row stored" using row s findStep_unique [OF uniq(1), of e i s] by simp
    ultimately show "stepOk db r (settledRow input s)" using stepOk_settledRow [OF _ check(1)] by blast
  qed
  obtain f where f: "f = (\<lambda>s. if stepKey s = (e, i) \<and> s_state s = Intent then settledRow input s else s)"
    and db1: "db1 = db\<lparr>db_steps := map f (db_steps db)\<rparr>"
    and same: "\<And>s. s \<in> set (db_steps db) \<Longrightarrow> stepIdentity (f s) = stepIdentity s"
    and intent: "\<And>s. s \<in> set (db_steps db) \<Longrightarrow> s_state (f s) = Intent \<Longrightarrow> f s = s"
    by (rule updateIntentStepE [OF upd1]) blast
  obtain g where g: "g = (\<lambda>r. if r_id r = e \<and> r_revision r = js_expectedExecutionRevision input then advancedRoot input r else r)"
    and db': "db' = db1\<lparr>db_executions := map g (db_executions db1)\<rparr>"
    by (rule updateRootE [OF upd2]) blast
  have scope: "db_scope db1 = db_scope db'" by (simp add: db')
  have no_open: "s_state s \<noteq> Intent" if closed: "js_nextPhase input = Closed" and s: "s \<in> set (stepsOf db1 e)" for s
  proof
    assume intent_s: "s_state s = Intent"
    obtain s0 where s0: "s0 \<in> set (db_steps db)" "s = f s0" using s by (auto simp: stepsOf_def db1)
    then have "s = s0" using intent intent_s by blast
    then have "s0 \<in> set (openRows db e)" using s s0 intent_s by (auto simp: openRows_def stepsOf_def)
    then have "s_step_id s0 = i"
      using checkRelease_closedD(3) [OF check(2) closed] findRoot_SomeD [OF rt(1)]
      by (auto simp: rt(2) rootView_def ei)
    moreover have "s_execution_id s0 = e" using s \<open>s = s0\<close> by (simp add: stepsOf_def)
    ultimately have "stepKey s0 = (e, i)" by (simp add: stepKey_def)
    then have "f s0 = settledRow input s0" using intent_s \<open>s = s0\<close> by (simp add: f)
    then show False using intent_s checkSettlementD(2) [OF check(1)] s0(2) by (simp add: settledRow_def)
  qed
  show ?thesis
  proof (rule journal_ok_updateRoot [OF ok1 upd2])
    fix r assume r: "r \<in> set (db_executions db1)" "r_id r = e" "r_revision r = js_expectedExecutionRevision input"
    obtain row' where row': "findRoot db' e = Some row'" "rootOk db' row'"
      using ended by (auto simp: endedStep_def result_simps storedStep_Inr_iff readRoot_Inr_iff ei)
    have "findRoot db' e = Some (g r)"
      using r by (subst findRoot_unique) (use ok1 in \<open>auto simp: db' g advancedRoot_def journal_ok_def distinct_map inj_on_def\<close>)
    then have "rootOk db1 (advancedRoot input r)"
      using row' r scope_congs(4) [OF scope] by (simp add: g)
    moreover have "rootSettled db1 (advancedRoot input r)"
      using no_open checkRelease_closedD(1) [OF check(2)] r(2) by (auto simp: rootSettled_def advancedRoot_def)
    ultimately show "rootOk db1 (advancedRoot input r) \<and> rootSettled db1 (advancedRoot input r)" ..
  qed
qed

subsection \<open>Exact effect of the operations\<close>

lemma findRoot_update:
  assumes "distinct (map r_id (db_executions db))" "updateRoot db e n0 change = Inr (db', n)"
    and "findRoot db e = Some r" "r_revision r = n0"
  shows "findRoot db' x = (if x = e then Some (change r) else findRoot db x)"
    "db_steps db' = db_steps db" "db_scope db' = db_scope db" "db_inTransaction db' = db_inTransaction db"
proof -
  obtain f where f: "f = (\<lambda>r. if r_id r = e \<and> r_revision r = n0 then change r else r)"
    and db': "db' = db\<lparr>db_executions := map f (db_executions db)\<rparr>"
    and kept: "\<And>r. r \<in> set (db_executions db) \<Longrightarrow> rootIdentityKept r (f r)"
    by (rule updateRootE [OF assms(2)]) blast
  have "findRoot db' x = map_option f (findRoot db x)"
    unfolding findRoot_def db' using kept by (simp add: find_map_cond rootIdentityKept_def)
  moreover have "f r = change r" using assms(3,4) findRoot_SomeD [OF assms(3)] by (simp add: f)
  moreover have "f y = y" if "findRoot db x = Some y" "x \<noteq> e" for y
    using findRoot_SomeD [OF that(1)] that(2) by (auto simp: f)
  ultimately show "findRoot db' x = (if x = e then Some (change r) else findRoot db x)"
    using assms(3) by (cases "findRoot db x") auto
  show "db_steps db' = db_steps db" "db_scope db' = db_scope db" "db_inTransaction db' = db_inTransaction db"
    by (simp_all add: db')
qed

lemma ensureRoot_findRoot:
  assumes "ensureRoot db admission = Inr db1" "findRoot db x = Some r"
  shows "findRoot db1 x = Some r"
  using assms
  by (auto simp: ensureRoot_def insertRoot_def findRoot_def find_append result_simps split: option.splits if_splits)

lemma admitIntent_effect:
  assumes ok: "journal_ok db" and check: "checkIntent db input = Inr ()"
    and adm: "admitIntent proc db input w = Inr db'"
  obtains db1 rt invocation row e where
    "e = er_executionId (ad_ref (ji_execution input))"
    "ensureRoot db (ji_execution input) = Inr db1"
    "findRoot db1 e = Some rt" "r_phase rt \<noteq> Closed"
    "intentInvocation proc db1 input w = Inr invocation"
    "row = intentRow input (nextOrdinal db e) invocation"
    "findStep db e (ji_stepId input) = None"
    "db_steps db' = db_steps db @ [row]" "db_scope db' = db_scope db" "db_inTransaction db' = db_inTransaction db"
    "r_input_fingerprint rt = ad_fingerprint (ji_execution input)"
    "\<And>x. findRoot db' x = (if x = e then Some (rt\<lparr>r_revision := r_revision rt + 1\<rparr>) else findRoot db1 x)"
proof -
  obtain db1 db2 rt invocation n e where e: "e = er_executionId (ad_ref (ji_execution input))"
    and db1: "ensureRoot db (ji_execution input) = Inr db1"
    and rt: "findRoot db1 e = Some rt"
    and admission: "checkAdmission db1 (rootView db1 (ad_ref (ji_execution input)) rt) input = Inr ()"
    and inv: "intentInvocation proc db1 input w = Inr invocation"
    and ins: "insertStep db1 (intentRow input (nextOrdinal db1 e) invocation) = Inr db2"
    and upd: "updateRoot db2 e (r_revision rt) (\<lambda>r. r\<lparr>r_revision := r_revision r + 1\<rparr>) = Inr (db', n)"
    by (rule admitIntentE [OF adm])
  have "journal_ok db1" by (rule journal_ok_ensureRoot [OF ok check db1])
  then have uniq: "distinct (map r_id (db_executions db1))" by (simp add: journal_ok_def)
  have frame: "db_steps db1 = db_steps db" "db_scope db1 = db_scope db" "db_inTransaction db1 = db_inTransaction db"
    using ensureRoot_frame [OF db1] by simp_all
  then have ordinal: "nextOrdinal db1 e = nextOrdinal db e" by (simp add: nextOrdinal_def stepsOf_def)
  have db2: "db2 = db1\<lparr>db_steps := db_steps db1 @ [intentRow input (nextOrdinal db1 e) invocation]\<rparr>"
    and new: "findStep db1 e (ji_stepId input) = None"
    using ins by (auto simp: insertStep_def intentRow_def e split: if_splits)
  have "distinct (map r_id (db_executions db2))" "findRoot db2 e = Some rt"
    using uniq rt by (simp_all add: db2)
  note effect = findRoot_update [OF this(1) upd this(2) refl]
  show ?thesis
  proof (rule that [OF e db1 rt _ inv refl])
    show "r_phase rt \<noteq> Closed" using admission by (auto simp: checkAdmission_def rootView_def Let_def result_simps)
    show "findStep db e (ji_stepId input) = None" using new by (simp add: findStep_def frame)
    show "r_input_fingerprint rt = ad_fingerprint (ji_execution input)"
      using admission by (auto simp: checkAdmission_def rootView_def Let_def result_simps)
  qed (use effect frame in \<open>simp_all add: db2 ordinal\<close>)
qed

lemma settle_effect:
  assumes ok: "journal_ok db" and settle: "settleExecutionJournalStep db input = Inr (db', ended)"
  obtains stored rt s e i where
    "e = er_executionId (sr_execution (js_ref input))" "i = sr_stepId (js_ref input)"
    "storedStep db (js_ref input) = Inr stored" "ss_row stored = s"
    "ss_root stored = rootView db (sr_execution (js_ref input)) rt"
    "findRoot db e = Some rt" "findStep db e i = Some s" "s_state s = Intent"
    "r_revision rt = js_expectedExecutionRevision input" "r_phase rt \<noteq> Closed"
    "checkSettlement stored input = Inr ()" "checkRelease db stored input = Inr ()"
    "db_steps db' = map (\<lambda>r. if stepKey r = (e, i) then settledRow input r else r) (db_steps db)"
    "db_scope db' = db_scope db"
    "\<And>x. findRoot db' x = (if x = e then Some (advancedRoot input rt) else findRoot db x)"
    "endedStep db' (js_ref input) = Inr ended"
proof -
  obtain stored rt db1 n1 n2 e i where ei: "e = er_executionId (sr_execution (js_ref input))" "i = sr_stepId (js_ref input)"
    and stored: "storedStep db (js_ref input) = Inr stored"
    and rt: "findRoot db e = Some rt" "ss_root stored = rootView db (sr_execution (js_ref input)) rt"
    and check: "checkSettlement stored input = Inr ()" "checkRelease db stored input = Inr ()"
    and upd1: "updateIntentStep db e i (settledRow input) = Inr (db1, 1)"
    and upd2: "updateRoot db1 e (js_expectedExecutionRevision input) (advancedRoot input) = Inr (db', 1)"
    and ended: "endedStep db' (js_ref input) = Inr ended"
    by (rule settleE [OF settle])
  have row: "findStep db e i = Some (ss_row stored)" using stored by (simp add: storedStep_Inr_iff ei)
  have uniq: "distinct (map stepKey (db_steps db))" "distinct (map r_id (db_executions db))"
    using ok by (simp_all add: journal_ok_def)
  obtain f where f: "f = (\<lambda>s. if stepKey s = (e, i) \<and> s_state s = Intent then settledRow input s else s)"
    and db1: "db1 = db\<lparr>db_steps := map f (db_steps db)\<rparr>"
    by (rule updateIntentStepE [OF upd1]) blast
  have state: "s_state (ss_row stored) = Intent" "r_revision rt = js_expectedExecutionRevision input" "r_phase rt \<noteq> Closed"
    using checkSettlementD(3-5) [OF check(1)] by (simp_all add: rt(2) rootView_def)
  have "map f (db_steps db) = map (\<lambda>r. if stepKey r = (e, i) then settledRow input r else r) (db_steps db)"
  proof (rule map_cong [OF refl])
    fix r assume "r \<in> set (db_steps db)"
    then have "r = ss_row stored" if "stepKey r = (e, i)"
      using row findStep_unique [OF uniq(1), of e i r] that by simp
    then show "f r = (if stepKey r = (e, i) then settledRow input r else r)" using state by (auto simp: f)
  qed
  moreover have "distinct (map r_id (db_executions db1))" "findRoot db1 e = Some rt"
    using uniq rt by (simp_all add: db1)
  note effect = findRoot_update [OF this(1) upd2 this(2) state(2)]
  ultimately show ?thesis
    using that [OF ei stored refl rt(2,1) row state check] effect ended by (simp add: db1)
qed

end
