(* ===== verification/Journal_History.thy ===== *)
theory Journal_History
  imports Journal_Invariant
begin

text \<open>
  Histories of the execution journal: any sequence of operations on one database.

  The locale \<open>fenced_journal\<close> is the contract that the users of the journal rely on: entries are
  never lost, an ended entry is final, and the revision of an execution moves whenever anything of
  that execution changes. It is interpreted on the operations of \<^verbatim>\<open>execution-journal.ts\<close>.
\<close>

subsection \<open>Steps of a journal\<close>

inductive journal_step :: "JournalDb \<Rightarrow> JournalDb \<Rightarrow> bool" where
  intent: "writeExecutionJournalIntent proc db input w = Inr (db', invocation) \<Longrightarrow> journal_step db db'"
| settle: "settleExecutionJournalStep db settlement = Inr (db', ended) \<Longrightarrow> journal_step db db'"
| control: "applyControlExecutionJournal proc db command = Inr (db', reply) \<Longrightarrow> journal_step db db'"
| session: "journal_step db (db\<lparr>db_inTransaction := b, db_turns := turns\<rparr>)"

inductive_cases journal_stepE: "journal_step db db'"

definition journal_initial :: "JournalDb \<Rightarrow> bool" where
  "journal_initial db = (db_executions db = [] \<and> db_steps db = [])"

definition journal_reachable :: "JournalDb \<Rightarrow> bool" where
  "journal_reachable db = (\<exists>db0. journal_initial db0 \<and> journal_step\<^sup>*\<^sup>* db0 db)"

text \<open>A native mutation is a settlement or an intent, or the settlement followed by the intent that
  acknowledges it.\<close>

lemma applyControl_cases:
  assumes "applyControlExecutionJournal proc db command = Inr (db', reply)"
  obtains input invocation where "writeExecutionJournalIntent proc db input None = Inr (db', invocation)"
  | input ended where "settleExecutionJournalStep db input = Inr (db', ended)"
  | input ended db1 consume invocation where "settleExecutionJournalStep db input = Inr (db1, ended)"
      "writeExecutionJournalIntent proc db1 consume None = Inr (db', invocation)"
  using assms
  by (auto simp: applyControlExecutionJournal_def result_simps split: JournalCommand.splits option.splits prod.splits)

lemma journal_ok_step: "journal_step db db' \<Longrightarrow> journal_ok db \<Longrightarrow> journal_ok db'"
proof (induction rule: journal_step.induct)
  case (control proc db command db' reply)
  from control.hyps show ?case
    by (rule applyControl_cases) (use control.prems journal_ok_write journal_ok_settle in blast)+
next
  case (session db turns b)
  let ?db' = "db\<lparr>db_inTransaction := b, db_turns := turns\<rparr>"
  have scope: "db_scope ?db' = db_scope db" by simp
  have "stepsOf ?db' = stepsOf db" "rootSettled ?db' = rootSettled db"
    by (simp_all add: stepsOf_def rootSettled_def fun_eq_iff)
  with session.prems show ?case
    unfolding journal_ok_def scope_congs [OF scope] by simp
qed (use journal_ok_write journal_ok_settle in blast)+

lemma journal_ok_initial: "journal_initial db \<Longrightarrow> journal_ok db"
  by (simp add: journal_initial_def journal_ok_def stepsOf_def lineageOk_def)

lemma journal_ok_reachable: "journal_reachable db \<Longrightarrow> journal_ok db"
proof -
  have "journal_step\<^sup>*\<^sup>* db0 db \<Longrightarrow> journal_ok db0 \<Longrightarrow> journal_ok db" for db0
    by (induction rule: rtranclp_induct) (auto intro: journal_ok_step)
  then show "journal_reachable db \<Longrightarrow> journal_ok db"
    using journal_ok_initial by (auto simp: journal_reachable_def)
qed

subsection \<open>The contract of a fenced journal\<close>

locale fenced_journal =
  fixes ok :: "'db \<Rightarrow> bool"
    and step :: "'db \<Rightarrow> 'db \<Rightarrow> bool"
    and entry :: "'db \<Rightarrow> 'k \<Rightarrow> 'v option"
    and identity :: "'v \<Rightarrow> 'i"
    and final :: "'v \<Rightarrow> bool"
    and unit_of :: "'db \<Rightarrow> 'u \<Rightarrow> 'x option"
    and unit_identity :: "'x \<Rightarrow> 'j"
    and revision :: "'x \<Rightarrow> int"
    and sealed :: "'x \<Rightarrow> bool"
  assumes step_ok: "\<lbrakk>ok db; step db db'\<rbrakk> \<Longrightarrow> ok db'"
    and step_entry: "\<lbrakk>ok db; step db db'; entry db k = Some v\<rbrakk> \<Longrightarrow>
      \<exists>v'. entry db' k = Some v' \<and> identity v' = identity v \<and> (final v \<longrightarrow> v' = v)"
    and step_unit: "\<lbrakk>ok db; step db db'; unit_of db u = Some x\<rbrakk> \<Longrightarrow>
      \<exists>x'. unit_of db' u = Some x' \<and> unit_identity x' = unit_identity x
        \<and> (x' = x \<or> revision x < revision x' \<and> \<not> sealed x)"
begin

lemma steps_ok: "step\<^sup>*\<^sup>* db db' \<Longrightarrow> ok db \<Longrightarrow> ok db'"
  by (induction rule: rtranclp_induct) (auto intro: step_ok)

lemma steps_entry:
  "\<lbrakk>step\<^sup>*\<^sup>* db db'; ok db; entry db k = Some v\<rbrakk> \<Longrightarrow>
    \<exists>v'. entry db' k = Some v' \<and> identity v' = identity v \<and> (final v \<longrightarrow> v' = v)"
proof (induction rule: rtranclp_induct)
  case (step db1 db2)
  then obtain v1 where "entry db1 k = Some v1" "identity v1 = identity v" "final v \<longrightarrow> v1 = v" by blast
  moreover have "ok db1" using step steps_ok by blast
  ultimately show ?case using step_entry [OF _ step.hyps(2)] by metis
qed auto

lemma steps_unit:
  "\<lbrakk>step\<^sup>*\<^sup>* db db'; ok db; unit_of db u = Some x\<rbrakk> \<Longrightarrow>
    \<exists>x'. unit_of db' u = Some x' \<and> unit_identity x' = unit_identity x
      \<and> (x' = x \<or> revision x < revision x' \<and> \<not> sealed x)"
proof (induction rule: rtranclp_induct)
  case (step db1 db2)
  then obtain x1 where x1: "unit_of db1 u = Some x1" "unit_identity x1 = unit_identity x"
      "x1 = x \<or> revision x < revision x1 \<and> \<not> sealed x" by blast
  moreover have "ok db1" using step steps_ok by blast
  ultimately show ?case using step_unit [OF _ step.hyps(2) x1(1)] by force
qed auto

text \<open>Equal revisions mean that nothing of the unit changed in between.\<close>

lemma revision_fences:
  assumes "step\<^sup>*\<^sup>* db db'" "ok db" "unit_of db u = Some x" "unit_of db' u = Some x'"
    and "revision x' = revision x"
  shows "x' = x"
  using steps_unit [OF assms(1-3)] assms(4,5) by auto

lemma sealed_forever:
  "\<lbrakk>step\<^sup>*\<^sup>* db db'; ok db; unit_of db u = Some x; sealed x\<rbrakk> \<Longrightarrow> unit_of db' u = Some x"
  using steps_unit by force

end

subsection \<open>The journal keeps the contract\<close>

type_synonym journal_unit = "RootRow \<times> StepRow list"

definition journal_unit :: "JournalDb \<Rightarrow> string \<Rightarrow> journal_unit option" where
  "journal_unit db e = map_option (\<lambda>r. (r, stepsOf db e)) (findRoot db e)"

definition rootIdentity :: "RootRow \<Rightarrow> string \<times> WorkOwner \<times> string \<times> string \<times> string \<times> string \<times> string \<times> int" where
  "rootIdentity r =
    (r_id r, r_owner r, r_work_id r, r_definition_version r, r_input_fingerprint r,
     sp_traceId (r_span r), sp_spanId (r_span r), sp_startTimeUnixNano (r_span r))"

definition journal_entry :: "JournalDb \<Rightarrow> string \<times> string \<Rightarrow> StepRow option" where
  "journal_entry db k = findStep db (fst k) (snd k)"

definition advances :: "JournalDb \<Rightarrow> JournalDb \<Rightarrow> bool" where
  "advances db db' =
    ((\<forall>k s. journal_entry db k = Some s \<longrightarrow>
        (\<exists>s'. journal_entry db' k = Some s' \<and> stepIdentity s' = stepIdentity s
           \<and> (s_state s \<noteq> Intent \<longrightarrow> s' = s)))
     \<and> (\<forall>e x. journal_unit db e = Some x \<longrightarrow>
        (\<exists>x'. journal_unit db' e = Some x' \<and> rootIdentity (fst x') = rootIdentity (fst x)
           \<and> (x' = x \<or> r_revision (fst x) < r_revision (fst x') \<and> r_phase (fst x) \<noteq> Closed))))"

lemma advances_refl [simp]: "advances db db"
  by (simp add: advances_def)

lemma advances_trans: "advances db db1 \<Longrightarrow> advances db1 db2 \<Longrightarrow> advances db db2"
  unfolding advances_def
proof (elim conjE, intro conjI allI impI, goal_cases)
  case (1 k s)
  then obtain s1 where "journal_entry db1 k = Some s1" "stepIdentity s1 = stepIdentity s" "s_state s \<noteq> Intent \<longrightarrow> s1 = s"
    by blast
  with 1(3) show ?case by metis
next
  case (2 e x)
  then obtain x1 where x1: "journal_unit db1 e = Some x1" "rootIdentity (fst x1) = rootIdentity (fst x)"
      "x1 = x \<or> r_revision (fst x) < r_revision (fst x1) \<and> r_phase (fst x) \<noteq> Closed" by blast
  then obtain x2 where "journal_unit db2 e = Some x2" "rootIdentity (fst x2) = rootIdentity (fst x1)"
      "x2 = x1 \<or> r_revision (fst x1) < r_revision (fst x2) \<and> r_phase (fst x1) \<noteq> Closed"
    using 2(4) by blast
  with x1 show ?case by (intro exI [of _ x2]) auto
qed

lemma advances_write:
  assumes ok: "journal_ok db" and "writeExecutionJournalIntent proc db input w = Inr (db', invocation)"
  shows "advances db db'"
  using assms(2)
proof (cases rule: writeExecutionJournalIntent_cases)
  case 2
  obtain db1 rt invocation row e where e: "e = er_executionId (ad_ref (ji_execution input))"
    and db1: "ensureRoot db (ji_execution input) = Inr db1"
    and rt: "findRoot db1 e = Some rt" "r_phase rt \<noteq> Closed"
    and row: "row = intentRow input (nextOrdinal db e) invocation"
    and steps: "db_steps db' = db_steps db @ [row]"
    and roots: "\<And>x. findRoot db' x = (if x = e then Some (rt\<lparr>r_revision := r_revision rt + 1\<rparr>) else findRoot db1 x)"
    by (rule admitIntent_effect [OF ok 2(1,2)]) blast
  have "journal_entry db' k = Some s" if "journal_entry db k = Some s" for k s
    using that by (simp add: journal_entry_def findStep_def steps find_append)
  moreover have "\<exists>x'. journal_unit db' u = Some x' \<and> rootIdentity (fst x') = rootIdentity (fst x)
      \<and> (x' = x \<or> r_revision (fst x) < r_revision (fst x') \<and> r_phase (fst x) \<noteq> Closed)"
    if unit: "journal_unit db u = Some x" for u x
  proof -
    obtain r where r: "findRoot db u = Some r" "x = (r, stepsOf db u)"
      using unit by (auto simp: journal_unit_def)
    then have "findRoot db1 u = Some r" using ensureRoot_findRoot [OF db1] by blast
    moreover have "s_execution_id row = e" by (simp add: row intentRow_def e)
    ultimately show ?thesis
      using r rt roots [of u]
      by (auto simp: journal_unit_def rootIdentity_def stepsOf_def steps)
  qed
  ultimately show ?thesis by (simp add: advances_def)
qed simp

lemma advancedRoot_identity [simp]: "rootIdentity (advancedRoot input r) = rootIdentity r"
  by (simp add: rootIdentity_def advancedRoot_def)

lemma settledRow_identity:
  assumes "keepsSpanIdentity (js_span input) (s_span s)"
  shows "stepIdentity (settledRow input s) = stepIdentity s"
  by (simp add: stepIdentity_def settledRow_def stepKey_def)

lemma stepKey_settledRow [simp]: "stepKey (settledRow input s) = stepKey s"
  by (simp add: stepKey_def settledRow_def)

lemma findStep_key: "findStep db e i = find (\<lambda>s. stepKey s = (e, i)) (db_steps db)"
  by (simp add: findStep_def stepKey_def)

lemma advances_settle:
  assumes ok: "journal_ok db" and settle: "settleExecutionJournalStep db input = Inr (db', ended)"
  shows "advances db db'"
proof -
  obtain stored rt s e i where row: "findStep db e i = Some s" "s_state s = Intent"
    and rt: "findRoot db e = Some rt" "r_phase rt \<noteq> Closed"
    and steps: "db_steps db' = map (\<lambda>r. if stepKey r = (e, i) then settledRow input r else r) (db_steps db)"
    and roots: "\<And>x. findRoot db' x = (if x = e then Some (advancedRoot input rt) else findRoot db x)"
    by (rule settle_effect [OF ok settle]) blast
  let ?f = "\<lambda>r. if stepKey r = (e, i) then settledRow input r else r"
  have found: "findStep db' x j = map_option ?f (findStep db x j)" for x j
    unfolding findStep_key steps by (rule find_map_cond) simp
  have "\<exists>s'. journal_entry db' k = Some s' \<and> stepIdentity s' = stepIdentity s0 \<and> (s_state s0 \<noteq> Intent \<longrightarrow> s' = s0)"
    if "journal_entry db k = Some s0" for k s0
  proof -
    have "stepKey s0 = (e, i) \<Longrightarrow> s0 = s"
      using that row findStep_SomeD by (fastforce simp: journal_entry_def stepKey_def)
    then show ?thesis
      using that row(2) by (auto simp: journal_entry_def found stepIdentity_def settledRow_def stepKey_def)
  qed
  moreover have "\<exists>x'. journal_unit db' u = Some x' \<and> rootIdentity (fst x') = rootIdentity (fst x)
      \<and> (x' = x \<or> r_revision (fst x) < r_revision (fst x') \<and> r_phase (fst x) \<noteq> Closed)"
    if unit: "journal_unit db u = Some x" for u x
  proof (cases "u = e")
    case True
    then show ?thesis using unit rt roots by (auto simp: journal_unit_def advancedRoot_def rootIdentity_def)
  next
    case False
    then have "stepsOf db' u = stepsOf db u"
      unfolding stepsOf_def steps by (intro filter_map_unchanged) (auto simp: stepKey_def settledRow_def)
    then show ?thesis using unit False roots by (auto simp: journal_unit_def)
  qed
  ultimately show ?thesis by (simp add: advances_def)
qed

lemma advances_step: "journal_step db db' \<Longrightarrow> journal_ok db \<Longrightarrow> advances db db'"
proof (induction rule: journal_step.induct)
  case (control proc db command db' reply)
  from control.hyps show ?case
    by (rule applyControl_cases)
      (use control.prems advances_write advances_settle advances_trans journal_ok_settle in blast)+
next
  case (session db turns b)
  then show ?case by (simp add: advances_def journal_entry_def journal_unit_def findStep_def findRoot_def stepsOf_def)
qed (use advances_write advances_settle in blast)+

interpretation journal: fenced_journal journal_ok journal_step journal_entry stepIdentity
  "\<lambda>s. s_state s \<noteq> Intent" journal_unit "\<lambda>x. rootIdentity (fst x)" "\<lambda>x. r_revision (fst x)"
  "\<lambda>x. r_phase (fst x) = Closed"
proof unfold_locales
  show "journal_ok db'" if "journal_ok db" "journal_step db db'" for db db'
    using that journal_ok_step by blast
qed (use advances_step in \<open>auto simp: advances_def\<close>)

end
