(* ===== verification/Journal_Properties.thy ===== *)
theory Journal_Properties
  imports Journal_History
begin

text \<open>
  The properties of the execution journal: its invariant, totality of the readers on reachable
  journals, immutability of history, the fencing of concurrent settlements by the revision, the
  retention of exclusions by unknown steps, idempotence of intents and the bound on the time
  allowance. A concrete journal at the end of the lemmas runs the operations for the witnesses.
\<close>

subsection \<open>Reading a reachable journal\<close>

lemma rowRef_schema:
  assumes "journal_ok db" "s \<in> set (db_steps db)"
  shows "stepRefSchema (rowRef db s)"
proof -
  obtain r where "r \<in> set (db_executions db)" "stepOk db r s" using assms by (auto simp: journal_ok_def)
  moreover have "rootOk db r" using assms(1) calculation(1) by (simp add: journal_ok_def)
  ultimately show ?thesis
    by (simp add: rowRef_def stepRefSchema_def refSchema_def rootOk_def stepOk_def stepRowSchema_def)
qed

lemma openRows_text:
  assumes "journal_ok db" "s \<in> set (openRows db e)"
  shows "textSchema (s_step_id s)"
  using assms by (auto simp: openRows_def stepsOf_def journal_ok_def stepOk_def stepRowSchema_def)

lemma readRoot_ok:
  assumes "journal_ok db" "findRoot db e = Some r"
  shows "readRoot db \<lparr>er_owner = scopeOwner db, er_executionId = e\<rparr>
    = Inr (rootView db \<lparr>er_owner = scopeOwner db, er_executionId = e\<rparr> r)"
proof -
  have "rootOk db r" "r_id r = e" using assms findRoot_SomeD [OF assms(2)] by (auto simp: journal_ok_def)
  then show ?thesis
    using assms openRows_text [OF assms(1)]
    by (auto simp: readRoot_Inr_iff refSchema_def rootOk_def rootRowSchema_def)
qed

lemma storedStep_ok:
  assumes ok: "journal_ok db" and s: "s \<in> set (db_steps db)"
  shows "\<exists>execution. storedStep db (rowRef db s) = Inr \<lparr>ss_root = execution, ss_row = s\<rparr>"
proof -
  obtain r where r: "r \<in> set (db_executions db)" "r_id r = s_execution_id s" "stepOk db r s"
    using assms by (auto simp: journal_ok_def)
  have root: "findRoot db (s_execution_id s) = Some r"
    using ok r by (simp add: findRoot_unique journal_ok_def)
  moreover have "findStep db (s_execution_id s) (s_step_id s) = Some s"
    using ok s by (simp add: findStep_unique journal_ok_def stepKey_def)
  moreover have "stepRefSchema (rowRef db s)" by (rule rowRef_schema [OF assms])
  ultimately show ?thesis
    using r(3) readRoot_ok [OF ok root] by (auto simp: storedStep_Inr_iff rowRef_def)
qed

lemma rowRef_inj:
  assumes "journal_ok db" "s \<in> set (db_steps db)" "t \<in> set (db_steps db)" "rowRef db s = rowRef db t"
  shows "s = t"
proof -
  have "inj_on stepKey (set (db_steps db))" using assms(1) by (simp add: journal_ok_def distinct_map)
  then show ?thesis using assms(2-4) by (auto simp: inj_on_def rowRef_def stepKey_def)
qed

text \<open>The walk over the parents descends in the table, so it meets neither a cycle nor a cap conflict.\<close>

lemma readInvocation_index:
  assumes ok: "journal_ok db"
  shows "i < length (db_steps db) \<Longrightarrow> \<forall>j\<le>i. rowRef db (db_steps db ! j) \<notin> set ancestors \<Longrightarrow>
    \<exists>inv. readExecutionJournalInvocation proc k db (rowRef db (db_steps db ! i)) ancestors = Inr inv
      \<and> ei_control inv = s_control (db_steps db ! i)"
proof (induction i arbitrary: k ancestors rule: less_induct)
  case (less i)
  let ?s = "db_steps db ! i"
  have s: "?s \<in> set (db_steps db)" using less.prems(1) by simp
  obtain execution where stored: "storedStep db (rowRef db ?s) = Inr \<lparr>ss_root = execution, ss_row = ?s\<rparr>"
    using storedStep_ok [OF ok s] by blast
  have fresh: "rowRef db ?s \<notin> set ancestors" using less.prems(2) by blast
  note step = readExecutionJournalInvocation.simps [of proc k db "rowRef db ?s" ancestors]
  show ?case
  proof (cases "in_parent (s_invocation ?s)")
    case None
    then show ?thesis by (simp add: step fresh stored invocationView_def)
  next
    case (Some p)
    have "priorLineage (scopeOwner db) (take i (db_steps db)) ?s"
      using ok less.prems(1) by (simp add: journal_ok_def lineageOk_def)
    then obtain q where q: "q \<in> set (take i (db_steps db))" "ip_ref p = rowRef db q"
        "deadlineOf q = ip_deadlineUnixNano p" "\<not> exceedsCap (deadlineOf ?s) (ip_deadlineUnixNano p)"
      using Some by (auto simp: priorLineage_def rowRef_def)
    then obtain j where j: "j < i" "q = db_steps db ! j"
      using less.prems(1) by (auto simp: in_set_conv_nth)
    have "rowRef db (db_steps db ! l) \<noteq> rowRef db ?s" if "l \<le> j" for l
    proof
      assume "rowRef db (db_steps db ! l) = rowRef db ?s"
      then have "db_steps db ! l = ?s" using rowRef_inj [OF ok] s that j(1) less.prems(1) by simp
      moreover have "distinct (db_steps db)" using ok by (auto simp: journal_ok_def distinct_map)
      ultimately show False using that j(1) less.prems(1) by (simp add: nth_eq_iff_index_eq)
    qed
    then have "\<forall>l\<le>j. rowRef db (db_steps db ! l) \<notin> set (set_add (rowRef db ?s) ancestors)"
      using less.prems(2) j(1) by auto
    then obtain inv where "readExecutionJournalInvocation proc (Suc k) db (ip_ref p) (set_add (rowRef db ?s) ancestors) = Inr inv"
        "ei_control inv = s_control q"
      using less.IH [OF j(1)] j less.prems(1) q(2) by fastforce
    then show ?thesis
      using Some q(3,4) by (simp add: step fresh stored invocationView_def Let_def deadlineOf_def)
  qed
qed


subsection \<open>Further facts of the operations\<close>

lemma readInvocation_view:
  assumes "readExecutionJournalInvocation proc k db ref ancestors = Inr seen"
  shows "\<exists>stored. storedStep db ref = Inr stored \<and> seen = invocationView ref stored (ei_remainingMs seen)"
  using assms
  by (subst (asm) readExecutionJournalInvocation.simps)
    (auto simp: result_simps Let_def invocationView_def split: if_splits sum.splits option.splits)

lemma endedStep_control:
  assumes "endedStep db ref = Inr ended"
    and "findStep db (er_executionId (sr_execution ref)) (sr_stepId ref) = Some row"
  shows "ee_control ended = s_control row"
  using assms by (auto simp: endedStep_def result_simps storedStep_Inr_iff)

lemma intent_repeat:
  assumes ok: "journal_ok db" and check: "checkIntent db input = Inr ()"
    and row: "findStep db (er_executionId (ad_ref (ji_execution input))) (ji_stepId input) = Some s"
    and stored: "storedStep db (intentRef input) = Inr stored" and same: "repeatsIntent stored input"
  shows "\<exists>n. writeExecutionJournalIntent proc db input w = Inr (db, invocationView (intentRef input) stored n)"
proof -
  have ref: "rowRef db (ss_row stored) = intentRef input" "ss_row stored \<in> set (db_steps db)"
    using storedStep_ref [OF stored] by simp_all
  then obtain i where "i < length (db_steps db)" "ss_row stored = db_steps db ! i" by (metis in_set_conv_nth)
  then obtain inv where inv: "readExecutionJournalInvocation proc 1 db (intentRef input) [] = Inr inv"
    using readInvocation_index [OF ok, of i "[]" proc 1] ref(1) by auto
  moreover have "inv = invocationView (intentRef input) stored (ei_remainingMs inv)"
    using readInvocation_view [OF inv] stored by auto
  ultimately show ?thesis
    using check row stored same by (auto simp: writeExecutionJournalIntent_def)
qed

lemma checkIntent_frame:
  assumes "db_scope db' = db_scope db" "db_inTransaction db' = db_inTransaction db"
  shows "checkIntent db' = checkIntent db"
  using assms
  by (simp add: checkIntent_def requireWriter_def scope_congs(2,3,7) [OF assms(1)] fun_eq_iff)

lemma settle_stale:
  assumes "findRoot db (er_executionId (sr_execution (js_ref input))) = Some r"
    and "r_revision r \<noteq> js_expectedExecutionRevision input"
  shows "\<exists>e. settleExecutionJournalStep db input = Inl e"
proof (rule ccontr)
  assume "\<not> ?thesis"
  then obtain db' ended where "settleExecutionJournalStep db input = Inr (db', ended)"
    by (cases "settleExecutionJournalStep db input") auto
  then show False
    by (rule settleE) (use assms in \<open>auto simp: rootView_def dest!: checkSettlementD(4)\<close>)
qed

text \<open>What a settlement must show before it releases an exclusion or closes over an unknown step.\<close>

definition cleanupProof :: "JournalDb \<Rightarrow> string \<Rightarrow> string list \<Rightarrow> StepRow \<Rightarrow> bool" where
  "cleanupProof db e outputs unknown =
    (\<exists>p\<in>set (stepsOf db e). s_inspected_execution_id p = Some e \<and> s_inspected_step_id p = Some (s_step_id unknown)
       \<and> s_state p = Completed \<and> ct_kind (s_control p) = InspectCleanup \<and> ct_outputRefs (s_control p) = outputs)"

lemma unknownsInspected_proofs:
  assumes uniq: "distinct (map stepKey (db_steps db))"
    and "unknownsInspected db input = Inr True" "e = er_executionId (sr_execution (js_ref input))"
    and "u \<in> set (stepsOf db e)" "s_state u = Unknown"
  shows "cleanupProof db e (js_outputRefs input) u"
proof -
  let ?ref = "sr_execution (js_ref input)"
  let ?ps = "filter (\<lambda>s. s_inspected_execution_id s = Some e
      \<and> s_inspected_step_id s = Some (s_step_id u) \<and> s_state s = Completed) (stepsOf db e)"
  have "anyE (\<lambda>p. bindE (storedStep db \<lparr>sr_execution = ?ref, sr_stepId = s_step_id p\<rparr>)
      (\<lambda>observed. Inr (ct_kind (ss_control observed) = InspectCleanup
         \<and> ct_outputRefs (ss_control observed) = js_outputRefs input))) ?ps = Inr True"
    using assms(2,4,5) unfolding unknownsInspected_def Let_def allE_True_iff assms(3) by simp
  then obtain p where p: "p \<in> set ?ps"
    and "bindE (storedStep db \<lparr>sr_execution = ?ref, sr_stepId = s_step_id p\<rparr>)
      (\<lambda>observed. Inr (ct_kind (ss_control observed) = InspectCleanup
         \<and> ct_outputRefs (ss_control observed) = js_outputRefs input)) = Inr True"
    by (auto dest!: anyE_TrueD)
  then obtain observed where stored: "storedStep db \<lparr>sr_execution = ?ref, sr_stepId = s_step_id p\<rparr> = Inr observed"
    and obs: "ct_kind (ss_control observed) = InspectCleanup" "ct_outputRefs (ss_control observed) = js_outputRefs input"
    by (auto simp: result_simps)
  have "findStep db e (s_step_id p) = Some (ss_row observed)"
    using stored by (simp add: storedStep_Inr_iff assms(3))
  moreover have "p \<in> set (db_steps db)" "stepKey p = (e, s_step_id p)" using p by (auto simp: stepsOf_def stepKey_def)
  ultimately have "ss_row observed = p" using findStep_unique [OF uniq, of e "s_step_id p" p] by simp
  with p obs show ?thesis by (auto simp: cleanupProof_def)
qed

text \<open>The step that releases: a release, or the cleanup inspection of a completed release of the same execution
  with the same outputs.\<close>

definition releases :: "JournalDb \<Rightarrow> string \<Rightarrow> StepRow \<Rightarrow> string list \<Rightarrow> bool" where
  "releases db e s outputs \<longleftrightarrow> ct_kind (s_control s) = Release
    \<or> ct_kind (s_control s) = InspectCleanup \<and> s_inspected_execution_id s = Some e
      \<and> (\<exists>p\<in>set (stepsOf db e). s_inspected_step_id s = Some (s_step_id p) \<and> s_state p = Completed
          \<and> ct_kind (s_control p) = Release \<and> ct_outputRefs (s_control p) = outputs)"

lemma releaseProof_releases:
  assumes "inspectedRelease db stored input = Inr inspected" "releaseProof stored inspected input"
    and "e = er_executionId (sr_execution (js_ref input))"
  shows "releases db e (ss_row stored) (js_outputRefs input)"
proof (cases "ct_kind (ss_control stored) = Release")
  case False
  with assms obtain i where "inspected = Some i" "ct_kind (ss_control stored) = InspectCleanup" "s_inspected_execution_id (ss_row stored) = Some e"
      and proven: "s_state (ss_row i) = Completed" "ct_kind (ss_control i) = Release" "ct_outputRefs (ss_control i) = js_outputRefs input"
    by (auto simp: releaseProof_def split: option.splits)
  moreover from this assms(1) obtain k where "s_inspected_step_id (ss_row stored) = Some k" "findStep db e k = Some (ss_row i)"
    by (auto simp: inspectedRelease_def result_simps storedStep_Inr_iff split: option.splits)
  ultimately show ?thesis using findStep_SomeD [of db e k "ss_row i"] by (auto simp: releases_def stepsOf_def)
qed (simp add: releases_def)

lemma checkRelease_unknown:
  assumes "checkRelease db stored input = Inr ()" "hasUnknown db input"
    and "js_nextPhase input = Closed \<or> \<not> set (je_exclusionRefs (ss_root stored)) \<subseteq> set (js_exclusionRefs input)"
  shows "db_scope db \<noteq> CoreScope \<and> js_state input = Completed \<and> length (js_outputRefs input) = 1
    \<and> releases db (er_executionId (sr_execution (js_ref input))) (ss_row stored) (js_outputRefs input)
    \<and> unknownsInspected db input = Inr True"
proof -
  from assms obtain inspected where inspected: "inspectedRelease db stored input = Inr inspected"
      and "qualifiedRelease db stored inspected input = Inr True"
    by (auto simp: checkRelease_def result_simps)
  then have "db_scope db \<noteq> CoreScope \<and> js_state input = Completed \<and> length (js_outputRefs input) = 1
      \<and> releaseProof stored inspected input \<and> unknownsInspected db input = Inr True"
    by (auto simp: qualifiedRelease_def split: if_splits)
  then show ?thesis using releaseProof_releases [OF inspected] by blast
qed

subsection \<open>A concrete journal\<close>

definition example_scope :: DbScope where
  "example_scope = WorkspaceScope ''ws_01234567-89ab-7def-8123-456789abcdef''"

definition example_span :: "string \<Rightarrow> int option \<Rightarrow> StatusCode \<Rightarrow> JournalLink list \<Rightarrow> JournalSpan" where
  "example_span s e c ls =
    \<lparr>sp_traceId = ''0123456789abcdef0123456789abcdef'', sp_spanId = s, sp_parentSpanId = None,
     sp_traceState = None, sp_flags = 1, sp_name = ''step'', sp_kind = KInternal, sp_startTimeUnixNano = 10,
     sp_endTimeUnixNano = e, sp_status = \<lparr>su_code = c, su_description = None\<rparr>, sp_attributes = [],
     sp_droppedAttributesCount = 0, sp_events = [], sp_droppedEventsCount = 0, sp_links = ls,
     sp_droppedLinksCount = 0,
     sp_instrumentationScope = \<lparr>sc_name = ''nanocore'', sc_version = None, sc_attributes = [],
       sc_droppedAttributesCount = 0, sc_schemaUrl = None\<rparr>,
     sp_resource = \<lparr>rs_attributes = [], rs_droppedAttributesCount = 0, rs_schemaUrl = None\<rparr>\<rparr>"

definition example_link :: "string \<Rightarrow> JournalLink" where
  "example_link s = \<lparr>ln_traceId = ''0123456789abcdef0123456789abcdef'', ln_spanId = s, ln_traceState = None,
     ln_flags = 0, ln_attributes = [], ln_droppedAttributesCount = 0\<rparr>"

definition example_root :: "WorkOwner \<Rightarrow> string \<Rightarrow> JournalAdmission" where
  "example_root owner d =
    \<lparr>ad_ref = \<lparr>er_owner = owner, er_executionId = ''e''\<rparr>, ad_definitionVersion = d, ad_workId = ''w'',
     ad_fingerprint = ''f'', ad_exclusionRefs = [''sandbox''], ad_span = example_span ''00000000000000aa'' None UNSET []\<rparr>"

definition example_ref :: "WorkOwner \<Rightarrow> string \<Rightarrow> ExecutionStepRef" where
  "example_ref owner s = \<lparr>sr_execution = \<lparr>er_owner = owner, er_executionId = ''e''\<rparr>, sr_stepId = s\<rparr>"

definition example_intent :: "WorkOwner \<Rightarrow> string \<Rightarrow> string \<Rightarrow> StepKind \<Rightarrow> string \<Rightarrow> (string \<times> string) option \<Rightarrow> JournalIntent" where
  "example_intent owner d s kind sid inspected =
    \<lparr>ji_execution = example_root owner d, ji_stepId = s, ji_parentStepId = None,
     ji_control = \<lparr>ct_definitionVersion = d, ct_kind = kind, ct_target = None, ct_workId = ''w'',
       ct_operationId = None, ct_attemptId = None, ct_invocationId = s,
       ct_actor = ResponsibleActor SystemActor ''core'' None, ct_inputRefs = [], ct_outputRefs = [],
       ct_fingerprint = ''f'', ct_permittingDecisionRef = None, ct_authorityRefs = [],
       ct_retryDeclarationRef = None, ct_retryPermitted = False, ct_deadlineUnixNano = Some 9000000,
       ct_physicalFenceRefs = []\<rparr>,
     ji_parent = None,
     ji_carriage = \<lparr>ca_operation = ''op'', ca_requestId = s, ca_sequence = None, ca_bindingRef = None\<rparr>,
     ji_inspectedStep = map_option (\<lambda>(i, _). example_ref owner i) inspected,
     ji_span = example_span sid None UNSET (case inspected of None \<Rightarrow> [] | Some (_, l) \<Rightarrow> [example_link l])\<rparr>"

definition example_process :: Process where
  "example_process = \<lparr>pr_isMainThread = False, pr_witness = ''boot'', pr_dateNow = (\<lambda>k. 2 + int k),
     pr_hrtime = (\<lambda>k. 5 + int k)\<rparr>"

definition example_settle :: "WorkOwner \<Rightarrow> string \<Rightarrow> int \<Rightarrow> StepState \<Rightarrow> string list \<Rightarrow> string \<Rightarrow> StatusCode \<Rightarrow> JournalLink list \<Rightarrow> Phase \<Rightarrow> string list \<Rightarrow> JournalSettlement" where
  "example_settle owner s n st outs sid c ls ph excl =
    \<lparr>js_ref = example_ref owner s, js_expectedExecutionRevision = n, js_state = st, js_outputRefs = outs,
     js_span = example_span sid (Some 20) c ls, js_nextPhase = ph, js_terminalCause = None, js_exclusionRefs = excl\<rparr>"

definition example_empty :: "DbScope \<Rightarrow> JournalDb" where
  "example_empty scope = \<lparr>db_scope = scope, db_inTransaction = True, db_executions = [], db_steps = [], db_turns = []\<rparr>"

definition db_after :: "JournalDb \<Rightarrow> (JournalDb \<times> 'a) result \<Rightarrow> JournalDb" where
  "db_after db res = (case res of Inl _ \<Rightarrow> db | Inr (db', _) \<Rightarrow> db')"

definition example_core :: JournalDb where
  "example_core =
    (let db0 = example_empty CoreScope;
         db1 = db_after db0 (writeExecutionJournalIntent example_process db0
           (example_intent ServerOwner ''core-image-acquire/v1'' ''a'' Materialize ''00000000000000ab'' None) None)
     in db_after db1 (settleExecutionJournalStep db1
          (example_settle ServerOwner ''a'' 2 Unknown [] ''00000000000000ab'' ERROR [] Closing [''sandbox''])))"

lemma db_after_write: "journal_reachable db \<Longrightarrow> journal_reachable (db_after db (writeExecutionJournalIntent proc db input w))"
  by (auto simp: journal_reachable_def db_after_def split: sum.splits dest: journal_step.intent intro: rtranclp.intros)

lemma db_after_settle: "journal_reachable db \<Longrightarrow> journal_reachable (db_after db (settleExecutionJournalStep db input))"
  by (auto simp: journal_reachable_def db_after_def split: sum.splits dest: journal_step.settle intro: rtranclp.intros)

lemma example_empty_reachable: "journal_reachable (example_empty scope)"
  unfolding journal_reachable_def
  by (rule exI [of _ "example_empty scope"]) (simp add: journal_initial_def example_empty_def)

lemma example_core_reachable: "journal_reachable example_core"
  unfolding example_core_def Let_def by (intro db_after_settle db_after_write example_empty_reachable)

lemma example_core_unknown:
  "db_scope example_core = CoreScope \<and> map s_state (stepsOf example_core ''e'') = [Unknown]
   \<and> map_option r_exclusion_refs (findRoot example_core ''e'') = Some [''sandbox'']
   \<and> map_option r_revision (findRoot example_core ''e'') = Some 3"
  by code_simp

lemma example_core_row: "\<exists>s\<in>set (stepsOf example_core ''e''). s_state s = Unknown"
proof -
  have "Unknown \<in> set (map s_state (stepsOf example_core ''e''))" by (simp add: example_core_unknown)
  then obtain s where "s \<in> set (stepsOf example_core ''e'')" "Unknown = s_state s" by auto
  then show ?thesis by (intro bexI [of _ s]) simp_all
qed

definition example_ws_steps :: "JournalDb" where
  "example_ws_steps =
    (let ws = WorkspaceOwner ''ws_01234567-89ab-7def-8123-456789abcdef''; d = ''workspace-worker-turn/v1'';
         db0 = example_empty example_scope;
         db1 = db_after db0 (writeExecutionJournalIntent example_process db0
           (example_intent ws d ''a'' Materialize ''00000000000000ab'' None) None);
         db2 = db_after db1 (settleExecutionJournalStep db1
           (example_settle ws ''a'' 2 Unknown [] ''00000000000000ab'' ERROR [] Closing [''sandbox'']));
         db3 = db_after db2 (writeExecutionJournalIntent example_process db2
           (example_intent ws d ''b'' InspectCleanup ''00000000000000ac'' (Some (''a'', ''00000000000000ab''))) None);
         db4 = db_after db3 (settleExecutionJournalStep db3
           (example_settle ws ''b'' 4 Completed [''receipt''] ''00000000000000ac'' OK [] Closing [''sandbox'']))
     in db_after db4 (writeExecutionJournalIntent example_process db4
           (example_intent ws d ''c'' Release ''00000000000000ad'' None) None))"

definition example_ws_release :: JournalSettlement where
  "example_ws_release = example_settle (WorkspaceOwner ''ws_01234567-89ab-7def-8123-456789abcdef'') ''c'' 6 Completed
     [''receipt''] ''00000000000000ad'' OK [] Closed []"

lemma example_ws_reachable: "journal_reachable example_ws_steps"
  unfolding example_ws_steps_def Let_def by (intro db_after_settle db_after_write example_empty_reachable)

lemma example_ws_run:
  "succeeds (settleExecutionJournalStep example_ws_steps example_ws_release)
   \<and> map s_state (stepsOf example_ws_steps ''e'') = [Unknown, Completed, Intent]"
  by code_simp
text \<open>An unknown step of a Core execution keeps it open, in every reachable journal.\<close>

definition unknownIn :: "JournalDb \<Rightarrow> string \<Rightarrow> bool" where
  "unknownIn db e = (\<exists>s\<in>set (stepsOf db e). s_state s = Unknown)"

definition coreUnknownOpen :: "JournalDb \<Rightarrow> string \<Rightarrow> bool" where
  "coreUnknownOpen db e =
    (db_scope db = CoreScope \<longrightarrow> unknownIn db e \<longrightarrow> (\<forall>r. findRoot db e = Some r \<longrightarrow> r_phase r \<noteq> Closed))"

text \<open>Every operation keeps the scope, keeps unknown steps, and keeps a Core execution with an unknown
  step open with at least its exclusions.\<close>

definition retains :: "string \<Rightarrow> JournalDb \<Rightarrow> JournalDb \<Rightarrow> bool" where
  "retains e db db' =
    (db_scope db' = db_scope db
     \<and> (coreUnknownOpen db e \<longrightarrow> coreUnknownOpen db' e)
     \<and> (unknownIn db e \<longrightarrow> unknownIn db' e)
     \<and> (db_scope db = CoreScope \<longrightarrow> unknownIn db e \<longrightarrow> (\<forall>r. findRoot db e = Some r \<longrightarrow>
          (\<exists>r'. findRoot db' e = Some r' \<and> set (r_exclusion_refs r) \<subseteq> set (r_exclusion_refs r')))))"

lemma retains_refl [simp]: "retains e db db"
  by (auto simp: retains_def)

lemma retains_trans: "retains e db db1 \<Longrightarrow> retains e db1 db2 \<Longrightarrow> retains e db db2"
  unfolding retains_def by (elim conjE, intro conjI impI allI) (simp, simp, simp, metis subset_trans)

lemma retains_write:
  assumes ok: "journal_ok db" and "writeExecutionJournalIntent proc db input w = Inr (db', invocation)"
  shows "retains x db db'"
  using assms(2)
proof (cases rule: writeExecutionJournalIntent_cases)
  case 2
  obtain db1 rt invocation row e where e: "e = er_executionId (ad_ref (ji_execution input))"
    and db1: "ensureRoot db (ji_execution input) = Inr db1"
    and rt: "findRoot db1 e = Some rt" "r_phase rt \<noteq> Closed"
    and row: "row = intentRow input (nextOrdinal db e) invocation"
    and steps: "db_steps db' = db_steps db @ [row]" "db_scope db' = db_scope db"
    and roots: "\<And>x. findRoot db' x = (if x = e then Some (rt\<lparr>r_revision := r_revision rt + 1\<rparr>) else findRoot db1 x)"
    by (rule admitIntent_effect [OF ok 2(1,2)]) blast
  have unknown: "unknownIn db' x = unknownIn db x"
    by (auto simp: unknownIn_def stepsOf_def steps row intentRow_def)
  have prior: "findRoot db1 x = Some r" if "findRoot db x = Some r" for r
    using ensureRoot_findRoot [OF db1 that] .
  show ?thesis
  proof (cases "x = e")
    case True
    then show ?thesis
      using roots [of x] rt prior steps(2) unknown by (auto simp: retains_def coreUnknownOpen_def)
  next
    case False
    then have "findRoot db1 x = findRoot db x"
      using db1 by (auto simp: ensureRoot_def insertRoot_def findRoot_def find_append e result_simps
          split: option.splits if_splits)
    then show ?thesis
      using False roots [of x] steps(2) unknown by (simp add: retains_def coreUnknownOpen_def)
  qed
qed simp

lemma retains_settle:
  assumes ok: "journal_ok db" and settle: "settleExecutionJournalStep db input = Inr (db', ended)"
  shows "retains x db db'"
proof -
  obtain stored rt s e i where e: "e = er_executionId (sr_execution (js_ref input))"
    and root: "ss_root stored = rootView db (sr_execution (js_ref input)) rt"
    and rt: "findRoot db e = Some rt" "r_phase rt \<noteq> Closed"
    and release: "checkRelease db stored input = Inr ()"
    and row: "findStep db e i = Some s" "s_state s = Intent"
    and steps: "db_steps db' = map (\<lambda>r. if stepKey r = (e, i) then settledRow input r else r) (db_steps db)"
    and scope: "db_scope db' = db_scope db"
    and roots: "\<And>x. findRoot db' x = (if x = e then Some (advancedRoot input rt) else findRoot db x)"
    by (rule settle_effect [OF ok settle]) blast
  have settled: "s_state r = Unknown \<longleftrightarrow> False" if "r \<in> set (db_steps db)" "stepKey r = (e, i)" for r
    using row that ok findStep_unique [of db e i r] by (simp add: journal_ok_def)
  show ?thesis
  proof (cases "x = e")
    case False
    then have "stepsOf db' x = stepsOf db x"
      unfolding stepsOf_def steps by (intro filter_map_unchanged) (auto simp: stepKey_def settledRow_def)
    then show ?thesis using False roots [of x] scope by (simp add: retains_def coreUnknownOpen_def unknownIn_def)
  next
    case True
    have kept: "unknownIn db' x" if unknown: "unknownIn db x"
    proof -
      obtain u where u: "u \<in> set (db_steps db)" "s_execution_id u = x" "s_state u = Unknown"
        using unknown by (auto simp: unknownIn_def stepsOf_def)
      then have "stepKey u \<noteq> (e, i)" using settled by blast
      then show ?thesis using u by (auto simp: unknownIn_def stepsOf_def steps intro!: bexI [of _ u] image_eqI [of _ _ u])
    qed
    have new: "hasUnknown db input" if "unknownIn db' x"
      using that by (auto simp: unknownIn_def stepsOf_def steps hasUnknown_def True e settledRow_def split: if_splits)
    have core: "js_nextPhase input \<noteq> Closed \<and> set (r_exclusion_refs rt) \<subseteq> set (js_exclusionRefs input)"
      if "db_scope db = CoreScope" "hasUnknown db input"
      using checkRelease_unknown [OF release that(2)] that(1) by (auto simp: root rootView_def)
    show ?thesis
      using rt(1) roots [of x] True scope kept new core
      by (simp add: retains_def coreUnknownOpen_def advancedRoot_def)
  qed
qed

lemma retains_step: "journal_step db db' \<Longrightarrow> journal_ok db \<Longrightarrow> retains e db db'"
proof (induction rule: journal_step.induct)
  case (control proc db command db' reply)
  from control.hyps show ?case
    by (rule applyControl_cases)
      (use control.prems retains_write retains_settle retains_trans journal_ok_settle in blast)+
next
  case (session db turns b)
  then show ?case by (simp add: retains_def coreUnknownOpen_def unknownIn_def findRoot_def stepsOf_def)
qed (use retains_write retains_settle in blast)+

lemma retains_steps: "journal_step\<^sup>*\<^sup>* db db' \<Longrightarrow> journal_ok db \<Longrightarrow> retains e db db'"
proof (induction rule: rtranclp_induct)
  case (step db1 db2)
  then have "journal_ok db1" using journal.steps_ok by blast
  then show ?case using step retains_step retains_trans by blast
qed simp

lemma coreUnknownOpen_reachable: "journal_reachable db \<Longrightarrow> coreUnknownOpen db e"
proof -
  assume "journal_reachable db"
  then obtain db0 where "journal_initial db0" "journal_step\<^sup>*\<^sup>* db0 db" by (auto simp: journal_reachable_def)
  moreover from this have "retains e db0 db" using retains_steps journal_ok_initial by blast
  ultimately show ?thesis
    by (simp add: retains_def coreUnknownOpen_def journal_initial_def findRoot_def)
qed


subsection \<open>Properties\<close>

text \<open>C11: Any sequence of journal operations on an initially empty database keeps the invariant:
  identities and invocation ids are unique, the ordinals of an execution are 1, 2, 3 and so on in
  admission order, every row satisfies its schema and its root, a closed execution has no open step
  and holds no exclusion, and parents and inspected steps precede the steps that name them, with
  deadlines that only narrow.\<close>

theorem journal_invariant:
  assumes "journal_reachable db"
  shows "journal_ok db"
  by (rule journal_ok_reachable [OF assms])

theorem journal_invariant_witness: "journal_ok example_core \<and> db_steps example_core \<noteq> []"
proof -
  have "stepsOf example_core ''e'' \<noteq> []" using example_core_unknown by auto
  then show ?thesis using journal_invariant [OF example_core_reachable] by (auto simp: stepsOf_def)
qed

text \<open>In a journal that only these operations have written, every reader accepts every retained row:
  the stored step of any row decodes, and reading its invocation succeeds whatever the process, so
  the parent walk never reports a cycle or a cap conflict.\<close>

theorem journal_readers_total:
  assumes "journal_reachable db" "s \<in> set (db_steps db)"
  shows "succeeds (readRoot db (sr_execution (rowRef db s))) \<and> succeeds (storedStep db (rowRef db s))
    \<and> succeeds (readExecutionJournalInvocation proc k db (rowRef db s) [])"
proof -
  have ok: "journal_ok db" by (rule journal_ok_reachable [OF assms(1)])
  obtain i where "i < length (db_steps db)" "s = db_steps db ! i" using assms(2) by (metis in_set_conv_nth)
  then have "succeeds (readExecutionJournalInvocation proc k db (rowRef db s) [])"
    using readInvocation_index [OF ok, of i "[]" proc k] by (auto simp: succeeds_iff)
  moreover have "succeeds (storedStep db (rowRef db s))"
    using storedStep_ok [OF ok assms(2)] by (auto simp: succeeds_iff)
  moreover have "succeeds (readRoot db (sr_execution (rowRef db s)))"
    using calculation(2) by (auto simp: succeeds_iff storedStep_Inr_iff)
  ultimately show ?thesis by simp
qed

theorem journal_readers_total_witness:
  "\<exists>s\<in>set (db_steps example_core). succeeds (storedStep example_core (rowRef example_core s))"
proof -
  obtain s where "s \<in> set (db_steps example_core)"
    using example_core_row by (auto simp: stepsOf_def)
  then show ?thesis using journal_readers_total [OF example_core_reachable] by blast
qed

text \<open>C3: History is immutable: whatever operations follow, a step that was written stays, its identity
  (ordinal, parent, invocation, control input, inspected step) never changes, and a step that has
  ended keeps its outcome, output and span exactly.\<close>

theorem journal_history_immutable:
  assumes "journal_reachable db" "journal_step\<^sup>*\<^sup>* db db'" "findStep db e i = Some s"
  shows "\<exists>s'. findStep db' e i = Some s' \<and> stepIdentity s' = stepIdentity s \<and> (s_state s \<noteq> Intent \<longrightarrow> s' = s)"
  using journal.steps_entry [OF assms(2) journal_ok_reachable [OF assms(1)], of "(e, i)" s] assms(3)
  by (simp add: journal_entry_def)

theorem journal_history_immutable_witness:
  "\<exists>s. s_state s = Unknown \<and> (\<forall>db'. journal_step\<^sup>*\<^sup>* example_core db' \<longrightarrow> findStep db' ''e'' ''a'' = Some s)"
proof -
  have "map_option s_state (findStep example_core ''e'' ''a'') = Some Unknown" by code_simp
  then obtain s where "findStep example_core ''e'' ''a'' = Some s" "s_state s = Unknown" by auto
  then show ?thesis using journal_history_immutable [OF example_core_reachable] by fastforce
qed

text \<open>C33: The revision fences an execution: later states of the same execution keep its identity, and
  either nothing of it changed, neither the root row nor any of its steps, or its revision is
  strictly greater. A closed execution never changes again.\<close>

theorem journal_revision_fences:
  assumes "journal_reachable db" "journal_step\<^sup>*\<^sup>* db db'" "findRoot db e = Some r"
  shows "\<exists>r'. findRoot db' e = Some r' \<and> rootIdentity r' = rootIdentity r
    \<and> (r' = r \<and> stepsOf db' e = stepsOf db e \<or> r_revision r < r_revision r' \<and> r_phase r \<noteq> Closed)"
  using journal.steps_unit [OF assms(2) journal_ok_reachable [OF assms(1)], of e "(r, stepsOf db e)"] assms(3)
  by (auto simp: journal_unit_def)

theorem journal_revision_fences_witness:
  "{db'. journal_step\<^sup>*\<^sup>* example_core db'} \<subseteq> {db'. \<exists>r'. findRoot db' ''e'' = Some r' \<and> 3 \<le> r_revision r'}"
proof -
  obtain r where "findRoot example_core ''e'' = Some r" "r_revision r = 3" using example_core_unknown by auto
  then show ?thesis using journal_revision_fences [OF example_core_reachable] by fastforce
qed

text \<open>C27: Of several settlements of one execution that expect the same revision at most one succeeds:
  once one has, every later attempt with that revision fails, whatever happened in between.\<close>

theorem journal_settlement_exclusive:
  assumes "journal_reachable db" "settleExecutionJournalStep db first = Inr (db1, ended)"
    and "journal_step\<^sup>*\<^sup>* db1 db2"
    and "sr_execution (js_ref second) = sr_execution (js_ref first)"
    and "js_expectedExecutionRevision second = js_expectedExecutionRevision first"
  shows "\<exists>e. settleExecutionJournalStep db2 second = Inl e"
proof -
  let ?e = "er_executionId (sr_execution (js_ref first))"
  have ok: "journal_ok db" by (rule journal_ok_reachable [OF assms(1)])
  obtain rt where rt: "findRoot db1 ?e = Some (advancedRoot first rt)" "r_revision rt = js_expectedExecutionRevision first"
    by (rule settle_effect [OF ok assms(2)]) auto
  have "journal_ok db1" by (rule journal_ok_settle [OF ok assms(2)])
  then obtain r2 where "findRoot db2 ?e = Some r2" "r_revision (advancedRoot first rt) \<le> r_revision r2"
    using journal.steps_unit [OF assms(3), of ?e] rt(1) by (fastforce simp: journal_unit_def)
  then show ?thesis
    using settle_stale [of db2 second r2] rt(2) assms(4,5) by (simp add: advancedRoot_def)
qed

theorem journal_settlement_exclusive_witness:
  "\<exists>db1 ended. settleExecutionJournalStep example_ws_steps example_ws_release = Inr (db1, ended)
    \<and> (\<exists>e. settleExecutionJournalStep db1 example_ws_release = Inl e)"
proof -
  obtain db1 ended where "settleExecutionJournalStep example_ws_steps example_ws_release = Inr (db1, ended)"
    using example_ws_run by (auto simp: succeeds_iff)
  then show ?thesis using journal_settlement_exclusive [OF example_ws_reachable] by blast
qed

text \<open>C26: An unknown outcome is never cleared by Core: once a Core execution has a step that ended
  unknown, no sequence of operations ever closes it or drops one of the exclusions it holds.\<close>

theorem journal_unknown_retains_exclusion:
  assumes "journal_reachable db" "db_scope db = CoreScope" "journal_step\<^sup>*\<^sup>* db db'"
    and "findRoot db e = Some r" "s \<in> set (stepsOf db e)" "s_state s = Unknown"
  shows "\<exists>r'. findRoot db' e = Some r' \<and> r_phase r' \<noteq> Closed \<and> set (r_exclusion_refs r) \<subseteq> set (r_exclusion_refs r')"
  using retains_steps [OF assms(3) journal_ok_reachable [OF assms(1)], of e] coreUnknownOpen_reachable [OF assms(1), of e] assms
  by (fastforce simp: retains_def coreUnknownOpen_def unknownIn_def)

theorem journal_unknown_retains_exclusion_witness:
  "{db'. journal_step\<^sup>*\<^sup>* example_core db'}
    \<subseteq> {db'. \<exists>r'. findRoot db' ''e'' = Some r' \<and> r_phase r' \<noteq> Closed \<and> ''sandbox'' \<in> set (r_exclusion_refs r')}"
proof -
  obtain r s where "findRoot example_core ''e'' = Some r" "r_exclusion_refs r = [''sandbox'']"
      "s \<in> set (stepsOf example_core ''e'')" "s_state s = Unknown"
    using example_core_unknown example_core_row by auto
  then show ?thesis
    using journal_unknown_retains_exclusion [OF example_core_reachable] example_core_unknown by fastforce
qed

text \<open>C12: A settlement that closes an execution with an unknown step, or drops one of its exclusions,
  happens only in a Workspace journal, as the completion, with exactly one output, of a release step or of the
  cleanup inspection of a completed release step of the same execution that recorded the same output, and only when
  every unknown step of the execution has a completed cleanup inspection that recorded the same output.\<close>

theorem journal_release_qualified:
  assumes "journal_reachable db" "settleExecutionJournalStep db input = Inr (db', ended)"
    and "e = er_executionId (sr_execution (js_ref input))" "findRoot db e = Some r"
    and "u \<in> set (stepsOf db e)" "s_state u = Unknown"
    and "js_nextPhase input = Closed \<or> \<not> set (r_exclusion_refs r) \<subseteq> set (js_exclusionRefs input)"
  shows "db_scope db \<noteq> CoreScope \<and> js_state input = Completed \<and> (\<exists>out. js_outputRefs input = [out])
    \<and> ct_kind (ee_control ended) \<in> {Release, InspectCleanup} \<and> cleanupProof db e (js_outputRefs input) u
    \<and> (\<exists>s. findStep db e (sr_stepId (js_ref input)) = Some s \<and> releases db e s (js_outputRefs input))"
proof -
  have ok: "journal_ok db" by (rule journal_ok_reachable [OF assms(1)])
  obtain stored rt s i where root: "ss_root stored = rootView db (sr_execution (js_ref input)) rt"
    and rt: "findRoot db e = Some rt" and release: "checkRelease db stored input = Inr ()"
    and row: "findStep db e i = Some s" "ss_row stored = s" "i = sr_stepId (js_ref input)"
    and steps: "db_steps db' = map (\<lambda>r. if stepKey r = (e, i) then settledRow input r else r) (db_steps db)"
    and ended: "endedStep db' (js_ref input) = Inr ended"
    by (rule settle_effect [OF ok assms(2)]) (use assms(3) in blast)
  have unknown: "hasUnknown db input" using assms(3,5,6) by (auto simp: hasUnknown_def)
  have "js_nextPhase input = Closed \<or> \<not> set (je_exclusionRefs (ss_root stored)) \<subseteq> set (js_exclusionRefs input)"
    using assms(4,7) rt by (simp add: root rootView_def)
  note q = checkRelease_unknown [OF release unknown this]
  have "findStep db' e i = Some (settledRow input s)"
    using row(1) findStep_SomeD [OF row(1)] unfolding findStep_key steps
    by (subst find_map_cond) (auto simp: stepKey_def settledRow_def)
  then have "ct_kind (ee_control ended) = ct_kind (s_control s)"
    using endedStep_control [OF ended] row assms(3) by (simp add: settledRow_def)
  moreover have "cleanupProof db e (js_outputRefs input) u"
    using unknownsInspected_proofs [OF _ _ assms(3,5,6)] q ok by (simp add: journal_ok_def)
  moreover have "releases db e s (js_outputRefs input)" using q row(2) assms(3) by simp
  ultimately show ?thesis using q row by (auto simp: length_Suc_conv releases_def)
qed

theorem journal_release_qualified_witness:
  "\<exists>u\<in>set (stepsOf example_ws_steps ''e''). s_state u = Unknown \<and> cleanupProof example_ws_steps ''e'' [''receipt''] u
    \<and> (\<exists>s. findStep example_ws_steps ''e'' ''c'' = Some s \<and> releases example_ws_steps ''e'' s [''receipt''])"
proof -
  have "Unknown \<in> set (map s_state (stepsOf example_ws_steps ''e''))" by (simp add: example_ws_run)
  then obtain u where u: "u \<in> set (stepsOf example_ws_steps ''e'')" "s_state u = Unknown"
    unfolding set_map image_iff by metis
  moreover obtain db' ended where "settleExecutionJournalStep example_ws_steps example_ws_release = Inr (db', ended)"
    using example_ws_run by (auto simp: succeeds_iff)
  moreover have "findRoot example_ws_steps ''e'' \<noteq> None" by code_simp
  then obtain r where "findRoot example_ws_steps ''e'' = Some r" by blast
  moreover have "js_nextPhase example_ws_release = Closed" "sr_stepId (js_ref example_ws_release) = ''c''"
    "er_executionId (sr_execution (js_ref example_ws_release)) = ''e''" "js_outputRefs example_ws_release = [''receipt'']"
    by (simp_all add: example_ws_release_def example_settle_def example_ref_def)
  ultimately show ?thesis
    using journal_release_qualified [OF example_ws_reachable, of example_ws_release db' ended "''e''" r u] by auto
qed

text \<open>Writing an intent is idempotent: after it succeeded, the same intent given again by any process
  at any time succeeds, leaves the database as it is and returns the retained invocation, so
  neither the clock anchor nor the revision is renewed.\<close>

theorem journal_intent_idempotent:
  assumes "journal_reachable db" "writeExecutionJournalIntent proc db input w = Inr (db', seen)"
  shows "\<exists>n. writeExecutionJournalIntent proc' db' input w' = Inr (db', seen\<lparr>ei_remainingMs := n\<rparr>)"
proof -
  let ?e = "er_executionId (ad_ref (ji_execution input))"
  have ok: "journal_ok db" by (rule journal_ok_reachable [OF assms(1)])
  have ok': "journal_ok db'" by (rule journal_ok_write [OF ok assms(2)])
  have "\<exists>stored s. checkIntent db' input = Inr () \<and> findStep db' ?e (ji_stepId input) = Some s
      \<and> storedStep db' (intentRef input) = Inr stored \<and> repeatsIntent stored input
      \<and> seen = invocationView (intentRef input) stored (ei_remainingMs seen)"
    using assms(2)
  proof (cases rule: writeExecutionJournalIntent_cases)
    case 1
    then show ?thesis
      using assms(2) readInvocation_view
      by (auto simp: writeExecutionJournalIntent_def result_simps) fastforce
  next
    case 2
    obtain db1 rt invocation row where
      rt: "findRoot db1 ?e = Some rt" "r_input_fingerprint rt = ad_fingerprint (ji_execution input)"
      and inv: "intentInvocation proc db1 input w = Inr invocation"
      and row: "row = intentRow input (nextOrdinal db ?e) invocation"
      and steps: "db_steps db' = db_steps db @ [row]" and frame: "db_scope db' = db_scope db" "db_inTransaction db' = db_inTransaction db"
      and roots: "\<And>x. findRoot db' x = (if x = ?e then Some (rt\<lparr>r_revision := r_revision rt + 1\<rparr>) else findRoot db1 x)"
      by (rule admitIntent_effect [OF ok 2(1,2)]) blast
    have check: "checkIntent db' input = Inr ()" using 2(1) checkIntent_frame [OF frame] by simp
    have mem: "row \<in> set (db_steps db')" by (simp add: steps)
    have ref: "rowRef db' row = intentRef input"
      using checkIntentD(2) [OF check] by (simp add: rowRef_def row intentRow_def intentRef_def)
    obtain execution where stored: "storedStep db' (intentRef input) = Inr \<lparr>ss_root = execution, ss_row = row\<rparr>"
      using storedStep_ok [OF ok' mem] ref by auto
    then have "execution = rootView db' (ad_ref (ji_execution input)) (rt\<lparr>r_revision := r_revision rt + 1\<rparr>)"
      using roots [of ?e] by (auto simp: storedStep_Inr_iff readRoot_Inr_iff intentRef_def)
    moreover have "in_parent invocation = ji_parent input" "in_carriage invocation = ji_carriage input"
      using inv by (auto simp: intentInvocation_def result_simps)
    ultimately have "repeatsIntent \<lparr>ss_root = execution, ss_row = row\<rparr> input"
      using rt(2) by (simp add: repeatsIntent_def row intentRow_def rootView_def)
    moreover have "findStep db' ?e (ji_stepId input) = Some row"
      using stored by (simp add: storedStep_Inr_iff intentRef_def)
    moreover have "readExecutionJournalInvocation proc 1 db' (intentRef input) [] = Inr seen"
      using assms(2) 2 by (auto simp: writeExecutionJournalIntent_def result_simps)
    ultimately show ?thesis using check stored readInvocation_view by fastforce
  qed
  then obtain stored s where facts: "checkIntent db' input = Inr ()" "findStep db' ?e (ji_stepId input) = Some s"
      "storedStep db' (intentRef input) = Inr stored" "repeatsIntent stored input"
      "seen = invocationView (intentRef input) stored (ei_remainingMs seen)" by blast
  then obtain n where "writeExecutionJournalIntent proc' db' input w' = Inr (db', invocationView (intentRef input) stored n)"
    using intent_repeat [OF ok' facts(1-4)] by blast
  moreover have "seen\<lparr>ei_remainingMs := n\<rparr> = invocationView (intentRef input) stored n"
    by (subst facts(5)) (simp add: invocationView_def)
  ultimately show ?thesis by (intro exI [of _ n]) simp
qed

theorem journal_intent_idempotent_witness:
  "\<exists>db' seen n. writeExecutionJournalIntent example_process (example_empty CoreScope)
      (example_intent ServerOwner ''core-image-acquire/v1'' ''a'' Materialize ''00000000000000ab'' None) None = Inr (db', seen)
    \<and> writeExecutionJournalIntent example_process db'
      (example_intent ServerOwner ''core-image-acquire/v1'' ''a'' Materialize ''00000000000000ab'' None) None
      = Inr (db', seen\<lparr>ei_remainingMs := n\<rparr>)"
proof -
  have "succeeds (writeExecutionJournalIntent example_process (example_empty CoreScope)
      (example_intent ServerOwner ''core-image-acquire/v1'' ''a'' Materialize ''00000000000000ab'' None) None)"
    by code_simp
  then show ?thesis
    using journal_intent_idempotent [OF example_empty_reachable] by (fastforce simp: succeeds_iff)
qed


subsection \<open>The time allowance\<close>

text \<open>The original parent invocation of a step.\<close>

definition parentInvocation :: "JournalDb \<Rightarrow> ExecutionStepRef \<Rightarrow> ExecutionStepRef \<Rightarrow> bool" where
  "parentInvocation db ref parent =
    (\<exists>stored p. storedStep db ref = Inr stored \<and> in_parent (ss_invocation stored) = Some p \<and> ip_ref p = parent)"

text \<open>An invocation that is still live at a clock reading: open, of this process, with a deadline at
  least \<open>ms\<close> milliseconds away by the wall clock and by the monotonic clock since its admission.\<close>

definition liveFor :: "Process \<Rightarrow> nat \<Rightarrow> JournalDb \<Rightarrow> int \<Rightarrow> ExecutionStepRef \<Rightarrow> bool" where
  "liveFor proc k db ms ref =
    (\<exists>stored d. storedStep db ref = Inr stored \<and> s_state (ss_row stored) = Intent
       \<and> ck_processWitness (in_clock (ss_invocation stored)) = pr_witness proc
       \<and> ct_deadlineUnixNano (ss_control stored) = Some d
       \<and> ms * 1000000 \<le> d - pr_dateNow proc k * 1000000
       \<and> ms * 1000000 \<le> d - ck_admittedUnixNano (in_clock (ss_invocation stored))
            - (pr_hrtime proc k - ck_admittedMonotonicNano (in_clock (ss_invocation stored))))"

lemma ownRemainingMs_live:
  assumes "0 < ms" "ms \<le> ownRemainingMs proc k stored" "storedStep db ref = Inr stored"
  shows "liveFor proc k db ms ref"
proof -
  have scale: "ms * 1000000 \<le> n" if "ms \<le> n div 1000000" for n :: int
    using that by presburger
  show ?thesis
    using assms unfolding liveFor_def ownRemainingMs_def Let_def
    by (auto split: option.splits if_splits dest!: scale)
qed

lemma ownRemainingMs_nonneg: "0 \<le> ownRemainingMs proc k stored"
  by (auto simp: ownRemainingMs_def Let_def pos_imp_zdiv_nonneg_iff split: option.splits)

lemma readInvocation_remaining:
  "readExecutionJournalInvocation proc k db ref ancestors = Inr seen \<Longrightarrow>
    0 \<le> ei_remainingMs seen \<and> (0 < ei_remainingMs seen \<longrightarrow>
      (\<forall>a. (parentInvocation db)\<^sup>*\<^sup>* ref a \<longrightarrow> (\<exists>j\<ge>k. liveFor proc j db (ei_remainingMs seen) a)))"
proof (induction proc k db ref ancestors arbitrary: seen rule: readExecutionJournalInvocation.induct)
  case (1 proc k db ref ancestors)
  have fresh: "ref \<notin> set ancestors"
    using "1.prems" by (subst (asm) readExecutionJournalInvocation.simps) (auto split: if_splits)
  obtain stored where stored: "storedStep db ref = Inr stored"
    using "1.prems" fresh by (subst (asm) readExecutionJournalInvocation.simps) (auto split: sum.splits)
  let ?own = "ownRemainingMs proc k stored"
  note step = readExecutionJournalInvocation.simps [of proc k db ref ancestors]
  show ?case
  proof (cases "in_parent (ss_invocation stored)")
    case None
    then have seen: "ei_remainingMs seen = ?own"
      using "1.prems" by (simp add: step fresh stored invocationView_def Let_def) auto
    moreover have "a = ref" if "(parentInvocation db)\<^sup>*\<^sup>* ref a" for a
      using that None stored by (cases rule: converse_rtranclpE) (auto simp: parentInvocation_def)
    ultimately show ?thesis
      using ownRemainingMs_nonneg ownRemainingMs_live [OF _ _ stored] by fastforce
  next
    case (Some p)
    show ?thesis
    proof (cases "0 < ?own")
      case False
      then show ?thesis
        using "1.prems" Some ownRemainingMs_nonneg [of proc k stored]
        by (auto simp: step fresh stored invocationView_def Let_def)
    next
      case True
      then obtain original where original:
          "readExecutionJournalInvocation proc (Suc k) db (ip_ref p) (set_add ref ancestors) = Inr original"
        and seen: "ei_remainingMs seen = min ?own (ei_remainingMs original)"
        using "1.prems" Some by (auto simp: step fresh stored invocationView_def Let_def result_simps split: if_splits)
      note IH = "1.IH" [OF fresh stored refl Some True original]
      have "\<exists>j\<ge>k. liveFor proc j db (ei_remainingMs seen) a"
        if pos: "0 < ei_remainingMs seen" and a: "(parentInvocation db)\<^sup>*\<^sup>* ref a" for a
        using a
      proof (cases rule: converse_rtranclpE)
        case base
        then show ?thesis using ownRemainingMs_live [OF pos _ stored] seen by auto
      next
        case (step b)
        then have "(parentInvocation db)\<^sup>*\<^sup>* (ip_ref p) a" using stored Some by (auto simp: parentInvocation_def)
        then obtain j where "j \<ge> Suc k" "liveFor proc j db (ei_remainingMs original) a" using IH pos seen by auto
        moreover have "ei_remainingMs seen * 1000000 \<le> ei_remainingMs original * 1000000" using seen by simp
        ultimately have "liveFor proc j db (ei_remainingMs seen) a" unfolding liveFor_def by fastforce
        then show ?thesis using \<open>j \<ge> Suc k\<close> by (intro exI [of _ j]) simp
      qed
      then show ?thesis using IH seen ownRemainingMs_nonneg [of proc k stored] by auto
    qed
  qed
qed

text \<open>The time allowance that a read returns is never negative, and a positive allowance of \<open>ms\<close>
  milliseconds means that the invocation and every ancestor it was admitted under are still open,
  were admitted by this very process, and have deadlines at least that far away on both the wall
  clock and the monotonic clock. So an ended or restarted lineage, or an expired ancestor, leaves
  no allowance.\<close>

theorem journal_allowance_bounded:
  assumes "readExecutionJournalInvocation proc k db ref [] = Inr seen"
  shows "0 \<le> ei_remainingMs seen \<and> (0 < ei_remainingMs seen \<longrightarrow>
    (\<forall>a. (parentInvocation db)\<^sup>*\<^sup>* ref a \<longrightarrow> (\<exists>j\<ge>k. liveFor proc j db (ei_remainingMs seen) a)))"
  by (rule readInvocation_remaining [OF assms])

definition example_open :: JournalDb where
  "example_open = db_after (example_empty CoreScope) (writeExecutionJournalIntent example_process (example_empty CoreScope)
    (example_intent ServerOwner ''core-image-acquire/v1'' ''a'' Materialize ''00000000000000ab'' None) None)"

theorem journal_allowance_bounded_witness:
  "\<exists>seen. readExecutionJournalInvocation example_process 1 example_open (example_ref ServerOwner ''a'') [] = Inr seen
    \<and> 0 < ei_remainingMs seen \<and> (\<exists>j\<ge>1. liveFor example_process j example_open (ei_remainingMs seen) (example_ref ServerOwner ''a''))"
proof -
  have "(case readExecutionJournalInvocation example_process 1 example_open (example_ref ServerOwner ''a'') [] of
      Inl _ \<Rightarrow> False | Inr seen \<Rightarrow> 0 < ei_remainingMs seen)"
    by code_simp
  then obtain seen where "readExecutionJournalInvocation example_process 1 example_open (example_ref ServerOwner ''a'') [] = Inr seen"
      "0 < ei_remainingMs seen" by (auto split: sum.splits)
  then show ?thesis using journal_allowance_bounded by blast
qed

end
