(* ===== verification/Canonical_Json.thy ===== *)
theory Canonical_Json
  imports Prelude "HOL-Library.Char_ord" "HOL-Library.List_Lexorder"
begin

text \<open>
  Canonical JSON (\<^verbatim>\<open>packages/protocol/src/common/canonical-json.ts\<close>), the text that identifiers and
  content digests are computed from.

  \<open>JsValue\<close> is a plain JavaScript data value: a tree, so the cycle check of the source cannot fire,
  with plain arrays and objects whose own members are the association list of \<open>JObj\<close>. Numbers are
  the integers that \<^verbatim>\<open>JSON.stringify\<close> prints in decimal (below \<open>10\<^sup>2\<^sup>1\<close>), and \<open>JNonFinite\<close> stands for
  \<^verbatim>\<open>NaN\<close> and the infinities. Strings hold the characters below U+0100, so no lone surrogate occurs;
  \<^verbatim>\<open>sort()\<close> on keys is the order of their code units.
\<close>

datatype JsValue =
    JNull
  | JUndefined
  | JBool bool
  | JNum int
  | JNonFinite
  | JStr string
  | JArr "JsValue list"
  | JObj "(string \<times> JsValue) list"

subsection \<open>Text of scalars\<close>

definition decimalDigit :: "nat \<Rightarrow> char" where
  "decimalDigit n = ''0123456789'' ! n"

fun natText :: "nat \<Rightarrow> string" where
  "natText n = (if n < 10 then [decimalDigit n] else natText (n div 10) @ [decimalDigit (n mod 10)])"

declare natText.simps [simp del]

definition numberText :: "int \<Rightarrow> string" where
  "numberText n = (if n < 0 then CHR ''-'' # natText (nat (- n)) else natText (nat n))"

definition jsonEscape :: "char \<Rightarrow> string" where
  "jsonEscape c =
    (if c = CHR 0x22 then [CHR 0x5C, CHR 0x22]
     else if c = CHR 0x5C then [CHR 0x5C, CHR 0x5C]
     else if c = CHR 0x08 then [CHR 0x5C, CHR ''b'']
     else if c = CHR 0x09 then [CHR 0x5C, CHR ''t'']
     else if c = CHR 0x0A then [CHR 0x5C, CHR ''n'']
     else if c = CHR 0x0C then [CHR 0x5C, CHR ''f'']
     else if c = CHR 0x0D then [CHR 0x5C, CHR ''r'']
     else if c < CHR 0x20 then
       CHR 0x5C # ''u00'' @ [''0123456789abcdef'' ! (of_char c div 16), ''0123456789abcdef'' ! (of_char c mod 16)]
     else [c])"

definition jsonString :: "string \<Rightarrow> string" where
  "jsonString s = [CHR 0x22] @ concat (map jsonEscape s) @ [CHR 0x22]"

fun joinWith :: "string \<Rightarrow> string list \<Rightarrow> string" where
  "joinWith sep [] = []"
| "joinWith sep [s] = s"
| "joinWith sep (s # t # ss) = s @ sep @ joinWith sep (t # ss)"

subsection \<open>The encoder\<close>

lemma mapE_cong [fundef_cong]:
  "xs = ys \<Longrightarrow> (\<And>x. x \<in> set ys \<Longrightarrow> f x = g x) \<Longrightarrow> mapE f xs = mapE g ys"
  by (induction ys arbitrary: xs) auto

fun encodeCanonicalJson :: "bool \<Rightarrow> JsValue \<Rightarrow> string result" where
  "encodeCanonicalJson omit JNull = Inr ''null''"
| "encodeCanonicalJson omit (JStr s) = Inr (jsonString s)"
| "encodeCanonicalJson omit (JBool b) = Inr (if b then ''true'' else ''false'')"
| "encodeCanonicalJson omit (JNum n) = Inr (numberText n)"
| "encodeCanonicalJson omit JNonFinite = Inl ''Canonical JSON requires finite JSON values''"
| "encodeCanonicalJson omit JUndefined = Inl ''Canonical JSON requires finite JSON values''"
| "encodeCanonicalJson omit (JArr vs) =
    bindE (mapE (encodeCanonicalJson omit) vs) (\<lambda>entries. Inr (''['' @ joinWith '','' entries @ '']''))"
| "encodeCanonicalJson omit (JObj members) =
    bindE (mapE (\<lambda>m. bindE (encodeCanonicalJson omit (snd m)) (\<lambda>text. Inr (jsonString (fst m) @ '':'' @ text)))
      (filter (\<lambda>m. \<not> (snd m = JUndefined \<and> omit)) (sort_key fst members)))
    (\<lambda>entries. Inr (''{'' @ joinWith '','' entries @ ''}''))"

definition canonicalJsonText :: "JsValue \<Rightarrow> string result" where
  "canonicalJsonText v = encodeCanonicalJson True v"

definition canonicalIdentifierName :: "JsValue \<Rightarrow> string result" where
  "canonicalIdentifierName v = encodeCanonicalJson False v"

subsection \<open>The canonical value of a value\<close>

text \<open>Member order and omitted members are all that the canonical text forgets.\<close>

fun canonicalValue :: "bool \<Rightarrow> JsValue \<Rightarrow> JsValue" where
  "canonicalValue omit (JArr vs) = JArr (map (canonicalValue omit) vs)"
| "canonicalValue omit (JObj members) =
    JObj (map (\<lambda>m. (fst m, canonicalValue omit (snd m)))
      (filter (\<lambda>m. \<not> (snd m = JUndefined \<and> omit)) (sort_key fst members)))"
| "canonicalValue omit v = v"

subsection \<open>Scalars are uniquely readable\<close>

definition isDecimal :: "char \<Rightarrow> bool" where
  "isDecimal c = (c \<in> set ''0123456789'')"

definition delimited :: "string \<Rightarrow> bool" where
  "delimited x = (x = [] \<or> hd x \<in> set '',]}'')"

lemma decimalDigit_decimal [simp]: "n < 10 \<Longrightarrow> isDecimal (decimalDigit n)"
  unfolding isDecimal_def decimalDigit_def by (rule nth_mem) simp

lemma decimalDigit_inj: "m < 10 \<Longrightarrow> n < 10 \<Longrightarrow> decimalDigit m = decimalDigit n \<Longrightarrow> m = n"
  unfolding decimalDigit_def by (subst (asm) nth_eq_iff_index_eq) auto

lemma natText_decimal: "c \<in> set (natText n) \<Longrightarrow> isDecimal c"
proof (induction n rule: natText.induct)
  case (1 n)
  then show ?case by (subst (asm) (2) natText.simps) (auto split: if_splits)
qed

lemma natText_nonempty [simp]: "natText n \<noteq> []"
  by (subst natText.simps) simp

lemma natText_inj: "natText m = natText n \<Longrightarrow> m = n"
proof (induction m arbitrary: n rule: natText.induct)
  case (1 m)
  have len: "natText k \<noteq> [c]" if "\<not> k < 10" for k c
    using that by (subst natText.simps) auto
  show ?case
  proof (cases "m < 10 \<or> n < 10")
    case True
    then have "m < 10" "n < 10" using "1.prems" len by (metis natText.simps)+
    then show ?thesis using "1.prems" decimalDigit_inj by (simp add: natText.simps [of m] natText.simps [of n])
  next
    case False
    then have "natText (m div 10) = natText (n div 10)" "decimalDigit (m mod 10) = decimalDigit (n mod 10)"
      using "1.prems" by (simp_all add: natText.simps [of m] natText.simps [of n])
    then have "m div 10 = n div 10" "m mod 10 = n mod 10"
      using "1.IH" False decimalDigit_inj by simp_all
    then show ?thesis by (metis div_mult_mod_eq)
  qed
qed

lemma digits_split:
  assumes "s @ x = t @ y" "\<forall>c\<in>set s. isDecimal c" "\<forall>c\<in>set t. isDecimal c" "delimited x" "delimited y"
  shows "s = t \<and> x = y"
proof -
  have stop: "takeWhile isDecimal z = []" if "delimited z" for z
    using that by (cases z) (auto simp: delimited_def isDecimal_def)
  have "takeWhile isDecimal (s @ x) = s" "takeWhile isDecimal (t @ y) = t"
    using assms(2-5) stop by (simp_all add: takeWhile_append2)
  then show ?thesis using assms(1) by (metis same_append_eq)
qed

lemma numberText_unique:
  assumes "numberText m @ x = numberText n @ y" "delimited x" "delimited y"
  shows "m = n \<and> x = y"
proof -
  have dash: "natText k \<noteq> CHR ''-'' # l" for k l
    using natText_decimal [of "CHR ''-''" k] by (auto simp: isDecimal_def)
  have "(m < 0) = (n < 0)"
    using assms(1) dash by (cases "natText (nat m)"; cases "natText (nat n)") (auto simp: numberText_def split: if_splits)
  then have "natText (nat \<bar>m\<bar>) @ x = natText (nat \<bar>n\<bar>) @ y"
    using assms(1) by (auto simp: numberText_def split: if_splits)
  then have "natText (nat \<bar>m\<bar>) = natText (nat \<bar>n\<bar>) \<and> x = y"
    using digits_split natText_decimal assms(2,3) by blast
  then show ?thesis using natText_inj \<open>(m < 0) = (n < 0)\<close> by fastforce
qed

lemma hexPair_inj:
  assumes "a < 32" "b < 32" "''0123456789abcdef'' ! (a div 16) = ''0123456789abcdef'' ! (b div 16)"
    "''0123456789abcdef'' ! (a mod 16) = ''0123456789abcdef'' ! (b mod 16)"
  shows "a = (b :: nat)"
proof -
  have "a div 16 < 16" "b div 16 < 16" using assms(1,2) by simp_all
  then have "a div 16 = b div 16" "a mod 16 = b mod 16"
    using assms(3,4) by (simp_all add: nth_eq_iff_index_eq)
  then show ?thesis by (metis div_mult_mod_eq)
qed

lemma jsonEscape_unique:
  assumes "jsonEscape c @ x = jsonEscape d @ y"
  shows "c = d \<and> x = y"
proof -
  have small: "of_char c < (32 :: nat)" if "c < CHR 0x20" for c
    using that by (simp add: less_char_def)
  have hex: "c = d" if "c < CHR 0x20" "d < CHR 0x20"
      "''0123456789abcdef'' ! (of_char c div 16) = ''0123456789abcdef'' ! (of_char d div 16)"
      "''0123456789abcdef'' ! (of_char c mod 16) = ''0123456789abcdef'' ! (of_char d mod 16)"
    using hexPair_inj [OF small small] that by simp
  show ?thesis
    using assms hex by (auto simp: jsonEscape_def split: if_splits)
qed

lemma jsonEscape_hd: "jsonEscape c = d # x \<Longrightarrow> d \<noteq> CHR 0x22"
  by (auto simp: jsonEscape_def split: if_splits)

lemma jsonEscape_nonempty [simp]: "jsonEscape c \<noteq> []"
  by (simp add: jsonEscape_def)

lemma jsonString_unique:
  assumes "jsonString a @ x = jsonString b @ y"
  shows "a = b \<and> x = y"
proof -
  have "concat (map jsonEscape a) @ CHR 0x22 # x = concat (map jsonEscape b) @ CHR 0x22 # y \<Longrightarrow> a = b \<and> x = y"
  proof (induction a arbitrary: b)
    case Nil
    then show ?case
      by (cases b) (auto simp: Cons_eq_append_conv dest: jsonEscape_hd [OF sym])
  next
    case (Cons c a)
    show ?case
    proof (cases b)
      case Nil
      then show ?thesis using Cons.prems by (auto simp: append_eq_Cons_conv dest: jsonEscape_hd)
    next
      case (Cons d b')
      then have "jsonEscape c @ (concat (map jsonEscape a) @ CHR 0x22 # x)
          = jsonEscape d @ (concat (map jsonEscape b') @ CHR 0x22 # y)" using Cons.prems by simp
      then show ?thesis using jsonEscape_unique Cons.IH Cons by blast
    qed
  qed
  then show ?thesis using assms by (simp add: jsonString_def)
qed

subsection \<open>Values are uniquely readable\<close>

text \<open>A separated, closed list of texts splits uniquely when each text does.\<close>

lemma joinWith_Cons: "joinWith sep (s # ss) = s @ concat (map (\<lambda>t. sep @ t) ss)"
  by (induction ss arbitrary: s) simp_all

lemma separated_unique:
  fixes f :: "'v \<Rightarrow> string result"
  assumes close: "close \<in> {CHR '']'', CHR ''}''}"
    and unique: "\<And>v w s t x y. v \<in> set vs \<Longrightarrow> f v = Inr s \<Longrightarrow> f w = Inr t \<Longrightarrow> s @ x = t @ y \<Longrightarrow>
      delimited x \<Longrightarrow> delimited y \<Longrightarrow> g v = g w \<and> x = y"
    and "list_all2 (\<lambda>v s. f v = Inr s) vs ss" "list_all2 (\<lambda>v s. f v = Inr s) ws ts"
    and "concat (map (\<lambda>t. '','' @ t) ss) @ close # x = concat (map (\<lambda>t. '','' @ t) ts) @ close # y"
  shows "map g vs = map g ws \<and> x = y"
  using assms(3,2,4,5)
proof (induction vs ss arbitrary: ws ts rule: list_all2_induct)
  case Nil
  then show ?case using close by (cases ts) auto
next
  case (Cons v vs s ss)
  have tail: "delimited (concat (map (\<lambda>t. '','' @ t) us) @ close # z)" for us z
    using close by (cases us) (auto simp: delimited_def)
  from Cons.prems close obtain w t ws' ts' where w: "ws = w # ws'" "ts = t # ts'" "f w = Inr t"
      "list_all2 (\<lambda>v s. f v = Inr s) ws' ts'"
    by (cases ts) (auto simp: list_all2_Cons2)
  then have "s @ (concat (map (\<lambda>t. '','' @ t) ss) @ close # x) = t @ (concat (map (\<lambda>t. '','' @ t) ts') @ close # y)"
    using Cons.prems by simp
  from Cons.prems(1) [OF _ Cons.hyps(1) w(3) this tail tail]
  have split: "g v = g w" "concat (map (\<lambda>t. '','' @ t) ss) @ close # x = concat (map (\<lambda>t. '','' @ t) ts') @ close # y"
    by auto
  have "map g vs = map g ws' \<and> x = y"
    using Cons.IH [OF _ w(4) split(2)] Cons.prems(1) by (metis list.set_intros(2))
  then show ?case using split(1) w(1) by simp
qed

lemma entries_unique:
  fixes f :: "'v \<Rightarrow> string result"
  assumes close: "close \<in> {CHR '']'', CHR ''}''}"
    and unique: "\<And>v w s t x y. v \<in> set vs \<Longrightarrow> f v = Inr s \<Longrightarrow> f w = Inr t \<Longrightarrow> s @ x = t @ y \<Longrightarrow>
      delimited x \<Longrightarrow> delimited y \<Longrightarrow> g v = g w \<and> x = y"
    and start: "\<And>v s. f v = Inr s \<Longrightarrow> \<exists>c r. s = c # r \<and> c \<notin> set '',]}:''"
    and entries: "mapE f vs = Inr ss" "mapE f ws = Inr ts"
    and same: "joinWith '','' ss @ close # x = joinWith '','' ts @ close # y"
  shows "map g vs = map g ws \<and> x = y"
proof -
  have all: "list_all2 (\<lambda>v s. f v = Inr s) vs ss" "list_all2 (\<lambda>v s. f v = Inr s) ws ts"
    using entries by (simp_all add: mapE_Inr_iff)
  have nonempty: "joinWith '','' us @ close # z \<noteq> close # z'"
    if "list_all2 (\<lambda>v s. f v = Inr s) zs us" "us \<noteq> []" for zs us z z'
  proof -
    from that obtain u us' v where "us = u # us'" "f v = Inr u" by (cases us) (auto simp: list_all2_Cons2)
    with start [OF this(2)] close show ?thesis by (auto simp: joinWith_Cons)
  qed
  have "(ss = []) = (ts = [])"
    using same nonempty [OF all(1)] nonempty [OF all(2)] by (metis append_Nil joinWith.simps(1))
  then have "concat (map (\<lambda>t. '','' @ t) ss) @ close # x = concat (map (\<lambda>t. '','' @ t) ts) @ close # y"
    using same by (cases ss; cases ts) (auto simp: joinWith_Cons)
  from separated_unique [where f = f and g = g and vs = vs, OF close _ all this] unique
  show ?thesis by blast
qed

lemma encode_start:
  assumes "encodeCanonicalJson omit v = Inr s"
  shows "\<exists>c r. s = c # r \<and> c \<notin> set '',]}:'' \<and>
    (case v of JNull \<Rightarrow> c = CHR ''n'' | JBool b \<Rightarrow> c = (if b then CHR ''t'' else CHR ''f'')
     | JStr _ \<Rightarrow> c = CHR 0x22 | JNum _ \<Rightarrow> c = CHR ''-'' \<or> isDecimal c
     | JArr _ \<Rightarrow> c = CHR ''['' | JObj _ \<Rightarrow> c = CHR ''{'' | _ \<Rightarrow> False)"
proof (cases v)
  case (JNum n)
  obtain d l where "natText (nat n) = d # l" "isDecimal d"
    using natText_decimal [of "hd (natText (nat n))" "nat n"] by (cases "natText (nat n)") auto
  then have "s = CHR ''-'' # natText (nat (- n)) \<or> s = d # l"
    using assms by (cases "n < 0") (simp_all add: JNum numberText_def)
  then have "\<exists>c r. s = c # r \<and> (c = CHR ''-'' \<or> isDecimal c)"
    using \<open>isDecimal d\<close> by blast
  moreover have "c \<notin> set '',]}:''" if "c = CHR ''-'' \<or> isDecimal c" for c
    using that by (auto simp: isDecimal_def)
  ultimately show ?thesis by (auto simp: JNum)
qed (use assms in \<open>auto simp: jsonString_def result_simps\<close>)

lemma member_unique:
  fixes f :: "JsValue \<Rightarrow> string result"
  assumes "bindE (f (snd m)) (\<lambda>text. Inr (jsonString (fst m) @ '':'' @ text)) = Inr s"
    "bindE (f (snd n)) (\<lambda>text. Inr (jsonString (fst n) @ '':'' @ text)) = Inr t"
    and "s @ x = t @ y"
    and unique: "\<And>s t. f (snd m) = Inr s \<Longrightarrow> f (snd n) = Inr t \<Longrightarrow> s @ x = t @ y \<Longrightarrow> g (snd m) = g (snd n) \<and> x = y"
  shows "(fst m, g (snd m)) = (fst n, g (snd n)) \<and> x = y"
proof -
  obtain s' t' where st: "f (snd m) = Inr s'" "s = jsonString (fst m) @ '':'' @ s'"
      "f (snd n) = Inr t'" "t = jsonString (fst n) @ '':'' @ t'"
    using assms(1,2) by (auto simp: result_simps)
  then have "jsonString (fst m) @ ('':'' @ s' @ x) = jsonString (fst n) @ ('':'' @ t' @ y)" using assms(3) by simp
  then have "fst m = fst n" "s' @ x = t' @ y" using jsonString_unique by (metis append.assoc same_append_eq)+
  then show ?thesis using unique st by simp
qed

text \<open>The first character tells the kind of the value.\<close>

fun jsKind :: "JsValue \<Rightarrow> nat" where
  "jsKind JNull = 0"
| "jsKind (JBool b) = (if b then 1 else 2)"
| "jsKind (JNum n) = 3"
| "jsKind (JStr s) = 4"
| "jsKind (JArr vs) = 5"
| "jsKind (JObj ms) = 6"
| "jsKind v = 7"

definition firstKind :: "char \<Rightarrow> nat" where
  "firstKind c =
    (if c = CHR ''n'' then 0 else if c = CHR ''t'' then 1 else if c = CHR ''f'' then 2
     else if c = CHR 0x22 then 4 else if c = CHR ''['' then 5 else if c = CHR ''{'' then 6 else 3)"

lemma firstKind_decimal: "c = CHR ''-'' \<or> isDecimal c \<Longrightarrow> firstKind c = 3"
  by (auto simp: isDecimal_def firstKind_def)

lemma encode_firstKind: "encodeCanonicalJson omit v = Inr s \<Longrightarrow> \<exists>c r. s = c # r \<and> firstKind c = jsKind v"
proof (drule encode_start, elim exE conjE, goal_cases)
  case (1 c r)
  then show ?case using firstKind_decimal by (cases v) (auto simp: firstKind_def split: if_splits)
qed

lemma encode_sameKind:
  assumes "encodeCanonicalJson omit v = Inr s" "encodeCanonicalJson omit w = Inr t" "s @ x = t @ y"
  shows "jsKind w = jsKind v"
  using encode_firstKind [OF assms(1)] encode_firstKind [OF assms(2)] assms(3) by auto

lemma encode_unique:
  "\<lbrakk>encodeCanonicalJson omit v = Inr s; encodeCanonicalJson omit w = Inr t; s @ x = t @ y; delimited x; delimited y\<rbrakk>
    \<Longrightarrow> canonicalValue omit v = canonicalValue omit w \<and> x = y"
proof (induction omit v arbitrary: w s t x y rule: encodeCanonicalJson.induct)
  case (7 omit vs)
  obtain ss where ss: "mapE (encodeCanonicalJson omit) vs = Inr ss" "s = ''['' @ joinWith '','' ss @ '']''"
    using "7.prems"(1) by (auto simp: bindE_Inr_iff)
  obtain ws where w: "w = JArr ws"
    using encode_sameKind [OF "7.prems"(1-3)] by (cases w) (auto split: if_splits)
  obtain ts where ts: "mapE (encodeCanonicalJson omit) ws = Inr ts" "t = ''['' @ joinWith '','' ts @ '']''"
    using "7.prems"(2) w by (auto simp: bindE_Inr_iff)
  have "map (canonicalValue omit) vs = map (canonicalValue omit) ws \<and> x = y"
  proof (rule entries_unique [OF _ _ _ ss(1) ts(1)])
    show "joinWith '','' ss @ CHR '']'' # x = joinWith '','' ts @ CHR '']'' # y" using "7.prems"(3) ss ts by simp
    show "\<exists>c r. s = c # r \<and> c \<notin> set '',]}:''" if "encodeCanonicalJson omit v = Inr s" for v s
      using encode_start [OF that] by blast
    show "canonicalValue omit v = canonicalValue omit w' \<and> x' = y'"
      if "v \<in> set vs" "encodeCanonicalJson omit v = Inr s'" "encodeCanonicalJson omit w' = Inr t'" "s' @ x' = t' @ y'"
        "delimited x'" "delimited y'" for v w' s' t' x' y'
      by (rule "7.IH" [OF that])
  qed simp
  then show ?case by (simp add: w)
next
  case (8 omit members)
  let ?f = "\<lambda>m. bindE (encodeCanonicalJson omit (snd m)) (\<lambda>text. Inr (jsonString (fst m) @ '':'' @ text))"
  let ?kept = "\<lambda>ms. filter (\<lambda>m. \<not> (snd m = JUndefined \<and> omit)) (sort_key fst ms)"
  obtain ss where ss: "mapE ?f (?kept members) = Inr ss" "s = ''{'' @ joinWith '','' ss @ ''}''"
    using "8.prems"(1) by (auto simp: bindE_Inr_iff)
  obtain ms where w: "w = JObj ms"
    using encode_sameKind [OF "8.prems"(1-3)] by (cases w) (auto split: if_splits)
  obtain ts where ts: "mapE ?f (?kept ms) = Inr ts" "t = ''{'' @ joinWith '','' ts @ ''}''"
    using "8.prems"(2) w by (auto simp: bindE_Inr_iff)
  have "map (\<lambda>m. (fst m, canonicalValue omit (snd m))) (?kept members)
      = map (\<lambda>m. (fst m, canonicalValue omit (snd m))) (?kept ms) \<and> x = y"
  proof (rule entries_unique [OF _ _ _ ss(1) ts(1)])
    show "joinWith '','' ss @ CHR ''}'' # x = joinWith '','' ts @ CHR ''}'' # y" using "8.prems"(3) ss ts by simp
    show "\<exists>c r. s = c # r \<and> c \<notin> set '',]}:''" if "?f m = Inr s" for m s
      using that by (auto simp: bindE_Inr_iff jsonString_def)
    show "(fst m, canonicalValue omit (snd m)) = (fst n, canonicalValue omit (snd n)) \<and> x' = y'"
      if "m \<in> set (?kept members)" "?f m = Inr s'" "?f n = Inr t'" "s' @ x' = t' @ y'" "delimited x'" "delimited y'"
      for m n s' t' x' y'
      by (rule member_unique [OF that(2-4)], rule "8.IH" [OF that(1) _ _ _ that(5,6)])
  qed simp
  then show ?case by (simp add: w)
next
  case (1 omit)
  then show ?case using encode_sameKind [OF "1.prems"(1-3)] by (cases w) (auto split: if_splits)
next
  case (2 omit a)
  obtain b where "w = JStr b" using encode_sameKind [OF "2.prems"(1-3)] by (cases w) (auto split: if_splits)
  then show ?case using "2.prems"(1-3) jsonString_unique [of a x b y] by simp
next
  case (3 omit b)
  then show ?case using encode_sameKind [OF "3.prems"(1-3)] by (cases w) (auto split: if_splits)
next
  case (4 omit n)
  obtain m where "w = JNum m" using encode_sameKind [OF "4.prems"(1-3)] by (cases w) (auto split: if_splits)
  then show ?case using "4.prems" numberText_unique [of n x m y] by simp
qed simp_all

lemma mapE_map: "mapE f (map h xs) = mapE (\<lambda>x. f (h x)) xs"
  by (induction xs) simp_all

lemma canonicalValue_undefined [simp]: "canonicalValue omit v = JUndefined \<longleftrightarrow> v = JUndefined"
  by (cases v) simp_all

lemma encode_canonicalValue: "encodeCanonicalJson omit (canonicalValue omit v) = encodeCanonicalJson omit v"
proof (induction omit v rule: encodeCanonicalJson.induct)
  case (7 omit vs)
  then have "mapE (encodeCanonicalJson omit) (map (canonicalValue omit) vs) = mapE (encodeCanonicalJson omit) vs"
    unfolding mapE_map by (intro mapE_cong) auto
  then show ?case by simp
next
  case (8 omit members)
  let ?kept = "filter (\<lambda>m. \<not> (snd m = JUndefined \<and> omit)) (sort_key fst members)"
  let ?h = "\<lambda>m. (fst m, canonicalValue omit (snd m))"
  let ?f = "\<lambda>m. bindE (encodeCanonicalJson omit (snd m)) (\<lambda>text. Inr (jsonString (fst m) @ '':'' @ text))"
  have "sorted (map fst (map ?h ?kept))" by (simp add: o_def sorted_filter)
  then have "sort_key fst (map ?h ?kept) = map ?h ?kept" by (rule sort_key_id_if_sorted)
  moreover have "filter (\<lambda>m. \<not> (snd m = JUndefined \<and> omit)) (map ?h ?kept) = map ?h ?kept"
    by (rule filter_True) auto
  moreover have "mapE ?f (map ?h ?kept) = mapE ?f ?kept"
    unfolding mapE_map using "8.IH" by (intro mapE_cong) auto
  ultimately show ?case by (simp del: filter_filter)
qed simp_all

text \<open>C29: Canonical text identifies a value: two values that can be encoded have the same canonical
  text exactly when they are the same value up to the order of object members and, where the
  encoder omits them, undefined members. In particular no two different values share an
  identifier name, whatever characters their strings hold.\<close>

theorem canonical_text_identifies:
  assumes "encodeCanonicalJson omit v = Inr s" "encodeCanonicalJson omit w = Inr t"
  shows "s = t \<longleftrightarrow> canonicalValue omit v = canonicalValue omit w"
proof
  assume "s = t"
  then show "canonicalValue omit v = canonicalValue omit w"
    using encode_unique [OF assms, of "[]" "[]"] by (simp add: delimited_def)
next
  assume "canonicalValue omit v = canonicalValue omit w"
  then show "s = t" using assms encode_canonicalValue by (metis sum.inject(2))
qed

theorem canonical_text_identifies_witness:
  "\<exists>s t. canonicalIdentifierName (JObj [(''b'', JNum (-12)), (''a'', JStr ''x'')]) = Inr s
     \<and> canonicalIdentifierName (JObj [(''a'', JStr ''x''), (''b'', JNum 12)]) = Inr t \<and> s \<noteq> t"
proof -
  let ?v = "JObj [(''b'', JNum (-12)), (''a'', JStr ''x'')]" and ?w = "JObj [(''a'', JStr ''x''), (''b'', JNum 12)]"
  have "succeeds (encodeCanonicalJson False ?v)" "succeeds (encodeCanonicalJson False ?w)"
    "canonicalValue False ?v \<noteq> canonicalValue False ?w"
    by code_simp+
  then obtain s t where st: "encodeCanonicalJson False ?v = Inr s" "encodeCanonicalJson False ?w = Inr t"
    unfolding succeeds_iff by blast
  with canonical_text_identifies [OF st] \<open>canonicalValue False ?v \<noteq> canonicalValue False ?w\<close>
  show ?thesis unfolding canonicalIdentifierName_def by blast
qed

end
