(* ===== verification/Derived_Entity_Id.thy ===== *)
theory Derived_Entity_Id
  imports Entity_Id Canonical_Json
begin

text \<open>
  Derived entity identifiers (\<^verbatim>\<open>packages/protocol/src/common/entity-id.ts\<close>): the UUIDv5 of a declared name,
  with the SHA-1 the source implements for it.

  A word of the source's \<^verbatim>\<open>Int32Array\<close> is a \<open>32 word\<close>: the bitwise operators of JavaScript act on these bits, and a sum
  of such numbers is exact below \<open>2\<^sup>5\<^sup>3\<close> before \<^verbatim>\<open>| 0\<close> keeps its low 32 bits, which is addition of words. Characters are
  below U+0100, as in the canonical text, so UTF-8 takes one or two bytes.
\<close>

unbundle bit_operations_syntax

section \<open>The model\<close>

definition rotateWord :: "32 word \<Rightarrow> nat \<Rightarrow> 32 word" where
  "rotateWord w bits = push_bit bits w OR drop_bit (32 - bits) w"

text \<open>\<^verbatim>\<open>setInt32\<close> and \<^verbatim>\<open>setBigUint64\<close>: the \<open>n\<close> low bytes, the most significant first.\<close>

definition bigEndian :: "nat \<Rightarrow> int \<Rightarrow> 8 word list" where
  "bigEndian n v = map (\<lambda>i. word_of_int (drop_bit (8 * (n - 1 - i)) v)) [0..<n]"

definition paddedInput :: "8 word list \<Rightarrow> 8 word list" where
  "paddedInput input =
    (let n = (length input + 9 + 63) div 64 * 64
     in input @ [0x80] @ replicate (n - length input - 9) 0 @ bigEndian 8 (int (length input) * 8))"

definition getInt32 :: "8 word list \<Rightarrow> nat \<Rightarrow> 32 word" where
  "getInt32 bytes i = word_of_int (foldl (\<lambda>v b. v * 256 + uint b) 0 (take 4 (drop i bytes)))"

definition sha1Schedule :: "8 word list \<Rightarrow> nat \<Rightarrow> 32 word list" where
  "sha1Schedule padded offset =
    foldl (\<lambda>ws i. ws @ [rotateWord (ws ! (i - 3) XOR ws ! (i - 8) XOR ws ! (i - 14) XOR ws ! (i - 16)) 1])
      (map (\<lambda>i. getInt32 padded (offset + i * 4)) [0..<16]) [16..<80]"

type_synonym sha1State = "32 word \<times> 32 word \<times> 32 word \<times> 32 word \<times> 32 word"

definition sha1Round :: "32 word list \<Rightarrow> sha1State \<Rightarrow> nat \<Rightarrow> sha1State" where
  "sha1Round ws = (\<lambda>(a, b, c, d, e) i.
    let f = (if i < 20 then (b AND c) OR (NOT b AND d) else if i < 40 then b XOR c XOR d
             else if i < 60 then (b AND c) OR (b AND d) OR (c AND d) else b XOR c XOR d);
        k = (if i < 20 then 0x5a827999 else if i < 40 then 0x6ed9eba1 else if i < 60 then 0x8f1bbcdc else 0xca62c1d6);
        next_word = rotateWord a 5 + f + e + k + ws ! i
    in (next_word, a, rotateWord b 30, c, d))"

definition sha1Block :: "8 word list \<Rightarrow> sha1State \<Rightarrow> nat \<Rightarrow> sha1State" where
  "sha1Block padded state offset =
    (case (state, foldl (sha1Round (sha1Schedule padded offset)) state [0..<80]) of
       ((a, b, c, d, e), (a', b', c', d', e')) \<Rightarrow> (a + a', b + b', c + c', d + d', e + e'))"

definition sha1 :: "8 word list \<Rightarrow> 8 word list" where
  "sha1 input =
    (let padded = paddedInput input in
     case foldl (sha1Block padded) (0x67452301, 0xefcdab89, 0x98badcfe, 0x10325476, 0xc3d2e1f0)
         (map (\<lambda>i. i * 64) [0..<length padded div 64]) of
       (a, b, c, d, e) \<Rightarrow> concat (map (bigEndian 4 \<circ> uint) [a, b, c, d, e]))"

definition utf8 :: "string \<Rightarrow> 8 word list" where
  "utf8 s = concat (map (\<lambda>c. let n = of_char c :: int in
     if n < 128 then [word_of_int n] else [word_of_int (192 + n div 64), word_of_int (128 + n mod 64)]) s)"

fun parseHexBytes :: "string \<Rightarrow> 8 word list" where
  "parseHexBytes (a # b # s) = word_of_int (int (indexOf a hexDigits * 16 + indexOf b hexDigits)) # parseHexBytes s"
| "parseHexBytes _ = []"

definition namespaceBytes :: "string \<Rightarrow> 8 word list" where
  "namespaceBytes uuid = parseHexBytes (filter (\<lambda>c. c \<noteq> CHR ''-'') uuid)"

definition uuidV5 :: "8 word list \<Rightarrow> 8 word list" where
  "uuidV5 input =
    (let bytes = take 16 (sha1 input);
         bytes = bytes[6 := (bytes ! 6 AND 0x0f) OR 0x50]
     in bytes[8 := (bytes ! 8 AND 0x3f) OR 0x80])"

definition deriveEntityId :: "string \<Rightarrow> JsValue \<Rightarrow> string result" where
  "deriveEntityId kind name =
    (case map_of DERIVED_NAMESPACES kind of
       None \<Rightarrow> Inl ''Entity kind has no owned derivation''
     | Some uuid \<Rightarrow> bindE (canonicalIdentifierName name) (\<lambda>text.
         Inr (kind @ ''_'' @ formatUuid (uuidV5 (namespaceBytes uuid @ utf8 text)))))"

section \<open>The standard\<close>

text \<open>
  SHA-1 as FIPS 180-4 states it: the message followed by a one bit, the least number of zeros and its length, the schedule
  \<open>W\<close> as a recursive function of the round, and the functions \<open>Ch\<close>, \<open>Parity\<close> and \<open>Maj\<close> with circular shifts.
\<close>

definition fipsPadding :: "8 word list \<Rightarrow> 8 word list" where
  "fipsPadding m = m @ 0x80 # replicate ((119 - length m mod 64) mod 64) 0 @ bigEndian 8 (8 * int (length m))"

fun fipsSchedule :: "(nat \<Rightarrow> 32 word) \<Rightarrow> nat \<Rightarrow> 32 word" where
  "fipsSchedule M t =
    (if t < 16 then M t
     else word_rotl 1 (fipsSchedule M (t - 3) XOR fipsSchedule M (t - 8) XOR fipsSchedule M (t - 14) XOR fipsSchedule M (t - 16)))"

declare fipsSchedule.simps [simp del]

definition fipsF :: "nat \<Rightarrow> 32 word \<Rightarrow> 32 word \<Rightarrow> 32 word \<Rightarrow> 32 word" where
  "fipsF t x y z =
    (if t \<le> 19 then (x AND y) XOR (NOT x AND z)
     else if 40 \<le> t \<and> t \<le> 59 then (x AND y) XOR (x AND z) XOR (y AND z) else x XOR y XOR z)"

definition fipsK :: "nat \<Rightarrow> 32 word" where
  "fipsK t = [0x5a827999, 0x6ed9eba1, 0x8f1bbcdc, 0xca62c1d6] ! (t div 20)"

fun fipsRounds :: "(nat \<Rightarrow> 32 word) \<Rightarrow> nat \<Rightarrow> sha1State \<Rightarrow> sha1State" where
  "fipsRounds W 0 s = s"
| "fipsRounds W (Suc t) s =
    (case fipsRounds W t s of (a, b, c, d, e) \<Rightarrow> (word_rotl 5 a + fipsF t b c d + e + fipsK t + W t, a, word_rotl 30 b, c, d))"

definition fipsBlock :: "8 word list \<Rightarrow> nat \<Rightarrow> sha1State \<Rightarrow> sha1State" where
  "fipsBlock p n s =
    (case (s, fipsRounds (fipsSchedule (\<lambda>t. word_of_int (bytesNumber (take 4 (drop (64 * n + 4 * t) p))))) 80 s) of
       ((a, b, c, d, e), (a', b', c', d', e')) \<Rightarrow> (a' + a, b' + b, c' + c, d' + d, e' + e))"

definition fips180Sha1 :: "8 word list \<Rightarrow> 8 word list" where
  "fips180Sha1 m =
    (let p = fipsPadding m in
     case fold (fipsBlock p) [0..<length p div 64] (0x67452301, 0xefcdab89, 0x98badcfe, 0x10325476, 0xc3d2e1f0) of
       (a, b, c, d, e) \<Rightarrow> bigEndian 4 (uint a) @ bigEndian 4 (uint b) @ bigEndian 4 (uint c) @ bigEndian 4 (uint d) @ bigEndian 4 (uint e))"

section \<open>The implementation meets the standard\<close>

lemma rotateWord_rotl: "0 < n \<Longrightarrow> n < 32 \<Longrightarrow> rotateWord w n = word_rotl n w"
proof (rule bit_word_eqI)
  fix m :: nat
  assume n: "0 < n" "n < 32" and m: "m < LENGTH(32)"
  have turned: "(m + 32 - n) mod 32 = (if n \<le> m then m - n else 32 + m - n)"
  proof (cases "n \<le> m")
    case True
    then have "m + 32 - n = m - n + 32" by simp
    then show ?thesis using True m by (simp add: mod_if)
  qed (use n m in simp)
  have "\<not> bit w (32 + m - n)" if "n \<le> m" using that bit_imp_le_length [of w "32 + m - n"] by auto
  then show "bit (rotateWord w n) m = bit (word_rotl n w) m"
    using n m turned by (auto simp: rotateWord_def bit_word_rotl_iff bit_simps)
qed

lemma choose_xor: "(x AND y) OR (NOT x AND z) = (x AND y) XOR (NOT x AND z)" for x :: "32 word"
  by (rule bit_word_eqI) (auto simp: bit_simps)

lemma majority_xor: "(x AND y) OR (x AND z) OR (y AND z) = (x AND y) XOR (x AND z) XOR (y AND z)" for x :: "32 word"
  by (rule bit_word_eqI) (auto simp: bit_simps)

lemma padded_fips: "paddedInput m = fipsPadding m"
proof -
  define q r where "q = length m div 64" "r = length m mod 64"
  have m: "length m = 64 * q + r" "r < 64" by (simp_all add: q_r_def)
  have "(length m + 9 + 63) div 64 = (if r < 56 then q + 1 else q + 2)"
  proof (cases "r < 56")
    case True
    then show ?thesis by (simp add: m(1) div_nat_eqI)
  next
    case False
    have "(64 * q + r + 9 + 63) div 64 = q + 2" by (rule div_nat_eqI) (use False m(2) in simp_all)
    then show ?thesis using False by (simp add: m(1))
  qed
  moreover have "(119 - r) mod 64 = (if r < 56 then 55 - r else 119 - r)"
  proof (cases "r < 56")
    case True
    then have "(119 - r) mod 64 = (55 - r + 64) mod 64" by (intro arg_cong [of _ _ "\<lambda>x. x mod 64"]) simp
    then show ?thesis using True by (simp only: mod_add_self2) simp
  qed (use m(2) in simp)
  ultimately have "(length m + 9 + 63) div 64 * 64 - length m - 9 = (119 - length m mod 64) mod 64"
    unfolding q_r_def(2) [symmetric] using m by simp
  then show ?thesis by (simp add: paddedInput_def fipsPadding_def mult.commute)
qed

lemma getInt32_bytes: "getInt32 p i = word_of_int (bytesNumber (take 4 (drop i p)))"
  by (simp add: getInt32_def bytesNumber_def mult.commute)

lemma schedule_fips:
  "sha1Schedule p offset = map (fipsSchedule (\<lambda>t. getInt32 p (offset + 4 * t))) [0..<80]"
proof -
  define W where "W = fipsSchedule (\<lambda>t. getInt32 p (offset + 4 * t))"
  define extend where "extend ws i = ws @ [rotateWord (ws ! (i - 3) XOR ws ! (i - 8) XOR ws ! (i - 14) XOR ws ! (i - 16)) 1]" for ws :: "32 word list" and i :: nat
  have "foldl extend (map W [0..<16]) [16..<16 + n] = map W [0..<16 + n]" for n
  proof (induction n)
    case (Suc n)
    have "W (16 + n) = word_rotl 1 (W (13 + n) XOR W (8 + n) XOR W (2 + n) XOR W n)"
      unfolding W_def by (subst fipsSchedule.simps) simp
    then have "extend (map W [0..<16 + n]) (16 + n) = map W [0..<16 + n] @ [W (16 + n)]"
      by (simp add: extend_def rotateWord_rotl add.commute)
    moreover have "[i..<16 + Suc n] = [i..<16 + n] @ [16 + n]" if "i \<le> 16" for i
      unfolding add_Suc_right by (rule upt_Suc_append) (use that in simp)
    ultimately show ?case using Suc by (simp only: foldl_append foldl.simps map_append list.map)
  qed simp
  from this [of 64] have "foldl extend (map W [0..<16]) [16..<80] = map W [0..<80]" by (simp only: numeral_plus_numeral add_num_simps)
  moreover have "map (\<lambda>i. getInt32 p (offset + i * 4)) [0..<16] = map W [0..<16]"
    by (rule map_cong) (simp_all add: W_def fipsSchedule.simps mult.commute)
  moreover have "extend = (\<lambda>ws i. ws @ [rotateWord (ws ! (i - 3) XOR ws ! (i - 8) XOR ws ! (i - 14) XOR ws ! (i - 16)) 1])"
    by (intro ext) (simp add: extend_def)
  ultimately show ?thesis unfolding sha1Schedule_def W_def by (simp only:)
qed

lemma round_fips:
  assumes "i < 80"
  shows "sha1Round (map W [0..<80]) (a, b, c, d, e) i = (word_rotl 5 a + fipsF i b c d + e + fipsK i + W i, a, word_rotl 30 b, c, d)"
proof -
  consider "i < 20" | "20 \<le> i" "i < 40" | "40 \<le> i" "i < 60" | "60 \<le> i" using assms by linarith
  then have "fipsK i = (if i < 20 then 0x5a827999 else if i < 40 then 0x6ed9eba1 else if i < 60 then 0x8f1bbcdc else 0xca62c1d6)"
  proof cases
    case 4
    then have "i div 20 = 3" using assms by (intro div_nat_eqI) simp_all
    then show ?thesis using 4 by (simp add: fipsK_def)
  next
    case 2
    then have "i div 20 = 1" by (intro div_nat_eqI) simp_all
    then show ?thesis using 2 by (simp add: fipsK_def)
  next
    case 3
    then have "i div 20 = 2" by (intro div_nat_eqI) simp_all
    then show ?thesis using 3 by (simp add: fipsK_def)
  qed (simp add: fipsK_def)
  then show ?thesis using assms by (simp add: sha1Round_def Let_def rotateWord_rotl fipsF_def choose_xor majority_xor)
qed

lemma rounds_fips: "n \<le> 80 \<Longrightarrow> foldl (sha1Round (map W [0..<80])) s [0..<n] = fipsRounds W n s"
proof (induction n)
  case (Suc n)
  obtain a b c d e where "fipsRounds W n s = (a, b, c, d, e)" using prod_cases5 by blast
  then show ?case using Suc round_fips [of n] by simp
qed simp

lemma block_fips: "sha1Block p s (n * 64) = fipsBlock p n s"
proof -
  obtain a b c d e where s: "s = (a, b, c, d, e)" using prod_cases5 by blast
  obtain a' b' c' d' e' where r: "fipsRounds (fipsSchedule (\<lambda>t. getInt32 p (n * 64 + 4 * t))) 80 s = (a', b', c', d', e')"
    using prod_cases5 by blast
  show ?thesis using r
    by (simp add: sha1Block_def fipsBlock_def schedule_fips rounds_fips getInt32_bytes mult.commute s add.commute)
qed

lemma sha1_fips: "sha1 m = fips180Sha1 m"
proof -
  have "foldl (sha1Block p) s (map (\<lambda>i. i * 64) ns) = fold (fipsBlock p) ns s" for p s ns
    by (induction ns arbitrary: s) (simp_all add: block_fips)
  then show ?thesis by (simp add: sha1_def fips180Sha1_def padded_fips Let_def split: prod.splits)
qed

section \<open>Derived identifiers\<close>

lemma length_sha1: "length (sha1 m) = 20"
  by (simp add: sha1_def bigEndian_def Let_def split: prod.splits)

lemma version_nibble_5: "unat ((b AND 0x0f) OR 0x50 :: 8 word) div 16 = 5"
proof -
  have "drop_bit 4 ((b AND 0x0f) OR 0x50) = (5 :: 8 word)" by (simp add: drop_bit_and drop_bit_or)
  then show ?thesis by (simp add: unat_div_16)
qed

lemma derived_kind: "map_of DERIVED_NAMESPACES kind = Some uuid \<Longrightarrow> kind \<in> set ENTITY_KINDS \<and> kind \<in> fst ` set DERIVED_NAMESPACES"
proof -
  assume "map_of DERIVED_NAMESPACES kind = Some uuid"
  then have "(kind, uuid) \<in> set DERIVED_NAMESPACES" by (rule map_of_SomeD)
  then have "kind \<in> fst ` set DERIVED_NAMESPACES" by force
  moreover have "fst ` set DERIVED_NAMESPACES \<subseteq> set ENTITY_KINDS" by code_simp
  ultimately show ?thesis by blast
qed

text \<open>The bytes of RFC 9562, section 5.5: the digest of the standard with the version and the variant stamped in.\<close>

definition rfc9562V5 :: "8 word list \<Rightarrow> 8 word list \<Rightarrow> 8 word list" where
  "rfc9562V5 namespace name =
    (let digest = fips180Sha1 (namespace @ name)
     in take 6 digest @ [(digest ! 6 AND 0x0f) OR 0x50] @ take 1 (drop 7 digest) @ [(digest ! 8 AND 0x3f) OR 0x80] @ take 7 (drop 9 digest))"

lemma list_20:
  assumes "length xs = 20"
  obtains a b c d e f g h i j k l m n p q r s t u where "xs = [a, b, c, d, e, f, g, h, i, j, k, l, m, n, p, q, r, s, t, u]"
  using assms by (auto simp: numeral_eq_Suc length_Suc_conv)

lemma uuidV5_rfc: "uuidV5 (namespace @ name) = rfc9562V5 namespace name"
proof -
  obtain a b c d e f g h i j k l m n p q r s t u
    where "sha1 (namespace @ name) = [a, b, c, d, e, f, g, h, i, j, k, l, m, n, p, q, r, s, t, u]"
    by (rule list_20 [OF length_sha1 [of "namespace @ name"]])
  then show ?thesis by (simp add: uuidV5_def rfc9562V5_def sha1_fips [symmetric])
qed

text \<open>C31: \<^verbatim>\<open>deriveEntityId\<close> is the UUIDv5 of RFC 9562. For a kind with a declared namespace and a name that has canonical
  text, it returns the kind's prefix and the UUID whose bytes are the SHA-1 of FIPS 180-4 over the namespace and the UTF-8 of that text, with version 5
  and the RFC variant; the result is canonical text of the kind, and every other kind is refused.\<close>

theorem entity_derive_uuidv5:
  "case map_of DERIVED_NAMESPACES kind of
     None \<Rightarrow> deriveEntityId kind name = Inl ''Entity kind has no owned derivation''
   | Some uuid \<Rightarrow>
       (case canonicalIdentifierName name of
          Inl e \<Rightarrow> deriveEntityId kind name = Inl e
        | Inr content \<Rightarrow>
            deriveEntityId kind name = Inr (kind @ ''_'' @ formatUuid (rfc9562V5 (namespaceBytes uuid) (utf8 content)))
            \<and> isEntityId kind (kind @ ''_'' @ formatUuid (rfc9562V5 (namespaceBytes uuid) (utf8 content))))"
proof (cases "map_of DERIVED_NAMESPACES kind")
  case (Some uuid)
  show ?thesis
  proof (cases "canonicalIdentifierName name")
    case (Inr content)
    let ?bytes = "uuidV5 (namespaceBytes uuid @ utf8 content)"
    have len: "length ?bytes = 16" by (simp add: uuidV5_def length_sha1 Let_def)
    have "unat (?bytes ! 6) div 16 = 5" "unat (?bytes ! 8) div 16 \<in> {8, 9, 10, 11}"
      using version_nibble_5 variant_nibble by (simp_all add: uuidV5_def length_sha1 Let_def)
    then have "isEntityId kind (kind @ ''_'' @ formatUuid ?bytes)"
      using derived_kind [OF Some] by (intro formatUuid_canonical [OF len]) (simp_all add: hexDigits_def)
    then show ?thesis using Some Inr by (simp add: deriveEntityId_def uuidV5_rfc)
  qed (simp add: Some deriveEntityId_def)
qed (simp add: deriveEntityId_def)

end
