(* ===== verification/Ecma_Date.thy ===== *)
theory Ecma_Date
  imports Prelude
begin

text \<open>
  The part of the ECMAScript date library that the sources use: the proleptic Gregorian day number
  of a UTC date, \<^verbatim>\<open>MakeTime\<close>, and \<^verbatim>\<open>Date.parse\<close> on the ISO date-times that the schemas admit
  (\<^verbatim>\<open>z.iso.datetime({ offset: true })\<close> and \<^verbatim>\<open>z.iso.datetime({ precision: 3 })\<close>). A time value is the
  integer number of milliseconds since the epoch.
\<close>

subsection \<open>Days and times\<close>

definition inLeapYear :: "int \<Rightarrow> bool" where
  "inLeapYear y = (y mod 4 = 0 \<and> (y mod 100 \<noteq> 0 \<or> y mod 400 = 0))"

definition daysInYear :: "int \<Rightarrow> int" where
  "daysInYear y = (if inLeapYear y then 366 else 365)"

definition dayFromYear :: "int \<Rightarrow> int" where
  "dayFromYear y = 365 * (y - 1970) + (y - 1969) div 4 - (y - 1901) div 100 + (y - 1601) div 400"

text \<open>Months are numbered from 0.\<close>

definition daysInMonth :: "int \<Rightarrow> int \<Rightarrow> int" where
  "daysInMonth y m =
    (if m = 1 then (if inLeapYear y then 29 else 28) else if m \<in> {3, 5, 8, 10} then 30 else 31)"

definition monthStart :: "int \<Rightarrow> int \<Rightarrow> int" where
  "monthStart y m =
    [0, 31, 59, 90, 120, 151, 181, 212, 243, 273, 304, 334] ! nat m + (if inLeapYear y \<and> 2 \<le> m then 1 else 0)"

definition makeDay :: "int \<Rightarrow> int \<Rightarrow> int \<Rightarrow> int" where
  "makeDay y m d = dayFromYear y + monthStart y m + d - 1"

definition msPerDay :: int where
  "msPerDay = 86400000"

definition makeTime :: "int \<Rightarrow> int \<Rightarrow> int \<Rightarrow> int \<Rightarrow> int" where
  "makeTime h mi s ms = ((h * 60 + mi) * 60 + s) * 1000 + ms"

subsection \<open>Reading an ISO date-time\<close>

definition isDigit :: "char \<Rightarrow> bool" where
  "isDigit c = (c \<in> set ''0123456789'')"

definition digitsValue :: "string \<Rightarrow> int" where
  "digitsValue s = foldl (\<lambda>n c. 10 * n + (of_char c - 48)) 0 s"

definition takeDigits :: "nat \<Rightarrow> string \<Rightarrow> (int \<times> string) option" where
  "takeDigits n s =
    (if n \<le> length s \<and> list_all isDigit (take n s) then Some (digitsValue (take n s), drop n s) else None)"

definition takeChar :: "char \<Rightarrow> string \<Rightarrow> string option" where
  "takeChar c s = (case s of [] \<Rightarrow> None | x # xs \<Rightarrow> if x = c then Some xs else None)"

record IsoDateTime =
  iso_year :: int
  iso_month :: int
  iso_day :: int
  iso_hour :: int
  iso_minute :: int
  iso_second :: "int option"
  iso_fraction :: "string option"
  iso_offset :: "(int \<times> int \<times> int) option"

text \<open>The zone: \<^verbatim>\<open>Z\<close> is no offset, otherwise a sign, hours and minutes, and nothing may follow.\<close>

definition parseZone :: "string \<Rightarrow> (int \<times> int \<times> int) option option" where
  "parseZone s =
    (case s of
       [] \<Rightarrow> None
     | c # r \<Rightarrow>
         if c = CHR ''Z'' then (if r = [] then Some None else None)
         else if c = CHR ''+'' \<or> c = CHR ''-'' then
           Option.bind (takeDigits 2 r) (\<lambda>(h, r).
           Option.bind (takeChar CHR '':'' r) (\<lambda>r.
           Option.bind (takeDigits 2 r) (\<lambda>(m, r).
           if r = [] then Some (Some (if c = CHR ''-'' then -1 else 1, h, m)) else None)))
         else None)"

text \<open>Optional seconds, and an optional fraction of at least one digit after them.\<close>

definition parseSeconds :: "string \<Rightarrow> (int option \<times> string option \<times> string) option" where
  "parseSeconds s =
    (case takeChar CHR '':'' s of
       None \<Rightarrow> Some (None, None, s)
     | Some r \<Rightarrow>
         Option.bind (takeDigits 2 r) (\<lambda>(sec, r).
         case takeChar CHR ''.'' r of
           None \<Rightarrow> Some (Some sec, None, r)
         | Some r \<Rightarrow>
             let f = takeWhile isDigit r
             in if f = [] then None else Some (Some sec, Some f, dropWhile isDigit r)))"

definition parseIso :: "string \<Rightarrow> IsoDateTime option" where
  "parseIso s =
    Option.bind (takeDigits 4 s) (\<lambda>(y, r).
    Option.bind (takeChar CHR ''-'' r) (\<lambda>r.
    Option.bind (takeDigits 2 r) (\<lambda>(mo, r).
    Option.bind (takeChar CHR ''-'' r) (\<lambda>r.
    Option.bind (takeDigits 2 r) (\<lambda>(d, r).
    Option.bind (takeChar CHR ''T'' r) (\<lambda>r.
    Option.bind (takeDigits 2 r) (\<lambda>(h, r).
    Option.bind (takeChar CHR '':'' r) (\<lambda>r.
    Option.bind (takeDigits 2 r) (\<lambda>(mi, r).
    Option.bind (parseSeconds r) (\<lambda>(sec, f, r).
    Option.bind (parseZone r) (\<lambda>zone.
    Some \<lparr>iso_year = y, iso_month = mo, iso_day = d, iso_hour = h, iso_minute = mi, iso_second = sec,
          iso_fraction = f, iso_offset = zone\<rparr>)))))))))))"

definition validIso :: "IsoDateTime \<Rightarrow> bool" where
  "validIso p =
    (1 \<le> iso_month p \<and> iso_month p \<le> 12 \<and> 1 \<le> iso_day p
     \<and> iso_day p \<le> daysInMonth (iso_year p) (iso_month p - 1)
     \<and> iso_hour p \<le> 23 \<and> iso_minute p \<le> 59
     \<and> (case iso_second p of None \<Rightarrow> True | Some s \<Rightarrow> s \<le> 59)
     \<and> (case iso_offset p of None \<Rightarrow> True | Some (_, h, m) \<Rightarrow> h \<le> 23 \<and> m \<le> 59))"

text \<open>\<^verbatim>\<open>z.iso.datetime({ offset: true })\<close>, and \<^verbatim>\<open>z.iso.datetime({ precision: 3 })\<close>, which admits only \<^verbatim>\<open>Z\<close>.\<close>

definition isoDateTimeSchema :: "string \<Rightarrow> bool" where
  "isoDateTimeSchema s = (case parseIso s of None \<Rightarrow> False | Some p \<Rightarrow> validIso p)"

definition isoMillisecondsSchema :: "string \<Rightarrow> bool" where
  "isoMillisecondsSchema s =
    (case parseIso s of None \<Rightarrow> False
     | Some p \<Rightarrow> validIso p \<and> iso_second p \<noteq> None \<and> iso_offset p = None
         \<and> (case iso_fraction p of None \<Rightarrow> False | Some f \<Rightarrow> length f = 3))"

text \<open>\<^verbatim>\<open>Date.parse\<close> on such a string; \<open>None\<close> is \<^verbatim>\<open>NaN\<close>. A fraction counts to the millisecond.\<close>

definition dateParse :: "string \<Rightarrow> int option" where
  "dateParse s =
    (case parseIso s of
       None \<Rightarrow> None
     | Some p \<Rightarrow>
         if validIso p then
           let ms = (case iso_fraction p of None \<Rightarrow> 0 | Some f \<Rightarrow> digitsValue (take 3 (f @ ''00'')));
               sec = (case iso_second p of None \<Rightarrow> 0 | Some x \<Rightarrow> x);
               shift = (case iso_offset p of None \<Rightarrow> 0 | Some (g, h, m) \<Rightarrow> g * (h * 60 + m) * 60000)
           in Some (makeDay (iso_year p) (iso_month p - 1) (iso_day p) * msPerDay
                + makeTime (iso_hour p) (iso_minute p) sec ms - shift)
         else None)"

end
