(* ===== verification/Policy_Document.thy ===== *)
theory Policy_Document
  imports Protocol_Actors Ecma_Date Canonical_Json
begin

text \<open>
  The authored Policy collection (\<^verbatim>\<open>packages/protocol/src/models/policy-v1.ts\<close>): owners, containers,
  principals, resources, scopes and lifetimes, the five statement kinds, the document, and the
  retained decision and invocation envelopes, each with the schema that admits it.

  The five statement kinds share their fields, so a statement is a record of the shared fields and a
  body that holds the rest. The check of a maintenance host parses a URL with the platform's URL
  library: \<open>parseUrl\<close> stands for it and returns the parts the schema reads, or \<open>None\<close> where the
  constructor throws. Every value also has its JSON form, from which content digests are computed.
\<close>

subsection \<open>Identities and scopes\<close>

datatype PolicyStageV1 = ProposeStage | DecideStage | CommitStage | CompletedStage

datatype PolicyModeV1 = ObserveMode | AdviseMode | GateMode | TransformMode

datatype PolicyOwnerV1 = OwnerServer | OwnerWorkspace string | OwnerUser string

definition PolicyDigestV1Schema :: "string \<Rightarrow> bool" where
  "PolicyDigestV1Schema = digestSchema"

fun PolicyOwnerV1Schema :: "PolicyOwnerV1 \<Rightarrow> bool" where
  "PolicyOwnerV1Schema OwnerServer = True"
| "PolicyOwnerV1Schema (OwnerWorkspace ws) = isEntityId ''ws'' ws"
| "PolicyOwnerV1Schema (OwnerUser u) = isEntityId ''usr'' u"

record PolicyContainerV1 =
  pc_owner :: PolicyOwnerV1
  pc_kind :: string
  pc_id :: string

definition PolicyContainerV1Schema :: "PolicyContainerV1 \<Rightarrow> bool" where
  "PolicyContainerV1Schema c =
    (PolicyOwnerV1Schema (pc_owner c) \<and> textSchema (pc_kind c) \<and> textSchema (pc_id c)
     \<and> (if pc_kind c = ''turn'' then isEntityId ''tu'' (pc_id c)
        else if pc_kind c = ''thread'' then isEntityId ''th'' (pc_id c)
        else if pc_kind c = ''workspace'' then isEntityId ''ws'' (pc_id c)
        else if pc_kind c = ''user'' then isEntityId ''usr'' (pc_id c)
        else True))"

definition positiveSchema :: "int \<Rightarrow> bool" where
  "positiveSchema n = (countSchema n \<and> 0 < n)"

record PolicyLifetimeV1 =
  lt_anchor :: PolicyContainerV1
  lt_notAfter :: "string option"
  lt_uses :: "int option"

definition PolicyLifetimeV1Schema :: "PolicyLifetimeV1 \<Rightarrow> bool" where
  "PolicyLifetimeV1Schema l =
    (PolicyContainerV1Schema (lt_anchor l) \<and> nullable isoDateTimeSchema (lt_notAfter l)
     \<and> nullable positiveSchema (lt_uses l))"

datatype PolicyPrincipalV1 = HumanPrincipal string | AgentPrincipal string

fun PolicyPrincipalV1Schema :: "PolicyPrincipalV1 \<Rightarrow> bool" where
  "PolicyPrincipalV1Schema (HumanPrincipal u) = isEntityId ''usr'' u"
| "PolicyPrincipalV1Schema (AgentPrincipal a) = textSchema a"

datatype PolicyResourceV1 = ContainerResource PolicyContainerV1 | McpTool string string string

fun PolicyResourceV1Schema :: "PolicyResourceV1 \<Rightarrow> bool" where
  "PolicyResourceV1Schema (ContainerResource c) = PolicyContainerV1Schema c"
| "PolicyResourceV1Schema (McpTool ws server tool) =
    (isEntityId ''ws'' ws \<and> textSchema server \<and> textSchema tool)"

record PolicyScopeV1 =
  ps_subjects :: "PolicyPrincipalV1 list"
  ps_actions :: "string list"
  ps_resources :: "PolicyResourceV1 list"

definition scopeElements :: "PolicyScopeV1 \<Rightarrow> bool" where
  "scopeElements s =
    (list_all PolicyPrincipalV1Schema (ps_subjects s) \<and> textsSchema (ps_actions s)
     \<and> list_all PolicyResourceV1Schema (ps_resources s))"

definition PolicyScopeV1Schema :: "PolicyScopeV1 \<Rightarrow> bool" where
  "PolicyScopeV1Schema s =
    (scopeElements s \<and> ps_subjects s \<noteq> [] \<and> ps_actions s \<noteq> [] \<and> ps_resources s \<noteq> [])"

record PolicyStatementReferenceV1 =
  sf_id :: string
  sf_digest :: string

definition PolicyStatementReferenceV1Schema :: "PolicyStatementReferenceV1 \<Rightarrow> bool" where
  "PolicyStatementReferenceV1Schema r = (textSchema (sf_id r) \<and> PolicyDigestV1Schema (sf_digest r))"

datatype PolicyAuthorityV1 = HumanAuthority string | DelegationAuthority PolicyStatementReferenceV1

fun PolicyAuthorityV1Schema :: "PolicyAuthorityV1 \<Rightarrow> bool" where
  "PolicyAuthorityV1Schema (HumanAuthority u) = isEntityId ''usr'' u"
| "PolicyAuthorityV1Schema (DelegationAuthority r) = PolicyStatementReferenceV1Schema r"

datatype PolicyFailureV1 = EscalateToHuman | ContinueOnFailure | ErrorOnFailure

subsection \<open>Statement bodies\<close>

datatype ParticipantV1 = DeterministicParticipant string string | AgentParticipant string string

record CircuitV1 =
  ci_failures :: int
  ci_recoveryAfterMs :: int

record PolicyBindingV1 =
  bd_operation :: string
  bd_stage :: PolicyStageV1
  bd_mode :: PolicyModeV1
  bd_participant :: ParticipantV1
  bd_inputDisclosure :: PolicyScopeV1
  bd_order :: int
  bd_timeoutMs :: int
  bd_failure :: PolicyFailureV1
  bd_circuit :: CircuitV1

datatype LeaseMode = ReadOnlyLease | StagedWriteLease

record MaintenanceGrant =
  mg_networkGrantId :: string
  mg_host :: string
  mg_port :: int
  mg_repositoryPaths :: "string list"
  mg_binaries :: "string list"
  mg_validFrom :: string

record StorageLease =
  sl_knowledgeBaseId :: string
  sl_mount :: string
  sl_pathPrefix :: string
  sl_mode :: LeaseMode

datatype PolicyGrantV1 =
    OrdinaryGrant
  | AgentProcessGrant string
  | WorkerGitReadMaintenance MaintenanceGrant
  | StorageLeaseGrant StorageLease

datatype PermissionEffect = AllowEffect | ProhibitEffect | RequireApprovalEffect

record PolicyPermissionV1 =
  pm_effect :: PermissionEffect
  pm_grant :: PolicyGrantV1

record DelegationSource =
  ds_workspaceId :: string
  ds_goalId :: string
  ds_planVersionId :: string
  ds_planDigest :: string
  ds_approvalRequestId :: string

record PolicyDelegationV1 =
  dl_delegate :: PolicyPrincipalV1
  dl_source :: DelegationSource

record PolicyAgentPrincipalV1 =
  ap_agentId :: string
  ap_creator :: PolicyPrincipalV1
  ap_responsibleHumanId :: string
  ap_responsibility :: PolicyPrincipalV1

datatype StatementBody =
    BindingBody PolicyBindingV1
  | PermissionBody PolicyPermissionV1
  | DelegationBody PolicyDelegationV1
  | ManagedBoundaryBody
  | AgentPrincipalBody PolicyAgentPrincipalV1

datatype StatementState = InactiveState | ShadowState | ActiveState

record PolicyStatementV1 =
  st_id :: string
  st_author :: PolicyPrincipalV1
  st_authority :: PolicyAuthorityV1
  st_authoredAt :: string
  st_scope :: PolicyScopeV1
  st_lifetime :: PolicyLifetimeV1
  st_state :: StatementState
  st_body :: StatementBody

type_synonym PolicyDocumentV1 = "PolicyStatementV1 list"

subsection \<open>Schemas of the bodies\<close>

record UrlParts =
  url_hostname :: string
  url_host :: string
  url_pathname :: string
  url_username :: string
  url_password :: string
  url_search :: string
  url_hash :: string

fun splitOn :: "char \<Rightarrow> string \<Rightarrow> string list" where
  "splitOn c [] = [[]]"
| "splitOn c (x # xs) =
    (if x = c then [] # splitOn c xs
     else (case splitOn c xs of [] \<Rightarrow> [[x]] | s # ss \<Rightarrow> (x # s) # ss))"

definition lowerAlnum :: "char \<Rightarrow> bool" where
  "lowerAlnum c = (c \<in> set ''abcdefghijklmnopqrstuvwxyz0123456789'')"

text \<open>A DNS label: lower-case letters and digits, hyphens only inside.\<close>

definition hostLabel :: "string \<Rightarrow> bool" where
  "hostLabel l =
    (l \<noteq> [] \<and> lowerAlnum (hd l) \<and> lowerAlnum (last l) \<and> (\<forall>c\<in>set l. lowerAlnum c \<or> c = CHR ''-''))"

definition PolicyMaintenanceHostV1Schema :: "(string \<Rightarrow> UrlParts option) \<Rightarrow> string \<Rightarrow> bool" where
  "PolicyMaintenanceHostV1Schema parseUrl h =
    (if \<not> list_all hostLabel (splitOn CHR ''.'' h) \<and> \<not> (h \<noteq> [] \<and> hd h = CHR ''['' \<and> last h = CHR '']'')
     then False
     else case parseUrl (''https://'' @ h) of
       None \<Rightarrow> False
     | Some url \<Rightarrow> url_hostname url = h \<and> url_host url = h \<and> url_pathname url = ''/'' \<and> url_username url = []
         \<and> url_password url = [] \<and> url_search url = [] \<and> url_hash url = [])"

definition pathChar :: "char \<Rightarrow> bool" where
  "pathChar c = (c \<in> set ''ABCDEFGHIJKLMNOPQRSTUVWXYZabcdefghijklmnopqrstuvwxyz0123456789_~.-'')"

definition PolicyMaintenanceRepositoryV1Schema :: "string \<Rightarrow> bool" where
  "PolicyMaintenanceRepositoryV1Schema p =
    (case splitOn CHR ''/'' p of
       [] \<Rightarrow> False
     | first # segments \<Rightarrow>
         first = [] \<and> segments \<noteq> [] \<and> list_all (\<lambda>s. s \<noteq> [] \<and> list_all pathChar s) segments
         \<and> list_all (\<lambda>s. s \<noteq> ''.'' \<and> s \<noteq> ''..'') segments)"

fun hasDoubleSlash :: "string \<Rightarrow> bool" where
  "hasDoubleSlash (a # b # r) = (a = CHR ''/'' \<and> b = CHR ''/'' \<or> hasDoubleSlash (b # r))"
| "hasDoubleSlash _ = False"

definition PolicyMaintenanceBinaryV1Schema :: "string \<Rightarrow> bool" where
  "PolicyMaintenanceBinaryV1Schema p =
    (p \<noteq> [] \<and> hd p = CHR ''/'' \<and> list_all (\<lambda>c. 32 \<le> (of_char c :: nat) \<and> of_char c \<noteq> (127 :: nat)) p
     \<and> list_all (\<lambda>s. s \<noteq> ''.'' \<and> s \<noteq> ''..'') (splitOn CHR ''/'' p)
     \<and> \<not> hasDoubleSlash p \<and> last p \<noteq> CHR ''/'')"

definition storagePrefixSchema :: "string \<Rightarrow> bool" where
  "storagePrefixSchema p =
    (length p \<le> 4096
     \<and> (p = [] \<or> CHR 0x5C \<notin> set p \<and> CHR 0x00 \<notin> set p
        \<and> list_all (\<lambda>s. s \<noteq> [] \<and> s \<noteq> ''.'' \<and> s \<noteq> ''..'') (splitOn CHR ''/'' p)))"

fun PolicyGrantV1Schema :: "(string \<Rightarrow> UrlParts option) \<Rightarrow> PolicyGrantV1 \<Rightarrow> bool" where
  "PolicyGrantV1Schema parseUrl OrdinaryGrant = True"
| "PolicyGrantV1Schema parseUrl (AgentProcessGrant a) = textSchema a"
| "PolicyGrantV1Schema parseUrl (WorkerGitReadMaintenance g) =
    (textSchema (mg_networkGrantId g) \<and> PolicyMaintenanceHostV1Schema parseUrl (mg_host g)
     \<and> 1 \<le> mg_port g \<and> mg_port g \<le> 65535
     \<and> list_all PolicyMaintenanceRepositoryV1Schema (mg_repositoryPaths g) \<and> mg_repositoryPaths g \<noteq> []
     \<and> distinct (mg_repositoryPaths g)
     \<and> list_all PolicyMaintenanceBinaryV1Schema (mg_binaries g) \<and> mg_binaries g \<noteq> [] \<and> distinct (mg_binaries g)
     \<and> isoMillisecondsSchema (mg_validFrom g))"
| "PolicyGrantV1Schema parseUrl (StorageLeaseGrant l) =
    (isEntityId ''kb'' (sl_knowledgeBaseId l) \<and> textSchema (sl_mount l) \<and> storagePrefixSchema (sl_pathPrefix l))"

fun participantSchema :: "ParticipantV1 \<Rightarrow> bool" where
  "participantSchema (DeterministicParticipant i v) = (textSchema i \<and> PolicyDigestV1Schema v)"
| "participantSchema (AgentParticipant i v) = (textSchema i \<and> PolicyDigestV1Schema v)"

definition PolicyBindingV1Schema :: "PolicyBindingV1 \<Rightarrow> bool" where
  "PolicyBindingV1Schema b =
    (textSchema (bd_operation b) \<and> participantSchema (bd_participant b) \<and> PolicyScopeV1Schema (bd_inputDisclosure b)
     \<and> countSchema (bd_order b) \<and> 1 \<le> bd_timeoutMs b \<and> bd_timeoutMs b \<le> 60000
     \<and> 1 \<le> ci_failures (bd_circuit b) \<and> ci_failures (bd_circuit b) \<le> 100
     \<and> 1 \<le> ci_recoveryAfterMs (bd_circuit b) \<and> ci_recoveryAfterMs (bd_circuit b) \<le> 3600000
     \<and> \<not> (bd_failure b = ContinueOnFailure \<and> (bd_mode b = GateMode \<or> bd_mode b = TransformMode)))"

definition PolicyPermissionV1Schema :: "(string \<Rightarrow> UrlParts option) \<Rightarrow> PolicyLifetimeV1 \<Rightarrow> PolicyPermissionV1 \<Rightarrow> bool" where
  "PolicyPermissionV1Schema parseUrl lifetime p =
    (PolicyGrantV1Schema parseUrl (pm_grant p)
     \<and> (case pm_grant p of
          StorageLeaseGrant _ \<Rightarrow> lt_notAfter lifetime \<noteq> None
        | WorkerGitReadMaintenance g \<Rightarrow>
            (case lt_notAfter lifetime of
               None \<Rightarrow> False
             | Some t \<Rightarrow>
                 (case (dateParse (mg_validFrom g), dateParse t) of
                    (Some from, Some until) \<Rightarrow> from < until
                  | _ \<Rightarrow> True))
        | _ \<Rightarrow> True))"

definition PolicyDelegationV1Schema :: "PolicyDelegationV1 \<Rightarrow> bool" where
  "PolicyDelegationV1Schema d =
    (PolicyPrincipalV1Schema (dl_delegate d)
     \<and> isEntityId ''ws'' (ds_workspaceId (dl_source d)) \<and> textSchema (ds_goalId (dl_source d))
     \<and> textSchema (ds_planVersionId (dl_source d)) \<and> PolicyDigestV1Schema (ds_planDigest (dl_source d))
     \<and> textSchema (ds_approvalRequestId (dl_source d)))"

definition PolicyAgentPrincipalV1Schema :: "PolicyAgentPrincipalV1 \<Rightarrow> bool" where
  "PolicyAgentPrincipalV1Schema a =
    (textSchema (ap_agentId a) \<and> PolicyPrincipalV1Schema (ap_creator a)
     \<and> isEntityId ''usr'' (ap_responsibleHumanId a) \<and> PolicyPrincipalV1Schema (ap_responsibility a))"

definition statementSchema :: "(string \<Rightarrow> UrlParts option) \<Rightarrow> PolicyStatementV1 \<Rightarrow> bool" where
  "statementSchema parseUrl s =
    (textSchema (st_id s) \<and> PolicyPrincipalV1Schema (st_author s) \<and> PolicyAuthorityV1Schema (st_authority s)
     \<and> isoDateTimeSchema (st_authoredAt s) \<and> PolicyLifetimeV1Schema (st_lifetime s)
     \<and> (case st_body s of
          BindingBody b \<Rightarrow> PolicyScopeV1Schema (st_scope s) \<and> PolicyBindingV1Schema b
        | PermissionBody p \<Rightarrow> PolicyScopeV1Schema (st_scope s) \<and> PolicyPermissionV1Schema parseUrl (st_lifetime s) p
            \<and> st_state s \<noteq> ShadowState
        | DelegationBody d \<Rightarrow> PolicyScopeV1Schema (st_scope s) \<and> PolicyDelegationV1Schema d \<and> st_state s \<noteq> ShadowState
        | ManagedBoundaryBody \<Rightarrow> ps_subjects (st_scope s) = [] \<and> ps_actions (st_scope s) = []
            \<and> list_all PolicyResourceV1Schema (ps_resources (st_scope s)) \<and> ps_resources (st_scope s) \<noteq> []
            \<and> st_state s \<noteq> ShadowState
        | AgentPrincipalBody a \<Rightarrow> PolicyScopeV1Schema (st_scope s) \<and> PolicyAgentPrincipalV1Schema a
            \<and> st_state s \<noteq> ShadowState))"

text \<open>The tuple that must be unique among the finite maintenance permissions of a document.\<close>

definition maintenanceTuple :: "PolicyStatementV1 \<Rightarrow> (PolicyPrincipalV1 option \<times> PolicyResourceV1 option \<times> string) option" where
  "maintenanceTuple s =
    (case st_body s of
       PermissionBody p \<Rightarrow>
         (case pm_grant p of
            WorkerGitReadMaintenance g \<Rightarrow>
              Some (case ps_subjects (st_scope s) of [] \<Rightarrow> None | x # _ \<Rightarrow> Some x,
                    case ps_resources (st_scope s) of [] \<Rightarrow> None | r # _ \<Rightarrow> Some r, mg_networkGrantId g)
          | _ \<Rightarrow> None)
     | _ \<Rightarrow> None)"

definition PolicyDocumentV1Schema :: "(string \<Rightarrow> UrlParts option) \<Rightarrow> PolicyDocumentV1 \<Rightarrow> bool" where
  "PolicyDocumentV1Schema parseUrl statements =
    (list_all (statementSchema parseUrl) statements \<and> distinct (map st_id statements)
     \<and> distinct (List.map_filter maintenanceTuple statements))"

subsection \<open>Retained decisions and invocations\<close>

datatype CredentialKind = LocalCredential | SessionCredential | TokenCredential | WorkerPackageCredential

record PolicyProcess =
  pp_workspaceId :: string
  pp_threadId :: string
  pp_turnId :: string

record PolicySubjectV1 =
  sj_principal :: PolicyPrincipalV1
  sj_onBehalfOf :: "string option"
  sj_actor :: ActorRef
  sj_process :: "PolicyProcess option"
  sj_credentialKind :: CredentialKind
  sj_responsibleHumanId :: string

definition PolicySubjectV1Schema :: "PolicySubjectV1 \<Rightarrow> bool" where
  "PolicySubjectV1Schema s =
    (PolicyPrincipalV1Schema (sj_principal s) \<and> nullable (isEntityId ''usr'') (sj_onBehalfOf s)
     \<and> ActorRefSchema (sj_actor s)
     \<and> nullable (\<lambda>p. isEntityId ''ws'' (pp_workspaceId p) \<and> isEntityId ''th'' (pp_threadId p)
          \<and> isEntityId ''tu'' (pp_turnId p)) (sj_process s)
     \<and> isEntityId ''usr'' (sj_responsibleHumanId s))"

datatype PolicyInvocationReferenceV1 = DecisionReference string | AuditReference string

fun PolicyInvocationReferenceV1Schema :: "PolicyInvocationReferenceV1 \<Rightarrow> bool" where
  "PolicyInvocationReferenceV1Schema (DecisionReference i) = isEntityId ''pd'' i"
| "PolicyInvocationReferenceV1Schema (AuditReference i) = isEntityId ''aud'' i"

datatype KernelEffect = KernelAllow | KernelDeny

record PolicyKernelResultV1 =
  kr_effect :: KernelEffect
  kr_reason :: string

datatype DecisionRole = GateRole | FinalRole

text \<open>\<^verbatim>\<open>kernel\<close> is absent, present but \<^verbatim>\<open>null\<close>, or an actual result.\<close>

record PolicyDecisionV1 =
  pd_operation :: string
  pd_stage :: PolicyStageV1
  pd_proposalDigest :: string
  pd_authorizationRevision :: string
  pd_subject :: PolicySubjectV1
  pd_role :: DecisionRole
  pd_binding :: "PolicyStatementReferenceV1 option"
  pd_kernel :: "PolicyKernelResultV1 option option"
  pd_invocations :: "PolicyInvocationReferenceV1 list"
  pd_consumedStatements :: "PolicyStatementReferenceV1 list"

definition PolicyDecisionV1Schema :: "PolicyDecisionV1 \<Rightarrow> bool" where
  "PolicyDecisionV1Schema d =
    (textSchema (pd_operation d) \<and> PolicyDigestV1Schema (pd_proposalDigest d)
     \<and> PolicyDigestV1Schema (pd_authorizationRevision d) \<and> PolicySubjectV1Schema (pd_subject d)
     \<and> nullable PolicyStatementReferenceV1Schema (pd_binding d)
     \<and> nullable (nullable (\<lambda>k. textSchema (kr_reason k))) (pd_kernel d)
     \<and> list_all PolicyInvocationReferenceV1Schema (pd_invocations d)
     \<and> list_all PolicyStatementReferenceV1Schema (pd_consumedStatements d)
     \<and> \<not> (pd_role d = GateRole \<and> pd_binding d = None)
     \<and> \<not> (pd_role d = FinalRole \<and> pd_kernel d = None)
     \<and> \<not> (pd_role d = GateRole \<and> pd_kernel d \<noteq> None)
     \<and> \<not> (pd_consumedStatements d \<noteq> [] \<and>
          (case pd_kernel d of Some (Some k) \<Rightarrow> kr_effect k \<noteq> KernelAllow | _ \<Rightarrow> True))
     \<and> \<not> (pd_role d \<noteq> FinalRole \<and> pd_consumedStatements d \<noteq> []))"

datatype InvocationOutcome =
    CompletedOutcome | UnavailableOutcome | TimeoutOutcome | OpenCircuitOutcome | MalformedOutcome
  | ErrorOutcome | StaleOutcome

record PolicyInvocationV1 =
  pi_binding :: PolicyStatementReferenceV1
  pi_operation :: string
  pi_stage :: PolicyStageV1
  pi_mode :: PolicyModeV1
  pi_policyRevision :: string
  pi_authorizationRevision :: string
  pi_proposalDigest :: string
  pi_subject :: PolicySubjectV1
  pi_participantId :: string
  pi_participantVersion :: string
  pi_inputDigest :: string
  pi_outputDigest :: "string option"
  pi_outcome :: InvocationOutcome
  pi_startedAt :: string
  pi_completedAt :: string
  pi_capabilityCallId :: "string option"

definition PolicyInvocationV1Schema :: "PolicyInvocationV1 \<Rightarrow> bool" where
  "PolicyInvocationV1Schema i =
    (PolicyStatementReferenceV1Schema (pi_binding i) \<and> textSchema (pi_operation i)
     \<and> PolicyDigestV1Schema (pi_policyRevision i) \<and> PolicyDigestV1Schema (pi_authorizationRevision i)
     \<and> PolicyDigestV1Schema (pi_proposalDigest i) \<and> PolicySubjectV1Schema (pi_subject i)
     \<and> textSchema (pi_participantId i) \<and> PolicyDigestV1Schema (pi_participantVersion i)
     \<and> PolicyDigestV1Schema (pi_inputDigest i) \<and> nullable PolicyDigestV1Schema (pi_outputDigest i)
     \<and> isoDateTimeSchema (pi_startedAt i) \<and> isoDateTimeSchema (pi_completedAt i)
     \<and> nullable (isEntityId ''cap'') (pi_capabilityCallId i))"

datatype GateDecision = GateAllow | GateDeny | GateEscalate

record PolicyAgentGateOutputV1 =
  go_decision :: GateDecision
  go_risk :: string
  go_authorizationAssessment :: string
  go_rationale :: string

definition PolicyAgentGateOutputV1Schema :: "PolicyAgentGateOutputV1 \<Rightarrow> bool" where
  "PolicyAgentGateOutputV1Schema g =
    (\<forall>s\<in>{go_risk g, go_authorizationAssessment g, go_rationale g}. textSchema s \<and> length s \<le> 2000)"

record PolicyApprovalBindingV1 =
  ab_proposalDigest :: string
  ab_policyRevision :: string
  ab_authorizationRevision :: string

definition PolicyApprovalBindingV1Schema :: "PolicyApprovalBindingV1 \<Rightarrow> bool" where
  "PolicyApprovalBindingV1Schema a =
    (PolicyDigestV1Schema (ab_proposalDigest a) \<and> PolicyDigestV1Schema (ab_policyRevision a)
     \<and> PolicyDigestV1Schema (ab_authorizationRevision a))"

subsection \<open>JSON forms\<close>

definition optMember :: "string \<Rightarrow> ('a \<Rightarrow> JsValue) \<Rightarrow> 'a option \<Rightarrow> (string \<times> JsValue) list" where
  "optMember k f v = (case v of None \<Rightarrow> [] | Some x \<Rightarrow> [(k, f x)])"

definition nullJson :: "('a \<Rightarrow> JsValue) \<Rightarrow> 'a option \<Rightarrow> JsValue" where
  "nullJson f v = (case v of None \<Rightarrow> JNull | Some x \<Rightarrow> f x)"

fun ownerJson :: "PolicyOwnerV1 \<Rightarrow> JsValue" where
  "ownerJson OwnerServer = JObj [(''kind'', JStr ''server'')]"
| "ownerJson (OwnerWorkspace ws) = JObj [(''kind'', JStr ''workspace''), (''workspaceId'', JStr ws)]"
| "ownerJson (OwnerUser u) = JObj [(''kind'', JStr ''user''), (''userId'', JStr u)]"

definition containerJson :: "PolicyContainerV1 \<Rightarrow> JsValue" where
  "containerJson c = JObj [(''owner'', ownerJson (pc_owner c)), (''kind'', JStr (pc_kind c)), (''id'', JStr (pc_id c))]"

definition lifetimeJson :: "PolicyLifetimeV1 \<Rightarrow> JsValue" where
  "lifetimeJson l =
    JObj ([(''anchor'', containerJson (lt_anchor l))] @ optMember ''notAfter'' JStr (lt_notAfter l)
      @ optMember ''uses'' JNum (lt_uses l))"

fun principalJson :: "PolicyPrincipalV1 \<Rightarrow> JsValue" where
  "principalJson (HumanPrincipal u) = JObj [(''kind'', JStr ''human''), (''id'', JStr u)]"
| "principalJson (AgentPrincipal a) = JObj [(''kind'', JStr ''agent''), (''id'', JStr a)]"

fun resourceJson :: "PolicyResourceV1 \<Rightarrow> JsValue" where
  "resourceJson (ContainerResource c) = JObj [(''kind'', JStr ''container''), (''container'', containerJson c)]"
| "resourceJson (McpTool ws server tool) =
    JObj [(''kind'', JStr ''mcp-tool''), (''workspaceId'', JStr ws), (''serverId'', JStr server), (''toolName'', JStr tool)]"

fun actorJson :: "ActorRef \<Rightarrow> JsValue" where
  "actorJson (UserActor u) = JObj [(''kind'', JStr ''user''), (''id'', JStr u)]"
| "actorJson (ResponsibleActor k a r) =
    JObj [(''kind'', JStr (case k of AgentActor \<Rightarrow> ''agent'' | IntegrationActor \<Rightarrow> ''integration'' | SystemActor \<Rightarrow> ''system'')),
          (''id'', JStr a), (''responsibleUserId'', nullJson JStr r)]"
| "actorJson (AutomationActor a r) =
    JObj [(''kind'', JStr ''automation''), (''id'', JStr a), (''responsibleUserId'', nullJson JStr r)]"

definition processJson :: "PolicyProcess \<Rightarrow> JsValue" where
  "processJson p = JObj [(''workspaceId'', JStr (pp_workspaceId p)), (''threadId'', JStr (pp_threadId p)), (''turnId'', JStr (pp_turnId p))]"

definition credentialText :: "CredentialKind \<Rightarrow> string" where
  "credentialText k = (case k of LocalCredential \<Rightarrow> ''local'' | SessionCredential \<Rightarrow> ''session''
     | TokenCredential \<Rightarrow> ''token'' | WorkerPackageCredential \<Rightarrow> ''worker-package'')"

definition scopeJson :: "PolicyScopeV1 \<Rightarrow> JsValue" where
  "scopeJson s =
    JObj [(''subjects'', JArr (map principalJson (ps_subjects s))), (''actions'', JArr (map JStr (ps_actions s))),
          (''resources'', JArr (map resourceJson (ps_resources s)))]"

definition statementReferenceJson :: "PolicyStatementReferenceV1 \<Rightarrow> JsValue" where
  "statementReferenceJson r = JObj [(''id'', JStr (sf_id r)), (''digest'', JStr (sf_digest r))]"

fun authorityJson :: "PolicyAuthorityV1 \<Rightarrow> JsValue" where
  "authorityJson (HumanAuthority u) = JObj [(''kind'', JStr ''human''), (''userId'', JStr u)]"
| "authorityJson (DelegationAuthority r) = JObj [(''kind'', JStr ''delegation''), (''statement'', statementReferenceJson r)]"

fun stageText :: "PolicyStageV1 \<Rightarrow> string" where
  "stageText ProposeStage = ''propose''"
| "stageText DecideStage = ''decide''"
| "stageText CommitStage = ''commit''"
| "stageText CompletedStage = ''completed''"

fun modeText :: "PolicyModeV1 \<Rightarrow> string" where
  "modeText ObserveMode = ''observe''"
| "modeText AdviseMode = ''advise''"
| "modeText GateMode = ''gate''"
| "modeText TransformMode = ''transform''"

fun failureText :: "PolicyFailureV1 \<Rightarrow> string" where
  "failureText EscalateToHuman = ''escalate-to-human''"
| "failureText ContinueOnFailure = ''continue''"
| "failureText ErrorOnFailure = ''error''"

fun participantJson :: "ParticipantV1 \<Rightarrow> JsValue" where
  "participantJson (DeterministicParticipant i v) = JObj [(''kind'', JStr ''deterministic''), (''id'', JStr i), (''version'', JStr v)]"
| "participantJson (AgentParticipant i v) = JObj [(''kind'', JStr ''agent''), (''id'', JStr i), (''version'', JStr v)]"

fun grantJson :: "PolicyGrantV1 \<Rightarrow> JsValue" where
  "grantJson OrdinaryGrant = JObj [(''kind'', JStr ''ordinary'')]"
| "grantJson (AgentProcessGrant a) = JObj [(''kind'', JStr ''agent-process''), (''agentId'', JStr a)]"
| "grantJson (WorkerGitReadMaintenance g) =
    JObj [(''kind'', JStr ''worker-git-read-maintenance''), (''networkGrantId'', JStr (mg_networkGrantId g)),
          (''host'', JStr (mg_host g)), (''port'', JNum (mg_port g)), (''protocol'', JStr ''rest''),
          (''repositoryPaths'', JArr (map JStr (mg_repositoryPaths g))),
          (''binaries'', JArr (map JStr (mg_binaries g))), (''validFrom'', JStr (mg_validFrom g))]"
| "grantJson (StorageLeaseGrant l) =
    JObj [(''kind'', JStr ''storage-lease''), (''knowledgeBaseId'', JStr (sl_knowledgeBaseId l)),
          (''mount'', JStr (sl_mount l)), (''pathPrefix'', JStr (sl_pathPrefix l)),
          (''mode'', JStr (case sl_mode l of ReadOnlyLease \<Rightarrow> ''read-only'' | StagedWriteLease \<Rightarrow> ''staged-write''))]"

definition bindingMembers :: "PolicyBindingV1 \<Rightarrow> (string \<times> JsValue) list" where
  "bindingMembers b =
    [(''kind'', JStr ''binding''), (''operation'', JStr (bd_operation b)), (''stage'', JStr (stageText (bd_stage b))),
     (''mode'', JStr (modeText (bd_mode b))), (''participant'', participantJson (bd_participant b)),
     (''inputDisclosure'', scopeJson (bd_inputDisclosure b)), (''order'', JNum (bd_order b)),
     (''timeoutMs'', JNum (bd_timeoutMs b)), (''failure'', JStr (failureText (bd_failure b))),
     (''circuit'', JObj [(''failures'', JNum (ci_failures (bd_circuit b))),
        (''recoveryAfterMs'', JNum (ci_recoveryAfterMs (bd_circuit b)))])]"

fun bodyMembers :: "StatementBody \<Rightarrow> (string \<times> JsValue) list" where
  "bodyMembers (BindingBody b) = bindingMembers b"
| "bodyMembers (PermissionBody p) =
    [(''kind'', JStr ''permission''),
     (''effect'', JStr (case pm_effect p of AllowEffect \<Rightarrow> ''allow'' | ProhibitEffect \<Rightarrow> ''prohibit''
        | RequireApprovalEffect \<Rightarrow> ''require_approval'')),
     (''grant'', grantJson (pm_grant p))]"
| "bodyMembers (DelegationBody d) =
    [(''kind'', JStr ''delegation''), (''delegate'', principalJson (dl_delegate d)), (''purpose'', JStr ''goal-domain''),
     (''source'', JObj [(''workspaceId'', JStr (ds_workspaceId (dl_source d))), (''goalId'', JStr (ds_goalId (dl_source d))),
        (''planVersionId'', JStr (ds_planVersionId (dl_source d))), (''planDigest'', JStr (ds_planDigest (dl_source d))),
        (''approvalRequestId'', JStr (ds_approvalRequestId (dl_source d)))])]"
| "bodyMembers ManagedBoundaryBody = [(''kind'', JStr ''managed-boundary'')]"
| "bodyMembers (AgentPrincipalBody a) =
    [(''kind'', JStr ''agent-principal''), (''agentId'', JStr (ap_agentId a)), (''creator'', principalJson (ap_creator a)),
     (''responsibleHumanId'', JStr (ap_responsibleHumanId a)), (''responsibility'', principalJson (ap_responsibility a))]"

definition stateText :: "StatementState \<Rightarrow> string" where
  "stateText s = (case s of InactiveState \<Rightarrow> ''inactive'' | ShadowState \<Rightarrow> ''shadow'' | ActiveState \<Rightarrow> ''active'')"

definition statementMembers :: "PolicyStatementV1 \<Rightarrow> (string \<times> JsValue) list" where
  "statementMembers s =
    [(''id'', JStr (st_id s)), (''author'', principalJson (st_author s)), (''authority'', authorityJson (st_authority s)),
     (''authoredAt'', JStr (st_authoredAt s)), (''scope'', scopeJson (st_scope s)),
     (''lifetime'', lifetimeJson (st_lifetime s)), (''state'', JStr (stateText (st_state s)))] @ bodyMembers (st_body s)"

definition statementJson :: "PolicyStatementV1 \<Rightarrow> JsValue" where
  "statementJson s = JObj (statementMembers s)"

definition documentJson :: "PolicyDocumentV1 \<Rightarrow> JsValue" where
  "documentJson d = JObj [(''schemaVersion'', JNum 1), (''statements'', JArr (map statementJson d))]"

end
