(* ===== verification/Policy_Kernel.thy ===== *)
theory Policy_Kernel
  imports Prelude
begin

text \<open>
  The NGAC policy kernel, \<^verbatim>\<open>packages/policy-kernel/src/index.ts\<close>.

  The first part is the data model (one record or datatype per exported interface) and the
  functions of the file in their order; identifiers are strings, an optional property is an
  \<open>option\<close>, and the validation messages are the ones the code builds. JavaScript truthiness is
  written out: an empty string is falsy, so an empty identifier never enters a containment
  closure and never counts as a user or a process.

  The second part shows that the worklist closure is reachability, that the recursive search
  finds a cycle exactly when there is one, and that \<open>evaluateAccess\<close> implements the declarative
  NGAC decision \<open>ngac_permits\<close>. The locale \<open>access_kernel\<close> states what the kernel promises to its
  callers; it is interpreted on \<open>evaluateAccess\<close>.
\<close>

section \<open>Data model\<close>

datatype PolicyElementKind = User | Object | UserAttribute | ObjectAttribute | PolicyClass

record PolicyElement =
  el_id :: string
  el_kind :: PolicyElementKind

record PolicyAssignment =
  child :: string
  parent :: string

record PolicyOperation =
  op_id :: string
  op_accessRights :: "string list"

record PolicyProcessUser =
  pu_process :: string
  pu_user :: string

record PolicyAssociation =
  as_id :: string
  as_userAttribute :: string
  as_accessRights :: "string list"
  as_targetAttribute :: string

datatype PolicyProhibitionKind = ForUser | ForProcess | ForUserAttribute

datatype PolicyProhibitionRangeType = Disjunctive | Conjunctive

record PolicyProhibitionRange =
  rg_type :: PolicyProhibitionRangeType
  rg_include :: "string list option"
  rg_exclude :: "string list option"

record PolicyProhibition =
  pr_id :: string
  pr_kind :: PolicyProhibitionKind
  pr_subject :: string
  pr_accessRights :: "string list"
  pr_range :: PolicyProhibitionRange

record PolicyState =
  elements :: "PolicyElement list"
  assignments :: "PolicyAssignment list"
  operations :: "PolicyOperation list"
  processUsers :: "PolicyProcessUser list option"
  associations :: "PolicyAssociation list"
  prohibitions :: "PolicyProhibition list option"

record AccessRequest =
  rq_user :: "string option"
  rq_process :: "string option"
  rq_operation :: string
  rq_target :: string

datatype PolicyDecisionEffect = Allow | Deny

datatype PolicyDecisionReason =
    AssociationGrant string
  | MissingPrivilege string
  | Restriction string
  | MissingOperation string
  | InvalidPolicy string
  | InvalidRequest string

record PolicyDecisionTrace =
  tr_user :: "string option"
  tr_process :: "string option"
  requiredAccessRights :: "string list"
  userClosure :: "string list"
  targetClosure :: "string list"
  policyClasses :: "string list"
  matchedAssociations :: "string list"
  matchedProhibitions :: "string list"

record PolicyDecision =
  effect :: PolicyDecisionEffect
  reasons :: "PolicyDecisionReason list"
  trace :: PolicyDecisionTrace

type_synonym element_index = "(string \<times> PolicyElement) list"
type_synonym parent_index = "(string \<times> string list) list"

section \<open>Operations\<close>

text \<open>A defaulted optional list property, \<^verbatim>\<open>x ?? []\<close>, and a non-empty string, \<^verbatim>\<open>!!x\<close>.\<close>

definition or_empty :: "'a list option \<Rightarrow> 'a list" where
  "or_empty x = (case x of None \<Rightarrow> [] | Some xs \<Rightarrow> xs)"

definition truthy :: "string option \<Rightarrow> string option" where
  "truthy x = (case x of None \<Rightarrow> None | Some s \<Rightarrow> if s = '''' then None else Some s)"

definition deny :: "PolicyDecisionReason list \<Rightarrow> PolicyDecisionTrace \<Rightarrow> PolicyDecision" where
  "deny rs t = \<lparr>effect = Deny, reasons = rs, trace = t\<rparr>"

definition emptyTrace :: "AccessRequest \<Rightarrow> string list \<Rightarrow> string option \<Rightarrow> PolicyDecisionTrace" where
  "emptyTrace request required user =
     \<lparr>tr_user = truthy user, tr_process = truthy (rq_process request),
      requiredAccessRights = required, userClosure = [], targetClosure = [],
      policyClasses = [], matchedAssociations = [], matchedProhibitions = []\<rparr>"

definition indexElements :: "PolicyElement list \<Rightarrow> element_index" where
  "indexElements es = map_of_entries (map (\<lambda>e. (el_id e, e)) es)"

text \<open>The kind of an indexed element, \<^verbatim>\<open>elementsById.get(id)?.kind\<close>.\<close>

definition kind_of :: "element_index \<Rightarrow> string \<Rightarrow> PolicyElementKind option" where
  "kind_of idx i = map_option el_kind (map_of idx i)"

definition parents_of :: "parent_index \<Rightarrow> string \<Rightarrow> string list" where
  "parents_of idx i = or_empty (map_of idx i)"

definition indexAssignmentParents :: "PolicyAssignment list \<Rightarrow> parent_index" where
  "indexAssignmentParents as =
     fold (\<lambda>a idx. AList.update (child a) (parents_of idx (child a) @ [parent a]) idx) as []"

fun isAllowedAssignment :: "PolicyElementKind \<Rightarrow> PolicyElementKind \<Rightarrow> bool" where
  "isAllowedAssignment User p = (p = UserAttribute)"
| "isAllowedAssignment UserAttribute p = (p = UserAttribute \<or> p = PolicyClass)"
| "isAllowedAssignment Object p = (p = ObjectAttribute \<or> p = PolicyClass)"
| "isAllowedAssignment ObjectAttribute p = (p = ObjectAttribute \<or> p = PolicyClass)"
| "isAllowedAssignment PolicyClass p = False"

definition isAttributeElement :: "PolicyElementKind option \<Rightarrow> bool" where
  "isAttributeElement k =
     (k = Some UserAttribute \<or> k = Some ObjectAttribute \<or> k = Some Object)"

text \<open>
  The worklist of \<^verbatim>\<open>computeContainmentClosure\<close>. \<open>pending\<close> is the array read from its end: its
  head is the element \<^verbatim>\<open>pop\<close> takes, so pushing the parents in order puts them in reverse.
\<close>

function closure_loop :: "parent_index \<Rightarrow> string list \<Rightarrow> string list \<Rightarrow> string list" where
  "closure_loop idx [] closure = closure"
| "closure_loop idx (current # pending) closure =
     (if current = '''' \<or> current \<in> set closure then closure_loop idx pending closure
      else closure_loop idx (rev (parents_of idx current) @ pending) (closure @ [current]))"
  by pat_completeness auto
termination
proof (relation "inv_image (finite_psubset <*lex*> less_than)
    (\<lambda>(idx, pending, closure). (fst ` set idx - set closure, length pending))", goal_cases)
  case 1
  then show ?case by (auto intro!: wf_inv_image wf_lex_prod)
next
  case (2 idx current pending closure)
  then show ?case by simp
next
  case (3 idx current pending closure)
  show ?case
  proof (cases "current \<in> fst ` set idx")
    case True
    with 3 have "fst ` set idx - insert current (set closure) \<subset> fst ` set idx - set closure"
      by auto
    then show ?thesis by (simp add: finite_psubset_def)
  next
    case False
    then have "map_of idx current = None" by (simp add: map_of_eq_None_iff)
    moreover from False have "fst ` set idx - insert current (set closure) = fst ` set idx - set closure"
      by auto
    ultimately show ?thesis by (simp add: parents_of_def or_empty_def)
  qed
qed

definition computeContainmentClosure :: "string \<Rightarrow> parent_index \<Rightarrow> string list" where
  "computeContainmentClosure start idx = closure_loop idx [start] []"

text \<open>
  The depth-first search of \<^verbatim>\<open>hasAssignmentCycle\<close>. \<open>visiting\<close> is the set of identifiers on the
  current path: each call adds its own and deletes it again before it returns false, and a
  true result ends the whole search, so it is passed down rather than threaded; \<open>visited\<close> is
  threaded.
\<close>

function visit :: "parent_index \<Rightarrow> string list \<Rightarrow> string list \<Rightarrow> string \<Rightarrow> bool \<times> string list"
  and visit_parents :: "parent_index \<Rightarrow> string list \<Rightarrow> string list \<Rightarrow> string list \<Rightarrow> bool \<times> string list"
where
  "visit idx visiting visited i =
     (if i \<in> set visiting then (True, visited)
      else if i \<in> set visited then (False, visited)
      else (case visit_parents idx (i # visiting) visited (parents_of idx i) of
              (True, vd) \<Rightarrow> (True, vd)
            | (False, vd) \<Rightarrow> (False, i # vd)))"
| "visit_parents idx visiting visited [] = (False, visited)"
| "visit_parents idx visiting visited (p # ps) =
     (case visit idx visiting visited p of
        (True, vd) \<Rightarrow> (True, vd)
      | (False, vd) \<Rightarrow> visit_parents idx visiting vd ps)"
  by pat_completeness auto

termination
proof (relation "measures
    [\<lambda>x. case x of Inl (idx, visiting, visited, i) \<Rightarrow> card (fst ` set idx - set visiting)
         | Inr (idx, visiting, visited, ps) \<Rightarrow>
             if ps = [] then 0 else card (fst ` set idx - set visiting),
     \<lambda>x. case x of Inl _ \<Rightarrow> 1
         | Inr (idx, visiting, visited, ps) \<Rightarrow> if ps = [] then 0 else Suc (length ps)]", goal_cases)
  case 1
  then show ?case by simp
next
  case (2 idx visiting visited i)
  show ?case
  proof (cases "i \<in> fst ` set idx")
    case True
    with 2 have "card (fst ` set idx - set (i # visiting)) < card (fst ` set idx - set visiting)"
      by (intro psubset_card_mono) auto
    then show ?thesis by auto
  next
    case False
    then have "map_of idx i = None" by (simp add: map_of_eq_None_iff)
    then show ?thesis by (auto simp: parents_of_def or_empty_def card_gt_0_iff)
  qed
qed (auto, force)

declare visit.simps [simp del]

definition hasAssignmentCycle :: "PolicyElement list \<Rightarrow> parent_index \<Rightarrow> bool" where
  "hasAssignmentCycle es idx = fst (visit_parents idx [] [] (map el_id es))"

definition validateProhibition ::
  "PolicyProhibition \<Rightarrow> PolicyState \<Rightarrow> element_index \<Rightarrow> string option" where
  "validateProhibition pr policy elementsById =
     (if pr_accessRights pr = [] then
        Some (''Prohibition '' @ pr_id pr @ '' must deny at least one access right.'')
      else if pr_kind pr = ForUser \<and> kind_of elementsById (pr_subject pr) \<noteq> Some User then
        Some (''Prohibition '' @ pr_id pr @ '' must reference an NGAC user.'')
      else if pr_kind pr = ForUserAttribute
          \<and> kind_of elementsById (pr_subject pr) \<noteq> Some UserAttribute then
        Some (''Prohibition '' @ pr_id pr @ '' must reference an NGAC user attribute.'')
      else if pr_kind pr = ForProcess
          \<and> \<not> (\<exists>e\<in>set (or_empty (processUsers policy)). pu_process e = pr_subject pr) then
        Some (''Prohibition '' @ pr_id pr @ '' must reference a mapped process.'')
      else
        (let inc = or_empty (rg_include (pr_range pr)); exc = or_empty (rg_exclude (pr_range pr))
         in if inc = [] \<and> exc = [] then
              Some (''Prohibition '' @ pr_id pr @ '' must define a non-empty range.'')
            else
              first_some (\<lambda>attribute.
                  if isAttributeElement (kind_of elementsById attribute) then None
                  else Some (''Prohibition '' @ pr_id pr
                               @ '' range must reference only NGAC attributes.''))
                (inc @ exc)))"

definition validateAssignment :: "element_index \<Rightarrow> PolicyAssignment \<Rightarrow> string option" where
  "validateAssignment elementsById a =
     (case (kind_of elementsById (child a), kind_of elementsById (parent a)) of
        (Some c, Some p) \<Rightarrow>
          if isAllowedAssignment c p then None
          else Some (''Invalid NGAC assignment '' @ child a @ '' -> '' @ parent a @ ''.'')
      | _ \<Rightarrow> Some (''Invalid NGAC assignment '' @ child a @ '' -> '' @ parent a @ ''.''))"

definition validateConnection ::
  "element_index \<Rightarrow> parent_index \<Rightarrow> PolicyElement \<Rightarrow> string option" where
  "validateConnection elementsById idx e =
     (if el_kind e = PolicyClass then None
      else if \<exists>i\<in>set (computeContainmentClosure (el_id e) idx).
                kind_of elementsById i = Some PolicyClass then None
      else Some (''Policy element '' @ el_id e @ '' is not connected to a policy class.''))"

definition validateOperation :: "PolicyOperation \<Rightarrow> string option" where
  "validateOperation operation =
     (if op_accessRights operation = [] then
        Some (''Operation '' @ op_id operation @ '' must require at least one access right.'')
      else None)"

definition validateAssociation :: "element_index \<Rightarrow> PolicyAssociation \<Rightarrow> string option" where
  "validateAssociation elementsById a =
     (if kind_of elementsById (as_userAttribute a) \<noteq> Some UserAttribute then
        Some (''Association '' @ as_id a @ '' must start from a user attribute.'')
      else if \<not> isAttributeElement (kind_of elementsById (as_targetAttribute a)) then
        Some (''Association '' @ as_id a @ '' must target a user or object attribute.'')
      else if as_accessRights a = [] then
        Some (''Association '' @ as_id a @ '' must allocate at least one access right.'')
      else None)"

definition validateProcessUser :: "element_index \<Rightarrow> PolicyProcessUser \<Rightarrow> string option" where
  "validateProcessUser elementsById pu =
     (if kind_of elementsById (pu_user pu) \<noteq> Some User then
        Some (''Process '' @ pu_process pu @ '' must map to an NGAC user.'')
      else None)"

text \<open>\<^verbatim>\<open>validatePolicy\<close>: the checks in their order, the first failing one giving the message.\<close>

definition validatePolicy ::
  "PolicyState \<Rightarrow> element_index \<Rightarrow> parent_index \<Rightarrow> string option" where
  "validatePolicy policy elementsById idx =
     orElse (if length elementsById \<noteq> length (elements policy)
             then Some ''Policy element identifiers must be unique.'' else None)
     (orElse (first_some (validateAssignment elementsById) (assignments policy))
     (orElse (if hasAssignmentCycle (elements policy) idx
              then Some ''NGAC assignment relation must be acyclic.'' else None)
     (orElse (first_some (validateConnection elementsById idx) (elements policy))
     (orElse (first_some validateOperation (operations policy))
     (orElse (first_some (validateAssociation elementsById) (associations policy))
     (orElse (first_some (validateProcessUser elementsById) (or_empty (processUsers policy)))
     (first_some (\<lambda>pr. validateProhibition pr policy elementsById)
        (or_empty (prohibitions policy)))))))))"

definition resolveRequestUser ::
  "PolicyState \<Rightarrow> AccessRequest \<Rightarrow> element_index \<Rightarrow> string result" where
  "resolveRequestUser policy request elementsById =
     (let mappedUser =
            (case truthy (rq_process request) of
               None \<Rightarrow> None
             | Some p \<Rightarrow> map_option pu_user
                 (List.find (\<lambda>e. pu_process e = p) (or_empty (processUsers policy))));
          user = (case rq_user request of Some u \<Rightarrow> Some u | None \<Rightarrow> mappedUser)
      in case truthy user of
           None \<Rightarrow> Inl ''Access request must resolve to an NGAC user.''
         | Some u \<Rightarrow>
             if kind_of elementsById u \<noteq> Some User then
               Inl ''Access request must resolve to an NGAC user.''
             else (case (truthy (rq_user request), truthy mappedUser) of
                 (Some ru, Some mu) \<Rightarrow>
                   if ru \<noteq> mu then
                     Inl (''Process '' @ (case rq_process request of None \<Rightarrow> ''undefined'' | Some p \<Rightarrow> p)
                          @ '' is not mapped to user '' @ ru @ ''.'')
                   else Inr u
               | _ \<Rightarrow> Inr u))"

definition grantsAccessRight ::
  "PolicyAssociation \<Rightarrow> string \<Rightarrow> string \<Rightarrow> string list \<Rightarrow> string list \<Rightarrow> parent_index \<Rightarrow> bool" where
  "grantsAccessRight a accessRight pc uc tc idx =
     (as_userAttribute a \<in> set uc \<and>
      as_targetAttribute a \<in> set tc \<and>
      pc \<in> set (computeContainmentClosure (as_targetAttribute a) idx) \<and>
      accessRight \<in> set (as_accessRights a))"

definition targetInRange :: "string \<Rightarrow> PolicyProhibitionRange \<Rightarrow> parent_index \<Rightarrow> bool" where
  "targetInRange target range' idx =
     (let inc = or_empty (rg_include range'); exc = or_empty (rg_exclude range');
          tc = computeContainmentClosure target idx
      in case rg_type range' of
           Disjunctive \<Rightarrow> (\<exists>a\<in>set inc. a \<in> set tc) \<or> (\<exists>a\<in>set exc. a \<notin> set tc)
         | Conjunctive \<Rightarrow> (\<forall>a\<in>set inc. a \<in> set tc) \<and> (\<forall>a\<in>set exc. a \<notin> set tc))"

definition matchesRestriction ::
  "PolicyProhibition \<Rightarrow> AccessRequest \<Rightarrow> string \<Rightarrow> string list \<Rightarrow> string \<Rightarrow> string list
     \<Rightarrow> parent_index \<Rightarrow> bool" where
  "matchesRestriction pr request user uc target required idx =
     ((pr_kind pr = ForUser \<and> pr_subject pr = user \<or>
       pr_kind pr = ForProcess \<and> Some (pr_subject pr) = rq_process request \<or>
       pr_kind pr = ForUserAttribute \<and> pr_subject pr \<in> set uc) \<and>
      (\<exists>ar\<in>set required. ar \<in> set (pr_accessRights pr)) \<and>
      targetInRange target (pr_range pr) idx)"

text \<open>
  The labelled search of \<^verbatim>\<open>evaluateAccess\<close>: for each required access right and each policy class
  the first granting association is recorded; the first pair without one stops the search. The
  result is the recorded identifiers, in insertion order, and the missing access right.
\<close>

fun search_classes ::
  "(string \<Rightarrow> string \<Rightarrow> PolicyAssociation option) \<Rightarrow> string \<Rightarrow> string list \<Rightarrow> string list
     \<Rightarrow> string list \<times> string option" where
  "search_classes find_grant ar [] matched = (matched, None)"
| "search_classes find_grant ar (pc # pcs) matched =
     (case find_grant ar pc of
        None \<Rightarrow> (matched, Some ar)
      | Some a \<Rightarrow> search_classes find_grant ar pcs (set_add (as_id a) matched))"

fun search_rights ::
  "(string \<Rightarrow> string \<Rightarrow> PolicyAssociation option) \<Rightarrow> string list \<Rightarrow> string list \<Rightarrow> string list
     \<Rightarrow> string list \<times> string option" where
  "search_rights find_grant pcs [] matched = (matched, None)"
| "search_rights find_grant pcs (ar # ars) matched =
     (case search_classes find_grant ar pcs matched of
        (m, Some missing) \<Rightarrow> (m, Some missing)
      | (m, None) \<Rightarrow> search_rights find_grant pcs ars m)"

text \<open>The decision once the policy, the operation, the user and the target are known.\<close>

definition decide_request ::
  "PolicyState \<Rightarrow> AccessRequest \<Rightarrow> PolicyOperation \<Rightarrow> string \<Rightarrow> PolicyDecision" where
  "decide_request policy request operation user =
     (let elementsById = indexElements (elements policy);
          idx = indexAssignmentParents (assignments policy);
          uc = computeContainmentClosure user idx;
          tc = computeContainmentClosure (rq_target request) idx;
          pcs = filter (\<lambda>i. kind_of elementsById i = Some PolicyClass) tc;
          trace0 = (emptyTrace request (op_accessRights operation) (Some user))
            \<lparr>userClosure := uc, targetClosure := tc, policyClasses := pcs\<rparr>;
          (matched, missing) = search_rights
            (\<lambda>ar pc. List.find (\<lambda>a. grantsAccessRight a ar pc uc tc idx) (associations policy))
            pcs (op_accessRights operation) [];
          matchedProh = filter (\<lambda>pr. matchesRestriction pr request user uc (rq_target request)
            (op_accessRights operation) idx) (or_empty (prohibitions policy));
          finalTrace = trace0\<lparr>matchedAssociations := matched,
            matchedProhibitions := map pr_id matchedProh\<rparr>
      in case matchedProh of
           pr # _ \<Rightarrow> deny [Restriction (pr_id pr)] finalTrace
         | [] \<Rightarrow>
           (case missing of
              Some ar \<Rightarrow> deny [MissingPrivilege ar] finalTrace
            | None \<Rightarrow>
                \<lparr>effect = Allow,
                 reasons = [AssociationGrant (case matched of [] \<Rightarrow> '''' | m # _ \<Rightarrow> m)],
                 trace = finalTrace\<rparr>))"

definition evaluateAccess :: "PolicyState \<Rightarrow> AccessRequest \<Rightarrow> PolicyDecision" where
  "evaluateAccess policy request =
     (let elementsById = indexElements (elements policy);
          idx = indexAssignmentParents (assignments policy)
      in case validatePolicy policy elementsById idx of
           Some policyError \<Rightarrow> deny [InvalidPolicy policyError] (emptyTrace request [] None)
         | None \<Rightarrow>
      (case List.find (\<lambda>entry. op_id entry = rq_operation request) (operations policy) of
           None \<Rightarrow> deny [MissingOperation (rq_operation request)] (emptyTrace request [] None)
         | Some operation \<Rightarrow>
      (case resolveRequestUser policy request elementsById of
           Inl message \<Rightarrow>
             deny [InvalidRequest message] (emptyTrace request (op_accessRights operation) None)
         | Inr user \<Rightarrow>
             if kind_of elementsById (rq_target request) \<in> {None, Some PolicyClass} then
               deny [InvalidRequest (''Invalid NGAC request target '' @ rq_target request @ ''.'')]
                 (emptyTrace request (op_accessRights operation) (Some user))
             else decide_request policy request operation user)))"

section \<open>The assignment index and the containment closure\<close>

lemma or_empty_simps [simp]: "or_empty None = []" "or_empty (Some xs) = xs"
  by (simp_all add: or_empty_def)

lemma parents_of_update [simp]:
  "parents_of (AList.update c ps idx) i = (if i = c then ps else parents_of idx i)"
  by (simp add: parents_of_def update_conv')

lemma parents_of_index_fold:
  "parents_of (fold (\<lambda>a idx. AList.update (child a) (parents_of idx (child a) @ [parent a]) idx)
     as idx) i = parents_of idx i @ map parent (filter (\<lambda>a. child a = i) as)"
  by (induction as arbitrary: idx) auto

lemma parents_of_indexAssignmentParents:
  "parents_of (indexAssignmentParents as) i = map parent (filter (\<lambda>a. child a = i) as)"
  by (simp add: indexAssignmentParents_def parents_of_index_fold) (simp add: parents_of_def)

text \<open>The edges the closure follows: an empty identifier is skipped by the loop.\<close>

definition edges :: "parent_index \<Rightarrow> (string \<times> string) set" where
  "edges idx = {(c, p). p \<in> set (parents_of idx c)}"

definition live_edges :: "parent_index \<Rightarrow> (string \<times> string) set" where
  "live_edges idx = {(c, p). p \<in> set (parents_of idx c) \<and> c \<noteq> '''' \<and> p \<noteq> ''''}"

definition live_reach :: "parent_index \<Rightarrow> string \<Rightarrow> string set" where
  "live_reach idx s = (if s = '''' then {} else (live_edges idx)\<^sup>* `` {s})"

lemma live_reach_refl: "s \<noteq> '''' \<Longrightarrow> s \<in> live_reach idx s"
  by (simp add: live_reach_def)

lemma live_reach_step:
  "s \<noteq> '''' \<Longrightarrow> p \<in> set (parents_of idx s) \<Longrightarrow> x \<in> live_reach idx p \<Longrightarrow> x \<in> live_reach idx s"
  by (auto simp: live_reach_def live_edges_def split: if_splits
      intro: converse_rtrancl_into_rtrancl)

lemma closure_loop_extends: "set closure \<subseteq> set (closure_loop idx pending closure)"
  by (induction idx pending closure rule: closure_loop.induct) auto

lemma closure_loop_pending: "x \<in> set pending \<Longrightarrow> x \<noteq> '''' \<Longrightarrow> x \<in> set (closure_loop idx pending closure)"
proof (induction idx pending closure rule: closure_loop.induct)
  case (2 idx current pending closure)
  then show ?case
    using closure_loop_extends [of closure idx pending]
      closure_loop_extends [of "closure @ [current]" idx "rev (parents_of idx current) @ pending"]
    by auto
qed simp

lemma closure_loop_sound:
  "set (closure_loop idx pending closure) \<subseteq> set closure \<union> (\<Union>s\<in>set pending. live_reach idx s)"
proof (induction idx pending closure rule: closure_loop.induct)
  case (2 idx current pending closure)
  show ?case
  proof (cases "current = '''' \<or> current \<in> set closure")
    case True
    with 2(1) [OF True] show ?thesis by (auto simp del: closure_loop.simps simp: closure_loop.simps(2))
  next
    case False
    then have parents: "(\<Union>p\<in>set (parents_of idx current). live_reach idx p) \<subseteq> live_reach idx current"
      using live_reach_step by blast
    have self: "current \<in> live_reach idx current" using False by (simp add: live_reach_refl)
    have "set (closure_loop idx (current # pending) closure)
        = set (closure_loop idx (rev (parents_of idx current) @ pending) (closure @ [current]))"
      using False by simp
    also have "\<dots> \<subseteq> set (closure @ [current])
        \<union> (\<Union>s\<in>set (rev (parents_of idx current) @ pending). live_reach idx s)"
      by (rule 2(2) [OF False])
    also have "\<dots> \<subseteq> set closure \<union> (\<Union>s\<in>set (current # pending). live_reach idx s)"
      using parents self by auto
    finally show ?thesis .
  qed
qed simp

lemma closure_loop_closed:
  assumes "live_edges idx `` set closure \<subseteq> set closure \<union> set pending"
  shows "live_edges idx `` set (closure_loop idx pending closure)
           \<subseteq> set (closure_loop idx pending closure)"
  using assms
proof (induction idx pending closure rule: closure_loop.induct)
  case (2 idx current pending closure)
  show ?case
  proof (cases "current = '''' \<or> current \<in> set closure")
    case True
    then have "live_edges idx `` set closure \<subseteq> set closure \<union> set pending"
      using "2.prems" by (auto simp: live_edges_def)
    with True 2 show ?thesis by simp
  next
    case False
    have "live_edges idx `` set (closure @ [current])
        \<subseteq> set (closure @ [current]) \<union> set (rev (parents_of idx current) @ pending)"
      using "2.prems" by (auto simp: live_edges_def)
    with False 2 show ?thesis by simp
  qed
qed simp

lemma distinct_closure_loop: "distinct closure \<Longrightarrow> distinct (closure_loop idx pending closure)"
  by (induction idx pending closure rule: closure_loop.induct) auto

lemma distinct_computeContainmentClosure: "distinct (computeContainmentClosure s idx)"
  by (simp add: computeContainmentClosure_def distinct_closure_loop del: closure_loop.simps)

lemma Image_closed_rtrancl: "r `` X \<subseteq> X \<Longrightarrow> x \<in> X \<Longrightarrow> (x, y) \<in> r\<^sup>* \<Longrightarrow> y \<in> X"
  by (metis Image_closed_trancl rev_ImageI)

lemma set_computeContainmentClosure:
  "set (computeContainmentClosure s idx) = live_reach idx s"
proof
  show "set (computeContainmentClosure s idx) \<subseteq> live_reach idx s"
    using closure_loop_sound [of idx "[s]" "[]"] by (simp add: computeContainmentClosure_def)
  let ?C = "closure_loop idx [s] []"
  have closed: "live_edges idx `` set ?C \<subseteq> set ?C"
    by (rule closure_loop_closed) simp
  show "live_reach idx s \<subseteq> set (computeContainmentClosure s idx)"
  proof (cases "s = ''''")
    case False
    then have "s \<in> set ?C" by (intro closure_loop_pending) simp_all
    with closed show ?thesis
      by (auto simp: live_reach_def computeContainmentClosure_def
          simp del: closure_loop.simps intro: Image_closed_rtrancl)
  qed (simp add: live_reach_def)
qed

section \<open>Cycle detection\<close>

text \<open>An element is on or below a cycle of the assignment relation.\<close>

definition cyclic_from :: "parent_index \<Rightarrow> string \<Rightarrow> bool" where
  "cyclic_from idx i = (\<exists>x. (i, x) \<in> (edges idx)\<^sup>* \<and> (x, x) \<in> (edges idx)\<^sup>+)"

lemma cyclic_from_parent: "p \<in> set (parents_of idx i) \<Longrightarrow> cyclic_from idx p \<Longrightarrow> cyclic_from idx i"
  by (auto simp: cyclic_from_def edges_def intro: converse_rtrancl_into_rtrancl)

lemma cyclic_from_cases:
  assumes "cyclic_from idx i"
  shows "\<exists>p\<in>set (parents_of idx i). cyclic_from idx p"
proof -
  from assms obtain x where x: "(i, x) \<in> (edges idx)\<^sup>*" "(x, x) \<in> (edges idx)\<^sup>+"
    by (auto simp: cyclic_from_def)
  then have "(i, x) \<in> (edges idx)\<^sup>+" by (metis rtrancl_trancl_trancl)
  then obtain p where p: "(i, p) \<in> edges idx" "(p, x) \<in> (edges idx)\<^sup>*"
    by (metis tranclD)
  then have "cyclic_from idx p" using x(2) by (auto simp: cyclic_from_def)
  with p(1) show ?thesis by (auto simp: edges_def)
qed

text \<open>
  A true answer is a real cycle: the identifiers on the path reach the one under visit.
\<close>

lemma visit_sound:
  "fst (visit idx visiting visited i) \<Longrightarrow> (\<forall>v\<in>set visiting. (v, i) \<in> (edges idx)\<^sup>+)
     \<Longrightarrow> cyclic_from idx i"
  "fst (visit_parents idx visiting visited ps) \<Longrightarrow>
     (\<forall>p\<in>set ps. \<forall>v\<in>set visiting. (v, p) \<in> (edges idx)\<^sup>+) \<Longrightarrow> \<exists>p\<in>set ps. cyclic_from idx p"
proof (induction idx visiting visited i and idx visiting visited ps rule: visit_visit_parents.induct)
  case (1 idx visiting visited i)
  show ?case
  proof (cases "i \<in> set visiting")
    case True
    then show ?thesis using "1.prems"(2) by (auto simp: cyclic_from_def)
  next
    case False
    with "1.prems"(1) have nv: "i \<notin> set visited"
      and "fst (visit_parents idx (i # visiting) visited (parents_of idx i))"
      by (auto simp: visit.simps [of idx visiting] split: if_splits prod.splits bool.splits)
    moreover have "\<forall>p\<in>set (parents_of idx i). \<forall>v\<in>set (i # visiting). (v, p) \<in> (edges idx)\<^sup>+"
      using "1.prems"(2) by (auto simp: edges_def intro: trancl_into_trancl)
    ultimately show ?thesis using "1.IH" [OF False nv] cyclic_from_parent by blast
  qed
next
  case (3 idx visiting visited p ps)
  then show ?case by (fastforce split: prod.splits bool.splits)
qed simp_all

text \<open>
  A false answer means that nothing visited so far is on or below a cycle.
\<close>

lemma visit_complete:
  "visit idx visiting visited i = (False, vd) \<Longrightarrow> (\<forall>v\<in>set visited. \<not> cyclic_from idx v)
     \<Longrightarrow> i \<in> set vd \<and> set visited \<subseteq> set vd \<and> (\<forall>v\<in>set vd. \<not> cyclic_from idx v)"
  "visit_parents idx visiting visited ps = (False, vd) \<Longrightarrow> (\<forall>v\<in>set visited. \<not> cyclic_from idx v)
     \<Longrightarrow> set ps \<subseteq> set vd \<and> set visited \<subseteq> set vd \<and> (\<forall>v\<in>set vd. \<not> cyclic_from idx v)"
proof (induction idx visiting visited i and idx visiting visited ps arbitrary: vd and vd
    rule: visit_visit_parents.induct)
  case (1 idx visiting visited i)
  show ?case
  proof (cases "i \<in> set visited")
    case True
    then show ?thesis using "1.prems"
      by (auto simp: visit.simps [of idx visiting] split: if_splits)
  next
    case False
    with "1.prems"(1) have nv: "i \<notin> set visiting"
      and "\<exists>vd'. visit_parents idx (i # visiting) visited (parents_of idx i) = (False, vd') \<and> vd = i # vd'"
      by (auto simp: visit.simps [of idx visiting] split: if_splits prod.splits bool.splits)
    then obtain vd' where vd': "visit_parents idx (i # visiting) visited (parents_of idx i) = (False, vd')"
      and vd: "vd = i # vd'" by blast
    from "1.IH" [OF nv False vd' "1.prems"(2)] cyclic_from_cases [of idx i] vd
    show ?thesis by auto
  qed
next
  case (3 idx visiting visited p ps)
  from "3.prems"(1) obtain vd1 where vd1: "visit idx visiting visited p = (False, vd1)"
    and rest: "visit_parents idx visiting vd1 ps = (False, vd)"
    by (auto split: prod.splits bool.splits)
  from "3.IH"(1) [OF vd1 "3.prems"(2)]
  have first: "p \<in> set vd1" "set visited \<subseteq> set vd1" "\<forall>v\<in>set vd1. \<not> cyclic_from idx v"
    by auto
  from "3.IH"(2) [OF vd1 [symmetric] _ rest first(3)] first show ?case by auto
qed simp_all

lemma hasAssignmentCycle_iff:
  "hasAssignmentCycle es idx \<longleftrightarrow> (\<exists>e\<in>set es. cyclic_from idx (el_id e))"
proof
  assume "hasAssignmentCycle es idx"
  then show "\<exists>e\<in>set es. cyclic_from idx (el_id e)"
    using visit_sound(2) [of idx "[]" "[]" "map el_id es"] by (auto simp: hasAssignmentCycle_def)
next
  assume ex: "\<exists>e\<in>set es. cyclic_from idx (el_id e)"
  show "hasAssignmentCycle es idx"
  proof (rule ccontr)
    assume "\<not> hasAssignmentCycle es idx"
    then obtain vd where "visit_parents idx [] [] (map el_id es) = (False, vd)"
      by (cases "visit_parents idx [] [] (map el_id es)") (auto simp: hasAssignmentCycle_def)
    from visit_complete(2) [OF this] ex show False by auto
  qed
qed

section \<open>The declarative NGAC decision\<close>

definition element_kind :: "PolicyState \<Rightarrow> string \<Rightarrow> PolicyElementKind option" where
  "element_kind P i = map_option el_kind (List.find (\<lambda>e. el_id e = i) (elements P))"

definition assigned :: "PolicyState \<Rightarrow> (string \<times> string) set" where
  "assigned P = (\<lambda>a. (child a, parent a)) ` set (assignments P)"

definition contained :: "PolicyState \<Rightarrow> string \<Rightarrow> string \<Rightarrow> bool" where
  "contained P x y \<longleftrightarrow> (x, y) \<in> (assigned P)\<^sup>*"

definition named :: "PolicyState \<Rightarrow> bool" where
  "named P \<longleftrightarrow> (\<forall>e\<in>set (elements P). el_id e \<noteq> '''')"

definition prohibition_wellformed :: "PolicyState \<Rightarrow> PolicyProhibition \<Rightarrow> bool" where
  "prohibition_wellformed P pr \<longleftrightarrow>
     pr_accessRights pr \<noteq> [] \<and>
     (case pr_kind pr of
        ForUser \<Rightarrow> element_kind P (pr_subject pr) = Some User
      | ForUserAttribute \<Rightarrow> element_kind P (pr_subject pr) = Some UserAttribute
      | ForProcess \<Rightarrow> \<exists>e\<in>set (or_empty (processUsers P)). pu_process e = pr_subject pr) \<and>
     or_empty (rg_include (pr_range pr)) @ or_empty (rg_exclude (pr_range pr)) \<noteq> [] \<and>
     (\<forall>a\<in>set (or_empty (rg_include (pr_range pr)) @ or_empty (rg_exclude (pr_range pr))).
        isAttributeElement (element_kind P a))"

definition ngac_wellformed :: "PolicyState \<Rightarrow> bool" where
  "ngac_wellformed P \<longleftrightarrow>
     distinct (map el_id (elements P)) \<and>
     (\<forall>a\<in>set (assignments P). \<exists>c p. element_kind P (child a) = Some c \<and>
        element_kind P (parent a) = Some p \<and> isAllowedAssignment c p) \<and>
     acyclic (assigned P) \<and>
     (\<forall>e\<in>set (elements P). \<exists>pc. contained P (el_id e) pc \<and> element_kind P pc = Some PolicyClass) \<and>
     (\<forall>oper\<in>set (operations P). op_accessRights oper \<noteq> []) \<and>
     (\<forall>a\<in>set (associations P). element_kind P (as_userAttribute a) = Some UserAttribute \<and>
        isAttributeElement (element_kind P (as_targetAttribute a)) \<and> as_accessRights a \<noteq> []) \<and>
     (\<forall>pu\<in>set (or_empty (processUsers P)). element_kind P (pu_user pu) = Some User) \<and>
     (\<forall>pr\<in>set (or_empty (prohibitions P)). prohibition_wellformed P pr)"

definition process_user :: "PolicyState \<Rightarrow> string \<Rightarrow> string option" where
  "process_user P p =
     map_option pu_user (List.find (\<lambda>e. pu_process e = p) (or_empty (processUsers P)))"

text \<open>The user a request speaks for: named directly, or by a mapped process, without contradiction.\<close>

definition requester :: "PolicyState \<Rightarrow> AccessRequest \<Rightarrow> string \<Rightarrow> bool" where
  "requester P r u \<longleftrightarrow> element_kind P u = Some User \<and>
     (case rq_user r of
        Some u' \<Rightarrow> u' = u \<and> (\<forall>p. truthy (rq_process r) = Some p \<longrightarrow> process_user P p \<in> {None, Some u})
      | None \<Rightarrow> \<exists>p. truthy (rq_process r) = Some p \<and> process_user P p = Some u)"

definition privileged :: "PolicyState \<Rightarrow> string \<Rightarrow> string \<Rightarrow> string \<Rightarrow> string \<Rightarrow> bool" where
  "privileged P u t ar pc \<longleftrightarrow>
     (\<exists>a\<in>set (associations P). contained P u (as_userAttribute a) \<and>
        contained P t (as_targetAttribute a) \<and> contained P (as_targetAttribute a) pc \<and>
        ar \<in> set (as_accessRights a))"

definition in_range :: "PolicyState \<Rightarrow> string \<Rightarrow> PolicyProhibitionRange \<Rightarrow> bool" where
  "in_range P t rg \<longleftrightarrow>
     (case rg_type rg of
        Disjunctive \<Rightarrow> (\<exists>a\<in>set (or_empty (rg_include rg)). contained P t a) \<or>
          (\<exists>a\<in>set (or_empty (rg_exclude rg)). \<not> contained P t a)
      | Conjunctive \<Rightarrow> (\<forall>a\<in>set (or_empty (rg_include rg)). contained P t a) \<and>
          (\<forall>a\<in>set (or_empty (rg_exclude rg)). \<not> contained P t a))"

definition restricted :: "PolicyState \<Rightarrow> AccessRequest \<Rightarrow> string \<Rightarrow> string list \<Rightarrow> PolicyProhibition \<Rightarrow> bool" where
  "restricted P r u rights pr \<longleftrightarrow>
     (case pr_kind pr of
        ForUser \<Rightarrow> pr_subject pr = u
      | ForProcess \<Rightarrow> rq_process r = Some (pr_subject pr)
      | ForUserAttribute \<Rightarrow> contained P u (pr_subject pr)) \<and>
     set rights \<inter> set (pr_accessRights pr) \<noteq> {} \<and> in_range P (rq_target r) (pr_range pr)"

text \<open>
  NGAC: every required right is granted under every policy class that contains the target, and no
  prohibition restricts the request.
\<close>

definition ngac_permits :: "PolicyState \<Rightarrow> AccessRequest \<Rightarrow> bool" where
  "ngac_permits P r \<longleftrightarrow> ngac_wellformed P \<and>
     (\<exists>oper u. List.find (\<lambda>e. op_id e = rq_operation r) (operations P) = Some oper \<and>
        requester P r u \<and>
        element_kind P (rq_target r) \<notin> {None, Some PolicyClass} \<and>
        (\<forall>ar\<in>set (op_accessRights oper). \<forall>pc. contained P (rq_target r) pc \<and>
           element_kind P pc = Some PolicyClass \<longrightarrow> privileged P u (rq_target r) ar pc) \<and>
        (\<forall>pr\<in>set (or_empty (prohibitions P)). \<not> restricted P r u (op_accessRights oper) pr))"

section \<open>The kernel implements the declarative decision\<close>

abbreviation element_index_of :: "PolicyState \<Rightarrow> element_index" where
  "element_index_of P \<equiv> indexElements (elements P)"

abbreviation parent_index_of :: "PolicyState \<Rightarrow> parent_index" where
  "parent_index_of P \<equiv> indexAssignmentParents (assignments P)"

definition valid_policy :: "PolicyState \<Rightarrow> bool" where
  "valid_policy P \<longleftrightarrow> validatePolicy P (element_index_of P) (parent_index_of P) = None"

lemma edges_parent_index: "edges (parent_index_of P) = assigned P"
  by (auto simp: edges_def assigned_def parents_of_indexAssignmentParents)

lemma find_eq_map_of:
  "List.find (\<lambda>e. f e = i) es = map_of (map (\<lambda>e. (f e, e)) es) i"
  by (induction es) auto

lemma kind_of_element_index:
  "distinct (map el_id (elements P)) \<Longrightarrow> kind_of (element_index_of P) i = element_kind P i"
  by (simp add: kind_of_def element_kind_def indexElements_def find_eq_map_of
      map_of_map_of_entries_distinct comp_def)

lemma length_element_index:
  "length (element_index_of P) = length (elements P) \<longleftrightarrow> distinct (map el_id (elements P))"
  using length_map_of_entries_distinct [of "map (\<lambda>e. (el_id e, e)) (elements P)"]
  by (simp add: indexElements_def comp_def)

lemma element_kind_named: "named P \<Longrightarrow> element_kind P i = Some k \<Longrightarrow> i \<noteq> ''''"
  by (auto simp: element_kind_def named_def find_Some_iff)

lemma element_kind_SomeI:
  "distinct (map el_id (elements P)) \<Longrightarrow> e \<in> set (elements P) \<Longrightarrow> element_kind P (el_id e) = Some (el_kind e)"
  by (simp add: element_kind_def find_eq_map_of comp_def) blast

lemma element_kind_SomeD:
  "element_kind P i = Some k \<Longrightarrow> \<exists>e\<in>set (elements P). el_id e = i \<and> el_kind e = k"
  by (auto simp: element_kind_def find_Some_iff)

text \<open>Every assignment joins two elements of the policy.\<close>

definition assignments_typed :: "PolicyState \<Rightarrow> bool" where
  "assignments_typed P \<longleftrightarrow> distinct (map el_id (elements P)) \<and>
     (\<forall>a\<in>set (assignments P). \<exists>c p. element_kind P (child a) = Some c \<and>
        element_kind P (parent a) = Some p \<and> isAllowedAssignment c p)"

lemma live_edges_typed:
  assumes "named P" "assignments_typed P"
  shows "live_edges (parent_index_of P) = assigned P"
proof -
  have "c \<noteq> '''' \<and> p \<noteq> ''''" if "(c, p) \<in> assigned P" for c p
    using that assms element_kind_named by (fastforce simp: assigned_def assignments_typed_def)
  moreover have "live_edges (parent_index_of P) = {(c, p) \<in> assigned P. c \<noteq> '''' \<and> p \<noteq> ''''}"
    by (auto simp: live_edges_def edges_def simp flip: edges_parent_index)
  ultimately show ?thesis by auto
qed

lemma closure_contained:
  assumes "named P" "assignments_typed P" "x \<noteq> ''''"
  shows "y \<in> set (computeContainmentClosure x (parent_index_of P)) \<longleftrightarrow> contained P x y"
  using assms by (simp add: set_computeContainmentClosure live_reach_def live_edges_typed contained_def)

lemma validateAssignment_None:
  "distinct (map el_id (elements P)) \<Longrightarrow> validateAssignment (element_index_of P) a = None \<longleftrightarrow>
     (\<exists>c p. element_kind P (child a) = Some c \<and> element_kind P (parent a) = Some p
        \<and> isAllowedAssignment c p)"
  by (auto simp: validateAssignment_def kind_of_element_index split: option.splits)

lemma validateProhibition_None:
  "distinct (map el_id (elements P)) \<Longrightarrow>
     validateProhibition pr P (element_index_of P) = None \<longleftrightarrow> prohibition_wellformed P pr"
  by (cases "pr_kind pr")
    (auto simp: validateProhibition_def prohibition_wellformed_def kind_of_element_index Let_def
      split: if_splits)

lemma validateAssociation_None:
  "distinct (map el_id (elements P)) \<Longrightarrow> validateAssociation (element_index_of P) a = None \<longleftrightarrow>
     element_kind P (as_userAttribute a) = Some UserAttribute \<and>
     isAttributeElement (element_kind P (as_targetAttribute a)) \<and> as_accessRights a \<noteq> []"
  by (auto simp: validateAssociation_def kind_of_element_index)

lemma hasAssignmentCycle_acyclic:
  assumes "assignments_typed P"
  shows "hasAssignmentCycle (elements P) (parent_index_of P) \<longleftrightarrow> \<not> acyclic (assigned P)"
proof -
  have elem: "\<exists>e\<in>set (elements P). el_id e = x" if "(x, y) \<in> assigned P" for x y
    using that assms by (fastforce dest: element_kind_SomeD simp: assignments_typed_def assigned_def)
  have "(\<exists>e\<in>set (elements P). cyclic_from (parent_index_of P) (el_id e))
      \<longleftrightarrow> (\<exists>x. (x, x) \<in> (assigned P)\<^sup>+)"
  proof
    assume "\<exists>x. (x, x) \<in> (assigned P)\<^sup>+"
    then obtain x where x: "(x, x) \<in> (assigned P)\<^sup>+" ..
    then obtain y where "(x, y) \<in> assigned P" by (metis tranclD)
    with elem obtain e where "e \<in> set (elements P)" "el_id e = x" by blast
    with x show "\<exists>e\<in>set (elements P). cyclic_from (parent_index_of P) (el_id e)"
      by (auto simp: cyclic_from_def edges_parent_index)
  qed (auto simp: cyclic_from_def edges_parent_index)
  then show ?thesis by (simp add: hasAssignmentCycle_iff acyclic_def)
qed

lemma validateConnection_None:
  assumes "named P" "assignments_typed P" "e \<in> set (elements P)"
  shows "validateConnection (element_index_of P) (parent_index_of P) e = None \<longleftrightarrow>
     (\<exists>pc. contained P (el_id e) pc \<and> element_kind P pc = Some PolicyClass)"
proof -
  have d: "distinct (map el_id (elements P))" using assms(2) by (simp add: assignments_typed_def)
  have "el_id e \<noteq> ''''" using assms(1,3) by (auto simp: named_def)
  then show ?thesis using assms element_kind_SomeI [OF d assms(3)]
    by (auto simp: validateConnection_def closure_contained kind_of_element_index [OF d])
      (auto simp: contained_def)
qed

lemma valid_policy_parts:
  "valid_policy P \<longleftrightarrow>
     distinct (map el_id (elements P)) \<and>
     (\<forall>a\<in>set (assignments P). validateAssignment (element_index_of P) a = None) \<and>
     \<not> hasAssignmentCycle (elements P) (parent_index_of P) \<and>
     (\<forall>e\<in>set (elements P). validateConnection (element_index_of P) (parent_index_of P) e = None) \<and>
     (\<forall>oper\<in>set (operations P). validateOperation oper = None) \<and>
     (\<forall>a\<in>set (associations P). validateAssociation (element_index_of P) a = None) \<and>
     (\<forall>pu\<in>set (or_empty (processUsers P)). validateProcessUser (element_index_of P) pu = None) \<and>
     (\<forall>pr\<in>set (or_empty (prohibitions P)). validateProhibition pr P (element_index_of P) = None)"
  by (simp add: valid_policy_def validatePolicy_def length_element_index)

lemma valid_policy_typed: "valid_policy P \<Longrightarrow> assignments_typed P"
  by (auto simp: valid_policy_parts assignments_typed_def validateAssignment_None)

lemma validatePolicy_iff_wellformed:
  assumes "named P"
  shows "valid_policy P \<longleftrightarrow> ngac_wellformed P"
proof (cases "assignments_typed P")
  case True
  then have d: "distinct (map el_id (elements P))" by (simp add: assignments_typed_def)
  show ?thesis
    using assms True
    by (simp add: valid_policy_parts ngac_wellformed_def d validateAssignment_None [OF d]
        validateProhibition_None [OF d] validateConnection_None hasAssignmentCycle_acyclic
        validateOperation_def validateAssociation_None [OF d] validateProcessUser_def
        kind_of_element_index [OF d])
next
  case False
  then have "\<not> valid_policy P" using valid_policy_typed by blast
  with False show ?thesis by (auto simp: ngac_wellformed_def assignments_typed_def)
qed

lemma truthy_simps [simp]:
  "truthy None = None" "truthy (Some '''') = None" "s \<noteq> '''' \<Longrightarrow> truthy (Some s) = Some s"
  by (simp_all add: truthy_def)

lemma truthy_Some_iff: "truthy x = Some s \<longleftrightarrow> x = Some s \<and> s \<noteq> ''''"
  by (auto simp: truthy_def split: option.splits if_splits)

lemma process_user_kind:
  assumes "ngac_wellformed P" "process_user P p = Some u"
  shows "element_kind P u = Some User"
  using assms by (auto simp: process_user_def ngac_wellformed_def find_Some_iff)

lemma resolveRequestUser_iff:
  assumes "named P" "ngac_wellformed P"
  shows "resolveRequestUser P r (element_index_of P) = Inr u \<longleftrightarrow> requester P r u"
proof -
  have d: "distinct (map el_id (elements P))" using assms(2) by (simp add: ngac_wellformed_def)
  have mapped: "truthy (process_user P p) = process_user P p" for p
    using process_user_kind [OF assms(2), of p] element_kind_named [OF assms(1)]
    by (cases "process_user P p") auto
  note defs = resolveRequestUser_def requester_def process_user_def [symmetric] Let_def
    kind_of_element_index [OF d] mapped
  show ?thesis
  proof (cases "rq_user r")
    case None
    then show ?thesis
      using element_kind_named [OF assms(1)]
      by (cases "truthy (rq_process r)")
        (auto simp: defs split: option.splits if_splits)
  next
    case (Some u')
    show ?thesis
    proof (cases "u' = ''''")
      case True
      with Some show ?thesis using element_kind_named [OF assms(1)]
        by (auto simp: defs)
    next
      case False
      with Some show ?thesis
        by (cases "truthy (rq_process r)") (auto simp: defs split: option.splits)
    qed
  qed
qed

lemma search_classes_spec:
  "snd (search_classes f ar pcs m) = None \<longleftrightarrow> (\<forall>pc\<in>set pcs. f ar pc \<noteq> None)"
  "snd (search_classes f ar pcs m) = None \<Longrightarrow>
     set (fst (search_classes f ar pcs m)) = set m \<union> {as_id a | a. \<exists>pc\<in>set pcs. f ar pc = Some a}"
  by (induction f ar pcs m rule: search_classes.induct) (auto split: option.splits)

lemma search_rights_missing:
  "snd (search_rights f pcs ars m) = None \<longleftrightarrow> (\<forall>ar\<in>set ars. \<forall>pc\<in>set pcs. f ar pc \<noteq> None)"
proof (induction f pcs ars m rule: search_rights.induct)
  case (2 f pcs ar ars m)
  obtain m' missing where m': "search_classes f ar pcs m = (m', missing)" by fastforce
  with search_classes_spec(1) [of f ar pcs m] "2.IH" [OF m' [symmetric]]
  show ?case by (cases missing) auto
qed simp

lemma search_rights_matched:
  "snd (search_rights f pcs ars m) = None \<Longrightarrow>
     set (fst (search_rights f pcs ars m)) =
       set m \<union> {as_id a | a. \<exists>ar\<in>set ars. \<exists>pc\<in>set pcs. f ar pc = Some a}"
proof (induction f pcs ars m rule: search_rights.induct)
  case (2 f pcs ar ars m)
  obtain m' where m': "search_classes f ar pcs m = (m', None)"
    and rest: "snd (search_rights f pcs ars m') = None"
    using "2.prems" by (auto split: prod.splits option.splits)
  from search_classes_spec(2) [of f ar pcs m] m'
  have "set m' = set m \<union> {as_id a | a. \<exists>pc\<in>set pcs. f ar pc = Some a}" by simp
  with "2.IH" [OF m' [symmetric] refl rest] m' show ?case by auto
qed simp

lemma matchesRestriction_iff:
  assumes "named P" "assignments_typed P" "u \<noteq> ''''" "rq_target r \<noteq> ''''"
  shows "matchesRestriction pr r u (computeContainmentClosure u (parent_index_of P)) (rq_target r) rights
           (parent_index_of P) \<longleftrightarrow> restricted P r u rights pr"
  using assms
  by (cases "pr_kind pr"; cases "rg_type (pr_range pr)")
    (auto simp: matchesRestriction_def restricted_def targetInRange_def in_range_def Let_def
      closure_contained)

lemma grantsAccessRight_iff:
  assumes "named P" "ngac_wellformed P" "a \<in> set (associations P)" "u \<noteq> ''''" "t \<noteq> ''''"
  shows "grantsAccessRight a ar pc (computeContainmentClosure u (parent_index_of P))
           (computeContainmentClosure t (parent_index_of P)) (parent_index_of P) \<longleftrightarrow>
     contained P u (as_userAttribute a) \<and> contained P t (as_targetAttribute a) \<and>
     contained P (as_targetAttribute a) pc \<and> ar \<in> set (as_accessRights a)"
proof -
  have typed: "assignments_typed P" using assms(2) by (simp add: ngac_wellformed_def assignments_typed_def)
  have "as_targetAttribute a \<noteq> ''''"
    using assms element_kind_named [OF assms(1)]
    by (fastforce simp: ngac_wellformed_def isAttributeElement_def)
  then show ?thesis using assms typed by (simp add: grantsAccessRight_def closure_contained)
qed

lemma decide_request_allow:
  assumes "named P" "ngac_wellformed P" "u \<noteq> ''''" "rq_target r \<noteq> ''''"
  shows "effect (decide_request P r oper u) = Allow \<longleftrightarrow>
     (\<forall>ar\<in>set (op_accessRights oper). \<forall>pc. contained P (rq_target r) pc \<and>
        element_kind P pc = Some PolicyClass \<longrightarrow> privileged P u (rq_target r) ar pc) \<and>
     (\<forall>pr\<in>set (or_empty (prohibitions P)). \<not> restricted P r u (op_accessRights oper) pr)"
    (is "_ \<longleftrightarrow> ?granted \<and> ?free")
proof -
  have typed: "assignments_typed P" and d: "distinct (map el_id (elements P))"
    using assms(2) by (simp_all add: ngac_wellformed_def assignments_typed_def)
  let ?uc = "computeContainmentClosure u (parent_index_of P)"
  let ?tc = "computeContainmentClosure (rq_target r) (parent_index_of P)"
  let ?pcs = "filter (\<lambda>i. kind_of (element_index_of P) i = Some PolicyClass) ?tc"
  let ?f = "\<lambda>ar pc. List.find (\<lambda>a. grantsAccessRight a ar pc ?uc ?tc (parent_index_of P)) (associations P)"
  let ?proh = "filter (\<lambda>pr. matchesRestriction pr r u ?uc (rq_target r) (op_accessRights oper)
     (parent_index_of P)) (or_empty (prohibitions P))"
  have find: "?f ar pc \<noteq> None \<longleftrightarrow> privileged P u (rq_target r) ar pc" for ar pc
    using assms by (auto simp: find_None_iff privileged_def grantsAccessRight_iff)
  have "pc \<in> set ?pcs \<longleftrightarrow> contained P (rq_target r) pc \<and> element_kind P pc = Some PolicyClass" for pc
    using assms typed by (simp add: closure_contained kind_of_element_index [OF d])
  then have granted: "snd (search_rights ?f ?pcs (op_accessRights oper) []) = None \<longleftrightarrow> ?granted"
    by (simp add: search_rights_missing find del: not_None_eq)
  have free: "?proh = [] \<longleftrightarrow> ?free"
    using assms typed by (simp add: filter_empty_conv matchesRestriction_iff)
  have "effect (decide_request P r oper u) = Allow \<longleftrightarrow>
      ?proh = [] \<and> snd (search_rights ?f ?pcs (op_accessRights oper) []) = None"
    by (simp add: decide_request_def Let_def deny_def split: prod.splits list.splits option.splits)
  then show ?thesis unfolding granted free by blast
qed

lemma evaluateAccess_allow_iff:
  assumes "named P"
  shows "effect (evaluateAccess P r) = Allow \<longleftrightarrow> ngac_permits P r"
proof (cases "valid_policy P")
  case False
  then show ?thesis
    using validatePolicy_iff_wellformed [OF assms]
    by (auto simp: evaluateAccess_def valid_policy_def ngac_permits_def Let_def deny_def)
next
  case True
  then have wf: "ngac_wellformed P" and d: "distinct (map el_id (elements P))"
    using validatePolicy_iff_wellformed [OF assms] by (auto simp: ngac_wellformed_def)
  show ?thesis
  proof (cases "List.find (\<lambda>e. op_id e = rq_operation r) (operations P)")
    case None
    with True show ?thesis
      by (simp add: evaluateAccess_def valid_policy_def ngac_permits_def Let_def deny_def)
  next
    case (Some oper)
    show ?thesis
    proof (cases "resolveRequestUser P r (element_index_of P)")
      case (Inl e)
      then have "\<not> requester P r u" for u
        using resolveRequestUser_iff [OF assms wf, of r u] by simp
      with True Some Inl show ?thesis
        by (simp add: evaluateAccess_def valid_policy_def ngac_permits_def Let_def deny_def)
    next
      case (Inr u)
      then have u: "requester P r u'  \<longleftrightarrow> u' = u" for u'
        by (metis resolveRequestUser_iff [OF assms wf] Inr_inject)
      then have "u \<noteq> ''''" using element_kind_named [OF assms] by (auto simp: requester_def)
      show ?thesis
      proof (cases "element_kind P (rq_target r) \<in> {None, Some PolicyClass}")
        case target: True
        with True Some Inr u show ?thesis
          by (auto simp: evaluateAccess_def valid_policy_def ngac_permits_def Let_def deny_def
              kind_of_element_index [OF d])
      next
        case False
        then obtain k where k: "element_kind P (rq_target r) = Some k" "k \<noteq> PolicyClass" by auto
        then have "rq_target r \<noteq> ''''" using element_kind_named [OF assms] by auto
        with True Some Inr u k \<open>u \<noteq> ''''\<close> show ?thesis
          by (simp add: evaluateAccess_def valid_policy_def ngac_permits_def Let_def wf
              kind_of_element_index [OF d] decide_request_allow [OF assms wf])
      qed
    qed
  qed
qed

section \<open>What the kernel promises to its callers\<close>

text \<open>
  The contract of an access evaluator and its consequences for a caller: adding prohibitions never
  adds access, adding associations to a policy that stays well formed never removes it, and a
  policy of one user domain and one resource domain under one class decides by its association.
\<close>

definition add_prohibitions :: "PolicyProhibition list \<Rightarrow> PolicyState \<Rightarrow> PolicyState" where
  "add_prohibitions prs P = P\<lparr>prohibitions := Some (or_empty (prohibitions P) @ prs)\<rparr>"

definition add_associations :: "PolicyAssociation list \<Rightarrow> PolicyState \<Rightarrow> PolicyState" where
  "add_associations as P = P\<lparr>associations := associations P @ as\<rparr>"

lemma add_prohibitions_fields [simp]:
  "elements (add_prohibitions prs P) = elements P"
  "assignments (add_prohibitions prs P) = assignments P"
  "operations (add_prohibitions prs P) = operations P"
  "processUsers (add_prohibitions prs P) = processUsers P"
  "associations (add_prohibitions prs P) = associations P"
  by (simp_all add: add_prohibitions_def)

lemma add_prohibitions_frame_graph [simp]:
  "element_kind (add_prohibitions prs P) = element_kind P"
  "assigned (add_prohibitions prs P) = assigned P"
  "named (add_prohibitions prs P) = named P"
  "process_user (add_prohibitions prs P) = process_user P"
  by (simp_all add: fun_eq_iff element_kind_def assigned_def named_def process_user_def)

lemma add_prohibitions_frame_contained [simp]:
  "contained (add_prohibitions prs P) = contained P"
  "requester (add_prohibitions prs P) = requester P"
  "in_range (add_prohibitions prs P) = in_range P"
  "restricted (add_prohibitions prs P) = restricted P"
proof -
  show c: "contained (add_prohibitions prs P) = contained P"
    by (simp add: fun_eq_iff contained_def)
  show "requester (add_prohibitions prs P) = requester P"
    unfolding fun_eq_iff requester_def add_prohibitions_frame_graph by simp
  show r: "in_range (add_prohibitions prs P) = in_range P"
    unfolding fun_eq_iff in_range_def c by simp
  show "restricted (add_prohibitions prs P) = restricted P"
    unfolding fun_eq_iff restricted_def c r by simp
qed

lemma add_prohibitions_frame [simp]:
  "privileged (add_prohibitions prs P) = privileged P"
  "prohibition_wellformed (add_prohibitions prs P) = prohibition_wellformed P"
  unfolding fun_eq_iff privileged_def prohibition_wellformed_def add_prohibitions_frame_graph
    add_prohibitions_frame_contained add_prohibitions_fields
  by simp_all

lemma prohibitions_add_prohibitions [simp]:
  "prohibitions (add_prohibitions prs P) = Some (or_empty (prohibitions P) @ prs)"
  by (simp add: add_prohibitions_def)

lemma add_associations_fields [simp]:
  "elements (add_associations as P) = elements P"
  "assignments (add_associations as P) = assignments P"
  "operations (add_associations as P) = operations P"
  "processUsers (add_associations as P) = processUsers P"
  "prohibitions (add_associations as P) = prohibitions P"
  by (simp_all add: add_associations_def)

lemma add_associations_frame_graph [simp]:
  "element_kind (add_associations as P) = element_kind P"
  "assigned (add_associations as P) = assigned P"
  "named (add_associations as P) = named P"
  "process_user (add_associations as P) = process_user P"
  by (simp_all add: fun_eq_iff element_kind_def assigned_def named_def process_user_def)

lemma add_associations_frame_contained [simp]:
  "contained (add_associations as P) = contained P"
  "requester (add_associations as P) = requester P"
  "in_range (add_associations as P) = in_range P"
  "restricted (add_associations as P) = restricted P"
proof -
  show c: "contained (add_associations as P) = contained P"
    by (simp add: fun_eq_iff contained_def)
  show "requester (add_associations as P) = requester P"
    unfolding fun_eq_iff requester_def add_associations_frame_graph by simp
  show r: "in_range (add_associations as P) = in_range P"
    unfolding fun_eq_iff in_range_def c by simp
  show "restricted (add_associations as P) = restricted P"
    unfolding fun_eq_iff restricted_def c r by simp
qed

lemma associations_add_associations [simp]:
  "associations (add_associations as P) = associations P @ as"
  by (simp add: add_associations_def)

lemma privileged_add_associations: "privileged P u t ar pc \<Longrightarrow> privileged (add_associations as P) u t ar pc"
  by (auto simp: privileged_def)

lemma ngac_permits_add_prohibitions: "ngac_permits (add_prohibitions prs P) r \<Longrightarrow> ngac_permits P r"
  by (auto simp: ngac_permits_def ngac_wellformed_def) blast

lemma ngac_permits_add_associations:
  "ngac_permits P r \<Longrightarrow> ngac_wellformed (add_associations as P) \<Longrightarrow> ngac_permits (add_associations as P) r"
  unfolding ngac_permits_def
  by auto (blast intro: privileged_add_associations)

locale access_kernel =
  fixes eval :: "PolicyState \<Rightarrow> AccessRequest \<Rightarrow> PolicyDecision"
  assumes eval_iff: "named P \<Longrightarrow> effect (eval P r) = Allow \<longleftrightarrow> ngac_permits P r"
begin

lemma prohibitions_only_restrict:
  "named P \<Longrightarrow> effect (eval (add_prohibitions prs P) r) = Allow \<Longrightarrow> effect (eval P r) = Allow"
  by (simp add: eval_iff ngac_permits_add_prohibitions)

lemma associations_only_grant:
  "named P \<Longrightarrow> ngac_wellformed (add_associations as P) \<Longrightarrow> effect (eval P r) = Allow \<Longrightarrow>
     effect (eval (add_associations as P) r) = Allow"
  by (simp add: eval_iff ngac_permits_add_associations)

lemma ill_formed_denied: "named P \<Longrightarrow> \<not> ngac_wellformed P \<Longrightarrow> effect (eval P r) = Deny"
  using eval_iff [of P r] by (cases "effect (eval P r)") (auto simp: ngac_permits_def)

end

interpretation kernel: access_kernel evaluateAccess
  by unfold_locales (rule evaluateAccess_allow_iff)

section \<open>Decisions and their explanations\<close>

lemma decide_request_reasons:
  "\<exists>reason. reasons (decide_request P r oper u) = [reason] \<and>
     (effect (decide_request P r oper u) = Allow \<longleftrightarrow> (\<exists>a. reason = AssociationGrant a))"
  by (simp add: decide_request_def Let_def deny_def split: prod.splits list.splits option.splits)

lemma evaluateAccess_cases:
  obtains (refused) reason tr where "evaluateAccess P r = deny [reason] tr"
      "\<forall>a. reason \<noteq> AssociationGrant a"
  | (decided) oper u k where "valid_policy P"
      "List.find (\<lambda>e. op_id e = rq_operation r) (operations P) = Some oper"
      "resolveRequestUser P r (element_index_of P) = Inr u"
      "kind_of (element_index_of P) (rq_target r) = Some k" "k \<noteq> PolicyClass"
      "evaluateAccess P r = decide_request P r oper u"
  by (cases "validatePolicy P (element_index_of P) (parent_index_of P)";
      cases "List.find (\<lambda>e. op_id e = rq_operation r) (operations P)";
      cases "resolveRequestUser P r (element_index_of P)";
      cases "kind_of (element_index_of P) (rq_target r)";
      cases "kind_of (element_index_of P) (rq_target r) = Some PolicyClass")
    (auto simp: evaluateAccess_def Let_def valid_policy_def split: if_splits)

lemma target_class_exists:
  assumes "valid_policy P" "kind_of (element_index_of P) t = Some k" "k \<noteq> PolicyClass"
  shows "\<exists>pc\<in>set (computeContainmentClosure t (parent_index_of P)).
           kind_of (element_index_of P) pc = Some PolicyClass"
proof -
  have d: "distinct (map el_id (elements P))" using assms(1) by (simp add: valid_policy_parts)
  from assms(2) obtain e where e: "e \<in> set (elements P)" "el_id e = t" "el_kind e = k"
    using element_kind_SomeD [of P t k] by (auto simp: kind_of_element_index [OF d])
  with assms(1) have "validateConnection (element_index_of P) (parent_index_of P) e = None"
    by (simp add: valid_policy_parts)
  with e assms(3) show ?thesis by (auto simp: validateConnection_def split: if_splits)
qed

lemma decide_request_allow_names_association:
  assumes "valid_policy P" "oper \<in> set (operations P)"
    and "kind_of (element_index_of P) (rq_target r) = Some k" "k \<noteq> PolicyClass"
    and "effect (decide_request P r oper u) = Allow"
  shows "\<exists>a\<in>set (associations P). let d = decide_request P r oper u in
     reasons d = [AssociationGrant (as_id a)] \<and> as_userAttribute a \<in> set (userClosure (trace d)) \<and>
     as_targetAttribute a \<in> set (targetClosure (trace d)) \<and>
     set (requiredAccessRights (trace d)) \<inter> set (as_accessRights a) \<noteq> {}"
proof -
  let ?uc = "computeContainmentClosure u (parent_index_of P)"
  let ?tc = "computeContainmentClosure (rq_target r) (parent_index_of P)"
  let ?pcs = "filter (\<lambda>i. kind_of (element_index_of P) i = Some PolicyClass) ?tc"
  let ?f = "\<lambda>ar pc. List.find (\<lambda>a. grantsAccessRight a ar pc ?uc ?tc (parent_index_of P)) (associations P)"
  obtain m missing where s: "search_rights ?f ?pcs (op_accessRights oper) [] = (m, missing)"
    by fastforce
  then have none: "missing = None" using assms(5)
    by (auto simp: decide_request_def Let_def deny_def split: list.splits option.splits)
  have sm: "set m = {as_id a | a. \<exists>ar\<in>set (op_accessRights oper). \<exists>pc\<in>set ?pcs. ?f ar pc = Some a}"
    using search_rights_matched [of ?f ?pcs "op_accessRights oper" "[]"] s none by simp
  have "op_accessRights oper \<noteq> []"
    using assms(1,2) by (auto simp: valid_policy_parts validateOperation_def split: if_splits)
  then obtain ar where ar: "ar \<in> set (op_accessRights oper)" by (cases "op_accessRights oper") auto
  obtain pc where pc: "pc \<in> set ?pcs" using target_class_exists [OF assms(1,3,4)] by auto
  have "?f ar pc \<noteq> None"
    using search_rights_missing [of ?f ?pcs "op_accessRights oper" "[]"] s none ar pc by simp
  with sm ar pc have "m \<noteq> []" by fastforce
  then obtain i ms where m: "m = i # ms" by (cases m) auto
  then have "i \<in> set m" by simp
  then obtain a ar' pc' where a: "i = as_id a" "ar' \<in> set (op_accessRights oper)"
    "?f ar' pc' = Some a" unfolding sm by auto
  then have "a \<in> set (associations P)" "grantsAccessRight a ar' pc' ?uc ?tc (parent_index_of P)"
    by (auto simp: find_Some_iff)
  with a m s none assms(5) show ?thesis
    by (intro bexI [of _ a])
      (auto simp: decide_request_def Let_def deny_def grantsAccessRight_def emptyTrace_def
        split: list.splits)
qed

lemma evaluateAccess_reason:
  "\<exists>reason. reasons (evaluateAccess P r) = [reason] \<and>
     (effect (evaluateAccess P r) = Allow \<longleftrightarrow> (\<exists>a. reason = AssociationGrant a))"
  by (cases rule: evaluateAccess_cases [of P r]) (simp_all add: deny_def decide_request_reasons)

lemma evaluateAccess_allow_association:
  assumes "effect (evaluateAccess P r) = Allow"
  shows "\<exists>a\<in>set (associations P). let d = evaluateAccess P r in
     reasons d = [AssociationGrant (as_id a)] \<and> as_userAttribute a \<in> set (userClosure (trace d)) \<and>
     as_targetAttribute a \<in> set (targetClosure (trace d)) \<and>
     set (requiredAccessRights (trace d)) \<inter> set (as_accessRights a) \<noteq> {}"
proof (cases rule: evaluateAccess_cases [of P r])
  case (refused reason tr)
  with assms show ?thesis by (simp add: deny_def)
next
  case (decided oper u k)
  then have "oper \<in> set (operations P)" by (auto simp: find_Some_iff)
  with decided assms show ?thesis using decide_request_allow_names_association by simp
qed

section \<open>Properties\<close>

text \<open>A policy with one staff attribute, one document container and one class, and two requests.\<close>

definition example_policy :: PolicyState where
  "example_policy = \<lparr>
     elements = [\<lparr>el_id = ''alice'', el_kind = User\<rparr>, \<lparr>el_id = ''staff'', el_kind = UserAttribute\<rparr>,
       \<lparr>el_id = ''memo'', el_kind = Object\<rparr>, \<lparr>el_id = ''docs'', el_kind = ObjectAttribute\<rparr>,
       \<lparr>el_id = ''office'', el_kind = PolicyClass\<rparr>],
     assignments = [\<lparr>child = ''alice'', parent = ''staff''\<rparr>, \<lparr>child = ''staff'', parent = ''office''\<rparr>,
       \<lparr>child = ''memo'', parent = ''docs''\<rparr>, \<lparr>child = ''docs'', parent = ''office''\<rparr>],
     operations = [\<lparr>op_id = ''read'', op_accessRights = [''r'']\<rparr>],
     processUsers = Some [\<lparr>pu_process = ''p1'', pu_user = ''alice''\<rparr>],
     associations = [\<lparr>as_id = ''a1'', as_userAttribute = ''staff'', as_accessRights = [''r''],
       as_targetAttribute = ''docs''\<rparr>],
     prohibitions = None\<rparr>"

definition example_request :: AccessRequest where
  "example_request = \<lparr>rq_user = None, rq_process = Some ''p1'', rq_operation = ''read'', rq_target = ''memo''\<rparr>"

definition example_prohibition :: PolicyProhibition where
  "example_prohibition = \<lparr>pr_id = ''n1'', pr_kind = ForProcess, pr_subject = ''p2'',
     pr_accessRights = [''r''],
     pr_range = \<lparr>rg_type = Disjunctive, rg_include = Some [''docs''], rg_exclude = None\<rparr>\<rparr>"

definition example_association :: PolicyAssociation where
  "example_association = \<lparr>as_id = ''a2'', as_userAttribute = ''staff'', as_accessRights = [''w''],
     as_targetAttribute = ''docs''\<rparr>"

lemma named_example: "named example_policy"
  by (simp add: named_def example_policy_def)

lemma example_allowed: "effect (evaluateAccess example_policy example_request) = Allow"
  by code_simp

text \<open>C1: an access is allowed exactly when the declarative NGAC decision permits it: the policy is
  well formed, the operation is declared, the request resolves to one user, the target is a
  protected element, every required right is granted under every policy class containing the
  target, and no prohibition restricts the request.\<close>

theorem kernel_refines_ngac:
  "named P \<Longrightarrow> effect (evaluateAccess P r) = Allow \<longleftrightarrow> ngac_permits P r"
  by (rule evaluateAccess_allow_iff)

theorem kernel_refines_ngac_witness:
  "named example_policy \<and> effect (evaluateAccess example_policy example_request) = Allow \<and>
     ngac_permits example_policy example_request"
  using kernel_refines_ngac [OF named_example, of example_request] named_example example_allowed
  by simp

text \<open>C23: validation accepts exactly the well-formed policies: unique identifiers, legal assignments,
  an acyclic assignment relation, every element under a policy class, non-empty operations,
  typed associations, mapped users and well-formed prohibitions.\<close>

theorem kernel_validation_exact:
  "named P \<Longrightarrow> validatePolicy P (indexElements (elements P)) (indexAssignmentParents (assignments P)) = None
     \<longleftrightarrow> ngac_wellformed P"
  using validatePolicy_iff_wellformed [of P] by (simp add: valid_policy_def)

theorem kernel_validation_exact_witness:
  "named example_policy \<and> ngac_wellformed example_policy"
proof -
  have "validatePolicy example_policy (indexElements (elements example_policy))
      (indexAssignmentParents (assignments example_policy)) = None" by code_simp
  with kernel_validation_exact [OF named_example] named_example show ?thesis by simp
qed

text \<open>C30: from a start with a non-empty identifier, along assignments to non-empty identifiers, the worklist closure
  lists, without repetition, exactly the start and every identifier reachable from it by assignments.\<close>

theorem kernel_closure_reachability:
  assumes "s \<noteq> ''''" "\<forall>c. '''' \<notin> set (parents_of idx c)"
  shows "distinct (computeContainmentClosure s idx) \<and> s \<in> set (computeContainmentClosure s idx)
    \<and> set (computeContainmentClosure s idx) = {x. (s, x) \<in> (edges idx)\<^sup>*}"
proof -
  have live: "(s, y) \<in> (live_edges idx)\<^sup>* \<and> y \<noteq> ''''" if "(s, y) \<in> (edges idx)\<^sup>*" for y
    using that
  proof (induction rule: rtrancl_induct)
    case (step y z)
    then have "(y, z) \<in> live_edges idx" "z \<noteq> ''''" using assms(2) by (auto simp: live_edges_def edges_def)
    then show ?case using step.IH by (auto intro: rtrancl_into_rtrancl)
  qed (use assms(1) in simp)
  have "live_edges idx \<subseteq> edges idx" by (auto simp: live_edges_def edges_def)
  from rtrancl_mono [OF this] live have "{x. (s, x) \<in> (edges idx)\<^sup>*} = live_reach idx s"
    using assms(1) by (auto simp: live_reach_def)
  then show ?thesis using live_reach_refl [OF assms(1)] by (simp add: distinct_computeContainmentClosure set_computeContainmentClosure)
qed

definition example_index :: parent_index where
  "example_index = [(''a'', [''b'']), (''b'', [''c'', ''a''])]"

theorem kernel_closure_reachability_witness: "{x. (''a'', x) \<in> (edges example_index)\<^sup>*} = {''a'', ''b'', ''c''}"
proof -
  have "'''' \<notin> set (parents_of example_index c)" for c by (simp add: parents_of_def example_index_def or_empty_def)
  moreover have "set (computeContainmentClosure ''a'' example_index) = {''a'', ''b'', ''c''}" by code_simp
  ultimately show ?thesis using kernel_closure_reachability [of "''a''" example_index] by simp
qed

text \<open>The empty identifier is skipped even as the start, although the comment of the function promises the start element.\<close>

lemma closure_of_empty: "computeContainmentClosure '''' idx = []"
  using set_computeContainmentClosure [of "''''" idx] by (simp add: live_reach_def)

text \<open>the depth-first search reports a cycle exactly when some element reaches an identifier that
  is assigned, in one or more steps, to itself.\<close>

theorem kernel_cycle_detection_exact:
  "hasAssignmentCycle es idx \<longleftrightarrow>
     (\<exists>e\<in>set es. \<exists>x. (el_id e, x) \<in> (edges idx)\<^sup>* \<and> (x, x) \<in> (edges idx)\<^sup>+)"
  by (simp add: hasAssignmentCycle_iff cyclic_from_def)

text \<open>an allow decision always carries one reason, which names an association of the policy whose
  user attribute contains the user, whose target attribute contains the target and which
  allocates a required right; the empty default identifier is never reported.\<close>

theorem kernel_allow_names_association:
  "effect (evaluateAccess P r) = Allow \<Longrightarrow>
   \<exists>a\<in>set (associations P). let d = evaluateAccess P r in
     reasons d = [AssociationGrant (as_id a)] \<and> as_userAttribute a \<in> set (userClosure (trace d)) \<and>
     as_targetAttribute a \<in> set (targetClosure (trace d)) \<and>
     set (requiredAccessRights (trace d)) \<inter> set (as_accessRights a) \<noteq> {}"
  by (rule evaluateAccess_allow_association)

theorem kernel_allow_names_association_witness:
  "\<exists>a\<in>set (associations example_policy). reasons (evaluateAccess example_policy example_request)
     = [AssociationGrant (as_id a)]"
  using kernel_allow_names_association [OF example_allowed] by (auto simp: Let_def)

text \<open>adding prohibitions to a policy never turns a denied request into an allowed one.\<close>

theorem kernel_prohibitions_only_restrict:
  "named P \<Longrightarrow> effect (evaluateAccess (add_prohibitions prs P) r) = Allow \<Longrightarrow>
     effect (evaluateAccess P r) = Allow"
  by (rule kernel.prohibitions_only_restrict)

theorem kernel_prohibitions_only_restrict_witness:
  "effect (evaluateAccess (example_policy\<lparr>processUsers := Some [\<lparr>pu_process = ''p1'', pu_user = ''alice''\<rparr>,
      \<lparr>pu_process = ''p2'', pu_user = ''alice''\<rparr>]\<rparr>) example_request) = Allow"
proof -
  let ?P = "example_policy\<lparr>processUsers := Some [\<lparr>pu_process = ''p1'', pu_user = ''alice''\<rparr>,
      \<lparr>pu_process = ''p2'', pu_user = ''alice''\<rparr>]\<rparr>"
  have n: "named ?P" using named_example by (simp add: named_def)
  have "effect (evaluateAccess (add_prohibitions [example_prohibition] ?P) example_request) = Allow"
    by code_simp
  from kernel_prohibitions_only_restrict [OF n this] show ?thesis .
qed

text \<open>adding associations to a policy that stays well formed never turns an allowed request into a
  denied one.\<close>

theorem kernel_associations_only_grant:
  "named P \<Longrightarrow> ngac_wellformed (add_associations as P) \<Longrightarrow> effect (evaluateAccess P r) = Allow \<Longrightarrow>
     effect (evaluateAccess (add_associations as P) r) = Allow"
  by (rule kernel.associations_only_grant)

theorem kernel_associations_only_grant_witness:
  "effect (evaluateAccess (add_associations [example_association] example_policy) example_request) = Allow"
proof -
  have "valid_policy (add_associations [example_association] example_policy)" by code_simp
  then have "ngac_wellformed (add_associations [example_association] example_policy)"
    using validatePolicy_iff_wellformed [of "add_associations [example_association] example_policy"]
      named_example by simp
  from kernel_associations_only_grant [OF named_example this example_allowed] show ?thesis .
qed

end
