(* ===== verification/Policy_Statements.thy ===== *)
theory Policy_Statements
  imports Policy_Document Policy_Kernel
begin

text \<open>
  Admission and selection of Policy statements (\<^verbatim>\<open>apps/nanocore/src/policy/statements.ts\<close>).

  \<open>Platform\<close> collects what the code takes from elsewhere: the hash function of \<^verbatim>\<open>node:crypto\<close>, the
  platform's URL parser, and the operation registry of \<^verbatim>\<open>@openkit/app-api-schemas\<close>, a table the
  operations are looked up in, so every statement below holds for any registry. A content digest is
  the hash of the canonical JSON text; the JSON forms of the model have no undefined member and no
  non-finite number, so encoding them never throws (\<open>plainJson_encodes\<close>).

  The responsibility chain of agents is walked by recursion with the set of agents seen, as in the
  source; the walk of the input disclosure has no such set in the source, and is given the number of
  agents as fuel, which \<open>policy_validation_terminates\<close> shows to be enough.
\<close>

subsection \<open>The platform and the registry\<close>

datatype ParticipantKind = DeterministicKind | AgentKind

record OperationPoints =
  op_stages :: "PolicyStageV1 list"
  op_modes :: "PolicyModeV1 list"
  op_participantKinds :: "ParticipantKind list"
  op_gateResults :: "GateDecision list"
  op_gateFailures :: "PolicyFailureV1 list"

record RegisteredOperation =
  ro_policyOperation :: string
  ro_points :: "OperationPoints option"

record Platform =
  pf_sha256 :: "string \<Rightarrow> string"
  pf_parseUrl :: "string \<Rightarrow> UrlParts option"
  pf_registry :: "(string \<times> RegisteredOperation) list"

definition PRODUCT_OPERATION_ACCESS_RIGHTS :: "(string \<times> string) list" where
  "PRODUCT_OPERATION_ACCESS_RIGHTS =
    [(''api.call'', ''ar:core-api-call''),
     (''administration.configuration.apply'', ''ar:worker-git-read-maintenance-apply''),
     (''approval.respond'', ''ar:approval-respond''),
     (''artifact.read'', ''ar:artifact-read''),
     (''artifact.write'', ''ar:artifact-write''),
     (''audit.read'', ''ar:audit-read''),
     (''deployment.recover'', ''ar:deployment-recover''),
     (''invitation.respond'', ''ar:invitation-respond''),
     (''knowledge.propose'', ''ar:knowledge-propose''),
     (''knowledge.read'', ''ar:knowledge-read''),
     (''knowledge.write'', ''ar:knowledge-write''),
     (''llm.gateway.use'', ''ar:llm-gateway-use''),
     (''membership.manage'', ''ar:membership-manage''),
     (''network.egress'', ''ar:network-egress''),
     (''review.apply'', ''ar:review-apply''),
     (''runtime.launch'', ''ar:runtime-launch''),
     (''thread.read'', ''ar:thread-read''),
     (''tool.grant'', ''ar:tool-grant''),
     (''tool.use'', ''ar:tool-use''),
     (''turn.run'', ''ar:turn-run''),
     (''vault.admin'', ''ar:vault-admin''),
     (''vault.use'', ''ar:vault-use''),
     (''workspace.configure'', ''ar:workspace-configure''),
     (''workspace.export'', ''ar:workspace-export''),
     (''workspace.leave'', ''ar:workspace-leave''),
     (''workspace.lifecycle'', ''ar:workspace-lifecycle''),
     (''workspace.read'', ''ar:workspace-read''),
     (''workspace.write'', ''ar:workspace-write'')]"

record PolicyProposal =
  pq_operation :: string
  pq_workspaceId :: "string option"
  pq_resource :: PolicyResourceV1
  pq_inputReferences :: "(string \<times> string option) list"
  pq_inputAttributes :: "(string \<times> JsValue) list"
  pq_capabilityCallId :: "string option"
  pq_subject :: PolicySubjectV1

definition policyOperationDefinition :: "Platform \<Rightarrow> string \<Rightarrow> (string \<times> OperationPoints) result" where
  "policyOperationDefinition pf operation =
    (case map_of (pf_registry pf) operation of
       None \<Rightarrow> Inl ''Policy operation is unavailable.''
     | Some registered \<Rightarrow>
         (case ro_points registered of
            None \<Rightarrow> Inl ''Policy insertion points are unavailable.''
          | Some points \<Rightarrow> Inr (ro_policyOperation registered, points)))"

subsection \<open>Resources and digests\<close>

fun policyResourceWorkspace :: "PolicyResourceV1 \<Rightarrow> string option" where
  "policyResourceWorkspace (McpTool ws server tool) = Some ws"
| "policyResourceWorkspace (ContainerResource c) =
    (case pc_owner c of
       OwnerWorkspace ws \<Rightarrow> if pc_kind c = ''workspace'' \<and> pc_id c = ws then Some ws else None
     | _ \<Rightarrow> None)"

fun policyResourceUser :: "PolicyResourceV1 \<Rightarrow> string option" where
  "policyResourceUser (McpTool ws server tool) = None"
| "policyResourceUser (ContainerResource c) =
    (case pc_owner c of
       OwnerUser u \<Rightarrow> if pc_kind c = ''user'' \<and> pc_id c = u then Some u else None
     | _ \<Rightarrow> None)"

definition policyDigest :: "Platform \<Rightarrow> JsValue \<Rightarrow> string" where
  "policyDigest pf v =
    (case canonicalIdentifierName v of
       Inr name \<Rightarrow> ''sha256:'' @ pf_sha256 pf name
     | Inl thrown \<Rightarrow> thrown)"

definition subjectJson :: "PolicySubjectV1 \<Rightarrow> JsValue" where
  "subjectJson s =
    JObj [(''principal'', principalJson (sj_principal s)), (''onBehalfOf'', nullJson JStr (sj_onBehalfOf s)),
          (''actor'', actorJson (sj_actor s)), (''process'', nullJson processJson (sj_process s)),
          (''credentialKind'', JStr (credentialText (sj_credentialKind s))),
          (''responsibleHumanId'', JStr (sj_responsibleHumanId s))]"

definition policyProposalDigest :: "Platform \<Rightarrow> PolicyProposal \<Rightarrow> string" where
  "policyProposalDigest pf proposal =
    policyDigest pf (JObj
      [(''operation'', JStr (pq_operation proposal)), (''workspaceId'', nullJson JStr (pq_workspaceId proposal)),
       (''resource'', resourceJson (pq_resource proposal)),
       (''inputReferences'', JObj (map (\<lambda>(k, v). (k, nullJson JStr v)) (pq_inputReferences proposal))),
       (''inputAttributes'', JObj (pq_inputAttributes proposal)),
       (''subject'', subjectJson (pq_subject proposal))])"

definition policyScopeContains :: "Platform \<Rightarrow> PolicyScopeV1 \<Rightarrow> PolicyScopeV1 \<Rightarrow> bool" where
  "policyScopeContains pf scope disclosure =
    (let within = (\<lambda>admitted disclosed. list_all (\<lambda>v. policyDigest pf v \<in> policyDigest pf ` set admitted) disclosed)
     in within (map principalJson (ps_subjects scope)) (map principalJson (ps_subjects disclosure))
        \<and> within (map JStr (ps_actions scope)) (map JStr (ps_actions disclosure))
        \<and> within (map resourceJson (ps_resources scope)) (map resourceJson (ps_resources disclosure)))"

subsection \<open>Admission of a document\<close>

text \<open>The human root of a statement: a human author who is also its authority.\<close>

definition humanRoot :: "PolicyStatementV1 \<Rightarrow> bool" where
  "humanRoot s =
    (case (st_author s, st_authority s) of (HumanPrincipal u, HumanAuthority v) \<Rightarrow> u = v | _ \<Rightarrow> False)"

definition anchorWorkspace :: "PolicyStatementV1 \<Rightarrow> string option" where
  "anchorWorkspace s = (case pc_owner (lt_anchor (st_lifetime s)) of OwnerWorkspace ws \<Rightarrow> Some ws | _ \<Rightarrow> None)"

definition toolIn :: "string option \<Rightarrow> PolicyResourceV1 \<Rightarrow> bool" where
  "toolIn ws r = (case r of McpTool w _ _ \<Rightarrow> Some w = ws | ContainerResource _ \<Rightarrow> False)"

definition admitAgentPrincipal :: "PolicyStatementV1 \<Rightarrow> PolicyAgentPrincipalV1 \<Rightarrow> unit result" where
  "admitAgentPrincipal s a =
    bindE (ensure (humanRoot s \<and> lt_uses (st_lifetime s) = None
          \<and> ps_subjects (st_scope s) = [AgentPrincipal (ap_agentId a)]
          \<and> list_all (\<lambda>x. x = ''tool.use'') (ps_actions (st_scope s)))
        ''Agent identity requires an explicit human root and its own finite native domain.'') (\<lambda>_.
    let anchor = lt_anchor (st_lifetime s) in
    ensure (case pc_owner anchor of
        OwnerWorkspace ws \<Rightarrow>
          pc_kind anchor \<in> {''workspace'', ''turn''} \<and> (pc_kind anchor = ''workspace'' \<longrightarrow> pc_id anchor = ws)
          \<and> list_all (toolIn (Some ws)) (ps_resources (st_scope s))
      | _ \<Rightarrow> False)
      ''Agent domain requires one exact native Workspace scope.'')"

definition admitGoalDelegation :: "PolicyStatementV1 \<Rightarrow> PolicyDelegationV1 \<Rightarrow> unit result" where
  "admitGoalDelegation s d =
    (let source = dl_source d; anchor = lt_anchor (st_lifetime s) in
     ensure (humanRoot s \<and> (case dl_delegate d of AgentPrincipal _ \<Rightarrow> True | _ \<Rightarrow> False)
         \<and> pc_owner anchor = OwnerWorkspace (ds_workspaceId source)
         \<and> pc_kind anchor = ''goal'' \<and> pc_id anchor = ds_goalId source)
       ''Active Goal domain requires its human author and exact Goal anchor.'')"

definition admitMaintenance :: "PolicyStatementV1 \<Rightarrow> PolicyPermissionV1 \<Rightarrow> unit result" where
  "admitMaintenance s p =
    (let anchor = lt_anchor (st_lifetime s) in
     ensure (pm_effect p = AllowEffect \<and> humanRoot s
         \<and> (case ps_subjects (st_scope s) of [HumanPrincipal _] \<Rightarrow> True | _ \<Rightarrow> False)
         \<and> ps_actions (st_scope s) = [''administration.configuration.apply'']
         \<and> (case ps_resources (st_scope s) of
              [ContainerResource c] \<Rightarrow>
                pc_owner c = OwnerServer \<and> pc_kind c = ''agent'' \<and> pc_owner anchor = OwnerServer
                \<and> pc_kind anchor = ''agent'' \<and> pc_id anchor = pc_id c
            | _ \<Rightarrow> False)
         \<and> lt_uses (st_lifetime s) = None)
       ''Finite maintenance requires its human root and exact Server Agent scope.'')"

definition admitStorageLease :: "Platform \<Rightarrow> PolicyStatementV1 \<Rightarrow> PolicyPermissionV1 \<Rightarrow> StorageLease \<Rightarrow> unit result" where
  "admitStorageLease pf s p lease =
    (let anchor = lt_anchor (st_lifetime s);
         expectedAction = (if sl_mode lease = ReadOnlyLease then ''knowledge.read'' else ''knowledge.write'')
     in ensure (pm_effect p = AllowEffect \<and> humanRoot s
         \<and> list_all (\<lambda>x. case x of HumanPrincipal _ \<Rightarrow> True | _ \<Rightarrow> False) (ps_subjects (st_scope s))
         \<and> list_all (\<lambda>x. x = expectedAction) (ps_actions (st_scope s))
         \<and> list_all (\<lambda>r. case r of ContainerResource c \<Rightarrow>
               policyDigest pf (containerJson c) = policyDigest pf (containerJson anchor) | _ \<Rightarrow> False)
             (ps_resources (st_scope s))
         \<and> (case pc_owner anchor of
              OwnerServer \<Rightarrow> pc_kind anchor = ''server''
            | OwnerUser u \<Rightarrow> pc_kind anchor = ''user'' \<and> pc_id anchor = u
            | OwnerWorkspace ws \<Rightarrow> pc_kind anchor = ''workspace'' \<and> pc_id anchor = ws)
         \<and> lt_uses (st_lifetime s) = None)
       ''Storage lease activation requires a human root and exact owner scope.'')"

definition admitDelegatedPermission :: "PolicyStatementV1 \<Rightarrow> PolicyPermissionV1 \<Rightarrow> unit result" where
  "admitDelegatedPermission s p =
    (let anchor = lt_anchor (st_lifetime s); ws = anchorWorkspace s in
     ensure (pm_effect p = AllowEffect \<and> st_author s = AgentPrincipal ''goal-coordinator''
         \<and> (case ps_subjects (st_scope s) of [AgentPrincipal a] \<Rightarrow> a \<noteq> ''goal-coordinator'' | _ \<Rightarrow> False)
         \<and> ws \<noteq> None \<and> pc_kind anchor \<in> {''goal'', ''thread'', ''turn''}
         \<and> list_all (\<lambda>x. x \<in> fst ` set PRODUCT_OPERATION_ACCESS_RIGHTS) (ps_actions (st_scope s))
         \<and> list_all (\<lambda>r. case r of McpTool w _ _ \<Rightarrow> Some w = ws
              | ContainerResource c \<Rightarrow> (case pc_owner c of OwnerWorkspace w \<Rightarrow> Some w = ws | _ \<Rightarrow> False))
             (ps_resources (st_scope s)))
       ''Delegated Goal permission requires its native Coordinator and Workspace scope.'')"

definition admitToolCondition :: "PolicyStatementV1 \<Rightarrow> PolicyPermissionV1 \<Rightarrow> unit result" where
  "admitToolCondition s p =
    (let anchor = lt_anchor (st_lifetime s); ws = anchorWorkspace s in
     ensure (pm_effect p \<in> {ProhibitEffect, RequireApprovalEffect} \<and> humanRoot s
         \<and> ws \<noteq> None \<and> pc_kind anchor = ''workspace'' \<and> Some (pc_id anchor) = ws
         \<and> lt_uses (st_lifetime s) = None
         \<and> list_all (\<lambda>x. x = ''tool.use'') (ps_actions (st_scope s))
         \<and> list_all (toolIn ws) (ps_resources (st_scope s)))
       ''Human Tool conditions require exact Workspace Tool scope without finite uses.'')"

definition participantKind :: "ParticipantV1 \<Rightarrow> ParticipantKind" where
  "participantKind p = (case p of DeterministicParticipant _ _ \<Rightarrow> DeterministicKind | AgentParticipant _ _ \<Rightarrow> AgentKind)"

fun modeStage :: "PolicyModeV1 \<Rightarrow> PolicyStageV1" where
  "modeStage ObserveMode = CompletedStage"
| "modeStage AdviseMode = ProposeStage"
| "modeStage TransformMode = ProposeStage"
| "modeStage GateMode = DecideStage"

text \<open>One owner for all resources: a User home, or a Workspace with a Workspace or Turn anchor.\<close>

definition bindingOwner :: "PolicyStatementV1 \<Rightarrow> PolicyBindingV1 \<Rightarrow> bool" where
  "bindingOwner s b =
    (let resources = ps_resources (st_scope s);
         workspaceIds = set (map policyResourceWorkspace resources);
         userIds = set (map policyResourceUser resources);
         anchor = lt_anchor (st_lifetime s);
         userOwner = (card userIds = 1 \<and> None \<notin> userIds
           \<and> (case pc_owner anchor of OwnerUser u \<Rightarrow> Some u \<in> userIds \<and> pc_kind anchor = ''user'' \<and> pc_id anchor = u
              | _ \<Rightarrow> False)
           \<and> participantKind (bd_participant b) \<noteq> AgentKind)
     in userOwner
        \<or> (card workspaceIds = 1 \<and> None \<notin> workspaceIds
           \<and> (case pc_owner anchor of OwnerWorkspace ws \<Rightarrow> Some ws \<in> workspaceIds
                \<and> pc_kind anchor \<in> {''workspace'', ''turn''} \<and> (pc_kind anchor = ''workspace'' \<longrightarrow> pc_id anchor = ws)
              | _ \<Rightarrow> False)))"

type_synonym position = "string \<times> PolicyStageV1 \<times> PolicyModeV1 \<times> int"

definition bindingPosition :: "PolicyBindingV1 \<Rightarrow> position" where
  "bindingPosition b = (bd_operation b, bd_stage b, bd_mode b, bd_order b)"

definition admitBinding :: "Platform \<Rightarrow> PolicyStatementV1 \<Rightarrow> PolicyBindingV1 \<Rightarrow> unit result" where
  "admitBinding pf s b =
    bindE (policyOperationDefinition pf (bd_operation b)) (\<lambda>(policyOperation, native).
    bindE (ensure (op_modes native \<noteq> []) ''Policy binding operation is unavailable.'') (\<lambda>_.
    bindE (ensure (bd_stage b \<in> set (op_stages native) \<and> bd_mode b \<in> set (op_modes native))
        ''Policy binding stage or mode is unavailable.'') (\<lambda>_.
    bindE (ensure (participantKind (bd_participant b) \<in> set (op_participantKinds native)
          \<and> (participantKind (bd_participant b) = AgentKind \<longrightarrow> bd_mode b = GateMode \<and> bd_stage b = DecideStage))
        ''Agent participation is only available for the I16 deciding gate.'') (\<lambda>_.
    bindE (ensure (bd_stage b = modeStage (bd_mode b)) ''Policy mode is at the wrong stage.'') (\<lambda>_.
    bindE (ensure (bd_mode b \<noteq> TransformMode \<and> bd_mode b \<noteq> AdviseMode)
        ''I16 safe participant output reference is unavailable.'') (\<lambda>_.
    bindE (ensure (\<not> (bd_mode b = ObserveMode \<and> lt_uses (st_lifetime s) \<noteq> None))
        ''Finite-use completed observation is unavailable.'') (\<lambda>_.
    bindE (ensure (humanRoot s) ''Active participant authority requires its admitted human author.'') (\<lambda>_.
    bindE (ensure (AgentKind \<in> set (op_participantKinds native) \<longrightarrow>
            list_all (\<lambda>x. case x of HumanPrincipal _ \<Rightarrow> True | _ \<Rightarrow> False) (ps_subjects (st_scope s)))
        ''Agent principal authority is not active.'') (\<lambda>_.
    bindE (ensure (bd_mode b = GateMode \<longrightarrow> bd_failure b \<in> set (op_gateFailures native))
        ''Policy gate failure disposition is unavailable.'') (\<lambda>_.
    bindE (ensure (bindingOwner s b)
        ''Active binding requires one Workspace transaction owner and a current Workspace or Turn anchor.'') (\<lambda>_.
    bindE (ensure (list_all (\<lambda>x. x = policyOperation) (ps_actions (st_scope s)))
        ''Policy binding requires its registered action.'') (\<lambda>_.
    ensure (policyScopeContains pf (st_scope s) (bd_inputDisclosure b))
      ''Participant input disclosure exceeds its admitted binding scope.''))))))))))))"

text \<open>One round of the statement loop; the positions of the active bindings are its state.\<close>

definition admitStatement :: "Platform \<Rightarrow> PolicyStatementV1 \<Rightarrow> position list \<Rightarrow> position list result" where
  "admitStatement pf s positions =
    (if st_state s = InactiveState then Inr positions
     else
       let kept = (\<lambda>r. bindE r (\<lambda>_. Inr positions)) in
       case st_body s of
         AgentPrincipalBody a \<Rightarrow> kept (admitAgentPrincipal s a)
       | DelegationBody d \<Rightarrow> kept (admitGoalDelegation s d)
       | PermissionBody p \<Rightarrow>
           (case pm_grant p of
              WorkerGitReadMaintenance _ \<Rightarrow> kept (admitMaintenance s p)
            | StorageLeaseGrant lease \<Rightarrow> kept (admitStorageLease pf s p lease)
            | OrdinaryGrant \<Rightarrow>
                (case st_authority s of
                   DelegationAuthority _ \<Rightarrow> kept (admitDelegatedPermission s p)
                 | HumanAuthority _ \<Rightarrow> kept (admitToolCondition s p))
            | AgentProcessGrant _ \<Rightarrow> Inl ''This Policy form must remain inactive.'')
       | ManagedBoundaryBody \<Rightarrow> Inl ''This Policy form must remain inactive.''
       | BindingBody b \<Rightarrow>
           bindE (admitBinding pf s b) (\<lambda>_.
           bindE (ensure (bindingPosition b \<notin> set positions) ''Active binding order must be explicit and unique.'') (\<lambda>_.
           Inr (set_add (bindingPosition b) positions))))"

fun foldE :: "('a \<Rightarrow> 's \<Rightarrow> 'e + 's) \<Rightarrow> 'a list \<Rightarrow> 's \<Rightarrow> 'e + 's" where
  "foldE f [] s = Inr s"
| "foldE f (x # xs) s = bindE (f x s) (foldE f xs)"

definition delegatedForm :: "PolicyStatementV1 \<Rightarrow> bool" where
  "delegatedForm s =
    (case st_authority s of
       HumanAuthority _ \<Rightarrow> True
     | DelegationAuthority _ \<Rightarrow>
         (case st_body s of PermissionBody p \<Rightarrow> pm_grant p = OrdinaryGrant | _ \<Rightarrow> False)
         \<and> st_author s = AgentPrincipal ''goal-coordinator'')"

text \<open>Agent declarations, with the statement that carries them.\<close>

type_synonym agent = "PolicyStatementV1 \<times> PolicyAgentPrincipalV1"

definition agentOf :: "PolicyStatementV1 \<Rightarrow> agent option" where
  "agentOf s = (case st_body s of AgentPrincipalBody a \<Rightarrow> Some (s, a) | _ \<Rightarrow> None)"

definition activeAgents :: "PolicyDocumentV1 \<Rightarrow> agent list" where
  "activeAgents document = filter (\<lambda>(s, _). st_state s = ActiveState) (List.map_filter agentOf document)"

abbreviation agentId :: "agent \<Rightarrow> string" where
  "agentId a \<equiv> ap_agentId (snd a)"

definition findAgent :: "agent list \<Rightarrow> string \<Rightarrow> agent option" where
  "findAgent agents i = List.find (\<lambda>a. agentId a = i) agents"

lemma findAgent_SomeD: "findAgent agents i = Some a \<Longrightarrow> a \<in> set agents \<and> agentId a = i"
  by (auto simp: findAgent_def find_Some_iff)

text \<open>The loop \<^verbatim>\<open>while (current)\<close> over the responsibility chain of one agent.\<close>

function checkChain :: "agent list \<Rightarrow> agent \<Rightarrow> string list \<Rightarrow> agent \<Rightarrow> unit result" where
  "checkChain agents agent seen current =
    (if agentId current \<in> set seen then Inl ''Agent responsibility chain is cyclic.''
     else if ap_responsibleHumanId (snd current) \<noteq> ap_responsibleHumanId (snd agent)
       then Inl ''Agent responsibility chain changes its terminal human.''
     else case ap_responsibility (snd current) of
       HumanPrincipal h \<Rightarrow>
         ensure (h = ap_responsibleHumanId (snd agent)) ''Agent responsibility must end at its declared human.''
     | AgentPrincipal i \<Rightarrow>
         (case findAgent agents i of
            None \<Rightarrow> Inl ''Agent responsibility chain is unavailable.''
          | Some following \<Rightarrow> checkChain agents agent (set_add (agentId current) seen) following))"
  by pat_completeness auto
termination
proof (relation "measure (\<lambda>(agents, agent, seen, current). card (insert (agentId current) (agentId ` set agents) - set seen))")
  fix agents :: "agent list" and agent current :: agent and seen i following
  assume new: "agentId current \<notin> set seen" and found: "findAgent agents i = Some following"
  have "agentId following \<in> agentId ` set agents" using findAgent_SomeD [OF found] by blast
  then have "insert (agentId following) (agentId ` set agents) - set (set_add (agentId current) seen)
      \<subset> insert (agentId current) (agentId ` set agents) - set seen"
    using new by auto
  then show "((agents, agent, set_add (agentId current) seen, following), agents, agent, seen, current)
      \<in> measure (\<lambda>(agents, agent, seen, current). card (insert (agentId current) (agentId ` set agents) - set seen))"
    by (simp add: psubset_card_mono)
qed simp

declare checkChain.simps [simp del]

text \<open>The loop \<^verbatim>\<open>for (;;)\<close> over the disclosure domains along the chain of a bound agent.\<close>

definition outOfFuel :: string where
  "outOfFuel = ''The loop has not ended.''"

fun checkDisclosure :: "nat \<Rightarrow> Platform \<Rightarrow> agent list \<Rightarrow> PolicyScopeV1 \<Rightarrow> agent \<Rightarrow> unit result" where
  "checkDisclosure 0 pf agents disclosure agent = Inl outOfFuel"
| "checkDisclosure (Suc n) pf agents disclosure agent =
    bindE (ensure (policyScopeContains pf ((st_scope (fst agent))\<lparr>ps_subjects := ps_subjects disclosure\<rparr>) disclosure)
        ''Agent input disclosure exceeds its current declared domain.'') (\<lambda>_.
    case ap_responsibility (snd agent) of
      HumanPrincipal _ \<Rightarrow> Inr ()
    | AgentPrincipal i \<Rightarrow>
        (case findAgent agents i of
           None \<Rightarrow> Inl ''Agent responsibility chain is unavailable.''
         | Some following \<Rightarrow> checkDisclosure n pf agents disclosure following))"

definition checkAgentBinding :: "Platform \<Rightarrow> agent list \<Rightarrow> PolicyStatementV1 \<Rightarrow> unit result" where
  "checkAgentBinding pf agents s =
    (case st_body s of
       BindingBody b \<Rightarrow>
         (case bd_participant b of
            AgentParticipant i version \<Rightarrow>
              if st_state s = InactiveState then Inr ()
              else (case findAgent agents i of
                None \<Rightarrow> Inl ''Agent binding must pin its active declaration.''
              | Some agent \<Rightarrow>
                  bindE (ensure (policyDigest pf (statementJson (fst agent)) = version)
                      ''Agent binding must pin its active declaration.'') (\<lambda>_.
                  checkDisclosure (length agents) pf agents (bd_inputDisclosure b) agent))
          | DeterministicParticipant _ _ \<Rightarrow> Inr ())
     | _ \<Rightarrow> Inr ())"

definition validatePolicyDocument :: "Platform \<Rightarrow> PolicyDocumentV1 \<Rightarrow> PolicyDocumentV1 result" where
  "validatePolicyDocument pf input =
    bindE (parseWith (PolicyDocumentV1Schema (pf_parseUrl pf)) input) (\<lambda>document.
    bindE (foldE (admitStatement pf) document []) (\<lambda>_.
    bindE (ensure (list_all delegatedForm document) ''This delegated Policy form is unavailable.'') (\<lambda>_.
    let agents = activeAgents document in
    bindE (ensure (distinct (map agentId agents)) ''Active agent identities must be unique.'') (\<lambda>_.
    bindE (traverseE (\<lambda>agent. checkChain agents agent [] agent) agents) (\<lambda>_.
    bindE (traverseE (checkAgentBinding pf agents) document) (\<lambda>_.
    Inr document))))))"

subsection \<open>Preparation of a candidate\<close>

datatype Classification = UnchangedPolicy | NarrowingPolicy | WideningPolicy

record PolicyDiff =
  df_added :: "string list"
  df_changed :: "string list"
  df_removed :: "string list"

text \<open>Content without authorship: the members except \<^verbatim>\<open>author\<close> and \<^verbatim>\<open>authoredAt\<close>.\<close>

definition contentJson :: "PolicyStatementV1 \<Rightarrow> JsValue" where
  "contentJson s = JObj (filter (\<lambda>m. fst m \<noteq> ''author'' \<and> fst m \<noteq> ''authoredAt'') (statementMembers s))"

definition findStatement :: "PolicyDocumentV1 \<Rightarrow> string \<Rightarrow> PolicyStatementV1 option" where
  "findStatement document i = map_of (map_of_entries (map (\<lambda>s. (st_id s, s)) document)) i"

definition unchangedStatement :: "Platform \<Rightarrow> PolicyDocumentV1 \<Rightarrow> PolicyStatementV1 \<Rightarrow> bool" where
  "unchangedStatement pf current s =
    (case findStatement current (st_id s) of
       None \<Rightarrow> False
     | Some previous \<Rightarrow> policyDigest pf (contentJson s) = policyDigest pf (contentJson previous))"

text \<open>A changed or added statement is stamped with its actual author; an agent declaration keeps
  the creator it had.\<close>

definition stampStatement :: "Platform \<Rightarrow> PolicyDocumentV1 \<Rightarrow> string \<Rightarrow> string \<Rightarrow> PolicyStatementV1 \<Rightarrow> PolicyStatementV1" where
  "stampStatement pf current userId now s =
    (if unchangedStatement pf current s then the (findStatement current (st_id s))
     else s\<lparr>st_author := HumanPrincipal userId, st_authority := HumanAuthority userId, st_authoredAt := now,
            st_body := (case st_body s of
              AgentPrincipalBody a \<Rightarrow> AgentPrincipalBody (a\<lparr>ap_creator :=
                (case Option.bind (findStatement current (st_id s)) agentOf of
                   Some (_, previous) \<Rightarrow> ap_creator previous
                 | None \<Rightarrow> HumanPrincipal userId)\<rparr>)
            | body \<Rightarrow> body)\<rparr>)"

definition candidateDiff :: "Platform \<Rightarrow> PolicyDocumentV1 \<Rightarrow> PolicyDocumentV1 \<Rightarrow> PolicyDiff" where
  "candidateDiff pf current proposed =
    (let touched = filter (\<lambda>s. \<not> unchangedStatement pf current s) proposed;
         known = (\<lambda>s. findStatement current (st_id s) \<noteq> None)
     in \<lparr>df_added = map st_id (filter (\<lambda>s. \<not> known s) touched), df_changed = map st_id (filter known touched),
         df_removed = map st_id (filter (\<lambda>s. st_id s \<notin> st_id ` set proposed) current)\<rparr>)"

text \<open>A touched binding that pins an agent of the same submission follows its stamped version.\<close>

definition followAgent ::
  "Platform \<Rightarrow> PolicyDocumentV1 \<Rightarrow> PolicyDocumentV1 \<Rightarrow> string list \<Rightarrow> PolicyStatementV1 \<Rightarrow> PolicyStatementV1" where
  "followAgent pf proposed stamped touched s =
    (case st_body s of
       BindingBody b \<Rightarrow>
         (case bd_participant b of
            AgentParticipant i version \<Rightarrow>
              if st_id s \<notin> set touched then s
              else (case (findAgent (List.map_filter agentOf proposed) i, findAgent (List.map_filter agentOf stamped) i) of
                (Some source, Some prepared) \<Rightarrow>
                  if version = policyDigest pf (statementJson (fst source))
                  then s\<lparr>st_body := BindingBody (b\<lparr>bd_participant :=
                      AgentParticipant i (policyDigest pf (statementJson (fst prepared)))\<rparr>)\<rparr>
                  else s
              | _ \<Rightarrow> s)
          | _ \<Rightarrow> s)
     | _ \<Rightarrow> s)"

definition fixedContentJson :: "PolicyStatementV1 \<Rightarrow> JsValue" where
  "fixedContentJson s =
    JObj (filter (\<lambda>m. fst m \<notin> {''author'', ''authoredAt'', ''scope'', ''inputDisclosure'', ''lifetime'', ''state''})
      (statementMembers s))"

text \<open>An expiry as a number: an absent one is \<^verbatim>\<open>Infinity\<close>; a comparison with \<^verbatim>\<open>NaN\<close> is false.\<close>

definition expiryNotLater :: "string option \<Rightarrow> string option \<Rightarrow> bool" where
  "expiryNotLater later earlier =
    (let present = (\<lambda>v. v \<noteq> None \<and> v \<noteq> Some []) in
     case (present later, present earlier) of
       (False, False) \<Rightarrow> True
     | (False, True) \<Rightarrow> False
     | (True, False) \<Rightarrow> dateParse (the later) \<noteq> None
     | (True, True) \<Rightarrow>
         (case (dateParse (the later), dateParse (the earlier)) of (Some a, Some b) \<Rightarrow> a \<le> b | _ \<Rightarrow> False))"

definition isNarrowedObservation ::
  "Platform \<Rightarrow> PolicyStatementV1 option \<Rightarrow> PolicyStatementV1 option \<Rightarrow> string \<Rightarrow> bool" where
  "isNarrowedObservation pf prior successor userId =
    (case prior of
       None \<Rightarrow> False
     | Some s \<Rightarrow>
         (case st_body s of
            BindingBody b \<Rightarrow>
              bd_mode b = ObserveMode \<and> st_author s = HumanPrincipal userId \<and> st_authority s = HumanAuthority userId
              \<and> (case successor of
                   None \<Rightarrow> True
                 | Some s' \<Rightarrow>
                     (case st_body s' of
                        BindingBody b' \<Rightarrow>
                          bd_mode b' = ObserveMode \<and> st_author s' = HumanPrincipal userId
                          \<and> (st_state s' = st_state s \<or> st_state s' = InactiveState)
                          \<and> lt_uses (st_lifetime s) = None \<and> lt_uses (st_lifetime s') = None
                          \<and> policyDigest pf (fixedContentJson s) = policyDigest pf (fixedContentJson s')
                          \<and> policyDigest pf (containerJson (lt_anchor (st_lifetime s)))
                              = policyDigest pf (containerJson (lt_anchor (st_lifetime s')))
                          \<and> expiryNotLater (lt_notAfter (st_lifetime s')) (lt_notAfter (st_lifetime s))
                          \<and> policyScopeContains pf (st_scope s) (st_scope s')
                          \<and> policyScopeContains pf (bd_inputDisclosure b) (bd_inputDisclosure b')
                      | _ \<Rightarrow> False))
          | _ \<Rightarrow> False))"

definition preparePolicyDocument ::
  "Platform \<Rightarrow> PolicyDocumentV1 \<Rightarrow> PolicyDocumentV1 \<Rightarrow> string \<Rightarrow> string
    \<Rightarrow> (PolicyDocumentV1 \<times> PolicyDiff \<times> Classification) result" where
  "preparePolicyDocument pf current input userId now =
    bindE (parseWith (PolicyDocumentV1Schema (pf_parseUrl pf)) input) (\<lambda>proposed.
    let diff = candidateDiff pf current proposed;
        stamped = map (stampStatement pf current userId now) proposed;
        statements = map (followAgent pf proposed stamped (df_added diff @ df_changed diff)) stamped
    in bindE (validatePolicyDocument pf statements) (\<lambda>document.
    let changed = (df_added diff \<noteq> [] \<or> df_changed diff \<noteq> [] \<or> df_removed diff \<noteq> []);
        narrowing = (df_added diff = []
          \<and> list_all (\<lambda>i. isNarrowedObservation pf (findStatement current i) None userId) (df_removed diff)
          \<and> list_all (\<lambda>i. isNarrowedObservation pf (findStatement current i)
                (List.find (\<lambda>s. st_id s = i) document) userId) (df_changed diff))
    in Inr (document, diff,
         if \<not> changed then UnchangedPolicy else if narrowing then NarrowingPolicy else WideningPolicy)))"

subsection \<open>Selection for a proposal\<close>

definition policyScopeIncludesProposal :: "Platform \<Rightarrow> PolicyScopeV1 \<Rightarrow> PolicyProposal \<Rightarrow> bool result" where
  "policyScopeIncludesProposal pf scope proposal =
    (if \<exists>p\<in>set (ps_subjects scope).
          policyDigest pf (principalJson p) = policyDigest pf (principalJson (sj_principal (pq_subject proposal)))
     then bindE (policyOperationDefinition pf (pq_operation proposal)) (\<lambda>(policyOperation, _).
       Inr (policyOperation \<in> set (ps_actions scope)
         \<and> (case pq_workspaceId proposal of
              None \<Rightarrow> policyResourceUser (pq_resource proposal) \<noteq> None
            | Some ws \<Rightarrow> policyResourceWorkspace (pq_resource proposal) = Some ws)
         \<and> (\<exists>r\<in>set (ps_resources scope).
              policyDigest pf (resourceJson r) = policyDigest pf (resourceJson (pq_resource proposal)))))
     else Inr False)"

text \<open>The anchor of a binding or an agent against the Workspace and Turn of the proposal.\<close>

definition turnOf :: "PolicyProposal \<Rightarrow> string option" where
  "turnOf proposal = map_option pp_turnId (sj_process (pq_subject proposal))"

definition anchorMatches :: "PolicyContainerV1 \<Rightarrow> PolicyBindingV1 \<Rightarrow> PolicyProposal \<Rightarrow> bool" where
  "anchorMatches anchor b proposal =
    (case pq_workspaceId proposal of
       None \<Rightarrow>
         (case policyResourceUser (pq_resource proposal) of
            None \<Rightarrow> False
          | Some u \<Rightarrow> pc_owner anchor = OwnerUser u \<and> pc_kind anchor = ''user'' \<and> pc_id anchor = u
              \<and> participantKind (bd_participant b) \<noteq> AgentKind)
     | Some ws \<Rightarrow>
         pc_owner anchor = OwnerWorkspace ws
         \<and> (pc_kind anchor = ''turn'' \<longrightarrow> Some (pc_id anchor) = turnOf proposal)
         \<and> (pc_kind anchor = ''workspace'' \<longrightarrow> pc_id anchor = ws))"

text \<open>\<^verbatim>\<open>lifetime.notAfter && Date.parse(lifetime.notAfter) <= now\<close>.\<close>

definition expired :: "PolicyLifetimeV1 \<Rightarrow> int \<Rightarrow> bool" where
  "expired lifetime now =
    (case lt_notAfter lifetime of
       None \<Rightarrow> False
     | Some t \<Rightarrow> t \<noteq> [] \<and> (case dateParse t of None \<Rightarrow> False | Some ms \<Rightarrow> ms \<le> now))"

type_synonym binding = "PolicyStatementV1 \<times> PolicyBindingV1"

definition bindingOf :: "PolicyStatementV1 \<Rightarrow> binding option" where
  "bindingOf s = (case st_body s of BindingBody b \<Rightarrow> Some (s, b) | _ \<Rightarrow> None)"

definition bindingSelected ::
  "Platform \<Rightarrow> PolicyProposal \<Rightarrow> PolicyStageV1 option \<Rightarrow> int \<Rightarrow> (string \<Rightarrow> bool) \<Rightarrow> (PolicyContainerV1 \<Rightarrow> bool)
    \<Rightarrow> binding \<Rightarrow> bool result" where
  "bindingSelected pf proposal stage now authorCurrent anchorCurrent sb =
    (let (s, b) = sb; lifetime = st_lifetime s; anchor = lt_anchor lifetime in
     if st_state s = InactiveState \<or> bd_operation b \<noteq> pq_operation proposal
        \<or> (stage \<noteq> None \<and> Some (bd_stage b) \<noteq> stage) then Inr False
     else if \<not> anchorMatches anchor b proposal then Inr False
     else if \<not> anchorCurrent anchor then Inr False
     else if expired lifetime now then Inr False
     else case st_author s of
       AgentPrincipal _ \<Rightarrow> Inr False
     | HumanPrincipal u \<Rightarrow>
         if participantKind (bd_participant b) \<noteq> AgentKind \<and> \<not> authorCurrent u then Inr False
         else policyScopeIncludesProposal pf (st_scope s) proposal)"

fun filterE :: "('a \<Rightarrow> 'e + bool) \<Rightarrow> 'a list \<Rightarrow> 'e + 'a list" where
  "filterE f [] = Inr []"
| "filterE f (x # xs) = bindE (f x) (\<lambda>b. bindE (filterE f xs) (\<lambda>ys. Inr (if b then x # ys else ys)))"

text \<open>\<^verbatim>\<open>a.order - b.order || compareCodeUnits(a.id, b.id)\<close>: the stable sort by order, then by identifier.\<close>

definition selectPolicyBindings ::
  "Platform \<Rightarrow> PolicyDocumentV1 \<Rightarrow> PolicyProposal \<Rightarrow> PolicyStageV1 option \<Rightarrow> int \<Rightarrow> (string \<Rightarrow> bool)
    \<Rightarrow> (PolicyContainerV1 \<Rightarrow> bool) \<Rightarrow> binding list result" where
  "selectPolicyBindings pf document proposal stage now authorCurrent anchorCurrent =
    bindE (filterE (bindingSelected pf proposal stage now authorCurrent anchorCurrent)
        (List.map_filter bindingOf document)) (\<lambda>selected.
    Inr (sort_key (\<lambda>(s, b). bd_order b) (sort_key (\<lambda>(s, b). st_id s) selected)))"

subsection \<open>The accountable agent of a binding\<close>

text \<open>The policy state that the Kernel decides for one declaration of the chain.\<close>

definition agentDomainPolicy :: "Platform \<Rightarrow> agent \<Rightarrow> PolicyResourceV1 \<Rightarrow> string \<Rightarrow> PolicyState" where
  "agentDomainPolicy pf current resource operation =
    \<lparr>elements = [\<lparr>el_id = ''agent'', el_kind = User\<rparr>, \<lparr>el_id = ''domain'', el_kind = UserAttribute\<rparr>,
       \<lparr>el_id = ''target'', el_kind = Object\<rparr>, \<lparr>el_id = ''resources'', el_kind = ObjectAttribute\<rparr>,
       \<lparr>el_id = ''scope'', el_kind = PolicyClass\<rparr>],
     assignments = [\<lparr>child = ''agent'', parent = ''domain''\<rparr>, \<lparr>child = ''domain'', parent = ''scope''\<rparr>,
       \<lparr>child = ''target'', parent = ''resources''\<rparr>, \<lparr>child = ''resources'', parent = ''scope''\<rparr>],
     operations = [\<lparr>op_id = operation, op_accessRights = [operation]\<rparr>],
     processUsers = None,
     associations =
       (if AgentPrincipal (agentId current) \<in> set (ps_subjects (st_scope (fst current)))
           \<and> (\<exists>r\<in>set (ps_resources (st_scope (fst current))).
                policyDigest pf (resourceJson r) = policyDigest pf (resourceJson resource))
           \<and> operation \<in> set (ps_actions (st_scope (fst current)))
        then [\<lparr>as_id = st_id (fst current), as_userAttribute = ''domain'', as_accessRights = [operation],
               as_targetAttribute = ''resources''\<rparr>]
        else []),
     prohibitions = None\<rparr>"

definition agentAccountable ::
  "agent list \<Rightarrow> agent \<Rightarrow> PolicyProposal \<Rightarrow> int \<Rightarrow> (string \<Rightarrow> bool) \<Rightarrow> (PolicyContainerV1 \<Rightarrow> bool) \<Rightarrow> agent \<Rightarrow> bool" where
  "agentAccountable agents pinned proposal now authorCurrent anchorCurrent current =
    (let s = fst current; anchor = lt_anchor (st_lifetime s) in
     length (filter (\<lambda>a. agentId a = agentId current) agents) = 1
     \<and> st_state s = ActiveState
     \<and> ap_responsibleHumanId (snd current) = ap_responsibleHumanId (snd pinned)
     \<and> (case (st_author s, st_authority s) of
          (HumanPrincipal u, HumanAuthority v) \<Rightarrow> u = v \<and> authorCurrent u | _ \<Rightarrow> False)
     \<and> authorCurrent (ap_responsibleHumanId (snd pinned))
     \<and> lt_uses (st_lifetime s) = None
     \<and> \<not> expired (st_lifetime s) now
     \<and> (case pc_owner anchor of OwnerWorkspace ws \<Rightarrow> Some ws = pq_workspaceId proposal | _ \<Rightarrow> False)
     \<and> pc_kind anchor \<in> {''workspace'', ''turn''}
     \<and> (pc_kind anchor = ''workspace'' \<longrightarrow> Some (pc_id anchor) = pq_workspaceId proposal)
     \<and> (pc_kind anchor = ''turn'' \<longrightarrow> Some (pc_id anchor) = turnOf proposal)
     \<and> anchorCurrent anchor)"

function walkAccountability ::
  "Platform \<Rightarrow> agent list \<Rightarrow> agent \<Rightarrow> PolicyProposal \<Rightarrow> int \<Rightarrow> (string \<Rightarrow> bool) \<Rightarrow> (PolicyContainerV1 \<Rightarrow> bool)
    \<Rightarrow> string list \<Rightarrow> agent \<Rightarrow> agent result" where
  "walkAccountability pf agents pinned proposal now authorCurrent anchorCurrent seen current =
    (if agentId current \<in> set seen \<or> \<not> agentAccountable agents pinned proposal now authorCurrent anchorCurrent current
     then Inl ''Current agent accountability is unavailable.''
     else case policyOperationDefinition pf (pq_operation proposal) of
       Inl e \<Rightarrow> Inl e
     | Inr (operation, _) \<Rightarrow>
         if effect (evaluateAccess (agentDomainPolicy pf current (pq_resource proposal) operation)
              \<lparr>rq_user = Some ''agent'', rq_process = None, rq_operation = operation, rq_target = ''target''\<rparr>) \<noteq> Allow
         then Inl ''Current agent domain does not cover the proposal.''
         else case ap_responsibility (snd current) of
           HumanPrincipal h \<Rightarrow>
             if h = ap_responsibleHumanId (snd pinned) then Inr pinned else Inl ''Agent terminal human differs.''
         | AgentPrincipal i \<Rightarrow>
             (case findAgent agents i of
                None \<Rightarrow> Inl ''Agent responsibility chain is unavailable.''
              | Some following \<Rightarrow>
                  walkAccountability pf agents pinned proposal now authorCurrent anchorCurrent
                    (set_add (agentId current) seen) following))"
  by pat_completeness auto
termination
proof (relation "measure (\<lambda>(pf, agents, pinned, proposal, now, au, an, seen, current).
    card (insert (agentId current) (agentId ` set agents) - set seen))", goal_cases)
  case 1
  then show ?case by simp
next
  case (2 pf agents pinned proposal now au an seen current def operation points i following)
  have "agentId following \<in> agentId ` set agents" using findAgent_SomeD [OF 2(6)] by blast
  then have "insert (agentId following) (agentId ` set agents) - set (set_add (agentId current) seen)
      \<subset> insert (agentId current) (agentId ` set agents) - set seen"
    using 2(1) by auto
  then show ?case by (simp add: psubset_card_mono)
qed

declare walkAccountability.simps [simp del]

definition readPolicyAgentPrincipal ::
  "Platform \<Rightarrow> PolicyDocumentV1 \<Rightarrow> PolicyBindingV1 \<Rightarrow> PolicyProposal \<Rightarrow> int \<Rightarrow> (string \<Rightarrow> bool)
    \<Rightarrow> (PolicyContainerV1 \<Rightarrow> bool) \<Rightarrow> agent result" where
  "readPolicyAgentPrincipal pf document b proposal now authorCurrent anchorCurrent =
    (case bd_participant b of
       DeterministicParticipant _ _ \<Rightarrow> Inl ''An agent binding is required.''
     | AgentParticipant i version \<Rightarrow>
         let agents = List.map_filter agentOf document in
         (case findAgent agents i of
            None \<Rightarrow> Inl ''The pinned agent declaration is unavailable.''
          | Some pinned \<Rightarrow>
              if policyDigest pf (statementJson (fst pinned)) \<noteq> version
              then Inl ''The pinned agent declaration is unavailable.''
              else walkAccountability pf agents pinned proposal now authorCurrent anchorCurrent [] pinned))"

end
