(* ===== verification/Policy_Admission.thy ===== *)
theory Policy_Admission
  imports Policy_Statements
begin

text \<open>
  What the admission of a Policy document guarantees (\<^verbatim>\<open>apps/nanocore/src/policy/statements.ts\<close>).

  The code compares content by digest. \<open>digest_inj_on\<close> shows that on values among which the hash
  function has no collision equal digests mean equal principals, resources, containers and actions, so that
  containment of scopes is containment of sets; the theorems that need it carry a hypothesis on
  \<^verbatim>\<open>sha256\<close>, that it has no collision among the values compared (\<open>collision_free\<close>) or that it is
  injective, and no other theorem does. \<open>answersTo\<close> is the declarative chain of
  responsibility that the loops over agent declarations walk.
\<close>

subsection \<open>Digests identify values\<close>

text \<open>Values that canonical JSON can encode: no undefined member, no non-finite number.\<close>

fun plainJson :: "JsValue \<Rightarrow> bool" where
  "plainJson JUndefined = False"
| "plainJson JNonFinite = False"
| "plainJson (JArr vs) = (\<forall>v\<in>set vs. plainJson v)"
| "plainJson (JObj ms) = (\<forall>m\<in>set ms. plainJson (snd m))"
| "plainJson _ = True"

lemma plainJson_encodes: "plainJson v \<Longrightarrow> \<exists>t. encodeCanonicalJson omit v = Inr t"
proof (induction omit v rule: encodeCanonicalJson.induct)
  case (7 omit vs)
  then have "\<exists>ts. mapE (encodeCanonicalJson omit) vs = Inr ts" by (induction vs) fastforce+
  then show ?case by auto
next
  case (8 omit members)
  let ?kept = "filter (\<lambda>m. \<not> (snd m = JUndefined \<and> omit)) (sort_key fst members)"
  let ?f = "\<lambda>m. bindE (encodeCanonicalJson omit (snd m)) (\<lambda>text. Inr (jsonString (fst m) @ '':'' @ text))"
  have "\<exists>t. ?f m = Inr t" if "m \<in> set ?kept" for m
    using 8 that by fastforce
  then have "\<exists>ts. mapE ?f xs = Inr ts" if "set xs \<subseteq> set ?kept" for xs
    using that by (induction xs) fastforce+
  then show ?case by fastforce
qed simp_all

lemma canonicalIdentifierName_unique:
  assumes "canonicalIdentifierName v = Inr t" "canonicalIdentifierName w = Inr t"
  shows "canonicalValue False v = canonicalValue False w"
  using encode_unique [of False v t w t "[]" "[]"] assms by (simp add: canonicalIdentifierName_def delimited_def)

text \<open>A hash is free of collisions on some values when equal digests of them are digests of one text. An
  injective hash is so on every plain value.\<close>

definition collision_free :: "Platform \<Rightarrow> JsValue set \<Rightarrow> bool" where
  "collision_free pf V \<longleftrightarrow>
    (\<forall>v\<in>V. \<forall>w\<in>V. policyDigest pf v = policyDigest pf w \<longrightarrow> canonicalIdentifierName v = canonicalIdentifierName w)"

lemma plainJson_text: "plainJson v \<Longrightarrow> \<exists>t. canonicalIdentifierName v = Inr t"
  using plainJson_encodes unfolding canonicalIdentifierName_def .

lemma ideal_hash:
  assumes "inj (pf_sha256 pf)"
  shows "collision_free pf (Collect plainJson)"
  unfolding collision_free_def
proof (intro ballI impI)
  fix v w assume plain: "v \<in> Collect plainJson" "w \<in> Collect plainJson" and same: "policyDigest pf v = policyDigest pf w"
  obtain s t where st: "canonicalIdentifierName v = Inr s" "canonicalIdentifierName w = Inr t"
    using plainJson_text [of v] plainJson_text [of w] plain by auto
  have "pf_sha256 pf s = pf_sha256 pf t"
    using same unfolding policyDigest_def st sum.case by (rule same_append_eq [THEN iffD1])
  then have "s = t" by (rule injD [OF assms])
  with st show "canonicalIdentifierName v = canonicalIdentifierName w" by simp
qed

lemma digest_canonical:
  assumes "collision_free pf V" "v \<in> V" "w \<in> V" "plainJson v" "policyDigest pf v = policyDigest pf w"
  shows "canonicalValue False v = canonicalValue False w"
proof -
  obtain t where t: "canonicalIdentifierName v = Inr t" using plainJson_text [OF assms(4)] by blast
  have "canonicalIdentifierName v = canonicalIdentifierName w" using assms(1,2,3,5) unfolding collision_free_def by blast
  with t show ?thesis by (intro canonicalIdentifierName_unique [of v t w]) simp_all
qed

lemma policyDigest_canonical:
  assumes "inj (pf_sha256 pf)" "plainJson v" "plainJson w" "policyDigest pf v = policyDigest pf w"
  shows "canonicalValue False v = canonicalValue False w"
  by (rule digest_canonical [OF ideal_hash [OF assms(1)]]) (use assms(2-4) in simp_all)

lemma canonical_members:
  assumes "canonicalValue False (JObj ms) = canonicalValue False (JObj ns)"
  shows "(\<lambda>m. (fst m, canonicalValue False (snd m))) ` set ms = (\<lambda>m. (fst m, canonicalValue False (snd m))) ` set ns"
  using arg_cong [OF assms, of "\<lambda>v. case v of JObj xs \<Rightarrow> set xs | _ \<Rightarrow> {}"] by simp

text \<open>The member of a given key, when keys do not repeat.\<close>

fun memberOf :: "string \<Rightarrow> JsValue \<Rightarrow> JsValue option" where
  "memberOf k (JObj ms) = map_of ms k"
| "memberOf k _ = None"

fun distinctKeys :: "JsValue \<Rightarrow> bool" where
  "distinctKeys (JObj ms) = distinct (map fst ms)"
| "distinctKeys _ = False"

lemma option_eqI: "(\<And>c. a = Some c \<longleftrightarrow> b = Some c) \<Longrightarrow> a = b"
  by (cases a; cases b) fastforce+

lemma canonical_lookup:
  assumes same: "canonicalValue False v = canonicalValue False w" and keys: "distinctKeys v" "distinctKeys w"
  shows "map_option (canonicalValue False) (memberOf k v) = map_option (canonicalValue False) (memberOf k w)"
proof -
  obtain ms ns where vw: "v = JObj ms" "w = JObj ns" using keys by (cases v; cases w) simp_all
  have as_map: "map_option (canonicalValue False) (map_of xs k) = Some c
      \<longleftrightarrow> (k, c) \<in> (\<lambda>m. (fst m, canonicalValue False (snd m))) ` set xs" if "distinct (map fst xs)" for xs c
  proof -
    have "(\<exists>z. map_of xs k = Some z \<and> canonicalValue False z = c) \<longleftrightarrow> (\<exists>z. (k, z) \<in> set xs \<and> canonicalValue False z = c)"
      using map_of_eq_Some_iff [OF that] by simp
    also have "\<dots> \<longleftrightarrow> (k, c) \<in> (\<lambda>m. (fst m, canonicalValue False (snd m))) ` set xs" by (force simp: image_iff)
    finally show ?thesis by (simp add: map_option_eq_Some)
  qed
  have "map_option (canonicalValue False) (map_of ms k) = Some c \<longleftrightarrow>
      map_option (canonicalValue False) (map_of ns k) = Some c" for c
    using as_map canonical_members [OF same [unfolded vw]] keys by (simp add: vw)
  then show ?thesis unfolding vw memberOf.simps by (rule option_eqI)
qed

lemma plain_ownerJson [simp]: "plainJson (ownerJson x)"
  by (cases x) simp_all

lemma plain_containerJson [simp]: "plainJson (containerJson c)"
  by (simp add: containerJson_def)

lemma plain_principalJson [simp]: "plainJson (principalJson p)"
  by (cases p) simp_all

lemma plain_resourceJson [simp]: "plainJson (resourceJson r)"
  by (cases r) simp_all

lemma canonical_ownerJson:
  assumes "canonicalValue False (ownerJson x) = canonicalValue False (ownerJson y)"
  shows "x = y"
proof -
  have "distinctKeys (ownerJson z)" for z by (cases z) simp_all
  note look = canonical_lookup [OF assms this this]
  show ?thesis using look [of "''kind''"] look [of "''workspaceId''"] look [of "''userId''"]
    by (cases x; cases y) simp_all
qed

lemma canonical_containerJson:
  assumes "canonicalValue False (containerJson c) = canonicalValue False (containerJson d)"
  shows "c = d"
proof -
  have "distinctKeys (containerJson z)" for z by (simp add: containerJson_def)
  note look = canonical_lookup [OF assms this this]
  have "pc_owner c = pc_owner d" using look [of "''owner''"] canonical_ownerJson by (simp add: containerJson_def)
  then show ?thesis using look [of "''kind''"] look [of "''id''"] by (simp add: containerJson_def)
qed

lemma canonical_principalJson:
  assumes "canonicalValue False (principalJson x) = canonicalValue False (principalJson y)"
  shows "x = y"
proof -
  have "distinctKeys (principalJson z)" for z by (cases z) simp_all
  note look = canonical_lookup [OF assms this this]
  show ?thesis using look [of "''kind''"] look [of "''id''"] by (cases x; cases y) simp_all
qed

lemma canonical_resourceJson:
  assumes "canonicalValue False (resourceJson x) = canonicalValue False (resourceJson y)"
  shows "x = y"
proof -
  have "distinctKeys (resourceJson z)" for z by (cases z) simp_all
  note look = canonical_lookup [OF assms this this]
  show ?thesis
    using look [of "''kind''"] look [of "''container''"] look [of "''workspaceId''"] look [of "''serverId''"]
      look [of "''toolName''"] canonical_containerJson
    by (cases x; cases y) simp_all
qed

text \<open>Under a hash without collisions, equal digests are equal principals, resources, containers, actions.\<close>

lemma digest_inj_on:
  assumes "collision_free pf V"
  shows "principalJson p \<in> V \<Longrightarrow> principalJson q \<in> V \<Longrightarrow> policyDigest pf (principalJson p) = policyDigest pf (principalJson q) \<longleftrightarrow> p = q"
    "resourceJson r \<in> V \<Longrightarrow> resourceJson r' \<in> V \<Longrightarrow> policyDigest pf (resourceJson r) = policyDigest pf (resourceJson r') \<longleftrightarrow> r = r'"
    "containerJson c \<in> V \<Longrightarrow> containerJson d \<in> V \<Longrightarrow> policyDigest pf (containerJson c) = policyDigest pf (containerJson d) \<longleftrightarrow> c = d"
    "JStr s \<in> V \<Longrightarrow> JStr t \<in> V \<Longrightarrow> policyDigest pf (JStr s) = policyDigest pf (JStr t) \<longleftrightarrow> s = t"
proof -
  note same = digest_canonical [OF assms]
  show "principalJson p \<in> V \<Longrightarrow> principalJson q \<in> V \<Longrightarrow> policyDigest pf (principalJson p) = policyDigest pf (principalJson q) \<longleftrightarrow> p = q"
    using canonical_principalJson [OF same [OF _ _ plain_principalJson]] by blast
  show "resourceJson r \<in> V \<Longrightarrow> resourceJson r' \<in> V \<Longrightarrow> policyDigest pf (resourceJson r) = policyDigest pf (resourceJson r') \<longleftrightarrow> r = r'"
    using canonical_resourceJson [OF same [OF _ _ plain_resourceJson]] by blast
  show "containerJson c \<in> V \<Longrightarrow> containerJson d \<in> V \<Longrightarrow> policyDigest pf (containerJson c) = policyDigest pf (containerJson d) \<longleftrightarrow> c = d"
    using canonical_containerJson [OF same [OF _ _ plain_containerJson]] by blast
  show "JStr s \<in> V \<Longrightarrow> JStr t \<in> V \<Longrightarrow> policyDigest pf (JStr s) = policyDigest pf (JStr t) \<longleftrightarrow> s = t"
    using same [of "JStr s" "JStr t"] by auto
qed

lemma digest_inj:
  assumes "inj (pf_sha256 pf)"
  shows "policyDigest pf (principalJson p) = policyDigest pf (principalJson q) \<longleftrightarrow> p = q"
    "policyDigest pf (resourceJson r) = policyDigest pf (resourceJson r') \<longleftrightarrow> r = r'"
    "policyDigest pf (containerJson c) = policyDigest pf (containerJson d) \<longleftrightarrow> c = d"
    "policyDigest pf (JStr s) = policyDigest pf (JStr t) \<longleftrightarrow> s = t"
  using digest_inj_on [OF ideal_hash [OF assms]] by simp_all

text \<open>The values of a scope that are compared by digest.\<close>

definition scopeValues :: "PolicyScopeV1 \<Rightarrow> JsValue set" where
  "scopeValues s = principalJson ` set (ps_subjects s) \<union> JStr ` set (ps_actions s) \<union> resourceJson ` set (ps_resources s)"

lemma collision_free_mono: "collision_free pf V \<Longrightarrow> U \<subseteq> V \<Longrightarrow> collision_free pf U"
  unfolding collision_free_def by blast

lemma scope_values:
  "principalJson ` set (ps_subjects s) \<subseteq> scopeValues s" "JStr ` set (ps_actions s) \<subseteq> scopeValues s"
  "resourceJson ` set (ps_resources s) \<subseteq> scopeValues s"
  unfolding scopeValues_def by blast+

text \<open>A list of values is within another one exactly when its digests are.\<close>

lemma digests_within:
  assumes "\<And>x y. f x \<in> V \<Longrightarrow> f y \<in> V \<Longrightarrow> policyDigest pf (f x) = policyDigest pf (f y) \<longleftrightarrow> x = y"
    and "f ` set xs \<subseteq> V" "f ` set ys \<subseteq> V"
  shows "list_all (\<lambda>v. policyDigest pf v \<in> policyDigest pf ` set (map f xs)) (map f ys) \<longleftrightarrow> set ys \<subseteq> set xs"
proof -
  have "policyDigest pf (f y) \<in> policyDigest pf ` f ` set xs \<longleftrightarrow> y \<in> set xs" if "y \<in> set ys" for y
  proof -
    have "f x \<in> V" if "x \<in> set xs" for x using assms(2) that by blast
    moreover have "f y \<in> V" using assms(3) \<open>y \<in> set ys\<close> by blast
    ultimately have "policyDigest pf (f y) = policyDigest pf (f x) \<longleftrightarrow> y = x" if "x \<in> set xs" for x
      using assms(1) that by blast
    then show ?thesis unfolding image_image image_iff by blast
  qed
  then show ?thesis by (simp add: list_all_iff subset_eq)
qed

lemma policyScopeContains_iff:
  assumes "collision_free pf (scopeValues scope \<union> scopeValues disclosure)"
  shows "policyScopeContains pf scope disclosure \<longleftrightarrow>
    set (ps_subjects disclosure) \<subseteq> set (ps_subjects scope) \<and> set (ps_actions disclosure) \<subseteq> set (ps_actions scope)
    \<and> set (ps_resources disclosure) \<subseteq> set (ps_resources scope)"
proof -
  note eq = digest_inj_on [OF assms] and within = digests_within [where V = "scopeValues scope \<union> scopeValues disclosure"]
  note vals = scope_values [THEN le_supI1] scope_values [THEN le_supI2]
  show ?thesis unfolding policyScopeContains_def Let_def
    using within [OF eq(1) vals(1) vals(4)] within [OF eq(4) vals(2) vals(5)] within [OF eq(2) vals(3) vals(6)] by simp
qed

lemma scope_plain: "scopeValues s \<subseteq> Collect plainJson"
  by (auto simp: scopeValues_def)

lemma ideal_scopes: "inj (pf_sha256 pf) \<Longrightarrow> collision_free pf (scopeValues s \<union> scopeValues d)"
  by (rule collision_free_mono [OF ideal_hash]) (simp_all add: scope_plain)

text \<open>Containment of scopes is containment of sets. When the hash has no collision among the entries of
  two scopes, a disclosure is within a scope exactly when each of its subjects, actions and resources is one of the scope's,
  whatever the order and the repetition of the entries.\<close>

theorem policy_scope_contains_exact:
  assumes "collision_free pf (scopeValues scope \<union> scopeValues disclosure)"
  shows "policyScopeContains pf scope disclosure \<longleftrightarrow>
    set (ps_subjects disclosure) \<subseteq> set (ps_subjects scope) \<and> set (ps_actions disclosure) \<subseteq> set (ps_actions scope)
    \<and> set (ps_resources disclosure) \<subseteq> set (ps_resources scope)"
  by (rule policyScopeContains_iff [OF assms])

subsection \<open>What admission establishes\<close>

lemma foldE_visits: "foldE f xs s = Inr t \<Longrightarrow> x \<in> set xs \<Longrightarrow> \<exists>u v. f x u = Inr v"
  by (induction xs arbitrary: s) (auto simp: result_simps)

lemma validate_accepts:
  assumes "validatePolicyDocument pf input = Inr document"
  shows "document = input" "PolicyDocumentV1Schema (pf_parseUrl pf) document"
    "\<exists>positions. foldE (admitStatement pf) document [] = Inr positions"
    "\<forall>s\<in>set document. delegatedForm s" "distinct (map agentId (activeAgents document))"
    "\<forall>a\<in>set (activeAgents document). checkChain (activeAgents document) a [] a = Inr ()"
    "\<forall>s\<in>set document. checkAgentBinding pf (activeAgents document) s = Inr ()"
  using assms by (auto simp: validatePolicyDocument_def parseWith_def result_simps Let_def list_all_iff split: if_splits)

text \<open>The permission a Goal Coordinator may author under a delegation.\<close>

fun resourceOwner :: "PolicyResourceV1 \<Rightarrow> PolicyOwnerV1" where
  "resourceOwner (McpTool ws server tool) = OwnerWorkspace ws"
| "resourceOwner (ContainerResource c) = pc_owner c"

definition coordinatorPermission :: "PolicyStatementV1 \<Rightarrow> bool" where
  "coordinatorPermission s =
    (\<exists>p a r ws. st_body s = PermissionBody p \<and> pm_grant p = OrdinaryGrant \<and> pm_effect p = AllowEffect
      \<and> st_author s = AgentPrincipal ''goal-coordinator'' \<and> st_authority s = DelegationAuthority r
      \<and> ps_subjects (st_scope s) = [AgentPrincipal a] \<and> a \<noteq> ''goal-coordinator''
      \<and> pc_owner (lt_anchor (st_lifetime s)) = OwnerWorkspace ws
      \<and> (\<forall>x\<in>set (ps_actions (st_scope s)). x \<in> fst ` set PRODUCT_OPERATION_ACCESS_RIGHTS)
      \<and> (\<forall>x\<in>set (ps_resources (st_scope s)). resourceOwner x = OwnerWorkspace ws))"

lemma single_agent: "(case xs of [AgentPrincipal a] \<Rightarrow> P a | _ \<Rightarrow> False) \<longleftrightarrow> (\<exists>a. xs = [AgentPrincipal a] \<and> P a)"
proof (cases xs)
  case (Cons x ys)
  then show ?thesis by (cases ys; cases x) simp_all
qed simp

lemma workspace_resource:
  "(case r of McpTool w _ _ \<Rightarrow> Some w = Some ws
     | ContainerResource c \<Rightarrow> (case pc_owner c of OwnerWorkspace w \<Rightarrow> Some w = Some ws | _ \<Rightarrow> False))
   \<longleftrightarrow> resourceOwner r = OwnerWorkspace ws"
  by (cases r) (simp_all split: PolicyOwnerV1.splits)

lemma anchorWorkspace_Some: "anchorWorkspace s = Some ws \<longleftrightarrow> pc_owner (lt_anchor (st_lifetime s)) = OwnerWorkspace ws"
  by (simp add: anchorWorkspace_def split: PolicyOwnerV1.splits)

lemma admit_delegated:
  assumes "admitDelegatedPermission s p = Inr ()" "st_body s = PermissionBody p" "pm_grant p = OrdinaryGrant"
    "st_authority s = DelegationAuthority r"
  shows "coordinatorPermission s"
proof -
  obtain ws where ws: "anchorWorkspace s = Some ws"
    using assms(1) by (auto simp: admitDelegatedPermission_def Let_def result_simps)
  show ?thesis using assms
    unfolding admitDelegatedPermission_def Let_def ensure_Inr_iff ws single_agent workspace_resource list_all_iff
      coordinatorPermission_def
    using ws [unfolded anchorWorkspace_Some] by blast
qed

lemma admit_authority:
  assumes "admitStatement pf s positions = Inr positions'" "st_state s \<noteq> InactiveState"
  shows "humanRoot s \<or> coordinatorPermission s"
proof (cases "st_body s")
  case (PermissionBody p)
  show ?thesis
  proof (cases "pm_grant p")
    case OrdinaryGrant
    with PermissionBody assms admit_delegated [OF _ PermissionBody] show ?thesis
      by (cases "st_authority s") (auto simp: admitStatement_def admitToolCondition_def Let_def result_simps)
  qed (use PermissionBody assms in \<open>simp_all add: admitStatement_def admitMaintenance_def admitStorageLease_def Let_def result_simps\<close>)
qed (use assms in \<open>auto simp: admitStatement_def admitAgentPrincipal_def admitGoalDelegation_def admitBinding_def Let_def result_simps\<close>)

lemma humanRoot_authority: "humanRoot s \<Longrightarrow> \<exists>u. st_authority s = HumanAuthority u"
  by (cases "st_authority s") (auto simp: humanRoot_def split: PolicyPrincipalV1.splits)

lemma admit_forms:
  assumes "admitStatement pf s positions = Inr positions'" "st_state s \<noteq> InactiveState"
  shows "st_body s \<noteq> ManagedBoundaryBody"
    "st_body s = PermissionBody p \<Longrightarrow> pm_grant p \<noteq> AgentProcessGrant a"
    "st_body s = PermissionBody p \<Longrightarrow> pm_grant p = OrdinaryGrant \<Longrightarrow> humanRoot s \<Longrightarrow> pm_effect p \<noteq> AllowEffect"
  using assms
  by (auto simp: admitStatement_def admitToolCondition_def Let_def result_simps dest!: humanRoot_authority)

text \<open>C17: Authority of an accepted document. Every statement that is not inactive is rooted in a human
  who is both its author and its authority, or is an allow permission authored by the Goal
  Coordinator under a delegation, for one other agent, over registered product operations and
  inside one Workspace. Managed boundaries and agent-process grants never become active, and a
  human condition never grants: an active ordinary permission with a human root only prohibits or
  requires approval.\<close>

theorem policy_active_authority:
  assumes "validatePolicyDocument pf input = Inr document" "s \<in> set document" "st_state s \<noteq> InactiveState"
  shows "(humanRoot s \<or> coordinatorPermission s) \<and> st_body s \<noteq> ManagedBoundaryBody
    \<and> (\<forall>p. st_body s = PermissionBody p \<longrightarrow> (\<forall>a. pm_grant p \<noteq> AgentProcessGrant a)
         \<and> (pm_grant p = OrdinaryGrant \<and> humanRoot s \<longrightarrow> pm_effect p \<noteq> AllowEffect))"
proof -
  obtain positions where "foldE (admitStatement pf) document [] = Inr positions"
    using validate_accepts(3) [OF assms(1)] by blast
  from foldE_visits [OF this assms(2)] obtain u v where "admitStatement pf s u = Inr v" by blast
  from admit_authority [OF this assms(3)] admit_forms [OF this assms(3)] show ?thesis by blast
qed

subsection \<open>Chains of responsibility\<close>

text \<open>\<open>answersTo P agents h a\<close>: following the declared responsibility from \<open>a\<close> ends at the human \<open>h\<close>
  after finitely many agents, each of which satisfies \<open>P\<close>.\<close>

inductive answersTo :: "(agent \<Rightarrow> bool) \<Rightarrow> agent list \<Rightarrow> string \<Rightarrow> agent \<Rightarrow> bool" for P agents h where
  ends: "P a \<Longrightarrow> ap_responsibility (snd a) = HumanPrincipal h \<Longrightarrow> answersTo P agents h a"
| passes: "P a \<Longrightarrow> ap_responsibility (snd a) = AgentPrincipal i \<Longrightarrow> findAgent agents i = Some b
    \<Longrightarrow> answersTo P agents h b \<Longrightarrow> answersTo P agents h a"

inductive_cases answersTo_human: "answersTo P agents h a"

lemma answersTo_functional:
  assumes "answersTo P agents h a" "answersTo P' agents h' a"
  shows "h = h'"
  using assms
proof (induction rule: answersTo.induct)
  case (ends a)
  from ends.prems ends.hyps show ?case by (cases rule: answersTo.cases) simp_all
next
  case (passes a i b)
  from passes.prems passes.hyps have "answersTo P' agents h' b" by (cases rule: answersTo.cases) simp_all
  then show ?case by (rule passes.IH)
qed

lemma checkChain_answersTo:
  "checkChain agents agent seen current = Inr () \<Longrightarrow>
    answersTo (\<lambda>a. ap_responsibleHumanId (snd a) = ap_responsibleHumanId (snd agent)) agents
      (ap_responsibleHumanId (snd agent)) current"
proof (induction agents agent seen current rule: checkChain.induct)
  case (1 agents agent seen current)
  note unfolded = "1.prems" [unfolded checkChain.simps [of agents agent seen current]]
  have same: "ap_responsibleHumanId (snd current) = ap_responsibleHumanId (snd agent)" "agentId current \<notin> set seen"
    using unfolded by (auto split: if_splits)
  show ?case
  proof (cases "ap_responsibility (snd current)")
    case (HumanPrincipal h)
    then show ?thesis using unfolded same by (auto simp: result_simps intro: answersTo.ends)
  next
    case (AgentPrincipal i)
    then obtain b where b: "findAgent agents i = Some b" "checkChain agents agent (set_add (agentId current) seen) b = Inr ()"
      using unfolded same by (auto split: option.splits)
    from "1.IH" [OF same(2) _ AgentPrincipal b] same show ?thesis
      by (intro answersTo.passes [OF _ AgentPrincipal b(1)]) simp_all
  qed
qed

text \<open>C25: Responsibility in an accepted document. The declared responsibility of every active agent
  leads, through finitely many active agents that all declare the same human, to exactly that
  human: there is no cycle, no missing link and no second terminal human.\<close>

theorem policy_responsibility_chain:
  assumes "validatePolicyDocument pf input = Inr document" "a \<in> set (activeAgents document)"
  shows "answersTo (\<lambda>b. ap_responsibleHumanId (snd b) = ap_responsibleHumanId (snd a)) (activeAgents document)
      (ap_responsibleHumanId (snd a)) a
    \<and> (\<forall>P h. answersTo P (activeAgents document) h a \<longrightarrow> h = ap_responsibleHumanId (snd a))"
proof -
  have "answersTo (\<lambda>b. ap_responsibleHumanId (snd b) = ap_responsibleHumanId (snd a)) (activeAgents document)
      (ap_responsibleHumanId (snd a)) a"
    using validate_accepts(6) [OF assms(1)] assms(2) by (intro checkChain_answersTo) blast
  then show ?thesis using answersTo_functional by blast
qed

subsection \<open>Termination of the disclosure walk\<close>

lemma checkDisclosure_fuel:
  "checkChain agents agent seen current = Inr () \<Longrightarrow>
    card (insert (agentId current) (agentId ` set agents) - set seen) \<le> n \<Longrightarrow>
    checkDisclosure n pf agents disclosure current \<noteq> Inl outOfFuel"
proof (induction agents agent seen current arbitrary: n rule: checkChain.induct)
  case (1 agents agent seen current)
  note unfolded = "1.prems"(1) [unfolded checkChain.simps [of agents agent seen current]]
  have same: "ap_responsibleHumanId (snd current) = ap_responsibleHumanId (snd agent)" "agentId current \<notin> set seen"
    using unfolded by (auto split: if_splits)
  have "0 < card (insert (agentId current) (agentId ` set agents) - set seen)"
    using same(2) by (auto simp: card_gt_0_iff)
  with "1.prems"(2) have "0 < n" by linarith
  then obtain m where n: "n = Suc m" by (cases n) simp_all
  show ?case
  proof (cases "ap_responsibility (snd current)")
    case (HumanPrincipal h)
    then show ?thesis by (simp add: n result_simps outOfFuel_def)
  next
    case (AgentPrincipal i)
    then obtain b where b: "findAgent agents i = Some b" "checkChain agents agent (set_add (agentId current) seen) b = Inr ()"
      using unfolded same by (auto split: option.splits)
    have "agentId b \<in> agentId ` set agents" using findAgent_SomeD [OF b(1)] by blast
    then have "insert (agentId b) (agentId ` set agents) - set (set_add (agentId current) seen)
        \<subset> insert (agentId current) (agentId ` set agents) - set seen"
      using same(2) by auto
    from psubset_card_mono [OF _ this] "1.prems"(2) n
    have "card (insert (agentId b) (agentId ` set agents) - set (set_add (agentId current) seen)) \<le> m" by simp
    from "1.IH" [OF same(2) _ AgentPrincipal b this] same have "checkDisclosure m pf agents disclosure b \<noteq> Inl outOfFuel"
      by simp
    then show ?thesis using AgentPrincipal b(1) by (simp add: n result_simps outOfFuel_def)
  qed
qed

lemma foldE_error: "foldE f xs s = Inl e \<Longrightarrow> \<exists>x u. x \<in> set xs \<and> f x u = Inl e"
  by (induction xs arbitrary: s) (auto simp: result_simps, metis)

lemma admit_messages:
  "admitStatement pf s positions \<noteq> Inl outOfFuel"
  by (auto simp: admitStatement_def admitAgentPrincipal_def admitGoalDelegation_def admitMaintenance_def
      admitStorageLease_def admitDelegatedPermission_def admitToolCondition_def admitBinding_def
      policyOperationDefinition_def outOfFuel_def Let_def result_simps
      split: StatementBody.splits PolicyGrantV1.splits PolicyAuthorityV1.splits option.splits)

lemma checkChain_messages: "checkChain agents agent seen current \<noteq> Inl outOfFuel"
proof (induction agents agent seen current rule: checkChain.induct)
  case (1 agents agent seen current)
  then show ?case
    by (subst checkChain.simps) (auto simp: outOfFuel_def result_simps split: PolicyPrincipalV1.splits option.splits)
qed

lemma agents_covered: "card (insert (agentId a) (agentId ` set agents) - set []) \<le> length agents"
  if "a \<in> set agents" for agents :: "agent list"
proof -
  have "insert (agentId a) (agentId ` set agents) = agentId ` set agents" using that by blast
  then show ?thesis using card_image_le [of "set agents" agentId] card_length [of agents] by simp
qed

lemma checkAgentBinding_messages:
  assumes "\<forall>a\<in>set agents. checkChain agents a [] a = Inr ()"
  shows "checkAgentBinding pf agents s \<noteq> Inl outOfFuel"
proof -
  have "checkDisclosure (length agents) pf agents d a \<noteq> Inl outOfFuel" if "findAgent agents i = Some a" for i a d
  proof -
    have "a \<in> set agents" using findAgent_SomeD [OF that] ..
    with assms show ?thesis by (intro checkDisclosure_fuel [OF _ agents_covered]) blast+
  qed
  then show ?thesis
    by (auto simp: checkAgentBinding_def result_simps outOfFuel_def
        split: StatementBody.splits ParticipantV1.splits option.splits)
qed

text \<open>C34: Validation ends on every input. The walk over the disclosure domains has no bound of its own in
  the source; since the chains of all active agents are checked before it, it always reaches the
  terminal human, or a failing link, within as many steps as there are active agents.\<close>

theorem policy_validation_terminates:
  "validatePolicyDocument pf input \<noteq> Inl outOfFuel"
proof
  assume stuck: "validatePolicyDocument pf input = Inl outOfFuel"
  let ?agents = "activeAgents input"
  have "foldE (admitStatement pf) input [] \<noteq> Inl outOfFuel"
    using foldE_error [of "admitStatement pf" input "[]" outOfFuel] admit_messages by blast
  moreover have "traverseE (\<lambda>agent. checkChain ?agents agent [] agent) ?agents \<noteq> Inl outOfFuel"
    using traverseE_InlD [of "\<lambda>agent. checkChain ?agents agent [] agent" ?agents outOfFuel] checkChain_messages by blast
  moreover have "traverseE (checkAgentBinding pf ?agents) input \<noteq> Inl outOfFuel"
    if "traverseE (\<lambda>agent. checkChain ?agents agent [] agent) ?agents = Inr ()"
    using traverseE_InlD [of "checkAgentBinding pf ?agents" input outOfFuel]
      checkAgentBinding_messages that [unfolded traverseE_Inr_iff] by blast
  ultimately show False using stuck
    by (auto simp: validatePolicyDocument_def parseWith_def Let_def bindE_Inl_iff ensure_Inl_iff outOfFuel_def ZodError_def
        split: if_splits)
qed

end
