(* ===== verification/Policy_Selection.thy ===== *)
theory Policy_Selection
  imports Policy_Admission "HOL-Library.Multiset"
begin

text \<open>
  Selection of participants and the accountability of agent participants
  (\<^verbatim>\<open>apps/nanocore/src/policy/statements.ts\<close>).

  The domain of an agent is decided by the access kernel on a small policy built for the purpose, so
  its meaning comes from the contract of the kernel (\<open>kernel.eval_iff\<close>). Selection is shown to be a
  function of the set of statements, and a change that is classified as narrowing, which skips the
  approval of a widening one, is shown never to select more than before.
\<close>

subsection \<open>The domain of an agent, decided by the Kernel\<close>

definition coversProposal :: "PolicyResourceV1 \<Rightarrow> string \<Rightarrow> agent \<Rightarrow> bool" where
  "coversProposal resource operation a \<longleftrightarrow>
    AgentPrincipal (agentId a) \<in> set (ps_subjects (st_scope (fst a)))
    \<and> resource \<in> set (ps_resources (st_scope (fst a))) \<and> operation \<in> set (ps_actions (st_scope (fst a)))"

lemma named_agentDomainPolicy: "named (agentDomainPolicy pf a resource operation)"
  by (simp add: named_def agentDomainPolicy_def)

lemma target_in_scope:
  "contained (agentDomainPolicy pf a resource operation) ''target'' ''scope''"
proof -
  let ?A = "assigned (agentDomainPolicy pf a resource operation)"
  have "(''target'', ''resources'') \<in> ?A" "(''resources'', ''scope'') \<in> ?A"
    by (simp_all add: assigned_def agentDomainPolicy_def)
  then show ?thesis unfolding contained_def by (meson converse_rtrancl_into_rtrancl rtrancl.rtrancl_refl)
qed

lemma scope_class: "element_kind (agentDomainPolicy pf a resource operation) ''scope'' = Some PolicyClass"
  by (simp add: element_kind_def agentDomainPolicy_def)

lemma agentDomain_allows:
  assumes "inj (pf_sha256 pf)"
    and allowed: "effect (evaluateAccess (agentDomainPolicy pf a resource operation)
      \<lparr>rq_user = Some ''agent'', rq_process = None, rq_operation = operation, rq_target = ''target''\<rparr>) = Allow"
  shows "coversProposal resource operation a"
proof -
  let ?P = "agentDomainPolicy pf a resource operation"
  have "\<exists>oper u. List.find (\<lambda>e. op_id e = operation) (operations ?P) = Some oper
      \<and> (\<forall>ar\<in>set (op_accessRights oper). \<forall>pc. contained ?P ''target'' pc \<and> element_kind ?P pc = Some PolicyClass
          \<longrightarrow> privileged ?P u ''target'' ar pc)"
    using allowed [unfolded kernel.eval_iff [OF named_agentDomainPolicy]] by (auto simp: ngac_permits_def)
  then obtain oper u where oper: "List.find (\<lambda>e. op_id e = operation) (operations ?P) = Some oper"
      and all: "\<forall>ar\<in>set (op_accessRights oper). privileged ?P u ''target'' ar ''scope''"
    using target_in_scope scope_class by blast
  have "oper = \<lparr>op_id = operation, op_accessRights = [operation]\<rparr>"
    using oper by (simp add: agentDomainPolicy_def)
  then have "privileged ?P u ''target'' operation ''scope''" using all by simp
  then have "associations ?P \<noteq> []" by (auto simp: privileged_def)
  then show ?thesis
    by (auto simp: agentDomainPolicy_def coversProposal_def digest_inj [OF assms(1)] split: if_splits)
qed

text \<open>What the walk establishes of each declaration it passes.\<close>

definition answerable ::
  "agent list \<Rightarrow> agent \<Rightarrow> PolicyProposal \<Rightarrow> string \<Rightarrow> int \<Rightarrow> (string \<Rightarrow> bool) \<Rightarrow> (PolicyContainerV1 \<Rightarrow> bool) \<Rightarrow> agent \<Rightarrow> bool" where
  "answerable agents pinned proposal operation now au an b \<longleftrightarrow>
    agentAccountable agents pinned proposal now au an b \<and> coversProposal (pq_resource proposal) operation b"

lemma walk_accountable:
  "\<lbrakk>walkAccountability pf agents pinned proposal now au an seen current = Inr a; inj (pf_sha256 pf);
    policyOperationDefinition pf (pq_operation proposal) = Inr (operation, points)\<rbrakk> \<Longrightarrow>
    a = pinned \<and> answersTo (answerable agents pinned proposal operation now au an) agents
      (ap_responsibleHumanId (snd pinned)) current"
proof (induction pf agents pinned proposal now au an seen current rule: walkAccountability.induct)
  case (1 pf agents pinned proposal now au an seen current)
  note unfolded = "1.prems"(1) [unfolded walkAccountability.simps [of pf agents pinned proposal now au an seen current]]
  have new: "\<not> (agentId current \<in> set seen \<or> \<not> agentAccountable agents pinned proposal now au an current)"
    using unfolded by (auto split: if_splits)
  have allowed: "effect (evaluateAccess (agentDomainPolicy pf current (pq_resource proposal) operation)
      \<lparr>rq_user = Some ''agent'', rq_process = None, rq_operation = operation, rq_target = ''target''\<rparr>) = Allow"
    using unfolded new "1.prems"(3) by (auto split: if_splits)
  have here: "answerable agents pinned proposal operation now au an current"
    using new agentDomain_allows [OF "1.prems"(2) allowed] by (simp add: answerable_def)
  show ?case
  proof (cases "ap_responsibility (snd current)")
    case (HumanPrincipal h)
    then have "h = ap_responsibleHumanId (snd pinned)" "a = pinned"
      using unfolded new "1.prems"(3) allowed by (auto split: if_splits)
    then show ?thesis using answersTo.ends [where P = "answerable agents pinned proposal operation now au an", OF here] HumanPrincipal by simp
  next
    case (AgentPrincipal i)
    then obtain b where b: "findAgent agents i = Some b"
        "walkAccountability pf agents pinned proposal now au an (set_add (agentId current) seen) b = Inr a"
      using unfolded new "1.prems"(3) allowed by (auto split: option.splits)
    from "1.IH" [OF new "1.prems"(3) refl _ AgentPrincipal b(1) b(2) "1.prems"(2,3)] allowed
    show ?thesis using answersTo.passes [where P = "answerable agents pinned proposal operation now au an", OF here AgentPrincipal b(1)] by simp
  qed
qed

text \<open>An agent participant is used only while it is accountable. When the declaration pinned by a
  binding is accepted for a proposal, it is the declaration of the pinned version, and the chain of
  responsibility from it ends at its declared human through agents that are all active, uniquely
  declared, unexpired, anchored in the Workspace and Turn of the proposal, authored by a current
  human, and whose own domain contains the resource and the action of the proposal, as decided by
  the access kernel. Digests are compared, so the hash must be free of collisions.\<close>

theorem policy_agent_accountable:
  assumes "readPolicyAgentPrincipal pf document b proposal now au an = Inr a" "inj (pf_sha256 pf)"
  shows "\<exists>i operation points. bd_participant b = AgentParticipant i (policyDigest pf (statementJson (fst a)))
    \<and> agentId a = i \<and> fst a \<in> set document
    \<and> policyOperationDefinition pf (pq_operation proposal) = Inr (operation, points)
    \<and> answersTo (answerable (List.map_filter agentOf document) a proposal operation now au an)
        (List.map_filter agentOf document) (ap_responsibleHumanId (snd a)) a"
proof -
  let ?agents = "List.map_filter agentOf document"
  obtain i version pinned where pinned: "bd_participant b = AgentParticipant i version" "findAgent ?agents i = Some pinned"
      "policyDigest pf (statementJson (fst pinned)) = version"
      "walkAccountability pf ?agents pinned proposal now au an [] pinned = Inr a"
    using assms(1) by (auto simp: readPolicyAgentPrincipal_def Let_def split: ParticipantV1.splits option.splits if_splits)
  obtain operation points where oper: "policyOperationDefinition pf (pq_operation proposal) = Inr (operation, points)"
    using pinned(4) by (subst (asm) walkAccountability.simps) (auto split: if_splits sum.splits)
  have "fst pinned \<in> set document" using findAgent_SomeD [OF pinned(2)]
    by (auto simp: List.map_filter_def agentOf_def split: StatementBody.splits)
  then show ?thesis using walk_accountable [OF pinned(4) assms(2) oper] findAgent_SomeD [OF pinned(2)] pinned(1,3) oper
    by blast
qed

subsection \<open>Selection does not depend on the order of statements\<close>

lemma filterE_succeeds: "filterE f xs = Inr ys \<Longrightarrow> ys = filter (\<lambda>x. f x = Inr True) xs \<and> (\<forall>x\<in>set xs. \<exists>b. f x = Inr b)"
  by (induction xs arbitrary: ys) (auto simp: result_simps)

lemma filterE_error: "filterE f xs = Inl e \<Longrightarrow> \<exists>x\<in>set xs. f x = Inl e"
  by (induction xs) (auto simp: result_simps)

lemma bindingSelected_error:
  assumes "bindingSelected pf proposal stage now au an sb = Inl e"
  shows "policyOperationDefinition pf (pq_operation proposal) = Inl e"
  using assms by (auto simp: bindingSelected_def policyScopeIncludesProposal_def Let_def result_simps
    split: prod.splits if_splits PolicyPrincipalV1.splits)

lemma filterE_mset:
  assumes same: "mset xs = mset ys" and one: "\<And>x e. f x = Inl e \<Longrightarrow> e = e0"
  shows "map_sum id mset (filterE f xs) = map_sum id mset (filterE f ys)"
proof -
  have sets: "set xs = set ys" using same by (rule mset_eq_setD)
  show ?thesis
  proof (cases "filterE f xs"; cases "filterE f ys")
    fix us vs assume "filterE f xs = Inr us" "filterE f ys = Inr vs"
    then show ?thesis using filterE_succeeds [of f xs us] filterE_succeeds [of f ys vs] same
      by simp
  next
    fix e e' assume "filterE f xs = Inl e" "filterE f ys = Inl e'"
    then have "e = e0" "e' = e0" using filterE_error [of f xs e] filterE_error [of f ys e'] one by blast+
    with \<open>filterE f xs = Inl e\<close> \<open>filterE f ys = Inl e'\<close> show ?thesis by simp
  next
    fix e vs assume "filterE f xs = Inl e" "filterE f ys = Inr vs"
    then show ?thesis using filterE_error [of f xs e] filterE_succeeds [of f ys vs] sets by force
  next
    fix e us assume "filterE f xs = Inr us" "filterE f ys = Inl e"
    then show ?thesis using filterE_error [of f ys e] filterE_succeeds [of f xs us] sets by force
  qed
qed

lemma map_filter_mset: "mset xs = mset ys \<Longrightarrow> mset (List.map_filter f xs) = mset (List.map_filter f ys)"
  by (simp add: List.map_filter_def)

lemma bindingOf_fst: "bindingOf s = Some sb \<Longrightarrow> fst sb = s"
  by (auto simp: bindingOf_def split: StatementBody.splits)

lemma binding_source: "sb \<in> set (List.map_filter bindingOf document) \<longleftrightarrow> fst sb \<in> set document \<and> bindingOf (fst sb) = Some sb"
proof -
  have "sb \<in> set (List.map_filter bindingOf document) \<longleftrightarrow> (\<exists>s\<in>set document. bindingOf s = Some sb)"
    by (force simp: List.map_filter_def)
  then show ?thesis using bindingOf_fst by blast
qed

lemma bindings_identified:
  assumes "distinct (map st_id document)"
  shows "inj_on (\<lambda>(s, b). st_id s) (set (List.map_filter bindingOf document))"
proof (rule inj_onI)
  fix x y
  assume "x \<in> set (List.map_filter bindingOf document)" "y \<in> set (List.map_filter bindingOf document)"
    and "(case x of (s, b) \<Rightarrow> st_id s) = (case y of (s, b) \<Rightarrow> st_id s)"
  then have mem: "fst x \<in> set document" "bindingOf (fst x) = Some x" "fst y \<in> set document" "bindingOf (fst y) = Some y"
      "st_id (fst x) = st_id (fst y)"
    by (simp_all add: binding_source case_prod_unfold)
  have "inj_on st_id (set document)" using assms by (simp add: distinct_map)
  from inj_onD [OF this mem(5,1,3)] have "fst x = fst y" .
  with mem(2) have "bindingOf (fst y) = Some x" by (simp only:)
  from trans [OF sym [OF this] mem(4)] show "x = y" by (simp only: option.inject)
qed

lemma sort_key_permuted:
  assumes "mset xs = mset ys" "inj_on f (set xs)"
  shows "sort_key f xs = sort_key f ys"
  using assms by (intro sort_key_inj_key_eq) simp_all

lemma select_permuted:
  assumes same: "mset document = mset document'" and distinct: "distinct (map st_id document)"
  shows "selectPolicyBindings pf document proposal stage now au an = selectPolicyBindings pf document' proposal stage now au an"
proof -
  let ?f = "bindingSelected pf proposal stage now au an"
  obtain e0 where e0: "\<And>x e. ?f x = Inl e \<Longrightarrow> e = e0"
    using bindingSelected_error [of pf proposal stage now au an]
    by (cases "policyOperationDefinition pf (pq_operation proposal)") force+
  have selected: "map_sum id mset (filterE ?f (List.map_filter bindingOf document))
      = map_sum id mset (filterE ?f (List.map_filter bindingOf document'))"
    by (rule filterE_mset [OF map_filter_mset [OF same]]) (rule e0)
  show ?thesis
  proof (cases "filterE ?f (List.map_filter bindingOf document)")
    case (Inl e)
    then have "filterE ?f (List.map_filter bindingOf document') = Inl e"
      using selected by (cases "filterE ?f (List.map_filter bindingOf document')") simp_all
    then show ?thesis by (simp add: selectPolicyBindings_def Inl)
  next
    case (Inr us)
    then obtain vs where vs: "filterE ?f (List.map_filter bindingOf document') = Inr vs" "mset us = mset vs"
      using selected by (cases "filterE ?f (List.map_filter bindingOf document')") simp_all
    have "set us \<subseteq> set (List.map_filter bindingOf document)" using filterE_succeeds [OF Inr] by auto
    from sort_key_permuted [OF vs(2) inj_on_subset [OF bindings_identified [OF distinct] this]]
    show ?thesis by (simp add: selectPolicyBindings_def Inr vs(1))
  qed
qed

text \<open>Active bindings of an accepted document occupy different positions.\<close>

definition activeBindings :: "PolicyDocumentV1 \<Rightarrow> binding list" where
  "activeBindings document = filter (\<lambda>(s, b). st_state s \<noteq> InactiveState) (List.map_filter bindingOf document)"

lemma admit_kept:
  assumes "admitStatement pf s positions = Inr positions'" "st_state s = InactiveState \<or> bindingOf s = None"
  shows "positions' = positions"
proof (cases "st_body s")
  case (PermissionBody p)
  then show ?thesis using assms
    by (cases "pm_grant p"; cases "st_authority s") (auto simp: admitStatement_def Let_def result_simps split: if_splits)
qed (use assms in \<open>auto simp: admitStatement_def bindingOf_def Let_def result_simps split: if_splits\<close>)

lemma admit_binding_position:
  assumes "admitStatement pf s positions = Inr positions'" "st_state s \<noteq> InactiveState" "bindingOf s = Some sb"
  shows "bindingPosition (snd sb) \<notin> set positions \<and> set positions' = insert (bindingPosition (snd sb)) (set positions)"
  using assms by (cases "st_body s") (auto simp: admitStatement_def bindingOf_def Let_def result_simps)

lemma admit_positions:
  "foldE (admitStatement pf) xs positions = Inr positions' \<Longrightarrow>
    distinct (map (\<lambda>sb. bindingPosition (snd sb)) (activeBindings xs))
    \<and> (\<lambda>sb. bindingPosition (snd sb)) ` set (activeBindings xs) \<inter> set positions = {}"
proof (induction xs arbitrary: positions)
  case Nil
  then show ?case by (simp add: activeBindings_def List.map_filter_def)
next
  case (Cons s xs)
  then obtain mid where mid: "admitStatement pf s positions = Inr mid" "foldE (admitStatement pf) xs mid = Inr positions'"
    by (auto simp: result_simps)
  show ?case
  proof (cases "st_state s = InactiveState \<or> bindingOf s = None")
    case True
    then have "activeBindings (s # xs) = activeBindings xs"
      using bindingOf_fst [of s] by (auto simp: activeBindings_def List.map_filter_def)
    then show ?thesis using Cons.IH [OF mid(2)] admit_kept [OF mid(1) True] by simp
  next
    case False
    then obtain sb where sb: "bindingOf s = Some sb" by blast
    then have "activeBindings (s # xs) = sb # activeBindings xs"
      using False bindingOf_fst [OF sb] by (auto simp: activeBindings_def List.map_filter_def)
    then show ?thesis using Cons.IH [OF mid(2)] admit_binding_position [OF mid(1) _ sb] False by auto
  qed
qed

lemma selected_active:
  assumes "selectPolicyBindings pf document proposal stage now au an = Inr selected"
  shows "mset selected \<subseteq># mset (activeBindings document)" "sorted (map (\<lambda>(s, b). bd_order b) selected)"
    "sb \<in> set selected \<longleftrightarrow> sb \<in> set (List.map_filter bindingOf document) \<and> bindingSelected pf proposal stage now au an sb = Inr True"
proof -
  obtain us where us: "filterE (bindingSelected pf proposal stage now au an) (List.map_filter bindingOf document) = Inr us"
      and selected: "selected = sort_key (\<lambda>(s, b). bd_order b) (sort_key (\<lambda>(s, b). st_id s) us)"
    using assms by (auto simp: selectPolicyBindings_def result_simps)
  note eq = filterE_succeeds [OF us, THEN conjunct1]
  have active: "st_state (fst x) \<noteq> InactiveState" if "bindingSelected pf proposal stage now au an x = Inr True" for x
    using that by (auto simp: bindingSelected_def Let_def split: prod.splits if_splits)
  have "us = filter (\<lambda>x. bindingSelected pf proposal stage now au an x = Inr True) (activeBindings document)"
    unfolding eq activeBindings_def filter_filter using active by (intro filter_cong) auto
  then have "mset us \<subseteq># mset (activeBindings document)" by (simp add: multiset_filter_subset)
  then show "mset selected \<subseteq># mset (activeBindings document)" by (simp add: selected)
  show "sorted (map (\<lambda>(s, b). bd_order b) selected)" by (simp add: selected)
  show "sb \<in> set selected \<longleftrightarrow> sb \<in> set (List.map_filter bindingOf document) \<and> bindingSelected pf proposal stage now au an sb = Inr True"
    by (simp add: selected eq)
qed

lemma distinct_map_submset:
  assumes "mset xs \<subseteq># mset ys" "distinct (map f ys)"
  shows "distinct (map f xs)"
proof -
  obtain zs where "mset ys = mset (xs @ zs)"
    using assms(1) by (metis ex_mset mset_append mset_subset_eq_exists_conv)
  then have "mset (map f ys) = mset (map f (xs @ zs))" by simp
  from mset_eq_imp_distinct_iff [OF this] assms(2) show ?thesis by simp
qed

text \<open>Selection is a function of the set of statements. For an accepted document, the participants of
  a proposal do not depend on the order in which the statements are written, and they run in
  increasing order, strictly increasing among the bindings of one stage and mode.\<close>

theorem policy_selection_ordered:
  assumes "validatePolicyDocument pf input = Inr document" "mset document' = mset document"
    "selectPolicyBindings pf document proposal stage now au an = Inr selected"
  shows "selectPolicyBindings pf document' proposal stage now au an = Inr selected
    \<and> sorted_wrt (\<lambda>x y. bd_order (snd x) \<le> bd_order (snd y)
        \<and> (bd_stage (snd x) = bd_stage (snd y) \<and> bd_mode (snd x) = bd_mode (snd y) \<longrightarrow> bd_order (snd x) < bd_order (snd y)))
      selected"
proof -
  have ids: "distinct (map st_id document)"
    using validate_accepts(2) [OF assms(1)] by (simp add: PolicyDocumentV1Schema_def)
  have same: "selectPolicyBindings pf document' proposal stage now au an = Inr selected"
    using select_permuted [OF assms(2) [symmetric] ids] assms(3) by simp
  obtain positions where "foldE (admitStatement pf) document [] = Inr positions"
    using validate_accepts(3) [OF assms(1)] by blast
  from admit_positions [OF this] selected_active(1) [OF assms(3)]
  have "distinct (map (\<lambda>sb. bindingPosition (snd sb)) selected)" by (elim conjE distinct_map_submset)
  then have apart: "sorted_wrt (\<lambda>x y. bindingPosition (snd x) \<noteq> bindingPosition (snd y)) selected"
    by (simp add: distinct_map sorted_wrt_iff_nth_less inj_on_def distinct_conv_nth)
  have operation: "bd_operation (snd x) = pq_operation proposal" if "x \<in> set selected" for x
    using that unfolding selected_active(3) [OF assms(3)]
    by (auto simp: bindingSelected_def Let_def split: prod.splits if_splits)
  have "sorted_wrt (\<lambda>x y. bd_order (snd x) \<le> bd_order (snd y)) selected"
    using selected_active(2) [OF assms(3)] by (simp add: sorted_map case_prod_unfold)
  with apart have both: "sorted_wrt (\<lambda>x y. bindingPosition (snd x) \<noteq> bindingPosition (snd y) \<and> bd_order (snd x) \<le> bd_order (snd y)) selected"
    by (simp add: sorted_wrt_iff_nth_less)
  have "sorted_wrt (\<lambda>x y. bd_order (snd x) \<le> bd_order (snd y)
        \<and> (bd_stage (snd x) = bd_stage (snd y) \<and> bd_mode (snd x) = bd_mode (snd y) \<longrightarrow> bd_order (snd x) < bd_order (snd y)))
      selected"
  proof (rule sorted_wrt_mono_rel [OF _ both], goal_cases)
    case (1 x y)
    then show ?case using operation [of x] operation [of y] by (simp add: bindingPosition_def) linarith
  qed
  with same show ?thesis by blast
qed

subsection \<open>Narrowing\<close>

lemma plain_scopeJson [simp]: "plainJson (scopeJson s)"
  by (simp add: scopeJson_def)

lemma plain_nullJson [simp]: "(\<And>x. plainJson (f x)) \<Longrightarrow> plainJson (nullJson f v)"
  by (simp add: nullJson_def split: option.splits)

lemma plain_authorityJson [simp]: "plainJson (authorityJson a)"
  by (cases a) (simp_all add: statementReferenceJson_def)

lemma plain_lifetimeJson [simp]: "plainJson (lifetimeJson l)"
  by (auto simp: lifetimeJson_def optMember_def split: option.splits)

lemma plain_participantJson [simp]: "plainJson (participantJson p)"
  by (cases p) simp_all

lemma plain_bindingMembers: "m \<in> set (bindingMembers b) \<Longrightarrow> plainJson (snd m)"
  by (auto simp: bindingMembers_def)

definition fixedBinding :: "PolicyStatementV1 \<Rightarrow> PolicyBindingV1 \<Rightarrow> (string \<times> JsValue) list" where
  "fixedBinding s b =
    [(''id'', JStr (st_id s)), (''authority'', authorityJson (st_authority s)), (''kind'', JStr ''binding''),
     (''operation'', JStr (bd_operation b)), (''stage'', JStr (stageText (bd_stage b))),
     (''mode'', JStr (modeText (bd_mode b))), (''participant'', participantJson (bd_participant b)),
     (''order'', JNum (bd_order b)), (''timeoutMs'', JNum (bd_timeoutMs b)), (''failure'', JStr (failureText (bd_failure b))),
     (''circuit'', JObj [(''failures'', JNum (ci_failures (bd_circuit b))),
        (''recoveryAfterMs'', JNum (ci_recoveryAfterMs (bd_circuit b)))])]"

lemma fixedContent_binding: "st_body s = BindingBody b \<Longrightarrow> fixedContentJson s = JObj (fixedBinding s b)"
  by (simp add: fixedContentJson_def statementMembers_def bindingMembers_def fixedBinding_def)

lemma canonical_participantJson:
  assumes "canonicalValue False (participantJson x) = canonicalValue False (participantJson y)"
  shows "x = y"
proof -
  have "distinctKeys (participantJson z)" for z by (cases z) simp_all
  note look = canonical_lookup [OF assms this this]
  show ?thesis using look [of "''kind''"] look [of "''id''"] look [of "''version''"] by (cases x; cases y) simp_all
qed

lemma stageText_inject [simp]: "stageText x = stageText y \<longleftrightarrow> x = y"
  by (cases x; cases y) simp_all

text \<open>The values of a statement that are compared by digest when a document is narrowed: its fixed content, its
  anchor, and the entries of its scope and of its disclosure.\<close>

definition statementValues :: "PolicyStatementV1 \<Rightarrow> JsValue set" where
  "statementValues s = {fixedContentJson s, containerJson (lt_anchor (st_lifetime s))} \<union> scopeValues (st_scope s)
    \<union> (case st_body s of BindingBody b \<Rightarrow> scopeValues (bd_inputDisclosure b) | _ \<Rightarrow> {})"

definition documentValues :: "PolicyDocumentV1 \<Rightarrow> JsValue set" where
  "documentValues document = (\<Union>s\<in>set document. statementValues s)"

lemma statement_values:
  "fixedContentJson s \<in> statementValues s" "containerJson (lt_anchor (st_lifetime s)) \<in> statementValues s"
  "scopeValues (st_scope s) \<subseteq> statementValues s"
  "st_body s = BindingBody b \<Longrightarrow> scopeValues (bd_inputDisclosure b) \<subseteq> statementValues s"
  by (auto simp: statementValues_def)

lemma finite_documentValues: "finite (documentValues document)"
  by (auto simp: documentValues_def statementValues_def scopeValues_def split: StatementBody.splits)

lemma statement_scopes:
  assumes "collision_free pf (statementValues s \<union> statementValues s')"
  shows "collision_free pf (scopeValues (st_scope s) \<union> scopeValues (st_scope s'))"
    "st_body s = BindingBody b \<Longrightarrow> st_body s' = BindingBody b' \<Longrightarrow>
      collision_free pf (scopeValues (bd_inputDisclosure b) \<union> scopeValues (bd_inputDisclosure b'))"
  by (rule collision_free_mono [OF assms], use statement_values in blast)+

lemma fixedContent_same:
  assumes "collision_free pf (statementValues s \<union> statementValues s')" "policyDigest pf (fixedContentJson s) = policyDigest pf (fixedContentJson s')"
    "st_body s = BindingBody b" "st_body s' = BindingBody b'"
  shows "bd_operation b = bd_operation b'" "bd_stage b = bd_stage b'" "bd_participant b = bd_participant b'"
proof -
  have "plainJson (fixedContentJson s)" by (simp add: fixedContent_binding [OF assms(3)] fixedBinding_def)
  then have "canonicalValue False (fixedContentJson s) = canonicalValue False (fixedContentJson s')"
    by (intro digest_canonical [OF assms(1) _ _ _ assms(2)]) (simp_all add: statement_values(1))
  then have same: "canonicalValue False (JObj (fixedBinding s b)) = canonicalValue False (JObj (fixedBinding s' b'))"
    unfolding fixedContent_binding [OF assms(3)] fixedContent_binding [OF assms(4)] .
  have keys: "distinctKeys (JObj (fixedBinding z c))" for z c by (simp add: fixedBinding_def)
  note look = canonical_lookup [OF same keys keys]
  show "bd_operation b = bd_operation b'" using look [of "''operation''"] by (simp add: fixedBinding_def)
  show "bd_stage b = bd_stage b'" using look [of "''stage''"] by (simp add: fixedBinding_def)
  show "bd_participant b = bd_participant b'"
    using look [of "''participant''"] canonical_participantJson by (simp add: fixedBinding_def)
qed

lemma expiry_narrowed: "expiryNotLater (lt_notAfter l') (lt_notAfter l) \<Longrightarrow> expired l now \<Longrightarrow> expired l' now"
  by (auto simp: expiryNotLater_def expired_def Let_def split: option.splits if_splits prod.splits bool.splits)

lemma includes_narrowed:
  assumes "collision_free pf (scopeValues scope \<union> scopeValues scope')" "policyScopeContains pf scope scope'"
    and "policyScopeIncludesProposal pf scope' proposal = Inr True"
  shows "policyScopeIncludesProposal pf scope proposal = Inr True"
proof -
  have within: "set (ps_subjects scope') \<subseteq> set (ps_subjects scope)" "set (ps_actions scope') \<subseteq> set (ps_actions scope)"
      "set (ps_resources scope') \<subseteq> set (ps_resources scope)"
    using assms(2) unfolding policyScopeContains_iff [OF assms(1)] by simp_all
  with assms(3) show ?thesis unfolding policyScopeIncludesProposal_def by (fastforce simp: result_simps split: if_splits)
qed

lemma narrowed_shape:
  assumes "isNarrowedObservation pf (Some s) (Some s') userId"
  obtains b b' where "st_body s = BindingBody b" "st_body s' = BindingBody b'" "st_author s = st_author s'"
    "st_state s' = st_state s \<or> st_state s' = InactiveState"
    "policyDigest pf (fixedContentJson s) = policyDigest pf (fixedContentJson s')"
    "policyDigest pf (containerJson (lt_anchor (st_lifetime s))) = policyDigest pf (containerJson (lt_anchor (st_lifetime s')))"
    "expiryNotLater (lt_notAfter (st_lifetime s')) (lt_notAfter (st_lifetime s))"
    "policyScopeContains pf (st_scope s) (st_scope s')"
    "policyScopeContains pf (bd_inputDisclosure b) (bd_inputDisclosure b')"
  using assms unfolding isNarrowedObservation_def option.case
  by (cases "st_body s"; cases "st_body s'") simp_all

lemma narrowed_selected:
  assumes free: "collision_free pf (statementValues s \<union> statementValues s')" and narrowed: "isNarrowedObservation pf (Some s) (Some s') userId"
    and selected: "bindingSelected pf proposal stage now au an (s', b') = Inr True" and body: "st_body s' = BindingBody b'"
  shows "\<exists>b. st_body s = BindingBody b \<and> bindingSelected pf proposal stage now au an (s, b) = Inr True
    \<and> bd_participant b = bd_participant b'
    \<and> set (ps_subjects (bd_inputDisclosure b')) \<subseteq> set (ps_subjects (bd_inputDisclosure b))
    \<and> set (ps_actions (bd_inputDisclosure b')) \<subseteq> set (ps_actions (bd_inputDisclosure b))
    \<and> set (ps_resources (bd_inputDisclosure b')) \<subseteq> set (ps_resources (bd_inputDisclosure b))"
  using narrowed
proof (rule narrowed_shape)
  fix b c
  assume b: "st_body s = BindingBody b" "st_body s' = BindingBody c" and author: "st_author s = st_author s'"
    and state: "st_state s' = st_state s \<or> st_state s' = InactiveState"
    and content: "policyDigest pf (fixedContentJson s) = policyDigest pf (fixedContentJson s')"
    and anchor: "policyDigest pf (containerJson (lt_anchor (st_lifetime s))) = policyDigest pf (containerJson (lt_anchor (st_lifetime s')))"
    and expiry: "expiryNotLater (lt_notAfter (st_lifetime s')) (lt_notAfter (st_lifetime s))"
    and scope: "policyScopeContains pf (st_scope s) (st_scope s')"
    and disclosure: "policyScopeContains pf (bd_inputDisclosure b) (bd_inputDisclosure c)"
  have c: "c = b'" using b(2) body by simp
  note same = fixedContent_same [OF free content b(1) body]
  have anchors: "lt_anchor (st_lifetime s) = lt_anchor (st_lifetime s')" 
    using anchor digest_inj_on(3) [OF free, of "lt_anchor (st_lifetime s)" "lt_anchor (st_lifetime s')"] statement_values(2) by simp
  have matches: "anchorMatches a b proposal = anchorMatches a b' proposal" for a
    unfolding anchorMatches_def same(3) ..
  obtain u where u: "st_author s' = HumanPrincipal u"
    using selected by (auto simp: bindingSelected_def Let_def split: if_splits PolicyPrincipalV1.splits)
  have "policyScopeIncludesProposal pf (st_scope s') proposal = Inr True" "\<not> expired (st_lifetime s') now"
      "st_state s' \<noteq> InactiveState"
    using selected u by (auto simp: bindingSelected_def Let_def split: if_splits)
  then have "policyScopeIncludesProposal pf (st_scope s) proposal = Inr True" "\<not> expired (st_lifetime s) now"
      "st_state s = st_state s'"
    using includes_narrowed [OF statement_scopes(1) [OF free] scope] expiry_narrowed [OF expiry] state by (blast, blast, metis)
  then have "bindingSelected pf proposal stage now au an (s, b) = Inr True"
    using selected u by (auto simp: bindingSelected_def Let_def author same anchors matches split: if_splits)
  with b(1) same(3) disclosure c show ?thesis
    unfolding policyScopeContains_iff [OF statement_scopes(2) [OF free b]] by blast
qed

lemma followAgent_id: "st_id (followAgent pf proposed stamped touched s) = st_id s"
  by (auto simp: followAgent_def split: StatementBody.splits ParticipantV1.splits option.splits prod.splits)

lemma followAgent_untouched: "st_id s \<notin> set touched \<Longrightarrow> followAgent pf proposed stamped touched s = s"
  by (auto simp: followAgent_def split: StatementBody.splits ParticipantV1.splits option.splits prod.splits)

lemma findStatement_member: "findStatement document i = Some s \<Longrightarrow> s \<in> set document \<and> st_id s = i"
  by (auto simp: findStatement_def map_of_map_of_entries dest: map_of_SomeD)

lemma stampStatement_id: "st_id (stampStatement pf current userId now s) = st_id s"
  by (auto simp: stampStatement_def unchangedStatement_def split: option.splits dest: findStatement_member)

lemma find_identified: "s \<in> set document \<Longrightarrow> distinct (map st_id document) \<Longrightarrow> List.find (\<lambda>t. st_id t = st_id s) document = Some s"
  by (induction document) auto

text \<open>Where a statement of a prepared document comes from: it is a statement of the current one, or it
  replaces a changed one, or it is new.\<close>

lemma prepared_statement:
  assumes "preparePolicyDocument pf current input userId now = Inr (document, diff, cls)"
    and "cls \<noteq> WideningPolicy" "s' \<in> set document"
  shows "s' \<in> set current \<or> (\<exists>s\<in>set current. st_id s = st_id s' \<and> isNarrowedObservation pf (Some s) (Some s') userId)"
proof -
  let ?stamp = "stampStatement pf current userId now"
  define touched where "touched = df_added diff @ df_changed diff"
  define stamped where "stamped = map ?stamp input"
  have diff: "diff = candidateDiff pf current input" and document: "document = map (followAgent pf input stamped touched) stamped"
    and ids: "distinct (map st_id input)"
    using assms(1) validate_accepts(1)
    by (auto simp: preparePolicyDocument_def Let_def result_simps PolicyDocumentV1Schema_def touched_def stamped_def)
  have narrowing: "df_added diff = []"
      "\<forall>i\<in>set (df_changed diff). isNarrowedObservation pf (findStatement current i) (List.find (\<lambda>s. st_id s = i) document) userId"
    using assms(1,2) by (auto simp: preparePolicyDocument_def Let_def result_simps list_all_iff split: if_splits)
  from assms(3) document obtain p where p: "p \<in> set input" "s' = followAgent pf input stamped touched (?stamp p)"
    by (auto simp: stamped_def)
  have id: "st_id s' = st_id p" by (simp add: p(2) followAgent_id stampStatement_id)
  have document_ids: "distinct (map st_id document)"
    using ids by (simp add: document stamped_def o_def followAgent_id stampStatement_id)
  show ?thesis
  proof (cases "unchangedStatement pf current p")
    case True
    then obtain s where s: "findStatement current (st_id p) = Some s"
      by (auto simp: unchangedStatement_def split: option.splits)
    have "st_id p \<notin> set touched"
      using True p(1) ids by (auto simp: touched_def diff candidateDiff_def Let_def distinct_map inj_on_eq_iff)
    then have "s' = s" using True s by (simp add: p(2) followAgent_untouched stampStatement_id) (simp add: stampStatement_def s)
    then show ?thesis using findStatement_member [OF s] by blast
  next
    case False
    then have changed: "st_id p \<in> set (df_changed diff)"
      using narrowing(1) p(1) by (auto simp: diff candidateDiff_def Let_def filter_empty_conv)
    then obtain s where s: "findStatement current (st_id p) = Some s"
      by (auto simp: diff candidateDiff_def Let_def)
    have "isNarrowedObservation pf (Some s) (Some s') userId"
      using narrowing(2) changed s find_identified [OF assms(3) document_ids] id by fastforce
    then show ?thesis using findStatement_member [OF s] id by metis
  qed
qed

text \<open>C16: A change classified as unchanged or narrowing never selects more. Every participant selected
  under the prepared document, for any proposal, stage and time and any current authors and
  anchors, was selected under the current one, as the same participant of the statement with the
  same identifier and with at least that input disclosure. Content is compared by digest, so the hash is taken to have
  no collision among the finitely many values of the two documents that are compared: the fixed contents and anchors of
  their statements and the entries of their scopes and disclosures.\<close>

theorem policy_narrowing_sound:
  assumes "preparePolicyDocument pf current input userId now = Inr (document, diff, cls)" "cls \<noteq> WideningPolicy"
    and "collision_free pf (documentValues current \<union> documentValues document)"
    and "selectPolicyBindings pf document proposal stage t au an = Inr after"
    and "selectPolicyBindings pf current proposal stage t au an = Inr before"
    and "(s', b') \<in> set after"
  shows "\<exists>s b. (s, b) \<in> set before \<and> st_id s = st_id s' \<and> bd_participant b = bd_participant b'
    \<and> set (ps_subjects (bd_inputDisclosure b')) \<subseteq> set (ps_subjects (bd_inputDisclosure b))
    \<and> set (ps_actions (bd_inputDisclosure b')) \<subseteq> set (ps_actions (bd_inputDisclosure b))
    \<and> set (ps_resources (bd_inputDisclosure b')) \<subseteq> set (ps_resources (bd_inputDisclosure b))"
proof -
  have s': "s' \<in> set document" "bindingOf s' = Some (s', b')" "bindingSelected pf proposal stage t au an (s', b') = Inr True"
    using assms(6) unfolding selected_active(3) [OF assms(4)] binding_source by simp_all
  have body: "st_body s' = BindingBody b'" using s'(2) by (auto simp: bindingOf_def split: StatementBody.splits)
  from prepared_statement [OF assms(1,2) s'(1)] show ?thesis
  proof (elim disjE bexE conjE)
    assume "s' \<in> set current"
    then have "(s', b') \<in> set before" using s'(2,3) unfolding selected_active(3) [OF assms(5)] binding_source by simp
    then show ?thesis by blast
  next
    fix s assume s: "s \<in> set current" "st_id s = st_id s'" "isNarrowedObservation pf (Some s) (Some s') userId"
    have "collision_free pf (statementValues s \<union> statementValues s')"
      by (rule collision_free_mono [OF assms(3)]) (use s(1) s'(1) in \<open>auto simp: documentValues_def\<close>)
    from narrowed_selected [OF this s(3) s'(3) body] obtain b where b: "st_body s = BindingBody b"
        "bindingSelected pf proposal stage t au an (s, b) = Inr True" "bd_participant b = bd_participant b'"
        "set (ps_subjects (bd_inputDisclosure b')) \<subseteq> set (ps_subjects (bd_inputDisclosure b))"
        "set (ps_actions (bd_inputDisclosure b')) \<subseteq> set (ps_actions (bd_inputDisclosure b))"
        "set (ps_resources (bd_inputDisclosure b')) \<subseteq> set (ps_resources (bd_inputDisclosure b))" by blast
    have "(s, b) \<in> set before"
      using s(1) b(1,2) unfolding selected_active(3) [OF assms(5)] binding_source by (simp add: bindingOf_def)
    then show ?thesis using s(2) b(3-6) by blast
  qed
qed

end
