(* ===== verification/Policy_Samples.thy ===== *)
theory Policy_Samples
  imports Policy_Selection
begin

text \<open>
  A sample document with two agents, one answering to the other, and a completed observation, with a
  proposal it applies to: the theorems on admission and selection at a concrete input. The hash of
  the sample platform is the identity, which is free of collisions.
\<close>

subsection \<open>A sample document\<close>

definition sampleUser :: string where "sampleUser = ''usr_01234567-89ab-7def-8123-456789abcdef''"

definition sampleWorkspace :: string where "sampleWorkspace = ''ws_01234567-89ab-7def-8123-456789abcdef''"

definition samplePlatform :: Platform where
  "samplePlatform =
    \<lparr>pf_sha256 = id, pf_parseUrl = (\<lambda>_. None),
     pf_registry = [(''tool.call'', \<lparr>ro_policyOperation = ''tool.use'', ro_points = Some
       \<lparr>op_stages = [DecideStage, CompletedStage], op_modes = [GateMode, ObserveMode],
        op_participantKinds = [DeterministicKind, AgentKind], op_gateResults = [GateAllow, GateDeny],
        op_gateFailures = [EscalateToHuman]\<rparr>\<rparr>)]\<rparr>"

definition sampleScope :: "PolicyPrincipalV1 list \<Rightarrow> PolicyScopeV1" where
  "sampleScope subjects =
    \<lparr>ps_subjects = subjects, ps_actions = [''tool.use''], ps_resources = [McpTool sampleWorkspace ''server'' ''tool'']\<rparr>"

definition sampleStatement :: "string \<Rightarrow> PolicyPrincipalV1 list \<Rightarrow> string option \<Rightarrow> StatementBody \<Rightarrow> PolicyStatementV1" where
  "sampleStatement i subjects notAfter body =
    \<lparr>st_id = i, st_author = HumanPrincipal sampleUser, st_authority = HumanAuthority sampleUser,
     st_authoredAt = ''2026-01-01T00:00:00.000Z'', st_scope = sampleScope subjects,
     st_lifetime = \<lparr>lt_anchor = \<lparr>pc_owner = OwnerWorkspace sampleWorkspace, pc_kind = ''workspace'', pc_id = sampleWorkspace\<rparr>,
       lt_notAfter = notAfter, lt_uses = None\<rparr>,
     st_state = ActiveState, st_body = body\<rparr>"

definition sampleAgent :: "string \<Rightarrow> PolicyPrincipalV1 \<Rightarrow> PolicyStatementV1" where
  "sampleAgent i responsibility =
    sampleStatement i [AgentPrincipal i] None (AgentPrincipalBody
      \<lparr>ap_agentId = i, ap_creator = HumanPrincipal sampleUser, ap_responsibleHumanId = sampleUser,
       ap_responsibility = responsibility\<rparr>)"

definition sampleBinding :: "PolicyStageV1 \<Rightarrow> PolicyModeV1 \<Rightarrow> ParticipantV1 \<Rightarrow> int \<Rightarrow> PolicyBindingV1" where
  "sampleBinding stage mode participant order =
    \<lparr>bd_operation = ''tool.call'', bd_stage = stage, bd_mode = mode, bd_participant = participant,
     bd_inputDisclosure = sampleScope [HumanPrincipal sampleUser], bd_order = order, bd_timeoutMs = 1000,
     bd_failure = EscalateToHuman, bd_circuit = \<lparr>ci_failures = 3, ci_recoveryAfterMs = 1000\<rparr>\<rparr>"

definition sampleWatch :: "string option \<Rightarrow> PolicyStatementV1" where
  "sampleWatch notAfter =
    sampleStatement ''watch'' [HumanPrincipal sampleUser] notAfter (BindingBody (sampleBinding CompletedStage ObserveMode
      (DeterministicParticipant ''audit'' (''sha256:'' @ replicate 64 CHR ''0'')) 1))"

definition sampleDocument :: "string option \<Rightarrow> PolicyDocumentV1" where
  "sampleDocument notAfter =
    [sampleAgent ''helper'' (AgentPrincipal ''lead''), sampleAgent ''lead'' (HumanPrincipal sampleUser), sampleWatch notAfter]"

definition sampleProposal :: PolicyProposal where
  "sampleProposal =
    \<lparr>pq_operation = ''tool.call'', pq_workspaceId = Some sampleWorkspace,
     pq_resource = McpTool sampleWorkspace ''server'' ''tool'', pq_inputReferences = [], pq_inputAttributes = [],
     pq_capabilityCallId = None,
     pq_subject = \<lparr>sj_principal = HumanPrincipal sampleUser, sj_onBehalfOf = None, sj_actor = UserActor sampleUser,
       sj_process = None, sj_credentialKind = SessionCredential, sj_responsibleHumanId = sampleUser\<rparr>\<rparr>"

lemma sample_accepted: "validatePolicyDocument samplePlatform (sampleDocument None) = Inr (sampleDocument None)"
proof -
  have "succeeds (validatePolicyDocument samplePlatform (sampleDocument None))" by code_simp
  then obtain document where "validatePolicyDocument samplePlatform (sampleDocument None) = Inr document"
    unfolding succeeds_iff by blast
  with validate_accepts(1) [OF this] show ?thesis by simp
qed

lemma sample_ideal_hash: "inj (pf_sha256 samplePlatform)"
  by (simp add: samplePlatform_def)

theorem policy_active_authority_witness:
  "humanRoot (sampleWatch None) \<or> coordinatorPermission (sampleWatch None)"
proof -
  have "sampleWatch None \<in> set (sampleDocument None)" by (simp add: sampleDocument_def)
  moreover have "st_state (sampleWatch None) \<noteq> InactiveState" by code_simp
  ultimately show ?thesis using policy_active_authority [OF sample_accepted] by blast
qed

theorem policy_responsibility_chain_witness:
  "\<exists>a\<in>set (activeAgents (sampleDocument None)). agentId a = ''helper'' \<and>
    answersTo (\<lambda>b. ap_responsibleHumanId (snd b) = sampleUser) (activeAgents (sampleDocument None)) sampleUser a"
proof -
  have "\<exists>a\<in>set (activeAgents (sampleDocument None)). agentId a = ''helper'' \<and> ap_responsibleHumanId (snd a) = sampleUser"
    by code_simp
  then obtain a where a: "a \<in> set (activeAgents (sampleDocument None))" "agentId a = ''helper''"
      "ap_responsibleHumanId (snd a) = sampleUser" by blast
  from policy_responsibility_chain [OF sample_accepted a(1)] a show ?thesis by auto
qed

theorem policy_selection_ordered_witness:
  "\<exists>selected. selectPolicyBindings samplePlatform (rev (sampleDocument None)) sampleProposal None 0 (\<lambda>_. True) (\<lambda>_. True) = Inr selected
    \<and> selected \<noteq> [] \<and> sorted_wrt (\<lambda>x y. bd_order (snd x) \<le> bd_order (snd y)) selected"
proof -
  let ?select = "\<lambda>d. selectPolicyBindings samplePlatform d sampleProposal None 0 (\<lambda>_. True) (\<lambda>_. True)"
  have "case ?select (sampleDocument None) of Inl _ \<Rightarrow> False | Inr xs \<Rightarrow> xs \<noteq> []" by code_simp
  then obtain selected where selected: "?select (sampleDocument None) = Inr selected" "selected \<noteq> []"
    by (auto split: sum.splits)
  have "mset (rev (sampleDocument None)) = mset (sampleDocument None)" by simp
  note ordered = policy_selection_ordered [OF sample_accepted this selected(1)]
  have "sorted_wrt (\<lambda>x y. bd_order (snd x) \<le> bd_order (snd y)) selected"
    by (rule sorted_wrt_mono_rel [OF _ ordered [THEN conjunct2]]) simp
  with ordered [THEN conjunct1] selected(2) show ?thesis by blast
qed

definition samplePinned :: PolicyBindingV1 where
  "samplePinned = sampleBinding DecideStage GateMode
    (AgentParticipant ''helper'' (policyDigest samplePlatform (statementJson (sampleAgent ''helper'' (AgentPrincipal ''lead''))))) 2"

theorem policy_agent_accountable_witness:
  "\<exists>a operation. readPolicyAgentPrincipal samplePlatform (sampleDocument None) samplePinned sampleProposal 0 (\<lambda>_. True) (\<lambda>_. True) = Inr a
    \<and> answersTo (answerable (List.map_filter agentOf (sampleDocument None)) a sampleProposal operation 0 (\<lambda>_. True) (\<lambda>_. True))
        (List.map_filter agentOf (sampleDocument None)) (ap_responsibleHumanId (snd a)) a"
proof -
  have "succeeds (readPolicyAgentPrincipal samplePlatform (sampleDocument None) samplePinned sampleProposal 0 (\<lambda>_. True) (\<lambda>_. True))"
    by code_simp
  then obtain a where a: "readPolicyAgentPrincipal samplePlatform (sampleDocument None) samplePinned sampleProposal 0 (\<lambda>_. True) (\<lambda>_. True) = Inr a"
    unfolding succeeds_iff by blast
  from policy_agent_accountable [OF a sample_ideal_hash] a show ?thesis by blast
qed

definition sampleShorter :: PolicyStatementV1 where
  "sampleShorter = sampleWatch (Some ''2027-01-01T00:00:00.000Z'')"

lemma sample_stamped:
  "stampStatement samplePlatform [sampleWatch None] sampleUser ''2026-01-01T00:00:00.000Z'' sampleShorter = sampleShorter"
proof -
  have "\<not> unchangedStatement samplePlatform [sampleWatch None] sampleShorter" by code_simp
  then show ?thesis by (simp add: stampStatement_def) (simp add: sampleShorter_def sampleWatch_def sampleStatement_def)
qed

lemma sample_followed: "followAgent samplePlatform proposed stamped touched sampleShorter = sampleShorter"
  by (simp add: followAgent_def sampleShorter_def sampleWatch_def sampleStatement_def sampleBinding_def)

lemma sample_prepared:
  "preparePolicyDocument samplePlatform [sampleWatch None] [sampleShorter] sampleUser ''2026-01-01T00:00:00.000Z''
    = Inr ([sampleShorter], \<lparr>df_added = [], df_changed = [''watch''], df_removed = []\<rparr>, NarrowingPolicy)"
proof -
  have "succeeds (validatePolicyDocument samplePlatform [sampleShorter])" by code_simp
  then obtain document where "validatePolicyDocument samplePlatform [sampleShorter] = Inr document" unfolding succeeds_iff ..
  then have accepted: "validatePolicyDocument samplePlatform [sampleShorter] = Inr [sampleShorter]"
    using validate_accepts(1) by blast
  have diff: "candidateDiff samplePlatform [sampleWatch None] [sampleShorter] = \<lparr>df_added = [], df_changed = [''watch''], df_removed = []\<rparr>"
    by code_simp
  have found: "findStatement [sampleWatch None] ''watch'' = Some (sampleWatch None)" "st_id sampleShorter = ''watch''" by code_simp+
  have "isNarrowedObservation samplePlatform (Some (sampleWatch None)) (Some sampleShorter) sampleUser" by code_simp
  then show ?thesis
    using validate_accepts(2) [OF accepted]
    by (simp add: preparePolicyDocument_def Let_def parseWith_def diff sample_stamped sample_followed accepted found)
qed

lemma sample_plain: "documentValues [sampleWatch None] \<union> documentValues [sampleShorter] \<subseteq> Collect plainJson"
proof -
  have "plainJson (JObj (fixedBinding s b))" for s b by (simp add: fixedBinding_def)
  then show ?thesis using scope_plain
    by (auto simp: documentValues_def statementValues_def sampleShorter_def sampleWatch_def sampleStatement_def fixedContent_binding)
qed

theorem policy_narrowing_sound_witness:
  "\<exists>before b. selectPolicyBindings samplePlatform [sampleWatch None] sampleProposal None 0 (\<lambda>_. True) (\<lambda>_. True) = Inr before
    \<and> (sampleWatch None, b) \<in> set before
    \<and> bd_participant b = DeterministicParticipant ''audit'' (''sha256:'' @ replicate 64 CHR ''0'')"
proof -
  let ?select = "\<lambda>d. selectPolicyBindings samplePlatform d sampleProposal None 0 (\<lambda>_. True) (\<lambda>_. True)"
  let ?participant = "DeterministicParticipant ''audit'' (''sha256:'' @ replicate 64 CHR ''0'')"
  have "case ?select [sampleShorter] of Inl _ \<Rightarrow> False | Inr xs \<Rightarrow> \<exists>x\<in>set xs. bd_participant (snd x) = ?participant" by code_simp
  then obtain after s' b' where after: "?select [sampleShorter] = Inr after" "(s', b') \<in> set after" "bd_participant b' = ?participant"
    by (auto split: sum.splits)
  have "succeeds (?select [sampleWatch None])" by code_simp
  then obtain before where before: "?select [sampleWatch None] = Inr before" unfolding succeeds_iff ..
  have "documentValues [sampleWatch None] \<union> documentValues [sampleShorter] \<subseteq> Collect plainJson" by (rule sample_plain)
  note free = collision_free_mono [OF ideal_hash [OF sample_ideal_hash] this]
  from policy_narrowing_sound [OF sample_prepared _ free after(1) before after(2)] after(3)
  obtain s b where b: "(s, b) \<in> set before" "bd_participant b = ?participant" by auto
  then have "s = sampleWatch None" unfolding selected_active(3) [OF before] binding_source by simp
  with b before show ?thesis by blast
qed

theorem policy_scope_contains_exact_witness:
  "\<not> policyScopeContains samplePlatform (sampleScope [HumanPrincipal sampleUser]) (sampleScope [AgentPrincipal sampleUser])"
  unfolding policy_scope_contains_exact [OF ideal_scopes [OF sample_ideal_hash]] by (simp add: sampleScope_def)

end
