(* ===== verification/Audit_Events.thy ===== *)
theory Audit_Events
  imports Policy_Document
begin

text \<open>
  Audit events (\<^verbatim>\<open>apps/nanocore/src/audit-events.ts\<close>, the schema of
  \<^verbatim>\<open>packages/protocol/src/models/audit.ts\<close> and the retained reader of
  \<^verbatim>\<open>apps/nanocore/src/policy/retained-records-v1.ts\<close>): the redaction check, the validated event, its row
  and its insertion under the primary key.

  A column that holds JSON text is modelled by the value the text denotes. The members
  \<^verbatim>\<open>authentication\<close>, \<^verbatim>\<open>notebookAdmission\<close> and \<^verbatim>\<open>policyWriteOutcome\<close>, which no producer of the model
  supplies, are left out. \<^verbatim>\<open>new Date()\<close> and a freshly allocated identifier are arguments.
\<close>

datatype AuditCategory = CommandAudit | ApprovalAudit | CapabilityAudit | KnowledgeAudit | ArtifactAudit | SystemAudit

datatype AuditOutcome = AuditSucceeded | AuditFailed | AuditDenied | AuditCancelled | AuditUnknown

datatype AuditSeverity = InfoSeverity | WarningSeverity | ErrorSeverity

record AuditEvent =
  ae_id :: string
  ae_workspaceId :: "string option"
  ae_threadId :: "string option"
  ae_turnId :: "string option"
  ae_itemId :: "string option"
  ae_capabilityCallId :: "string option"
  ae_permissionDecisionId :: "string option"
  ae_requestId :: "string option"
  ae_actor :: "ActorRef option"
  ae_category :: AuditCategory
  ae_action :: string
  ae_resource :: "string option"
  ae_policyInvocation :: "PolicyInvocationV1 option"
  ae_outcome :: AuditOutcome
  ae_severity :: AuditSeverity
  ae_summary :: string
  ae_errorCode :: "string option"
  ae_createdAt :: string
  ae_occurredAt :: string

record AuditInput =
  ai_auditEventId :: "string option"
  ai_threadId :: "string option"
  ai_turnId :: "string option"
  ai_itemId :: "string option"
  ai_capabilityCallId :: "string option"
  ai_permissionDecisionId :: "string option"
  ai_requestId :: "string option"
  ai_actor :: "ActorRef option"
  ai_category :: "AuditCategory option"
  ai_action :: string
  ai_resource :: "string option"
  ai_policyInvocation :: "PolicyInvocationV1 option"
  ai_outcome :: AuditOutcome
  ai_severity :: "AuditSeverity option"
  ai_summary :: string
  ai_errorCode :: "string option"
  ai_occurredAt :: "string option"
  ai_now :: "string option"

subsection \<open>Schemas\<close>

definition uuidHex :: "char \<Rightarrow> bool" where
  "uuidHex c = (c \<in> set ''0123456789abcdefABCDEF'')"

text \<open>\<^verbatim>\<open>z.string().uuid()\<close>: versions 1 to 8 with the RFC variant, the nil and the maximal UUID.\<close>

definition RequestIdSchema :: "string \<Rightarrow> bool" where
  "RequestIdSchema s =
    (let hex = (\<lambda>n. replicate n uuidHex); dash = [\<lambda>c. c = CHR ''-''] in
     list_all2 (\<lambda>p c. p c)
       (hex 8 @ dash @ hex 4 @ dash @ [\<lambda>c. c \<in> set ''12345678''] @ hex 3 @ dash
         @ [\<lambda>c. c \<in> set ''89abAB''] @ hex 3 @ dash @ hex 12) s
     \<or> s = ''00000000-0000-0000-0000-000000000000'' \<or> s = ''ffffffff-ffff-ffff-ffff-ffffffffffff'')"

definition AuditEventSchema :: "AuditEvent \<Rightarrow> bool" where
  "AuditEventSchema e =
    (isEntityId ''aud'' (ae_id e) \<and> nullable (isEntityId ''ws'') (ae_workspaceId e)
     \<and> nullable (isEntityId ''th'') (ae_threadId e) \<and> nullable (isEntityId ''tu'') (ae_turnId e)
     \<and> nullable (isEntityId ''it'') (ae_itemId e) \<and> nullable (isEntityId ''cap'') (ae_capabilityCallId e)
     \<and> nullable (isEntityId ''pd'') (ae_permissionDecisionId e) \<and> nullable RequestIdSchema (ae_requestId e)
     \<and> nullable ActorRefSchema (ae_actor e) \<and> textSchema (ae_action e) \<and> nullable textSchema (ae_resource e)
     \<and> nullable PolicyInvocationV1Schema (ae_policyInvocation e) \<and> textSchema (ae_summary e)
     \<and> nullable textSchema (ae_errorCode e) \<and> textSchema (ae_createdAt e) \<and> textSchema (ae_occurredAt e))"

subsection \<open>Redaction\<close>

definition lowerChar :: "char \<Rightarrow> char" where
  "lowerChar c = (if 65 \<le> (of_char c :: nat) \<and> of_char c \<le> (90 :: nat) then char_of (of_char c + 32 :: nat) else c)"

fun containsText :: "string \<Rightarrow> string \<Rightarrow> bool" where
  "containsText needle [] = (needle = [])"
| "containsText needle (c # cs) = (take (length needle) (c # cs) = needle \<or> containsText needle cs)"

definition unsafeKey :: "string \<Rightarrow> bool" where
  "unsafeKey key =
    list_ex (\<lambda>w. containsText w (map lowerChar key))
      [''prompt'', ''argument'', ''result'', ''secret'', ''token'', ''credential'', ''password'',
       ''cachekey'', ''cache_key'', ''cache-key'']"

lemma first_some_cong [fundef_cong]:
  "xs = ys \<Longrightarrow> (\<And>x. x \<in> set ys \<Longrightarrow> f x = g x) \<Longrightarrow> first_some f xs = first_some g ys"
  by (induction ys arbitrary: xs) auto

text \<open>\<^verbatim>\<open>Object.entries\<close> of an array are its indices, none of which is unsafe.\<close>

fun findUnsafeAuditKey :: "JsValue \<Rightarrow> string option" where
  "findUnsafeAuditKey (JObj members) =
    first_some (\<lambda>m. if unsafeKey (fst m) then Some (fst m) else findUnsafeAuditKey (snd m)) members"
| "findUnsafeAuditKey (JArr vs) = first_some findUnsafeAuditKey vs"
| "findUnsafeAuditKey _ = None"

text \<open>The input without its database, clock and typed participant evidence.\<close>

definition safeInputJson :: "string option \<Rightarrow> AuditInput \<Rightarrow> JsValue" where
  "safeInputJson workspaceId i =
    JObj [(''action'', JStr (ai_action i)), (''actor'', nullJson actorJson (ai_actor i)),
      (''auditEventId'', nullJson JStr (ai_auditEventId i)), (''category'', JStr []),
      (''capabilityCallId'', nullJson JStr (ai_capabilityCallId i)), (''errorCode'', nullJson JStr (ai_errorCode i)),
      (''itemId'', nullJson JStr (ai_itemId i)), (''outcome'', JStr []),
      (''permissionDecisionId'', nullJson JStr (ai_permissionDecisionId i)),
      (''requestId'', nullJson JStr (ai_requestId i)), (''resource'', nullJson JStr (ai_resource i)),
      (''severity'', JStr []), (''summary'', JStr (ai_summary i)), (''threadId'', nullJson JStr (ai_threadId i)),
      (''turnId'', nullJson JStr (ai_turnId i)), (''workspaceId'', nullJson JStr workspaceId)]"

text \<open>The members of a prepared event outside its typed participant evidence.\<close>

definition eventJson :: "AuditEvent \<Rightarrow> JsValue" where
  "eventJson e =
    JObj [(''id'', JStr (ae_id e)), (''workspaceId'', nullJson JStr (ae_workspaceId e)),
      (''threadId'', nullJson JStr (ae_threadId e)), (''turnId'', nullJson JStr (ae_turnId e)),
      (''itemId'', nullJson JStr (ae_itemId e)), (''capabilityCallId'', nullJson JStr (ae_capabilityCallId e)),
      (''permissionDecisionId'', nullJson JStr (ae_permissionDecisionId e)), (''requestId'', nullJson JStr (ae_requestId e)),
      (''actor'', nullJson actorJson (ae_actor e)), (''category'', JStr []), (''action'', JStr (ae_action e)),
      (''resource'', nullJson JStr (ae_resource e)), (''outcome'', JStr []), (''severity'', JStr []),
      (''summary'', JStr (ae_summary e)), (''errorCode'', nullJson JStr (ae_errorCode e)),
      (''createdAt'', JStr (ae_createdAt e)), (''occurredAt'', JStr (ae_occurredAt e))]"

definition assertNoUnsafeAuditValue :: "PolicyInvocationV1 option \<Rightarrow> JsValue \<Rightarrow> unit result" where
  "assertNoUnsafeAuditValue policyInvocation ordinary =
    bindE (case policyInvocation of
        None \<Rightarrow> Inr ()
      | Some v \<Rightarrow> bindE (parseWith PolicyInvocationV1Schema v) (\<lambda>_. Inr ())) (\<lambda>_.
    ensure (findUnsafeAuditKey ordinary = None)
      ''Audit event values must be redacted before recording.'')"

subsection \<open>Recording\<close>

definition protocolRequestIdOrNull :: "string option \<Rightarrow> string option" where
  "protocolRequestIdOrNull r = (case r of None \<Rightarrow> None | Some s \<Rightarrow> if RequestIdSchema s then Some s else None)"

definition orDefault :: "'a option \<Rightarrow> 'a \<Rightarrow> 'a" where
  "orDefault v d = (case v of None \<Rightarrow> d | Some x \<Rightarrow> x)"

definition prepareAuditEvent :: "string \<Rightarrow> string \<Rightarrow> string option \<Rightarrow> AuditInput \<Rightarrow> AuditEvent result" where
  "prepareAuditEvent clock allocated workspaceId i =
    parseWith AuditEventSchema
      \<lparr>ae_id = orDefault (ai_auditEventId i) allocated, ae_workspaceId = workspaceId, ae_threadId = ai_threadId i,
       ae_turnId = ai_turnId i, ae_itemId = ai_itemId i, ae_capabilityCallId = ai_capabilityCallId i,
       ae_permissionDecisionId = ai_permissionDecisionId i,
       ae_requestId = protocolRequestIdOrNull (ai_requestId i), ae_actor = ai_actor i,
       ae_category = orDefault (ai_category i) SystemAudit, ae_action = ai_action i, ae_resource = ai_resource i,
       ae_policyInvocation = ai_policyInvocation i, ae_outcome = ai_outcome i,
       ae_severity = orDefault (ai_severity i) InfoSeverity, ae_summary = ai_summary i, ae_errorCode = ai_errorCode i,
       ae_createdAt = orDefault (ai_now i) clock,
       ae_occurredAt = orDefault (ai_occurredAt i) (orDefault (ai_now i) clock)\<rparr>"

definition RETAINED_FORMAT_VERSION :: int where
  "RETAINED_FORMAT_VERSION = 1"

record AuditRow =
  ar_schemaVersion :: int
  ar_event :: AuditEvent

definition insertAuditEvent :: "AuditRow list \<Rightarrow> AuditEvent \<Rightarrow> AuditRow list result" where
  "insertAuditEvent rows event =
    bindE (assertNoUnsafeAuditValue (ae_policyInvocation event) (eventJson event)) (\<lambda>_.
    bindE (parseWith AuditEventSchema event) (\<lambda>e.
    bindE (ensure (ae_id e \<notin> (ae_id \<circ> ar_event) ` set rows) ''UNIQUE constraint failed: audit_events.audit_event_id'') (\<lambda>_.
    Inr (rows @ [\<lparr>ar_schemaVersion = RETAINED_FORMAT_VERSION, ar_event = e\<rparr>]))))"

text \<open>The Workspace, User and Server recorders differ in the database and in the Workspace they name.\<close>

definition recordAuditEvent :: "string \<Rightarrow> string \<Rightarrow> AuditRow list \<Rightarrow> string option \<Rightarrow> AuditInput \<Rightarrow> AuditRow list result" where
  "recordAuditEvent clock allocated rows workspaceId i =
    bindE (assertNoUnsafeAuditValue (ai_policyInvocation i) (safeInputJson workspaceId i)) (\<lambda>_.
    bindE (prepareAuditEvent clock allocated workspaceId i) (insertAuditEvent rows))"

definition readRetainedV1 :: "int \<Rightarrow> 'a result \<Rightarrow> 'a result" where
  "readRetainedV1 version decoded =
    bindE (ensure (version = RETAINED_FORMAT_VERSION) ''Unsupported retained record format.'') (\<lambda>_. decoded)"

definition readAuditEventRowV1 :: "AuditRow \<Rightarrow> AuditEvent result" where
  "readAuditEventRowV1 row = readRetainedV1 (ar_schemaVersion row) (parseWith AuditEventSchema (ar_event row))"

subsection \<open>Facts\<close>

lemma safe_actorJson: "findUnsafeAuditKey (actorJson a) = None"
proof -
  have "\<not> unsafeKey ''kind''" "\<not> unsafeKey ''id''" "\<not> unsafeKey ''responsibleUserId''" by code_simp+
  then show ?thesis by (cases a) (auto simp: nullJson_def split: option.splits)
qed

lemma safeInput_safe: "findUnsafeAuditKey (safeInputJson workspaceId i) = None"
proof -
  have keys: "list_all (\<lambda>k. \<not> unsafeKey k)
      [''action'', ''actor'', ''auditEventId'', ''category'', ''capabilityCallId'', ''errorCode'', ''itemId'', ''outcome'',
       ''permissionDecisionId'', ''requestId'', ''resource'', ''severity'', ''summary'', ''threadId'', ''turnId'', ''workspaceId'']"
    by code_simp
  have "findUnsafeAuditKey (nullJson JStr v) = None" for v by (simp add: nullJson_def split: option.splits)
  moreover have "findUnsafeAuditKey (nullJson actorJson a) = None" for a
    by (simp add: nullJson_def safe_actorJson split: option.splits)
  ultimately show ?thesis using keys by (simp add: safeInputJson_def)
qed

lemma recordAuditEvent_appends:
  assumes "recordAuditEvent clock allocated rows workspaceId i = Inr rows'"
  obtains event where "prepareAuditEvent clock allocated workspaceId i = Inr event" "AuditEventSchema event"
    "rows' = rows @ [\<lparr>ar_schemaVersion = RETAINED_FORMAT_VERSION, ar_event = event\<rparr>]"
    "ae_id event \<notin> (ae_id \<circ> ar_event) ` set rows"
  using assms by (auto simp: recordAuditEvent_def insertAuditEvent_def prepareAuditEvent_def result_simps)

end
