(* ===== verification/Permission_Decisions.thy ===== *)
theory Permission_Decisions
  imports Audit_Events Policy_Kernel
begin

text \<open>
  The permission decision recorder (\<^verbatim>\<open>apps/nanocore/src/policy/permission-decisions.ts\<close>) and the retained
  reader of its rows (\<^verbatim>\<open>apps/nanocore/src/policy/retained-records-v1.ts\<close>).

  \<open>Store\<close> gives every physical database its tables: the Server database, one per Workspace and one
  per User. A recording checks the decision, then in one transaction compares the finite uses it
  consumes with their limits, inserts the decision row under the constraints of the migrations
  (primary key, and the index that admits one terminal decision per Approval) and inserts the linked
  Audit. A thrown error leaves the store as it was. The native worker that carries the command is
  taken to run it: \<open>recordProductPermissionDecision\<close> is the checks of the caller followed by the
  recording. A JSON column holds the value its text denotes (\<open>jsonClone\<close>).
\<close>

datatype PermissionDecisionResult =
    AllowResult | DenyResult | RequireApprovalResult | RequireEscalationResult | DeferResult
  | NotApplicableResult | ErrorResult

datatype PermissionDecisionOwnerScope = ServerDecision | WorkspaceDecision | UserDecision

record UserDb =
  ud_scope :: string
  ud_userId :: string

text \<open>The input of a recording. A Workspace database is named by its Workspace.\<close>

record DecisionInput =
  di_coreDb :: bool
  di_workspaceDb :: "string option"
  di_userDb :: "UserDb option"
  di_decisionId :: string
  di_ownerScope :: PermissionDecisionOwnerScope
  di_workspaceId :: "string option"
  di_policyEngineVersion :: string
  di_policySnapshotId :: string
  di_subjectSummary :: JsValue
  di_action :: string
  di_resourceSummary :: JsValue
  di_contextSummary :: JsValue
  di_result :: PermissionDecisionResult
  di_reasonCode :: string
  di_enforcementPoint :: string
  di_mediation :: "PolicyDecisionV1 option"
  di_policyInvocation :: "PolicyInvocationV1 option"
  di_uses :: "(PolicyStatementReferenceV1 \<times> int) list option"
  di_requiredApprovalKind :: "string option"
  di_approvalId :: "string option"
  di_auditEventId :: "string option"
  di_auditActor :: "ActorRef option"
  di_now :: "string option"

record PermissionDecisionRow =
  dr_schemaVersion :: int
  dr_decisionId :: string
  dr_ownerScope :: PermissionDecisionOwnerScope
  dr_workspaceId :: "string option"
  dr_policyEngineVersion :: string
  dr_policySnapshotId :: string
  dr_subjectSummary :: JsValue
  dr_action :: string
  dr_resourceSummary :: JsValue
  dr_contextSummary :: JsValue
  dr_result :: PermissionDecisionResult
  dr_reasonCode :: string
  dr_enforcementPoint :: string
  dr_mediation :: "PolicyDecisionV1 option"
  dr_requiredApprovalKind :: "string option"
  dr_approvalId :: "string option"
  dr_auditEventId :: "string option"
  dr_createdAt :: string

record RetainedDecision =
  rd_decisionId :: string
  rd_ownerScope :: PermissionDecisionOwnerScope
  rd_workspaceId :: "string option"
  rd_policyEngineVersion :: string
  rd_policySnapshotId :: string
  rd_subjectSummary :: JsValue
  rd_action :: string
  rd_resourceSummary :: JsValue
  rd_contextSummary :: JsValue
  rd_result :: PermissionDecisionResult
  rd_reasonCode :: string
  rd_enforcementPoint :: string
  rd_mediation :: "PolicyDecisionV1 option"
  rd_requiredApprovalKind :: "string option"
  rd_approvalId :: "string option"
  rd_auditEventId :: "string option"
  rd_createdAt :: string

record Tables =
  tb_decisions :: "PermissionDecisionRow list"
  tb_audits :: "AuditRow list"

datatype Handle = CoreHandle | WorkspaceHandle string | UserHandle string

type_synonym Store = "Handle \<Rightarrow> Tables"

definition emptyStore :: Store where
  "emptyStore = (\<lambda>_. \<lparr>tb_decisions = [], tb_audits = []\<rparr>)"

subsection \<open>JSON and text\<close>

text \<open>\<^verbatim>\<open>JSON.parse(JSON.stringify(v))\<close>: undefined members are dropped, other values without a JSON form are null.\<close>

fun jsonClone :: "JsValue \<Rightarrow> JsValue" where
  "jsonClone (JArr vs) = JArr (map jsonClone vs)"
| "jsonClone (JObj members) = JObj (map (\<lambda>m. (fst m, jsonClone (snd m))) (filter (\<lambda>m. snd m \<noteq> JUndefined) members))"
| "jsonClone JUndefined = JNull"
| "jsonClone JNonFinite = JNull"
| "jsonClone v = v"

text \<open>\<^verbatim>\<open>JSON.stringify(undefined)\<close> is undefined, which SQLite refuses to bind.\<close>

definition jsonColumn :: "JsValue \<Rightarrow> JsValue result" where
  "jsonColumn v = (if v = JUndefined then Inl ''SQLite3 can only bind numbers, strings, bigints, buffers, and null'' else Inr (jsonClone v))"

definition optionalStringField :: "JsValue \<Rightarrow> string \<Rightarrow> string option" where
  "optionalStringField v field =
    (case v of
       JObj members \<Rightarrow> (case map_of members field of Some (JStr s) \<Rightarrow> Some s | _ \<Rightarrow> None)
     | _ \<Rightarrow> None)"

definition referenceText :: "PolicyStatementReferenceV1 \<Rightarrow> string" where
  "referenceText r = ''['' @ jsonString (sf_id r) @ '','' @ jsonString (sf_digest r) @ '']''"

fun resultText :: "PermissionDecisionResult \<Rightarrow> string" where
  "resultText AllowResult = ''allow''"
| "resultText DenyResult = ''deny''"
| "resultText RequireApprovalResult = ''require_approval''"
| "resultText RequireEscalationResult = ''require_escalation''"
| "resultText DeferResult = ''defer''"
| "resultText NotApplicableResult = ''not_applicable''"
| "resultText ErrorResult = ''error''"

subsection \<open>The retained form\<close>

definition kernelAllows :: "PolicyDecisionV1 \<Rightarrow> bool" where
  "kernelAllows m = (case pd_kernel m of Some (Some k) \<Rightarrow> kr_effect k = KernelAllow | _ \<Rightarrow> False)"

text \<open>\<^verbatim>\<open>${mediation.operation}@${mediation.stage}\<close>\<close>

definition mediationPoint :: "PolicyDecisionV1 \<Rightarrow> string" where
  "mediationPoint m = pd_operation m @ ''@'' @ stageText (pd_stage m)"

definition PermissionDecisionRetainedV1Schema :: "RetainedDecision \<Rightarrow> bool" where
  "PermissionDecisionRetainedV1Schema d =
    (isEntityId ''pd'' (rd_decisionId d) \<and> nullable (isEntityId ''ws'') (rd_workspaceId d)
     \<and> textSchema (rd_policyEngineVersion d) \<and> textSchema (rd_policySnapshotId d) \<and> textSchema (rd_action d)
     \<and> textSchema (rd_reasonCode d) \<and> textSchema (rd_enforcementPoint d)
     \<and> nullable PolicyDecisionV1Schema (rd_mediation d) \<and> nullable textSchema (rd_requiredApprovalKind d)
     \<and> nullable textSchema (rd_approvalId d) \<and> nullable (isEntityId ''aud'') (rd_auditEventId d)
     \<and> textSchema (rd_createdAt d)
     \<and> (case rd_mediation d of
          None \<Rightarrow> True
        | Some m \<Rightarrow>
            PolicyDigestV1Schema (rd_policySnapshotId d)
            \<and> \<not> (pd_role m = GateRole \<and> truthy (rd_approvalId d) \<noteq> None)
            \<and> \<not> (pd_role m = FinalRole \<and> pd_kernel m = Some None \<and> rd_result d \<noteq> ErrorResult)
            \<and> \<not> (pd_role m = FinalRole \<and> rd_result d = AllowResult \<and> \<not> kernelAllows m)
            \<and> \<not> (pd_consumedStatements m \<noteq> []
                 \<and> (pd_role m \<noteq> FinalRole \<or> rd_result d \<noteq> AllowResult \<or> \<not> kernelAllows m))
            \<and> distinct (map referenceText (pd_consumedStatements m)))
     \<and> \<not> (rd_result d = RequireApprovalResult \<and> truthy (rd_requiredApprovalKind d) = None))"

definition projectPolicySubject :: "PolicyDecisionV1 \<Rightarrow> JsValue" where
  "projectPolicySubject m =
    (let s = pd_subject m in
     JObj [(''principal'', principalJson (sj_principal s)), (''actor'', actorJson (sj_actor s)),
       (''process'', nullJson processJson (sj_process s)), (''onBehalfOf'', nullJson JStr (sj_onBehalfOf s)),
       (''credentialKind'', JStr (credentialText (sj_credentialKind s))),
       (''responsibleHumanId'', JStr (sj_responsibleHumanId s))])"

definition readPermissionDecisionRowV1 :: "PermissionDecisionRow \<Rightarrow> RetainedDecision result" where
  "readPermissionDecisionRowV1 row =
    readRetainedV1 (dr_schemaVersion row)
      (bindE (case dr_mediation row of
           None \<Rightarrow> Inr None
         | Some m \<Rightarrow> bindE (parseWith PolicyDecisionV1Schema m) (\<lambda>m. Inr (Some m))) (\<lambda>mediation.
       parseWith PermissionDecisionRetainedV1Schema
         \<lparr>rd_decisionId = dr_decisionId row, rd_ownerScope = dr_ownerScope row, rd_workspaceId = dr_workspaceId row,
          rd_policyEngineVersion = dr_policyEngineVersion row, rd_policySnapshotId = dr_policySnapshotId row,
          rd_subjectSummary = (case mediation of None \<Rightarrow> dr_subjectSummary row | Some m \<Rightarrow> projectPolicySubject m),
          rd_action = dr_action row, rd_resourceSummary = dr_resourceSummary row,
          rd_contextSummary = dr_contextSummary row, rd_result = dr_result row, rd_reasonCode = dr_reasonCode row,
          rd_enforcementPoint = (case mediation of None \<Rightarrow> dr_enforcementPoint row | Some m \<Rightarrow> mediationPoint m),
          rd_mediation = mediation, rd_requiredApprovalKind = dr_requiredApprovalKind row,
          rd_approvalId = dr_approvalId row, rd_auditEventId = dr_auditEventId row, rd_createdAt = dr_createdAt row\<rparr>))"

subsection \<open>Finite uses\<close>

definition consumes :: "PolicyStatementReferenceV1 \<Rightarrow> RetainedDecision \<Rightarrow> bool" where
  "consumes statement d =
    (case rd_mediation d of
       None \<Rightarrow> False
     | Some m \<Rightarrow> pd_role m = FinalRole \<and> kernelAllows m
         \<and> list_ex (\<lambda>r. sf_id r = sf_id statement \<and> sf_digest r = sf_digest statement) (pd_consumedStatements m))"

definition ownerRows :: "Handle \<Rightarrow> PermissionDecisionRow list \<Rightarrow> PermissionDecisionRow list" where
  "ownerRows handle rows =
    (case handle of
       UserHandle _ \<Rightarrow> filter (\<lambda>r. dr_ownerScope r = UserDecision \<and> dr_workspaceId r = None \<and> dr_result r = AllowResult) rows
     | WorkspaceHandle ws \<Rightarrow>
         filter (\<lambda>r. dr_ownerScope r = WorkspaceDecision \<and> dr_workspaceId r = Some ws \<and> dr_result r = AllowResult) rows
     | CoreHandle \<Rightarrow> [])"

definition readPolicyStatementUseCount :: "Store \<Rightarrow> Handle \<Rightarrow> PolicyStatementReferenceV1 \<Rightarrow> int result" where
  "readPolicyStatementUseCount store handle reference =
    bindE (parseWith PolicyStatementReferenceV1Schema reference) (\<lambda>statement.
    bindE (mapE readPermissionDecisionRowV1 (ownerRows handle (tb_decisions (store handle)))) (\<lambda>decisions.
    Inr (int (length (filter (consumes statement) decisions)))))"

subsection \<open>Recording\<close>

definition permissionDecisionDb :: "DecisionInput \<Rightarrow> Handle result" where
  "permissionDecisionDb i =
    (case di_ownerScope i of
       WorkspaceDecision \<Rightarrow>
         (case di_workspaceDb i of
            None \<Rightarrow> Inl ''Workspace-scoped permission decisions require workspaceDb.''
          | Some ws \<Rightarrow> Inr (WorkspaceHandle ws))
     | UserDecision \<Rightarrow>
         (case di_userDb i of
            None \<Rightarrow> Inl ''User-scoped permission decisions require their exact User database.''
          | Some u \<Rightarrow>
              if ud_scope u \<noteq> ''user'' \<or> di_workspaceDb i \<noteq> None \<or> di_coreDb i \<or> di_workspaceId i \<noteq> None
              then Inl ''User-scoped permission decisions require their exact User database.''
              else Inr (UserHandle (ud_userId u)))
     | ServerDecision \<Rightarrow>
         if di_coreDb i then Inr CoreHandle else Inl ''Server-scoped permission decisions require coreDb.'')"

definition permissionDecisionAuditEventId :: "string \<Rightarrow> DecisionInput \<Rightarrow> string" where
  "permissionDecisionAuditEventId allocated i = (case truthy (di_auditEventId i) of Some a \<Rightarrow> a | None \<Rightarrow> allocated)"

definition permissionAuditOutcome :: "PermissionDecisionResult \<Rightarrow> AuditOutcome" where
  "permissionAuditOutcome r = (if r = DenyResult then AuditDenied else if r = ErrorResult then AuditFailed else AuditSucceeded)"

definition permissionAuditSeverity :: "PermissionDecisionResult \<Rightarrow> AuditSeverity" where
  "permissionAuditSeverity r =
    (if r = AllowResult \<or> r = NotApplicableResult then InfoSeverity else if r = ErrorResult then ErrorSeverity else WarningSeverity)"

definition permissionAuditErrorCode :: "DecisionInput \<Rightarrow> string option" where
  "permissionAuditErrorCode i = (if di_result i = ErrorResult then Some (di_reasonCode i) else None)"

definition createdAtOf :: "string \<Rightarrow> DecisionInput \<Rightarrow> string" where
  "createdAtOf clock i = orDefault (di_now i) clock"

definition retainedForm :: "string \<Rightarrow> string \<Rightarrow> DecisionInput \<Rightarrow> RetainedDecision" where
  "retainedForm clock auditEventId i =
    \<lparr>rd_decisionId = di_decisionId i, rd_ownerScope = di_ownerScope i, rd_workspaceId = di_workspaceId i,
     rd_policyEngineVersion = di_policyEngineVersion i, rd_policySnapshotId = di_policySnapshotId i,
     rd_subjectSummary = di_subjectSummary i, rd_action = di_action i, rd_resourceSummary = di_resourceSummary i,
     rd_contextSummary = di_contextSummary i, rd_result = di_result i, rd_reasonCode = di_reasonCode i,
     rd_enforcementPoint = di_enforcementPoint i, rd_mediation = di_mediation i,
     rd_requiredApprovalKind = di_requiredApprovalKind i, rd_approvalId = di_approvalId i,
     rd_auditEventId = Some auditEventId, rd_createdAt = createdAtOf clock i\<rparr>"

definition checkMediation :: "string \<Rightarrow> string \<Rightarrow> DecisionInput \<Rightarrow> unit result" where
  "checkMediation clock auditEventId i =
    bindE (case di_mediation i of None \<Rightarrow> Inr None | Some m \<Rightarrow> bindE (parseWith PolicyDecisionV1Schema m) (\<lambda>m. Inr (Some m))) (\<lambda>_.
    bindE (parseWith PermissionDecisionRetainedV1Schema (retainedForm clock auditEventId i)) (\<lambda>_.
    ensure (case di_mediation i of None \<Rightarrow> True | Some m \<Rightarrow> di_enforcementPoint i = mediationPoint m)
      ''PermissionDecision enforcement point projection is inconsistent.''))"

definition checkInvocation :: "DecisionInput \<Rightarrow> unit result" where
  "checkInvocation i =
    (case di_policyInvocation i of
       None \<Rightarrow> Inr ()
     | Some v \<Rightarrow>
         bindE (parseWith PolicyInvocationV1Schema v) (\<lambda>v.
         ensure (case di_mediation i of
             None \<Rightarrow> False
           | Some m \<Rightarrow>
               pd_role m = GateRole \<and> pi_mode v = GateMode \<and> truthy (di_auditEventId i) = None
               \<and> pi_operation v = pd_operation m \<and> pi_stage v = pd_stage m
               \<and> pi_policyRevision v = di_policySnapshotId i
               \<and> pi_authorizationRevision v = pd_authorizationRevision m
               \<and> pi_proposalDigest v = pd_proposalDigest m \<and> Some (pi_binding v) = pd_binding m
               \<and> pi_subject v = pd_subject m
               \<and> pi_capabilityCallId v = optionalStringField (di_contextSummary i) ''capabilityCallId'')
           ''Gate Policy invocation must match its decision and atomic linked Audit.''))"

definition usesSchema :: "(PolicyStatementReferenceV1 \<times> int) list \<Rightarrow> bool" where
  "usesSchema uses =
    (uses \<noteq> [] \<and> list_all (\<lambda>(r, limit). PolicyStatementReferenceV1Schema r \<and> countSchema limit \<and> 0 < limit) uses)"

definition checkUses :: "DecisionInput \<Rightarrow> (PolicyStatementReferenceV1 \<times> int) list result" where
  "checkUses i =
    bindE (case di_uses i of None \<Rightarrow> Inr [] | Some us \<Rightarrow> parseWith usesSchema us) (\<lambda>uses.
    let consumed = (case di_mediation i of None \<Rightarrow> [] | Some m \<Rightarrow> pd_consumedStatements m) in
    if uses = [] \<and> consumed = [] then Inr uses
    else
      bindE (ensure (((di_ownerScope i = WorkspaceDecision \<and> di_workspaceDb i \<noteq> None \<and> di_workspaceId i = di_workspaceDb i)
             \<or> (di_ownerScope i = UserDecision \<and> di_userDb i \<noteq> None \<and> di_workspaceId i = None))
           \<and> di_result i = AllowResult \<and> truthy (di_auditEventId i) = None
           \<and> (case di_mediation i of
                None \<Rightarrow> False
              | Some m \<Rightarrow> pd_role m = FinalRole \<and> kernelAllows m
                  \<and> \<not> (di_ownerScope i = WorkspaceDecision
                       \<and> (case sj_process (pd_subject m) of None \<Rightarrow> False | Some p \<Rightarrow> Some (pp_workspaceId p) \<noteq> di_workspaceId i))))
          ''Finite Policy uses require a final owner-scoped allow and atomic linked Audit.'') (\<lambda>_.
      let requested = sort (map (\<lambda>(r, _). referenceText r) uses) in
      bindE (ensure (distinct requested \<and> requested = sort (map referenceText consumed))
          ''Consumed Policy statements must exactly match requested finite-use limits.'') (\<lambda>_.
      Inr uses)))"

text \<open>The partial unique index of the migrations: one terminal decision per Approval.\<close>

definition terminalApproval :: "Handle \<Rightarrow> PermissionDecisionRow \<Rightarrow> bool" where
  "terminalApproval handle row =
    ((case handle of CoreHandle \<Rightarrow> False | WorkspaceHandle _ \<Rightarrow> dr_ownerScope row = WorkspaceDecision
        | UserHandle _ \<Rightarrow> dr_ownerScope row = UserDecision)
     \<and> dr_approvalId row \<noteq> None \<and> dr_result row \<in> {AllowResult, DenyResult})"

definition insertDecision :: "Handle \<Rightarrow> PermissionDecisionRow list \<Rightarrow> PermissionDecisionRow \<Rightarrow> PermissionDecisionRow list result" where
  "insertDecision handle rows row =
    bindE (ensure (dr_decisionId row \<notin> dr_decisionId ` set rows)
        ''UNIQUE constraint failed: permission_decisions.decision_id'') (\<lambda>_.
    bindE (ensure (terminalApproval handle row \<longrightarrow>
          list_all (\<lambda>r. terminalApproval handle r \<longrightarrow> dr_approvalId r \<noteq> dr_approvalId row) rows)
        ''UNIQUE constraint failed: permission_decisions.approval_id'') (\<lambda>_.
    Inr (rows @ [row])))"

definition decisionRow :: "string \<Rightarrow> string \<Rightarrow> DecisionInput \<Rightarrow> PermissionDecisionRow result" where
  "decisionRow clock auditEventId i =
    bindE (case di_mediation i of None \<Rightarrow> jsonColumn (di_subjectSummary i) | Some _ \<Rightarrow> Inr JNull) (\<lambda>subject.
    bindE (jsonColumn (di_resourceSummary i)) (\<lambda>resource.
    bindE (jsonColumn (di_contextSummary i)) (\<lambda>context.
    Inr \<lparr>dr_schemaVersion = RETAINED_FORMAT_VERSION, dr_decisionId = di_decisionId i, dr_ownerScope = di_ownerScope i,
         dr_workspaceId = di_workspaceId i, dr_policyEngineVersion = di_policyEngineVersion i,
         dr_policySnapshotId = di_policySnapshotId i, dr_subjectSummary = subject, dr_action = di_action i,
         dr_resourceSummary = resource, dr_contextSummary = context, dr_result = di_result i,
         dr_reasonCode = di_reasonCode i,
         dr_enforcementPoint = (case di_mediation i of None \<Rightarrow> di_enforcementPoint i | Some _ \<Rightarrow> []),
         dr_mediation = di_mediation i, dr_requiredApprovalKind = di_requiredApprovalKind i,
         dr_approvalId = di_approvalId i, dr_auditEventId = Some auditEventId, dr_createdAt = createdAtOf clock i\<rparr>)))"

definition linkedAudit :: "string \<Rightarrow> string \<Rightarrow> DecisionInput \<Rightarrow> AuditInput" where
  "linkedAudit clock auditEventId i =
    \<lparr>ai_auditEventId = Some auditEventId, ai_threadId = optionalStringField (di_contextSummary i) ''threadId'',
     ai_turnId = optionalStringField (di_contextSummary i) ''turnId'',
     ai_itemId = optionalStringField (di_contextSummary i) ''itemId'',
     ai_capabilityCallId = optionalStringField (di_contextSummary i) ''capabilityCallId'',
     ai_permissionDecisionId = Some (di_decisionId i),
     ai_requestId = optionalStringField (di_contextSummary i) ''requestId'', ai_actor = di_auditActor i,
     ai_category = Some ApprovalAudit, ai_action = ''permission.decision'',
     ai_resource = Some (''permission:'' @ di_action i), ai_policyInvocation = di_policyInvocation i,
     ai_outcome = permissionAuditOutcome (di_result i), ai_severity = Some (permissionAuditSeverity (di_result i)),
     ai_summary = ''Permission decision '' @ resultText (di_result i) @ '': '' @ di_action i,
     ai_errorCode = permissionAuditErrorCode i, ai_occurredAt = None, ai_now = Some (createdAtOf clock i)\<rparr>"

definition publishAudit :: "string \<Rightarrow> string \<Rightarrow> AuditRow list \<Rightarrow> DecisionInput \<Rightarrow> AuditRow list result" where
  "publishAudit clock auditEventId rows i =
    (if auditEventId = [] \<or> truthy (di_auditEventId i) \<noteq> None then Inr rows
     else case di_ownerScope i of
       WorkspaceDecision \<Rightarrow>
         if di_workspaceDb i \<noteq> None \<and> truthy (di_workspaceId i) \<noteq> None
         then recordAuditEvent clock auditEventId rows (di_workspaceId i) (linkedAudit clock auditEventId i) else Inr rows
     | ServerDecision \<Rightarrow>
         if di_coreDb i then recordAuditEvent clock auditEventId rows None (linkedAudit clock auditEventId i) else Inr rows
     | UserDecision \<Rightarrow>
         if di_userDb i \<noteq> None then recordAuditEvent clock auditEventId rows None (linkedAudit clock auditEventId i) else Inr rows)"

definition exhausted :: "Store \<Rightarrow> Handle \<Rightarrow> PolicyStatementReferenceV1 \<times> int \<Rightarrow> unit result" where
  "exhausted store handle use =
    bindE (readPolicyStatementUseCount store handle (fst use)) (\<lambda>n.
    ensure (\<not> n \<ge> snd use) ''Policy statement use limit is exhausted.'')"

definition recordProductPermissionDecisionInDb :: "string \<Rightarrow> string \<Rightarrow> Store \<Rightarrow> DecisionInput \<Rightarrow> Store result" where
  "recordProductPermissionDecisionInDb clock allocated store i =
    bindE (ensure (\<not> (di_result i = RequireApprovalResult \<and> truthy (di_requiredApprovalKind i) = None))
        ''require_approval permission decisions require requiredApprovalKind.'') (\<lambda>_.
    bindE (permissionDecisionDb i) (\<lambda>handle.
    let auditEventId = permissionDecisionAuditEventId allocated i in
    bindE (checkMediation clock auditEventId i) (\<lambda>_.
    bindE (checkInvocation i) (\<lambda>_.
    bindE (checkUses i) (\<lambda>uses.
    bindE (traverseE (exhausted store handle) uses) (\<lambda>_.
    bindE (decisionRow clock auditEventId i) (\<lambda>row.
    bindE (insertDecision handle (tb_decisions (store handle)) row) (\<lambda>decisions.
    bindE (publishAudit clock auditEventId (tb_audits (store handle)) i) (\<lambda>audits.
    Inr (store(handle := \<lparr>tb_decisions = decisions, tb_audits = audits\<rparr>)))))))))))"

subsection \<open>The public entry points\<close>

text \<open>Descriptive summaries are JSON-cloned once; a summary that is undefined disappears.\<close>

definition cloneSummary :: "JsValue \<Rightarrow> JsValue" where
  "cloneSummary v = (if v = JUndefined then JUndefined else jsonClone v)"

definition prepareControlPermissionDecision :: "string \<Rightarrow> DecisionInput \<Rightarrow> DecisionInput" where
  "prepareControlPermissionDecision clock i =
    i\<lparr>di_subjectSummary := cloneSummary (di_subjectSummary i), di_resourceSummary := cloneSummary (di_resourceSummary i),
      di_contextSummary := cloneSummary (di_contextSummary i), di_now := Some (createdAtOf clock i)\<rparr>"

definition recordProductPermissionDecision :: "string \<Rightarrow> string \<Rightarrow> Store \<Rightarrow> DecisionInput \<Rightarrow> Store result" where
  "recordProductPermissionDecision clock allocated store i =
    bindE (case di_ownerScope i of
        WorkspaceDecision \<Rightarrow>
          (case di_workspaceDb i of
             None \<Rightarrow> Inl ''Workspace-scoped permission decisions require workspaceDb.''
           | Some ws \<Rightarrow> ensure (di_workspaceId i = Some ws) ''Permission decision database owner mismatch.'')
      | _ \<Rightarrow> bindE (permissionDecisionDb i) (\<lambda>_. Inr ())) (\<lambda>_.
    recordProductPermissionDecisionInDb clock allocated store (prepareControlPermissionDecision clock i))"

fun reasonCode :: "PolicyDecisionReason \<Rightarrow> string" where
  "reasonCode (AssociationGrant _) = ''association-grant''"
| "reasonCode (MissingPrivilege _) = ''missing-privilege''"
| "reasonCode (Restriction _) = ''restriction''"
| "reasonCode (MissingOperation _) = ''missing-operation''"
| "reasonCode (InvalidPolicy _) = ''invalid-policy''"
| "reasonCode (InvalidRequest _) = ''invalid-request''"

definition kernelTraceJson :: "PolicyDecision \<Rightarrow> JsValue" where
  "kernelTraceJson d =
    JObj [(''matchedAssociations'', JArr (map JStr (matchedAssociations (trace d)))),
          (''matchedProhibitions'', JArr (map JStr (matchedProhibitions (trace d))))]"

definition projectKernelDecision :: "PolicyDecision \<Rightarrow> PermissionDecisionResult \<times> string \<times> JsValue" where
  "projectKernelDecision d =
    (case effect d of Allow \<Rightarrow> AllowResult | Deny \<Rightarrow> DenyResult,
     case reasons d of [] \<Rightarrow> ''unknown'' | r # _ \<Rightarrow> reasonCode r,
     kernelTraceJson d)"

text \<open>Spreading an object and setting one member: the member is replaced in place, else appended.\<close>

definition withMember :: "string \<Rightarrow> JsValue \<Rightarrow> (string \<times> JsValue) list \<Rightarrow> (string \<times> JsValue) list" where
  "withMember k v members = AList.update k v members"

text \<open>The projection of one kernel decision; falsy optional members are omitted.\<close>

definition recordPermissionDecision ::
  "string \<Rightarrow> string \<Rightarrow> Store \<Rightarrow> PolicyDecision \<Rightarrow> (string \<times> JsValue) list \<Rightarrow> DecisionInput \<Rightarrow> Store result" where
  "recordPermissionDecision clock allocated store d context i =
    (let (res, reason, kernelTrace) = projectKernelDecision d in
     recordProductPermissionDecision clock allocated store
       (i\<lparr>di_workspaceId := truthy (di_workspaceId i), di_contextSummary := JObj (withMember ''kernelTrace'' kernelTrace context),
          di_result := res, di_reasonCode := reason, di_requiredApprovalKind := truthy (di_requiredApprovalKind i),
          di_approvalId := truthy (di_approvalId i), di_auditEventId := truthy (di_auditEventId i),
          di_mediation := None, di_policyInvocation := None, di_uses := None\<rparr>))"

record PolicyUseDecision =
  pu_decisionId :: string
  pu_proposalDigest :: string
  pu_policyRevision :: string
  pu_authorizationRevision :: string

definition policyStatementUsedByDecision :: "Store \<Rightarrow> string \<Rightarrow> PolicyStatementReferenceV1 \<Rightarrow> PolicyUseDecision \<Rightarrow> bool result" where
  "policyStatementUsedByDecision store ws reference expected =
    bindE (parseWith PolicyStatementReferenceV1Schema reference) (\<lambda>statement.
    let tables = store (WorkspaceHandle ws) in
    case List.find (\<lambda>r. dr_decisionId r = pu_decisionId expected \<and> dr_ownerScope r = WorkspaceDecision
        \<and> dr_workspaceId r = Some ws) (tb_decisions tables) of
      None \<Rightarrow> Inr False
    | Some row \<Rightarrow>
        bindE (readPermissionDecisionRowV1 row) (\<lambda>decision.
        case rd_mediation decision of
          None \<Rightarrow> Inr False
        | Some m \<Rightarrow>
            if rd_result decision \<noteq> AllowResult \<or> rd_policySnapshotId decision \<noteq> pu_policyRevision expected
               \<or> pd_role m \<noteq> FinalRole \<or> pd_stage m \<noteq> DecideStage \<or> \<not> kernelAllows m
               \<or> pd_proposalDigest m \<noteq> pu_proposalDigest expected
               \<or> pd_authorizationRevision m \<noteq> pu_authorizationRevision expected
               \<or> \<not> list_ex (\<lambda>r. sf_id r = sf_id statement \<and> sf_digest r = sf_digest statement) (pd_consumedStatements m)
            then Inr False
            else case List.find (\<lambda>a. Some (ae_id (ar_event a)) = rd_auditEventId decision) (tb_audits tables) of
              None \<Rightarrow> Inr False
            | Some auditRow \<Rightarrow>
                bindE (readAuditEventRowV1 auditRow) (\<lambda>audit.
                Inr (ae_permissionDecisionId audit = Some (rd_decisionId decision) \<and> ae_workspaceId audit = Some ws
                  \<and> ae_action audit = ''permission.decision'' \<and> ae_outcome audit = AuditSucceeded
                  \<and> ae_resource audit = Some (''permission:'' @ rd_action decision)
                  \<and> ae_capabilityCallId audit = optionalStringField (rd_contextSummary decision) ''capabilityCallId''
                  \<and> (case sj_process (pd_subject m) of
                       None \<Rightarrow> True
                     | Some p \<Rightarrow> ae_threadId audit = Some (pp_threadId p) \<and> ae_turnId audit = Some (pp_turnId p))))))"

text \<open>\<^verbatim>\<open>ORDER BY created_at ASC, decision_id ASC\<close>\<close>

definition oldestFirst :: "PermissionDecisionRow list \<Rightarrow> PermissionDecisionRow list" where
  "oldestFirst rows = sort_key dr_createdAt (sort_key dr_decisionId rows)"

definition mapPermissionDecisionRow :: "PermissionDecisionRow \<Rightarrow> RetainedDecision result" where
  "mapPermissionDecisionRow row =
    bindE (readPermissionDecisionRowV1 row) (\<lambda>d.
    if rd_ownerScope d \<noteq> WorkspaceDecision \<or> truthy (rd_workspaceId d) = None
    then Inl ''Exported permission decision row must be workspace-scoped.'' else Inr d)"

definition mapServerPermissionDecisionRow :: "PermissionDecisionRow \<Rightarrow> RetainedDecision result" where
  "mapServerPermissionDecisionRow row =
    bindE (readPermissionDecisionRowV1 row) (\<lambda>d.
    if rd_ownerScope d \<noteq> ServerDecision \<or> rd_workspaceId d \<noteq> None
    then Inl ''Server permission decision row must be server-scoped.'' else Inr d)"

definition listExportableWorkspacePermissionDecisions :: "Store \<Rightarrow> Handle \<Rightarrow> string \<Rightarrow> RetainedDecision list result" where
  "listExportableWorkspacePermissionDecisions store handle ws =
    mapE mapPermissionDecisionRow (oldestFirst
      (filter (\<lambda>r. dr_ownerScope r = WorkspaceDecision \<and> dr_workspaceId r = Some ws) (tb_decisions (store handle))))"

definition listServerPermissionDecisions :: "Store \<Rightarrow> RetainedDecision list result" where
  "listServerPermissionDecisions store =
    mapE mapServerPermissionDecisionRow (oldestFirst
      (filter (\<lambda>r. dr_ownerScope r = ServerDecision) (tb_decisions (store CoreHandle))))"

definition listUserPermissionDecisions :: "Store \<Rightarrow> string \<Rightarrow> RetainedDecision list result" where
  "listUserPermissionDecisions store u =
    mapE (\<lambda>row. bindE (readPermissionDecisionRowV1 row) (\<lambda>d.
        if rd_ownerScope d \<noteq> UserDecision \<or> rd_workspaceId d \<noteq> None
        then Inl ''User permission decision row must be User-scoped.'' else Inr d))
      (oldestFirst (tb_decisions (store (UserHandle u))))"

definition listPolicyApprovalSourceDecisions :: "Store \<Rightarrow> Handle \<Rightarrow> string \<Rightarrow> string \<Rightarrow> RetainedDecision list result" where
  "listPolicyApprovalSourceDecisions store handle ws approvalId =
    mapE readPermissionDecisionRowV1 (oldestFirst
      (filter (\<lambda>r. dr_ownerScope r = WorkspaceDecision \<and> dr_workspaceId r = Some ws
          \<and> dr_result r = RequireApprovalResult \<and> dr_approvalId r = Some approvalId) (tb_decisions (store handle))))"

end
