(* ===== verification/Policy_Interception.thy ===== *)
theory Policy_Interception
  imports Policy_Statements Permission_Decisions
begin

text \<open>
  Policy interception (\<^verbatim>\<open>apps/nanocore/src/policy/interception.ts\<close>): the deciding point that runs gate
  participants, the mandatory Kernel evaluation and the retained decision, and the completed point
  that runs observers.

  Everything the code asks of its surroundings is a \<open>World\<close>: the clock, freshly allocated
  identifiers, the callbacks of the caller and the reply of a participant, each indexed by a tick
  that grows with every question, so no two questions need get the same answer. A callback that may
  throw inside a \<^verbatim>\<open>try\<close> answers a \<open>result\<close>. A participant's reply is its value, a timeout or a thrown
  error (\<^verbatim>\<open>Promise.race\<close>). The state is the circuits, the tick and the store of decisions and Audits.
  One decision runs at a time. Reference tables and attributes of a proposal are plain data, so its
  digest never throws.
\<close>

datatype Reply = Replied JsValue | TimedOut | Threw

record GoalEscalation =
  ge_workspaceId :: string
  ge_goalId :: string
  ge_agentId :: string

datatype KernelAnswer = PlainKernel PolicyDecision | GoalKernel PolicyDecision "GoalEscalation option" bool

record World =
  wd_now :: "nat \<Rightarrow> int"
  wd_iso :: "nat \<Rightarrow> string"
  wd_allocate :: "nat \<Rightarrow> string \<Rightarrow> string"
  wd_authorCurrent :: "nat \<Rightarrow> string \<Rightarrow> bool"
  wd_anchorCurrent :: "nat \<Rightarrow> PolicyContainerV1 \<Rightarrow> bool"
  wd_participantAuthorized :: "nat \<Rightarrow> PolicyStatementV1 \<Rightarrow> bool result"
  wd_stillCurrent :: "nat \<Rightarrow> bool result"
  wd_finalKernel :: "nat \<Rightarrow> KernelAnswer result"
  wd_reply :: "nat \<Rightarrow> Reply"
  wd_userDatabasePath :: "UserDb \<Rightarrow> unit result"

record WorkspaceDb =
  wb_scope :: string
  wb_workspaceId :: string

record HumanApproval =
  ha_requestId :: string
  ha_sourceDecisionId :: string
  ha_deciderId :: string
  ha_binding :: PolicyApprovalBindingV1

record InterceptionInput =
  ii_document :: PolicyDocumentV1
  ii_proposal :: PolicyProposal
  ii_authorizationRevision :: string
  ii_permissions :: "PolicyPermissionV1 list option"
  ii_resourceSummary :: "JsValue option"
  ii_contextSummary :: "(string \<times> JsValue) list option"
  ii_decisionLineage :: "(string \<times> string) option"
  ii_authorizationUses :: "(PolicyStatementReferenceV1 \<times> int) list option"
  ii_humanApproval :: "HumanApproval option"
  ii_workspaceDb :: "WorkspaceDb option"
  ii_userDb :: "UserDb option"

record InterceptionDecision =
  id_result :: PermissionDecisionResult
  id_decisionId :: string
  id_proposalDigest :: string
  id_policyRevision :: string
  id_authorizationRevision :: string
  id_escalation :: "GoalEscalation option"

record Circuit =
  cc_failures :: int
  cc_retryAt :: int
  cc_probing :: bool

text \<open>The participants injected into the constructor: the deterministic one, and the agent runner with
  its optional selectors.\<close>

record Participants =
  pt_participant :: "(string \<times> string) option"
  pt_agentParticipant :: "(string option \<times> string option) option"

record PolicyInterception =
  pn_circuits :: "(string \<times> Circuit) list"
  pn_tick :: nat
  pn_store :: Store

abbreviation listOr :: "'a list option \<Rightarrow> 'a list" where
  "listOr v \<equiv> orDefault v []"

subsection \<open>Closed precedence\<close>

definition RESULT_PRECEDENCE :: "PermissionDecisionResult list" where
  "RESULT_PRECEDENCE =
    [ErrorResult, DenyResult, RequireEscalationResult, RequireApprovalResult, DeferResult, NotApplicableResult, AllowResult]"

definition combineResults :: "PermissionDecisionResult list \<Rightarrow> PermissionDecisionResult" where
  "combineResults results =
    (let applicable = (if list_ex (\<lambda>r. r \<noteq> NotApplicableResult) results
         then filter (\<lambda>r. r \<noteq> NotApplicableResult) results else results)
     in orDefault (List.find (\<lambda>r. r \<in> set applicable) RESULT_PRECEDENCE) NotApplicableResult)"

subsection \<open>Owner and evidence\<close>

definition assertInterceptionOwner :: "World \<Rightarrow> InterceptionInput \<Rightarrow> unit result" where
  "assertInterceptionOwner w i =
    (let p = ii_proposal i; unavailable = ''Policy resource database owner is unavailable.'' in
     bindE (ensure ((ii_userDb i \<noteq> None) \<noteq> (ii_workspaceDb i \<noteq> None)) unavailable) (\<lambda>_.
     case ii_userDb i of
       Some u \<Rightarrow>
         bindE (wd_userDatabasePath w u) (\<lambda>_.
         ensure (pq_workspaceId p = None \<and> policyResourceUser (pq_resource p) = Some (ud_userId u)) unavailable)
     | None \<Rightarrow>
         (case ii_workspaceDb i of
            None \<Rightarrow> Inl unavailable
          | Some d \<Rightarrow>
              ensure (wb_scope d = ''workspace'' \<and> Some (wb_workspaceId d) = pq_workspaceId p
                  \<and> policyResourceWorkspace (pq_resource p) = pq_workspaceId p) unavailable)))"

definition ownerHandle :: "InterceptionInput \<Rightarrow> Handle" where
  "ownerHandle i =
    (case ii_userDb i of
       Some u \<Rightarrow> UserHandle (ud_userId u)
     | None \<Rightarrow> (case ii_workspaceDb i of Some d \<Rightarrow> WorkspaceHandle (wb_workspaceId d) | None \<Rightarrow> CoreHandle))"

text \<open>Object spread: later members replace earlier ones in place.\<close>

definition spread :: "(string \<times> JsValue) list \<Rightarrow> (string \<times> JsValue) list \<Rightarrow> (string \<times> JsValue) list" where
  "spread a b = fold (\<lambda>(k, v) m. AList.update k v m) b a"

definition contextMember :: "InterceptionInput \<Rightarrow> string \<Rightarrow> (PolicyProcess \<Rightarrow> string) \<Rightarrow> JsValue" where
  "contextMember i k f =
    (case sj_process (pq_subject (ii_proposal i)) of
       Some p \<Rightarrow> JStr (f p)
     | None \<Rightarrow> orDefault (map_of (listOr (ii_contextSummary i)) k) JUndefined)"

definition decisionContext :: "InterceptionInput \<Rightarrow> (string \<times> JsValue) list" where
  "decisionContext i =
    (let c1 = spread [(''capabilityCallId'', nullJson JStr (pq_capabilityCallId (ii_proposal i)))] (listOr (ii_contextSummary i));
         c2 = spread c1 (case ii_decisionLineage i of None \<Rightarrow> [] | Some (requestId, _) \<Rightarrow> [(''requestId'', JStr requestId)]);
         c3 = spread c2 [(''threadId'', contextMember i ''threadId'' pp_threadId), (''turnId'', contextMember i ''turnId'' pp_turnId)]
     in spread c3 (case ii_humanApproval i of
          None \<Rightarrow> []
        | Some a \<Rightarrow> [(''humanApprovalRequestId'', JStr (ha_requestId a)),
            (''approvalSourceDecisionId'', JStr (ha_sourceDecisionId a)), (''humanApprovalDeciderId'', JStr (ha_deciderId a))]))"

definition subjectSummaryJson :: "PolicySubjectV1 \<Rightarrow> JsValue" where
  "subjectSummaryJson s =
    JObj [(''principal'', principalJson (sj_principal s)), (''responsibleHumanId'', JStr (sj_responsibleHumanId s))]"

text \<open>The members shared by gate and final records; the remaining ones are set by the two callers.\<close>

definition decisionInput :: "Platform \<Rightarrow> InterceptionInput \<Rightarrow> string \<Rightarrow> DecisionInput result" where
  "decisionInput pf i policyRevision =
    bindE (policyOperationDefinition pf (pq_operation (ii_proposal i))) (\<lambda>(policyOperation, _).
    Inr \<lparr>di_coreDb = False,
      di_workspaceDb = (case ii_userDb i of Some _ \<Rightarrow> None | None \<Rightarrow> map_option wb_workspaceId (ii_workspaceDb i)),
      di_userDb = ii_userDb i, di_decisionId = [],
      di_ownerScope = (if ii_userDb i \<noteq> None then UserDecision else WorkspaceDecision),
      di_workspaceId = (case ii_userDb i of Some _ \<Rightarrow> None | None \<Rightarrow> map_option wb_workspaceId (ii_workspaceDb i)),
      di_policyEngineVersion = ''nanocore-policy:v1'', di_policySnapshotId = policyRevision,
      di_subjectSummary = subjectSummaryJson (pq_subject (ii_proposal i)), di_action = policyOperation,
      di_resourceSummary = orDefault (ii_resourceSummary i) (resourceJson (pq_resource (ii_proposal i))),
      di_contextSummary = JObj (decisionContext i), di_result = NotApplicableResult, di_reasonCode = [],
      di_enforcementPoint = pq_operation (ii_proposal i) @ ''@decide'', di_mediation = None, di_policyInvocation = None,
      di_uses = None, di_requiredApprovalKind = None, di_approvalId = map_option snd (ii_decisionLineage i),
      di_auditEventId = None,
      di_auditActor = Some (case ii_humanApproval i of Some a \<Rightarrow> UserActor (ha_deciderId a)
        | None \<Rightarrow> sj_actor (pq_subject (ii_proposal i))),
      di_now = None\<rparr>)"

subsection \<open>Invoking a participant\<close>

definition gateDecisionOf :: "JsValue option \<Rightarrow> GateDecision option" where
  "gateDecisionOf v =
    (if v = Some (JStr ''allow'') then Some GateAllow else if v = Some (JStr ''deny'') then Some GateDeny
     else if v = Some (JStr ''escalate'') then Some GateEscalate else None)"

definition GateOutput :: "JsValue \<Rightarrow> GateDecision option" where
  "GateOutput v =
    (case v of JObj ms \<Rightarrow> if set (map fst ms) = {''decision''} then gateDecisionOf (map_of ms ''decision'') else None
     | _ \<Rightarrow> None)"

definition assessmentText :: "JsValue option \<Rightarrow> bool" where
  "assessmentText v = (case v of Some (JStr s) \<Rightarrow> textSchema s \<and> length s \<le> 2000 | _ \<Rightarrow> False)"

definition AgentGateOutput :: "JsValue \<Rightarrow> GateDecision option" where
  "AgentGateOutput v =
    (case v of
       JObj ms \<Rightarrow>
         if set (map fst ms) = {''decision'', ''risk'', ''authorizationAssessment'', ''rationale''}
            \<and> assessmentText (map_of ms ''risk'') \<and> assessmentText (map_of ms ''authorizationAssessment'')
            \<and> assessmentText (map_of ms ''rationale'')
         then gateDecisionOf (map_of ms ''decision'') else None
     | _ \<Rightarrow> None)"

definition ObservationOutput :: "JsValue \<Rightarrow> bool" where
  "ObservationOutput v =
    (case v of JObj ms \<Rightarrow> set (map fst ms) = {''observed''} \<and> map_of ms ''observed'' = Some (JBool True) | _ \<Rightarrow> False)"

definition isAgentBinding :: "PolicyBindingV1 \<Rightarrow> bool" where
  "isAgentBinding b = (participantKind (bd_participant b) = AgentKind)"

text \<open>The parsed reply: \<open>None\<close> is malformed, \<open>Some None\<close> an observation, \<open>Some (Some d)\<close> a gate decision the
  operation supports.\<close>

definition parsedReply :: "OperationPoints \<Rightarrow> PolicyBindingV1 \<Rightarrow> JsValue \<Rightarrow> GateDecision option option" where
  "parsedReply points b v =
    (if bd_mode b = GateMode
     then (case (if isAgentBinding b then AgentGateOutput v else GateOutput v) of
        None \<Rightarrow> None
      | Some d \<Rightarrow> if d \<in> set (op_gateResults points) then Some (Some d) else None)
     else if ObservationOutput v then Some None else None)"

definition failureResult :: "PolicyBindingV1 \<Rightarrow> PermissionDecisionResult" where
  "failureResult b =
    (case bd_failure b of ContinueOnFailure \<Rightarrow> NotApplicableResult | ErrorOnFailure \<Rightarrow> ErrorResult
     | EscalateToHuman \<Rightarrow> RequireEscalationResult)"

fun gateResult :: "GateDecision option \<Rightarrow> PermissionDecisionResult" where
  "gateResult None = NotApplicableResult"
| "gateResult (Some GateAllow) = AllowResult"
| "gateResult (Some GateDeny) = DenyResult"
| "gateResult (Some GateEscalate) = RequireEscalationResult"

definition participationAvailable :: "Platform \<Rightarrow> PolicyProposal \<Rightarrow> PolicyBindingV1 \<Rightarrow> OperationPoints result" where
  "participationAvailable pf proposal b =
    bindE (policyOperationDefinition pf (pq_operation proposal)) (\<lambda>(_, points).
    bindE (ensure (bd_operation b = pq_operation proposal \<and> bd_stage b \<in> set (op_stages points)
        \<and> bd_mode b \<in> set (op_modes points) \<and> participantKind (bd_participant b) \<in> set (op_participantKinds points)
        \<and> (bd_mode b = GateMode \<longrightarrow> bd_failure b \<in> set (op_gateFailures points)))
      ''Policy participation is unavailable at this operation point.'') (\<lambda>_. Inr points))"

definition readAgent :: "Platform \<Rightarrow> World \<Rightarrow> nat \<Rightarrow> InterceptionInput \<Rightarrow> PolicyBindingV1 \<Rightarrow> agent result" where
  "readAgent pf w k i b =
    readPolicyAgentPrincipal pf (ii_document i) b (ii_proposal i) (wd_now w k) (wd_authorCurrent w k) (wd_anchorCurrent w k)"

record Authority =
  au_agent :: "agent option"
  au_current :: bool
  au_authorized :: bool
  au_error :: bool

text \<open>The first \<^verbatim>\<open>try\<close> block: what was assigned before a throw stays assigned.\<close>

definition checkAuthority :: "Platform \<Rightarrow> World \<Rightarrow> nat \<Rightarrow> InterceptionInput \<Rightarrow> binding \<Rightarrow> Authority" where
  "checkAuthority pf w k i sb =
    (let (s, b) = sb;
         agent = (if isAgentBinding b
           then (case st_author s of
               HumanPrincipal u \<Rightarrow>
                 if wd_authorCurrent w k u then bindE (readAgent pf w (k + 1) i b) (\<lambda>a. Inr (Some a))
                 else Inl ''Current agent activation authority is unavailable.''
             | AgentPrincipal _ \<Rightarrow> Inl ''Current agent activation authority is unavailable.'')
           else Inr None)
     in case agent of
       Inl _ \<Rightarrow> \<lparr>au_agent = None, au_current = False, au_authorized = False, au_error = True\<rparr>
     | Inr a \<Rightarrow>
         (case wd_stillCurrent w (k + 2) of
            Inl _ \<Rightarrow> \<lparr>au_agent = a, au_current = False, au_authorized = False, au_error = True\<rparr>
          | Inr current \<Rightarrow>
              if \<not> current then \<lparr>au_agent = a, au_current = False, au_authorized = False, au_error = False\<rparr>
              else (case bindE (policyScopeIncludesProposal pf (bd_inputDisclosure b) (ii_proposal i)) (\<lambda>included.
                  if included then wd_participantAuthorized w (k + 3) s else Inr False) of
                Inl _ \<Rightarrow> \<lparr>au_agent = a, au_current = True, au_authorized = False, au_error = True\<rparr>
              | Inr authorized \<Rightarrow> \<lparr>au_agent = a, au_current = True, au_authorized = authorized, au_error = False\<rparr>)))"

definition participantMatches :: "Participants \<Rightarrow> PolicyBindingV1 \<Rightarrow> bool" where
  "participantMatches ps b =
    (case bd_participant b of
       AgentParticipant i v \<Rightarrow>
         (case pt_agentParticipant ps of
            None \<Rightarrow> False
          | Some (i', v') \<Rightarrow> (i' = None \<or> i' = Some i) \<and> (v' = None \<or> v' = Some v))
     | DeterministicParticipant i v \<Rightarrow> pt_participant ps = Some (i, v))"

record Attempt =
  at_outcome :: InvocationOutcome
  at_result :: PermissionDecisionResult
  at_agent :: "agent option"
  at_error :: bool
  at_output :: JsValue

text \<open>The second \<^verbatim>\<open>try\<close> block, from the reply of the participant on.\<close>

definition judgeReply ::
  "Platform \<Rightarrow> World \<Rightarrow> nat \<Rightarrow> InterceptionInput \<Rightarrow> binding \<Rightarrow> OperationPoints \<Rightarrow> agent option \<Rightarrow> Attempt" where
  "judgeReply pf w k i sb points agent =
    (let (s, b) = sb;
         failed = (\<lambda>outcome a err. \<lparr>at_outcome = outcome, at_result = failureResult b, at_agent = a, at_error = err, at_output = JNull\<rparr>)
     in case wd_reply w (k + 5) of
       TimedOut \<Rightarrow> failed TimeoutOutcome agent False
     | Threw \<Rightarrow> failed ErrorOutcome agent False
     | Replied v \<Rightarrow>
         (case parsedReply points b v of
            None \<Rightarrow> failed MalformedOutcome agent False
          | Some decided \<Rightarrow>
              (case wd_stillCurrent w (k + 6) of
                 Inl _ \<Rightarrow> failed ErrorOutcome agent False
               | Inr current \<Rightarrow>
                   if \<not> current then failed StaleOutcome agent False
                   else
                     let completed = (\<lambda>a. \<lparr>at_outcome = CompletedOutcome, at_result = gateResult decided,
                           at_agent = a, at_error = False, at_output = v\<rparr>)
                     in if \<not> isAgentBinding b then completed agent
                        else (case readAgent pf w (k + 7) i b of
                          Inl _ \<Rightarrow> failed ErrorOutcome agent True
                        | Inr a \<Rightarrow>
                            (case wd_participantAuthorized w (k + 8) s of
                               Inr authorized \<Rightarrow> if authorized then completed (Some a) else failed ErrorOutcome (Some a) True
                             | Inl _ \<Rightarrow> failed ErrorOutcome (Some a) True)))))"

definition circuitOf :: "(string \<times> Circuit) list \<Rightarrow> string \<Rightarrow> Circuit" where
  "circuitOf circuits key = orDefault (map_of circuits key) \<lparr>cc_failures = 0, cc_retryAt = 0, cc_probing = False\<rparr>"

definition settleCircuit :: "PolicyBindingV1 \<Rightarrow> int \<Rightarrow> InvocationOutcome \<Rightarrow> Circuit \<Rightarrow> Circuit" where
  "settleCircuit b now outcome c =
    (if outcome = CompletedOutcome then \<lparr>cc_failures = 0, cc_retryAt = 0, cc_probing = False\<rparr>
     else
       let failures = cc_failures c + 1
       in \<lparr>cc_failures = failures,
           cc_retryAt = (if failures \<ge> ci_failures (bd_circuit b) then now + ci_recoveryAfterMs (bd_circuit b) else cc_retryAt c),
           cc_probing = False\<rparr>)"

definition bindingReference :: "Platform \<Rightarrow> PolicyStatementV1 \<Rightarrow> PolicyStatementReferenceV1" where
  "bindingReference pf s = \<lparr>sf_id = st_id s, sf_digest = policyDigest pf (statementJson s)\<rparr>"

text \<open>From the authority check to the settled circuit. The flag tells whether the participant was called.\<close>

definition attemptParticipant ::
  "Platform \<Rightarrow> Participants \<Rightarrow> World \<Rightarrow> nat \<Rightarrow> (string \<times> Circuit) list \<Rightarrow> InterceptionInput \<Rightarrow> binding \<Rightarrow> OperationPoints
    \<Rightarrow> (string \<times> Circuit) list \<times> Attempt \<times> bool" where
  "attemptParticipant pf ps w k circuits i sb points =
    (let (s, b) = sb; key = sf_digest (bindingReference pf s); circuit = circuitOf circuits key;
         authority = checkAuthority pf w k i sb;
         skipped = (\<lambda>outcome res. (circuits, \<lparr>at_outcome = outcome, at_result = res, at_agent = au_agent authority,
           at_error = au_error authority, at_output = JNull\<rparr>, False))
     in if au_error authority then skipped ErrorOutcome ErrorResult
        else if \<not> au_current authority then skipped StaleOutcome ErrorResult
        else if \<not> au_authorized authority then skipped UnavailableOutcome (failureResult b)
        else if cc_probing circuit \<or> cc_retryAt circuit > wd_now w (k + 4) then skipped OpenCircuitOutcome (failureResult b)
        else if \<not> participantMatches ps b then skipped UnavailableOutcome (failureResult b)
        else
          let attempt = judgeReply pf w k i sb points (au_agent authority)
          in (AList.update key (settleCircuit b (wd_now w (k + 9)) (at_outcome attempt) circuit) circuits, attempt, True))"

definition invocationSubject :: "PolicySubjectV1 \<Rightarrow> agent option \<Rightarrow> PolicySubjectV1" where
  "invocationSubject subject agent =
    (case agent of
       None \<Rightarrow> subject
     | Some a \<Rightarrow> subject\<lparr>sj_principal := AgentPrincipal (agentId a), sj_onBehalfOf := None,
         sj_actor := ResponsibleActor AgentActor (agentId a) (Some (ap_responsibleHumanId (snd a))),
         sj_responsibleHumanId := ap_responsibleHumanId (snd a)\<rparr>)"

definition proposalJson :: "PolicyProposal \<Rightarrow> JsValue" where
  "proposalJson p =
    JObj [(''operation'', JStr (pq_operation p)), (''workspaceId'', nullJson JStr (pq_workspaceId p)),
      (''resource'', resourceJson (pq_resource p)),
      (''inputReferences'', JObj (map (\<lambda>(k, v). (k, nullJson JStr v)) (pq_inputReferences p))),
      (''inputAttributes'', JObj (pq_inputAttributes p)),
      (''capabilityCallId'', nullJson JStr (pq_capabilityCallId p)), (''subject'', subjectJson (pq_subject p))]"

definition participantRef :: "ParticipantV1 \<Rightarrow> string \<times> string" where
  "participantRef p = (case p of DeterministicParticipant i v \<Rightarrow> (i, v) | AgentParticipant i v \<Rightarrow> (i, v))"

definition invocationRecord ::
  "Platform \<Rightarrow> World \<Rightarrow> nat \<Rightarrow> InterceptionInput \<Rightarrow> binding \<Rightarrow> string \<Rightarrow> string \<Rightarrow> Attempt \<Rightarrow> PolicyInvocationV1" where
  "invocationRecord pf w k i sb policyRevision proposalDigest attempt =
    (let (s, b) = sb in
     \<lparr>pi_binding = bindingReference pf s, pi_operation = bd_operation b, pi_stage = bd_stage b, pi_mode = bd_mode b,
      pi_policyRevision = policyRevision, pi_authorizationRevision = ii_authorizationRevision i,
      pi_proposalDigest = proposalDigest,
      pi_subject = invocationSubject (pq_subject (ii_proposal i)) (at_agent attempt),
      pi_participantId = fst (participantRef (bd_participant b)),
      pi_participantVersion = snd (participantRef (bd_participant b)),
      pi_inputDigest = policyDigest pf (JObj [(''proposal'', proposalJson (ii_proposal i)), (''advice'', JArr [])]),
      pi_outputDigest = (if at_outcome attempt = CompletedOutcome then Some (policyDigest pf (at_output attempt)) else None),
      pi_outcome = at_outcome attempt, pi_startedAt = wd_iso w k, pi_completedAt = wd_iso w (k + 10),
      pi_capabilityCallId = pq_capabilityCallId (ii_proposal i)\<rparr>)"

fun outcomeText :: "InvocationOutcome \<Rightarrow> string" where
  "outcomeText CompletedOutcome = ''completed''"
| "outcomeText UnavailableOutcome = ''unavailable''"
| "outcomeText TimeoutOutcome = ''timeout''"
| "outcomeText OpenCircuitOutcome = ''open-circuit''"
| "outcomeText MalformedOutcome = ''malformed''"
| "outcomeText ErrorOutcome = ''error''"
| "outcomeText StaleOutcome = ''stale''"

definition gateReason :: "Attempt \<Rightarrow> PermissionDecisionResult \<Rightarrow> string" where
  "gateReason attempt res =
    (if at_outcome attempt \<noteq> CompletedOutcome then ''participant_unavailable''
     else if res = DenyResult then ''prohibited''
     else if res = RequireEscalationResult then ''require_approval'' else ''granted'')"

definition gateRecord ::
  "Platform \<Rightarrow> World \<Rightarrow> nat \<Rightarrow> InterceptionInput \<Rightarrow> binding \<Rightarrow> string \<Rightarrow> string \<Rightarrow> Attempt \<Rightarrow> PermissionDecisionResult
    \<Rightarrow> DecisionInput result" where
  "gateRecord pf w k i sb policyRevision proposalDigest attempt res =
    (let (s, b) = sb; invocation = invocationRecord pf w k i sb policyRevision proposalDigest attempt; subject = pi_subject invocation in
     bindE (decisionInput pf i policyRevision) (\<lambda>base.
     Inr (base\<lparr>di_approvalId := None,
       di_subjectSummary := (if at_agent attempt = None then di_subjectSummary base else subjectSummaryJson subject),
       di_auditActor := (if at_agent attempt = None then di_auditActor base else Some (sj_actor subject)),
       di_decisionId := wd_allocate w (k + 11) ''pd'', di_result := res, di_reasonCode := gateReason attempt res,
       di_policyInvocation := Some invocation,
       di_mediation := Some \<lparr>pd_operation = bd_operation b, pd_stage = bd_stage b, pd_proposalDigest = proposalDigest,
         pd_authorizationRevision = ii_authorizationRevision i, pd_subject = subject, pd_role = GateRole,
         pd_binding = Some (bindingReference pf s), pd_kernel = None, pd_invocations = [], pd_consumedStatements = []\<rparr>\<rparr>)))"

definition participantAudit :: "InterceptionInput \<Rightarrow> binding \<Rightarrow> string \<Rightarrow> PolicyInvocationV1 \<Rightarrow> AuditInput" where
  "participantAudit i sb auditEventId invocation =
    (let proposal = ii_proposal i; process = sj_process (pq_subject proposal) in
     \<lparr>ai_auditEventId = Some auditEventId, ai_threadId = map_option pp_threadId process, ai_turnId = map_option pp_turnId process,
      ai_itemId = None, ai_capabilityCallId = truthy (pq_capabilityCallId proposal), ai_permissionDecisionId = None,
      ai_requestId = None, ai_actor = Some (sj_actor (pq_subject proposal)), ai_category = Some SystemAudit,
      ai_action = ''policy.participant'', ai_resource = None, ai_policyInvocation = Some invocation,
      ai_outcome = (if pi_outcome invocation = CompletedOutcome then AuditSucceeded else AuditFailed), ai_severity = None,
      ai_summary = ''Policy participant '' @ st_id (fst sb) @ '': '' @ outcomeText (pi_outcome invocation) @ ''.'',
      ai_errorCode = None, ai_occurredAt = None, ai_now = None\<rparr>)"

definition INVOKE_TICKS :: nat where
  "INVOKE_TICKS = 14"

definition invoke ::
  "Platform \<Rightarrow> Participants \<Rightarrow> World \<Rightarrow> PolicyInterception \<Rightarrow> InterceptionInput \<Rightarrow> binding \<Rightarrow> string \<Rightarrow> string
    \<Rightarrow> (PolicyInterception \<times> PolicyInvocationReferenceV1 \<times> PermissionDecisionResult) result" where
  "invoke pf ps w st i sb policyRevision proposalDigest =
    (let (s, b) = sb; k = pn_tick st in
     bindE (participationAvailable pf (ii_proposal i) b) (\<lambda>points.
     let (circuits, attempt, called) = attemptParticipant pf ps w k (pn_circuits st) i sb points;
         res = (if at_error attempt then ErrorResult else at_result attempt);
         after = st\<lparr>pn_circuits := circuits, pn_tick := k + INVOKE_TICKS\<rparr>
     in if bd_mode b = GateMode
        then
          bindE (gateRecord pf w k i sb policyRevision proposalDigest attempt res) (\<lambda>record.
          bindE (recordProductPermissionDecision (wd_iso w (k + 12)) (wd_allocate w (k + 13) ''aud'') (pn_store st) record) (\<lambda>store.
          Inr (after\<lparr>pn_store := store\<rparr>, DecisionReference (di_decisionId record), res)))
        else
          let auditEventId = wd_allocate w (k + 11) ''aud''; handle = ownerHandle i; tables = pn_store st handle;
              input = participantAudit i sb auditEventId (invocationRecord pf w k i sb policyRevision proposalDigest attempt)
          in bindE (prepareAuditEvent (wd_iso w (k + 12)) auditEventId
               (if ii_userDb i \<noteq> None then None else pq_workspaceId (ii_proposal i)) input) (\<lambda>event.
             bindE (insertAuditEvent (tb_audits tables) event) (\<lambda>audits.
             Inr (after\<lparr>pn_store := (pn_store st)(handle := tables\<lparr>tb_audits := audits\<rparr>)\<rparr>,
                  AuditReference auditEventId, res)))))"

subsection \<open>Deciding\<close>

record Prepared =
  pr_bindings :: "binding list"
  pr_invocations :: "PolicyInvocationReferenceV1 list"
  pr_results :: "PermissionDecisionResult list"
  pr_used :: "binding list"
  pr_policyRevision :: string
  pr_proposalDigest :: string
  pr_humanApproved :: bool

definition checkAuthorizationUse :: "Platform \<Rightarrow> PolicyDocumentV1 \<Rightarrow> PolicyStatementReferenceV1 \<times> int \<Rightarrow> unit result" where
  "checkAuthorizationUse pf document use =
    ensure (case List.find (\<lambda>s. st_id s = sf_id (fst use)) document of
        None \<Rightarrow> False
      | Some s \<Rightarrow> st_state s = ActiveState \<and> policyDigest pf (statementJson s) = sf_digest (fst use)
          \<and> lt_uses (st_lifetime s) = Some (snd use))
      ''Finite authorization must match the current Policy statement and limit.''"

definition pendingOutputBinding :: "PolicyStatementV1 \<Rightarrow> bool" where
  "pendingOutputBinding s =
    (case st_body s of
       BindingBody b \<Rightarrow> st_state s \<noteq> InactiveState \<and> bd_mode b \<in> {AdviseMode, TransformMode}
     | _ \<Rightarrow> False)"

definition prepareDecision :: "Platform \<Rightarrow> World \<Rightarrow> nat \<Rightarrow> InterceptionInput \<Rightarrow> Prepared result" where
  "prepareDecision pf w k i =
    bindE (policyOperationDefinition pf (pq_operation (ii_proposal i))) (\<lambda>(_, points).
    bindE (assertInterceptionOwner w i) (\<lambda>_.
    bindE (ensure (DecideStage \<in> set (op_stages points)) ''Policy deciding point or resource is unavailable.'') (\<lambda>_.
    bindE (ensure (\<not> list_ex pendingOutputBinding (ii_document i))
        ''I16 safe participant output reference is unavailable.'') (\<lambda>_.
    let policyRevision = policyDigest pf (documentJson (ii_document i)); proposalDigest = policyProposalDigest pf (ii_proposal i) in
    bindE (traverseE (checkAuthorizationUse pf (ii_document i)) (listOr (ii_authorizationUses i))) (\<lambda>_.
    bindE (selectPolicyBindings pf (ii_document i) (ii_proposal i) (Some DecideStage) (wd_now w k) (wd_authorCurrent w k)
        (wd_anchorCurrent w k)) (\<lambda>bindings.
    let humanApproved = (case ii_humanApproval i of
            None \<Rightarrow> False
          | Some a \<Rightarrow> ab_proposalDigest (ha_binding a) = proposalDigest \<and> ab_policyRevision (ha_binding a) = policyRevision
              \<and> ab_authorizationRevision (ha_binding a) = ii_authorizationRevision i)
    in Inr \<lparr>pr_bindings = bindings, pr_invocations = [],
         pr_results = (if list_ex (\<lambda>p. pm_effect p = RequireApprovalEffect) (listOr (ii_permissions i)) \<and> \<not> humanApproved
           then [RequireApprovalResult] else []),
         pr_used = [], pr_policyRevision = policyRevision, pr_proposalDigest = proposalDigest,
         pr_humanApproved = humanApproved\<rparr>))))))"

text \<open>What a gate leaves in the prepared decision: a shadow gate only its reference.\<close>

definition noteGate :: "Prepared \<Rightarrow> binding \<Rightarrow> PolicyInvocationReferenceV1 \<Rightarrow> PermissionDecisionResult \<Rightarrow> Prepared" where
  "noteGate prepared sb reference res =
    (let noted = prepared\<lparr>pr_invocations := pr_invocations prepared @ [reference]\<rparr> in
     if st_state (fst sb) = ShadowState then noted
     else noted\<lparr>pr_used := pr_used prepared @ [sb],
       pr_results := pr_results prepared @
         [if res = RequireEscalationResult \<and> pr_humanApproved prepared then AllowResult else res]\<rparr>)"

text \<open>The loop over the gates of the deciding point.\<close>

fun runGates ::
  "Platform \<Rightarrow> Participants \<Rightarrow> World \<Rightarrow> InterceptionInput \<Rightarrow> binding list \<Rightarrow> PolicyInterception \<Rightarrow> Prepared
    \<Rightarrow> (PolicyInterception \<times> Prepared) result" where
  "runGates pf ps w i [] st prepared = Inr (st, prepared)"
| "runGates pf ps w i ((s, b) # rest) st prepared =
    bindE (case lt_uses (st_lifetime s) of
        None \<Rightarrow> Inr False
      | Some limit \<Rightarrow>
          bindE (readPolicyStatementUseCount (pn_store st) (ownerHandle i) (bindingReference pf s)) (\<lambda>n. Inr (n \<ge> limit))) (\<lambda>spent.
    if spent then runGates pf ps w i rest st prepared
    else
      bindE (invoke pf ps w st i (s, b) (pr_policyRevision prepared) (pr_proposalDigest prepared)) (\<lambda>(st', reference, res).
      runGates pf ps w i rest st' (noteGate prepared (s, b) reference res)))"

fun recheckAgents :: "Platform \<Rightarrow> World \<Rightarrow> nat \<Rightarrow> InterceptionInput \<Rightarrow> binding list \<Rightarrow> PermissionDecisionResult list" where
  "recheckAgents pf w k i [] = []"
| "recheckAgents pf w k i ((s, b) # rest) =
    (if \<not> isAgentBinding b then recheckAgents pf w k i rest
     else
       (case bindE (readAgent pf w k i b) (\<lambda>_. wd_participantAuthorized w (k + 1) s) of
          Inr authorized \<Rightarrow> if authorized then [] else [ErrorResult]
        | Inl _ \<Rightarrow> [ErrorResult]) @ recheckAgents pf w (k + 2) i rest)"

definition kernelOf :: "KernelAnswer \<Rightarrow> PolicyDecision" where
  "kernelOf a = (case a of PlainKernel d \<Rightarrow> d | GoalKernel d _ _ \<Rightarrow> d)"

definition effectResult :: "PolicyDecision \<Rightarrow> PermissionDecisionResult" where
  "effectResult d = (case effect d of Allow \<Rightarrow> AllowResult | Deny \<Rightarrow> DenyResult)"

definition hasReason :: "string list \<Rightarrow> PolicyDecision \<Rightarrow> bool" where
  "hasReason codes d = list_ex (\<lambda>r. reasonCode r \<in> set codes) (reasons d)"

text \<open>The last mandatory step: the results with that of the Kernel, and the escalation if one applies.\<close>

definition judgeKernel ::
  "InterceptionInput \<Rightarrow> PermissionDecisionResult list \<Rightarrow> KernelAnswer result
    \<Rightarrow> PermissionDecisionResult list \<times> PolicyDecision option \<times> GoalEscalation option" where
  "judgeKernel i results answer =
    (case answer of
       Inl _ \<Rightarrow> (results @ [ErrorResult], None, None)
     | Inr a \<Rightarrow>
         let evaluated = kernelOf a;
             escalation = (case a of GoalKernel _ e _ \<Rightarrow> e | PlainKernel _ \<Rightarrow> None);
             inGoalEnvelope = (case a of GoalKernel _ _ g \<Rightarrow> g | PlainKernel _ \<Rightarrow> False)
         in if hasReason [''invalid-policy'', ''invalid-request'', ''missing-operation''] evaluated
            then (results @ [ErrorResult], Some evaluated, None)
            else (case escalation of
              Some e \<Rightarrow>
                if hasReason [''restriction''] evaluated then (results @ [effectResult evaluated], Some evaluated, None)
                else if pq_workspaceId (ii_proposal i) = None \<or> \<not> inGoalEnvelope \<or> effect evaluated \<noteq> Deny \<or> reasons evaluated = []
                    \<or> list_ex (\<lambda>r. reasonCode r \<noteq> ''missing-privilege'') (reasons evaluated)
                    \<or> Some (ge_workspaceId e) \<noteq> pq_workspaceId (ii_proposal i)
                then (results @ [ErrorResult], Some evaluated, None)
                else if list_ex (\<lambda>r. r \<noteq> AllowResult \<and> r \<noteq> NotApplicableResult) results then (results, Some evaluated, None)
                else (results @ [RequireEscalationResult], Some evaluated, Some e)
            | None \<Rightarrow> (results @ [effectResult evaluated], Some evaluated, None)))"

definition consumedUses :: "Platform \<Rightarrow> InterceptionInput \<Rightarrow> binding list \<Rightarrow> (PolicyStatementReferenceV1 \<times> int) list" where
  "consumedUses pf i used =
    map snd (map_of_entries (map (\<lambda>u. (sf_id (fst u), u))
      (listOr (ii_authorizationUses i)
       @ List.map_filter (\<lambda>(s, b). map_option (\<lambda>limit. (bindingReference pf s, limit)) (lt_uses (st_lifetime s))) used)))"

definition finalReason :: "PermissionDecisionResult \<Rightarrow> PolicyDecision option \<Rightarrow> string" where
  "finalReason res evaluated =
    (if res = DenyResult
     then (case evaluated of
         None \<Rightarrow> ''not_granted''
       | Some d \<Rightarrow> if effect d = Allow \<or> hasReason [''restriction''] d then ''prohibited'' else ''not_granted'')
     else if res = RequireEscalationResult \<or> res = RequireApprovalResult then ''require_approval''
     else if res = AllowResult then ''granted'' else ''evaluation_error'')"

definition kernelResult :: "PolicyDecision \<Rightarrow> PolicyKernelResultV1" where
  "kernelResult d =
    \<lparr>kr_effect = (case effect d of Allow \<Rightarrow> KernelAllow | Deny \<Rightarrow> KernelDeny),
     kr_reason = (case reasons d of [] \<Rightarrow> ''not_granted'' | r # _ \<Rightarrow> reasonCode r)\<rparr>"

definition finalRecord ::
  "Platform \<Rightarrow> InterceptionInput \<Rightarrow> Prepared \<Rightarrow> string \<Rightarrow> PermissionDecisionResult \<Rightarrow> PolicyDecision option
    \<Rightarrow> (PolicyStatementReferenceV1 \<times> int) list \<Rightarrow> DecisionInput result" where
  "finalRecord pf i prepared decisionId res evaluated consumed =
    bindE (decisionInput pf i (pr_policyRevision prepared)) (\<lambda>base.
    Inr (base\<lparr>di_contextSummary := JObj (spread (decisionContext i)
        (case evaluated of None \<Rightarrow> [] | Some d \<Rightarrow> [(''kernelTrace'', kernelTraceJson d)])),
      di_decisionId := decisionId, di_result := res,
      di_requiredApprovalKind := (if res = RequireApprovalResult then Some ''permission'' else None),
      di_reasonCode := finalReason res evaluated,
      di_mediation := Some \<lparr>pd_operation = pq_operation (ii_proposal i), pd_stage = DecideStage,
        pd_proposalDigest = pr_proposalDigest prepared, pd_authorizationRevision = ii_authorizationRevision i,
        pd_subject = pq_subject (ii_proposal i), pd_role = FinalRole, pd_binding = None,
        pd_kernel = Some (map_option kernelResult evaluated), pd_invocations = pr_invocations prepared,
        pd_consumedStatements = map fst consumed\<rparr>,
      di_uses := (if consumed = [] then None else Some consumed)\<rparr>))"

definition prepareFinalDecision ::
  "Platform \<Rightarrow> World \<Rightarrow> nat \<Rightarrow> InterceptionInput \<Rightarrow> Prepared \<Rightarrow> (DecisionInput \<times> InterceptionDecision) result" where
  "prepareFinalDecision pf w k i prepared =
    (let current = (case wd_stillCurrent w k of Inr c \<Rightarrow> c | Inl _ \<Rightarrow> False);
         rechecked = pr_results prepared @ (if current then [] else [ErrorResult])
           @ recheckAgents pf w (k + 1) i (pr_used prepared);
         t = k + 1 + 2 * length (pr_used prepared);
         (results, evaluated, escalation) = judgeKernel i rechecked (wd_finalKernel w t);
         res = combineResults results;
         decisionId = wd_allocate w (t + 1) ''pd'';
         consumed = (if res = AllowResult then consumedUses pf i (pr_used prepared) else [])
     in bindE (finalRecord pf i prepared decisionId res evaluated consumed) (\<lambda>record.
        Inr (record, \<lparr>id_result = res, id_decisionId = decisionId, id_proposalDigest = pr_proposalDigest prepared,
          id_policyRevision = pr_policyRevision prepared, id_authorizationRevision = ii_authorizationRevision i,
          id_escalation = (if res = RequireEscalationResult then escalation else None)\<rparr>)))"

definition gatesOf :: "binding list \<Rightarrow> binding list" where
  "gatesOf bindings = filter (\<lambda>(s, b). bd_mode b = GateMode) bindings"

definition decide ::
  "Platform \<Rightarrow> Participants \<Rightarrow> World \<Rightarrow> PolicyInterception \<Rightarrow> InterceptionInput \<Rightarrow> (PolicyInterception \<times> InterceptionDecision) result" where
  "decide pf ps w st i =
    bindE (prepareDecision pf w (pn_tick st) i) (\<lambda>prepared.
    bindE (runGates pf ps w i (gatesOf (pr_bindings prepared)) (st\<lparr>pn_tick := pn_tick st + 1\<rparr>) prepared) (\<lambda>(st', ran).
    bindE (prepareFinalDecision pf w (pn_tick st') i ran) (\<lambda>(record, decision).
    let t = pn_tick st' + 3 + 2 * length (pr_used ran) in
    bindE (recordProductPermissionDecision (wd_iso w t) (wd_allocate w (t + 1) ''aud'') (pn_store st') record) (\<lambda>store.
    Inr (st'\<lparr>pn_store := store, pn_tick := t + 2\<rparr>, decision)))))"

definition prepareSynchronousDecision ::
  "Platform \<Rightarrow> World \<Rightarrow> nat \<Rightarrow> InterceptionInput \<Rightarrow> (DecisionInput \<times> InterceptionDecision) option result" where
  "prepareSynchronousDecision pf w k i =
    bindE (prepareDecision pf w k i) (\<lambda>prepared.
    if list_ex (\<lambda>(s, b). bd_mode b \<noteq> ObserveMode) (pr_bindings prepared) then Inr None
    else bindE (prepareFinalDecision pf w (k + 1) i prepared) (\<lambda>d. Inr (Some d)))"

fun runObservers ::
  "Platform \<Rightarrow> Participants \<Rightarrow> World \<Rightarrow> InterceptionInput \<Rightarrow> binding list \<Rightarrow> PolicyInterception \<Rightarrow> PolicyInterception result" where
  "runObservers pf ps w i [] st = Inr st"
| "runObservers pf ps w i (sb # rest) st =
    bindE (invoke pf ps w st i sb (policyDigest pf (documentJson (ii_document i))) (policyProposalDigest pf (ii_proposal i)))
      (\<lambda>(st', _). runObservers pf ps w i rest st')"

definition observe ::
  "Platform \<Rightarrow> Participants \<Rightarrow> World \<Rightarrow> PolicyInterception \<Rightarrow> InterceptionInput \<Rightarrow> PolicyInterception result" where
  "observe pf ps w st i =
    bindE (assertInterceptionOwner w i) (\<lambda>_.
    bindE (policyOperationDefinition pf (pq_operation (ii_proposal i))) (\<lambda>(_, points).
    bindE (ensure (CompletedStage \<in> set (op_stages points)) ''Policy completed point is unavailable.'') (\<lambda>_.
    let k = pn_tick st in
    bindE (selectPolicyBindings pf (ii_document i) (ii_proposal i) (Some CompletedStage) (wd_now w k) (wd_authorCurrent w k)
        (wd_anchorCurrent w k)) (\<lambda>bindings.
    runObservers pf ps w i (filter (\<lambda>(s, b). bd_mode b = ObserveMode) bindings) (st\<lparr>pn_tick := k + 1\<rparr>)))))"

end
