(* ===== verification/Decision_History.thy ===== *)
theory Decision_History
  imports Permission_Decisions
begin

text \<open>
  Histories of recorded permission decisions: the rows of a store are only appended, every row reads
  back, an Approval has one terminal decision, finite uses stay within their limits and a recorded
  use is confirmed from then on.
\<close>

subsection \<open>What one recording does\<close>

lemma record_effect:
  assumes "recordProductPermissionDecisionInDb clock allocated store i = Inr store'"
  obtains handle aid uses row audits where "permissionDecisionDb i = Inr handle"
    "aid = permissionDecisionAuditEventId allocated i" "checkMediation clock aid i = Inr ()" "checkUses i = Inr uses"
    "\<forall>u\<in>set uses. exhausted store handle u = Inr ()" "decisionRow clock aid i = Inr row"
    "dr_decisionId row \<notin> dr_decisionId ` set (tb_decisions (store handle))"
    "terminalApproval handle row \<longrightarrow> (\<forall>r\<in>set (tb_decisions (store handle)). terminalApproval handle r \<longrightarrow> dr_approvalId r \<noteq> dr_approvalId row)"
    "publishAudit clock aid (tb_audits (store handle)) i = Inr audits"
    "store' = store(handle := \<lparr>tb_decisions = tb_decisions (store handle) @ [row], tb_audits = audits\<rparr>)"
  using assms
  by (auto simp: recordProductPermissionDecisionInDb_def Let_def insertDecision_def list_all_iff bindE_Inr_iff
      ensure_Inr_iff traverseE_Inr_iff)

text \<open>The decision a reader sees afterwards: descriptive summaries are JSON values, and a mediated
  decision projects its subject from the mediation.\<close>

definition readBack :: "string \<Rightarrow> string \<Rightarrow> DecisionInput \<Rightarrow> RetainedDecision" where
  "readBack clock auditEventId i =
    (retainedForm clock auditEventId i)
      \<lparr>rd_subjectSummary := (case di_mediation i of None \<Rightarrow> jsonClone (di_subjectSummary i) | Some m \<Rightarrow> projectPolicySubject m),
       rd_resourceSummary := jsonClone (di_resourceSummary i), rd_contextSummary := jsonClone (di_contextSummary i)\<rparr>"

lemma retained_summaries:
  "PermissionDecisionRetainedV1Schema (d\<lparr>rd_subjectSummary := a, rd_resourceSummary := b, rd_contextSummary := c\<rparr>)
    = PermissionDecisionRetainedV1Schema d"
  by (cases "rd_mediation d") (simp_all add: PermissionDecisionRetainedV1Schema_def)

lemma jsonColumn_Inr: "jsonColumn v = Inr w \<longleftrightarrow> v \<noteq> JUndefined \<and> w = jsonClone v"
  by (auto simp: jsonColumn_def)

lemma row_reads_back:
  assumes check: "checkMediation clock aid i = Inr ()" and row: "decisionRow clock aid i = Inr row"
  shows "readPermissionDecisionRowV1 row = Inr (readBack clock aid i)"
proof -
  have ok: "PermissionDecisionRetainedV1Schema (readBack clock aid i)"
    using check unfolding readBack_def retained_summaries by (simp add: checkMediation_def bindE_Inr_iff parseWith_Inr_iff)
  show ?thesis
  proof (cases "di_mediation i")
    case None
    then show ?thesis using row ok
      by (auto simp: decisionRow_def bindE_Inr_iff jsonColumn_Inr readPermissionDecisionRowV1_def readRetainedV1_def
          readBack_def retainedForm_def)
  next
    case (Some m)
    then have "PolicyDecisionV1Schema m" "di_enforcementPoint i = mediationPoint m"
      using check by (auto simp: checkMediation_def bindE_Inr_iff parseWith_Inr_iff ensure_Inr_iff)
    then show ?thesis using row ok Some
      by (auto simp: decisionRow_def bindE_Inr_iff jsonColumn_Inr readPermissionDecisionRowV1_def readRetainedV1_def
          readBack_def retainedForm_def)
  qed
qed

subsection \<open>Histories\<close>

inductive decision_step :: "DecisionInput \<Rightarrow> Store \<Rightarrow> Store \<Rightarrow> bool" where
  recorded: "recordProductPermissionDecisionInDb clock allocated store i = Inr store' \<Longrightarrow> decision_step i store store'"

inductive_cases decision_stepE: "decision_step i store store'"

definition recorded_before :: "Store \<Rightarrow> Store \<Rightarrow> bool" where
  "recorded_before = (\<lambda>s t. \<exists>i. decision_step i s t)\<^sup>*\<^sup>*"

definition decision_reachable :: "Store \<Rightarrow> bool" where
  "decision_reachable store = recorded_before emptyStore store"

text \<open>Rows are only ever appended.\<close>

definition extends :: "Tables \<Rightarrow> Tables \<Rightarrow> bool" where
  "extends s t \<longleftrightarrow> (\<exists>ds as. tb_decisions t = tb_decisions s @ ds \<and> tb_audits t = tb_audits s @ as)"

lemma extends_refl [simp]: "extends s s"
  by (simp add: extends_def)

lemma extends_trans: "extends s t \<Longrightarrow> extends t u \<Longrightarrow> extends s u"
  by (auto simp: extends_def)

lemma publishAudit_cases:
  assumes "publishAudit clock aid rows i = Inr rows'"
  shows "rows' = rows \<or> (\<exists>ws event. prepareAuditEvent clock aid ws (linkedAudit clock aid i) = Inr event \<and> AuditEventSchema event
    \<and> rows' = rows @ [\<lparr>ar_schemaVersion = RETAINED_FORMAT_VERSION, ar_event = event\<rparr>] \<and> ae_id event \<notin> (ae_id \<circ> ar_event) ` set rows)"
proof -
  have "rows' = rows \<or> (\<exists>ws. recordAuditEvent clock aid rows ws (linkedAudit clock aid i) = Inr rows')"
    using assms by (auto simp: publishAudit_def split: if_splits PermissionDecisionOwnerScope.splits)
  then show ?thesis using recordAuditEvent_appends by metis
qed

lemma step_extends: "decision_step i s t \<Longrightarrow> extends (s h) (t h)"
proof (elim decision_stepE)
  fix clock allocated assume "recordProductPermissionDecisionInDb clock allocated s i = Inr t"
  then show ?thesis
  proof (rule record_effect)
    fix handle aid uses row audits
    assume "publishAudit clock aid (tb_audits (s handle)) i = Inr audits"
      and t: "t = s(handle := \<lparr>tb_decisions = tb_decisions (s handle) @ [row], tb_audits = audits\<rparr>)"
    then have "\<exists>as. audits = tb_audits (s handle) @ as" using publishAudit_cases by blast
    then show ?thesis by (auto simp: t extends_def)
  qed
qed

lemma before_extends: "recorded_before s t \<Longrightarrow> extends (s h) (t h)"
  unfolding recorded_before_def
  by (induction rule: rtranclp_induct) (auto intro: extends_trans step_extends)

lemma written_audit_reads:
  "AuditEventSchema e \<Longrightarrow> readAuditEventRowV1 \<lparr>ar_schemaVersion = RETAINED_FORMAT_VERSION, ar_event = e\<rparr> = Inr e"
  by (simp add: readAuditEventRowV1_def readRetainedV1_def)

text \<open>The invariant of one database.\<close>

definition tables_ok :: "Handle \<Rightarrow> Tables \<Rightarrow> bool" where
  "tables_ok h t \<longleftrightarrow>
    distinct (map dr_decisionId (tb_decisions t)) \<and> (\<forall>r\<in>set (tb_decisions t). succeeds (readPermissionDecisionRowV1 r))
    \<and> (\<forall>r\<in>set (tb_decisions t). \<forall>r'\<in>set (tb_decisions t).
        terminalApproval h r \<and> terminalApproval h r' \<and> dr_approvalId r = dr_approvalId r' \<longrightarrow> r = r')
    \<and> distinct (map (ae_id \<circ> ar_event) (tb_audits t)) \<and> (\<forall>a\<in>set (tb_audits t). succeeds (readAuditEventRowV1 a))"

lemma step_ok: "decision_step i s t \<Longrightarrow> (\<forall>h. tables_ok h (s h)) \<Longrightarrow> tables_ok h (t h)"
proof (elim decision_stepE)
  fix clock allocated
  assume "recordProductPermissionDecisionInDb clock allocated s i = Inr t" and ok: "\<forall>h. tables_ok h (s h)"
  from this(1) show ?thesis
  proof (rule record_effect)
    fix handle aid uses row audits
    assume check: "checkMediation clock aid i = Inr ()" and row: "decisionRow clock aid i = Inr row"
      and fresh: "dr_decisionId row \<notin> dr_decisionId ` set (tb_decisions (s handle))"
      and single: "terminalApproval handle row \<longrightarrow> (\<forall>r\<in>set (tb_decisions (s handle)). terminalApproval handle r \<longrightarrow> dr_approvalId r \<noteq> dr_approvalId row)"
      and audit: "publishAudit clock aid (tb_audits (s handle)) i = Inr audits"
      and t: "t = s(handle := \<lparr>tb_decisions = tb_decisions (s handle) @ [row], tb_audits = audits\<rparr>)"
    have old: "tables_ok handle (s handle)" using ok by blast
    have "distinct (map (ae_id \<circ> ar_event) audits) \<and> (\<forall>a\<in>set audits. succeeds (readAuditEventRowV1 a))"
      using publishAudit_cases [OF audit] old
      by (auto simp: tables_ok_def written_audit_reads)
    moreover have "succeeds (readPermissionDecisionRowV1 row)" using row_reads_back [OF check row] by simp
    moreover have "r = r'" if "r \<in> set (tb_decisions (s handle) @ [row])" "r' \<in> set (tb_decisions (s handle) @ [row])"
        "terminalApproval handle r" "terminalApproval handle r'" "dr_approvalId r = dr_approvalId r'" for r r'
      using that old single by (auto simp: tables_ok_def)
    ultimately have "tables_ok handle (t handle)"
      using old fresh unfolding tables_ok_def t by simp
    then show ?thesis using ok by (cases "h = handle") (simp_all add: t)
  qed
qed

lemma reachable_ok: "decision_reachable store \<Longrightarrow> tables_ok h (store h)"
proof -
  have "recorded_before s t \<Longrightarrow> \<forall>h. tables_ok h (s h) \<Longrightarrow> \<forall>h. tables_ok h (t h)" for s t
    unfolding recorded_before_def by (induction rule: rtranclp_induct) (auto dest: step_ok)
  moreover have "tables_ok h (emptyStore h)" for h by (simp add: tables_ok_def emptyStore_def)
  ultimately show "decision_reachable store \<Longrightarrow> tables_ok h (store h)" by (auto simp: decision_reachable_def)
qed

subsection \<open>Finite uses\<close>

lemma mapE_succeeds: "\<forall>x\<in>set xs. succeeds (f x) \<Longrightarrow> mapE f xs = Inr (map (projr \<circ> f) xs)"
  by (induction xs) (auto simp: succeeds_iff)

definition usesOf :: "Handle \<Rightarrow> PermissionDecisionRow list \<Rightarrow> PolicyStatementReferenceV1 \<Rightarrow> nat" where
  "usesOf h rows r = length (filter (\<lambda>row. consumes r (projr (readPermissionDecisionRowV1 row))) (ownerRows h rows))"

lemma ownerRows_subset: "set (ownerRows h rows) \<subseteq> set rows"
  by (cases h) (auto simp: ownerRows_def)

lemma use_count:
  assumes "tables_ok h (store h)" "PolicyStatementReferenceV1Schema r"
  shows "readPolicyStatementUseCount store h r = Inr (int (usesOf h (tb_decisions (store h)) r))"
proof -
  have "\<forall>row\<in>set (ownerRows h (tb_decisions (store h))). succeeds (readPermissionDecisionRowV1 row)"
    using assms(1) ownerRows_subset by (auto simp: tables_ok_def)
  from mapE_succeeds [OF this] assms(2) show ?thesis
    by (simp add: readPolicyStatementUseCount_def usesOf_def filter_map o_def)
qed

lemma referenceText_inject: "referenceText r = referenceText r' \<longleftrightarrow> r = r'"
proof
  assume "referenceText r = referenceText r'"
  then have "jsonString (sf_id r) @ ('','' @ jsonString (sf_digest r) @ '']'') = jsonString (sf_id r') @ ('','' @ jsonString (sf_digest r') @ '']'')"
    by (simp add: referenceText_def)
  from jsonString_unique [OF this] have "sf_id r = sf_id r'" "jsonString (sf_digest r) @ '']'' = jsonString (sf_digest r') @ '']''"
    by simp_all
  with jsonString_unique [OF this(2)] show "r = r'" by simp
qed simp

lemma consumed_requested:
  assumes "checkUses i = Inr uses" "di_mediation i = Some m" "r \<in> set (pd_consumedStatements m)"
  shows "\<exists>l. (r, l) \<in> set uses \<and> di_uses i = Some uses"
proof -
  have "uses = [] \<and> pd_consumedStatements m = [] \<or>
      sort (map (\<lambda>(r, _). referenceText r) uses) = sort (map referenceText (pd_consumedStatements m))"
    using assms(1,2) by (auto simp: checkUses_def Let_def bindE_Inr_iff ensure_Inr_iff split: if_splits option.splits)
  then have "set (map (\<lambda>(r, _). referenceText r) uses) = set (map referenceText (pd_consumedStatements m))"
    using assms(3) by (metis (no_types, lifting) length_pos_if_in_set list.size(3) not_less_zero set_sort)
  then have "referenceText r \<in> (\<lambda>(r, _). referenceText r) ` set uses" using assms(3) by auto
  then obtain l where l: "(r, l) \<in> set uses" by (auto simp: referenceText_inject)
  moreover have "di_uses i = Some uses" if "uses \<noteq> []"
    using assms(1) that by (cases "di_uses i") (auto simp: checkUses_def Let_def bindE_Inr_iff parseWith_Inr_iff split: if_splits)
  ultimately show ?thesis by fastforce
qed

definition keepsLimits :: "(PolicyStatementReferenceV1 \<Rightarrow> int) \<Rightarrow> DecisionInput \<Rightarrow> bool" where
  "keepsLimits limit i \<longleftrightarrow> (case di_uses i of None \<Rightarrow> True | Some us \<Rightarrow> \<forall>(r, l)\<in>set us. l = limit r)"

definition limited_before :: "(PolicyStatementReferenceV1 \<Rightarrow> int) \<Rightarrow> Store \<Rightarrow> Store \<Rightarrow> bool" where
  "limited_before limit = (\<lambda>s t. \<exists>i. decision_step i s t \<and> keepsLimits limit i)\<^sup>*\<^sup>*"

lemma limited_recorded: "limited_before limit s t \<Longrightarrow> recorded_before s t"
  unfolding limited_before_def recorded_before_def by (rule mono_rtranclp [rule_format]) auto

lemma step_uses:
  assumes step: "decision_step i s t" "keepsLimits limit i" and ok: "\<forall>h. tables_ok h (s h)"
    and bound: "int (usesOf h (tb_decisions (s h)) r) \<le> limit r" and schema: "PolicyStatementReferenceV1Schema r"
  shows "int (usesOf h (tb_decisions (t h)) r) \<le> limit r"
  using step(1)
proof (elim decision_stepE)
  fix clock allocated assume "recordProductPermissionDecisionInDb clock allocated s i = Inr t"
  then show ?thesis
  proof (rule record_effect)
    fix handle aid uses row audits
    assume check: "checkMediation clock aid i = Inr ()" and row: "decisionRow clock aid i = Inr row"
      and uses: "checkUses i = Inr uses" "\<forall>u\<in>set uses. exhausted s handle u = Inr ()"
      and t: "t = s(handle := \<lparr>tb_decisions = tb_decisions (s handle) @ [row], tb_audits = audits\<rparr>)"
    have split: "usesOf handle (tb_decisions (s handle) @ [row]) r
        = usesOf handle (tb_decisions (s handle)) r + usesOf handle [row] r"
      by (cases handle) (simp_all add: usesOf_def ownerRows_def)
    have "int (usesOf handle (tb_decisions (s handle)) r) < limit r" if used: "usesOf handle [row] r \<noteq> 0"
    proof -
      have "consumes r (projr (readPermissionDecisionRowV1 row))" using used ownerRows_subset [of handle "[row]"]
        by (auto simp: usesOf_def filter_empty_conv)
      then have "consumes r (readBack clock aid i)" using row_reads_back [OF check row] by simp
      then obtain m r' where "di_mediation i = Some m" "r' \<in> set (pd_consumedStatements m)" "sf_id r' = sf_id r"
          "sf_digest r' = sf_digest r"
        by (auto simp: consumes_def readBack_def retainedForm_def list_ex_iff split: option.splits)
      moreover from this have "r' = r" by (intro PolicyStatementReferenceV1.equality) simp_all
      ultimately have m: "di_mediation i = Some m" "r \<in> set (pd_consumedStatements m)" by simp_all
      from consumed_requested [OF uses(1) m] obtain l where l: "(r, l) \<in> set uses" "di_uses i = Some uses" by blast
      then have "l = limit r" using step(2) by (auto simp: keepsLimits_def)
      moreover have "exhausted s handle (r, l) = Inr ()" using uses(2) l(1) by blast
      ultimately show ?thesis
        using use_count [of handle s r] ok schema by (simp add: exhausted_def ensure_Inr_iff)
    qed
    moreover have "usesOf handle [row] r \<le> 1"
      using length_filter_le [of _ "ownerRows handle [row]"] by (cases handle) (auto simp: usesOf_def ownerRows_def)
    ultimately have "int (usesOf handle (tb_decisions (t handle)) r) \<le> limit r" if "h = handle"
      using bound that by (cases "usesOf handle [row] r = 0") (auto simp: t split)
    then show ?thesis using bound by (cases "h = handle") (simp_all add: t)
  qed
qed

lemma limited_uses:
  assumes "limited_before limit emptyStore store" "PolicyStatementReferenceV1Schema r" "0 < limit r"
  shows "int (usesOf h (tb_decisions (store h)) r) \<le> limit r"
  using assms(1) unfolding limited_before_def
proof (induction rule: rtranclp_induct)
  case base
  then show ?case using assms(3) by (cases h) (simp_all add: usesOf_def ownerRows_def emptyStore_def)
next
  case (step s t)
  have "decision_reachable s"
    using step.hyps(1) limited_recorded unfolding decision_reachable_def limited_before_def by blast
  then show ?case using step step_uses [OF _ _ _ _ assms(2)] reachable_ok by blast
qed

subsection \<open>Confirmation of a use\<close>

lemma jsonClone_idem: "jsonClone (jsonClone v) = jsonClone v"
proof (induction v rule: jsonClone.induct)
  case (2 members)
  have defined: "jsonClone w \<noteq> JUndefined" for w by (cases w) simp_all
  have kept: "filter (\<lambda>m. snd m \<noteq> JUndefined) (map (\<lambda>m. (fst m, jsonClone (snd m))) ms) = map (\<lambda>m. (fst m, jsonClone (snd m))) ms" for ms
    by (rule filter_True) (auto simp: defined)
  show ?case unfolding jsonClone.simps kept using 2 by auto
qed simp_all

lemma jsonClone_defined [simp]: "jsonClone v \<noteq> JUndefined"
  by (cases v) simp_all

lemma find_identified_by:
  "distinct (map f xs) \<Longrightarrow> x \<in> set xs \<Longrightarrow> Q x \<Longrightarrow> List.find (\<lambda>y. f y = f x \<and> Q y) xs = Some x"
  by (induction xs) auto

lemma entity_not_empty: "isEntityId kind s \<Longrightarrow> s \<noteq> []"
  by (auto simp: isEntityId_def entityIdPattern_def matches_def Let_def split: if_splits sum.splits)

lemma checkUses_allow:
  assumes "checkUses i = Inr uses" "di_mediation i = Some m" "pd_consumedStatements m \<noteq> []"
  shows "di_result i = AllowResult" "truthy (di_auditEventId i) = None" "pd_role m = FinalRole" "kernelAllows m"
    "usesSchema uses"
proof -
  show "di_result i = AllowResult" "truthy (di_auditEventId i) = None" "pd_role m = FinalRole" "kernelAllows m"
    using assms by (auto simp: checkUses_def Let_def bindE_Inr_iff ensure_Inr_iff split: if_splits option.splits)
  obtain r where "r \<in> set (pd_consumedStatements m)" using assms(3) by (cases "pd_consumedStatements m") auto
  then have "di_uses i = Some uses" using consumed_requested [OF assms(1,2)] by blast
  then show "usesSchema uses"
    using assms(1) by (auto simp: checkUses_def Let_def bindE_Inr_iff parseWith_Inr_iff split: if_splits)
qed

text \<open>The decision and its Audit right after the recording of a use in a Workspace.\<close>

lemma recorded_use:
  assumes "recordProductPermissionDecisionInDb clock allocated store i = Inr mid"
    "di_ownerScope i = WorkspaceDecision" "di_workspaceDb i = Some ws" "di_workspaceId i = Some ws"
    "di_mediation i = Some m" "pd_consumedStatements m \<noteq> []"
  shows "\<exists>row event. row \<in> set (tb_decisions (mid (WorkspaceHandle ws)))
    \<and> readPermissionDecisionRowV1 row = Inr (readBack clock allocated i) \<and> dr_decisionId row = di_decisionId i
    \<and> dr_ownerScope row = WorkspaceDecision \<and> dr_workspaceId row = Some ws
    \<and> \<lparr>ar_schemaVersion = RETAINED_FORMAT_VERSION, ar_event = event\<rparr> \<in> set (tb_audits (mid (WorkspaceHandle ws)))
    \<and> prepareAuditEvent clock allocated (Some ws) (linkedAudit clock allocated i) = Inr event \<and> AuditEventSchema event"
  using assms(1)
proof (rule record_effect)
  fix handle aid uses row audits
  assume handle: "permissionDecisionDb i = Inr handle" and aid: "aid = permissionDecisionAuditEventId allocated i"
    and check: "checkMediation clock aid i = Inr ()" and row: "decisionRow clock aid i = Inr row"
    and uses: "checkUses i = Inr uses"
    and audit: "publishAudit clock aid (tb_audits (store handle)) i = Inr audits"
    and mid: "mid = store(handle := \<lparr>tb_decisions = tb_decisions (store handle) @ [row], tb_audits = audits\<rparr>)"
  have ws: "handle = WorkspaceHandle ws" using handle assms(2,3) by (simp add: permissionDecisionDb_def)
  have allocated: "aid = allocated" using checkUses_allow(2) [OF uses assms(5,6)] by (simp add: aid permissionDecisionAuditEventId_def)
  have ids: "isEntityId ''aud'' aid" "isEntityId ''ws'' ws"
    using check assms(4) by (auto simp: checkMediation_def bindE_Inr_iff parseWith_Inr_iff PermissionDecisionRetainedV1Schema_def retainedForm_def)
  then have "recordAuditEvent clock aid (tb_audits (store handle)) (Some ws) (linkedAudit clock aid i) = Inr audits"
    using audit checkUses_allow(2) [OF uses assms(5,6)] assms(2,3,4) entity_not_empty
    by (auto simp: publishAudit_def truthy_def split: if_splits)
  then show ?thesis
  proof (rule recordAuditEvent_appends)
    fix event
    assume "prepareAuditEvent clock aid (Some ws) (linkedAudit clock aid i) = Inr event" "AuditEventSchema event"
      "audits = tb_audits (store handle) @ [\<lparr>ar_schemaVersion = RETAINED_FORMAT_VERSION, ar_event = event\<rparr>]"
    moreover have "dr_decisionId row = di_decisionId i" "dr_ownerScope row = WorkspaceDecision" "dr_workspaceId row = Some ws"
      using row assms(2,4) by (auto simp: decisionRow_def bindE_Inr_iff)
    ultimately show ?thesis using row_reads_back [OF check row] allocated ws
      by (intro exI [of _ row] exI [of _ event]) (simp add: mid)
  qed
qed

subsection \<open>The decision log\<close>

text \<open>What a client of the recorder relies on: publishing a record appends one piece of evidence at its
  home and leaves every other place alone. The laws below hold for every sequence of records.\<close>

locale decision_log =
  fixes rows :: "'s \<Rightarrow> 'h \<Rightarrow> 'row list"
    and publish :: "'record \<Rightarrow> 's \<Rightarrow> 's \<Rightarrow> bool"
    and home :: "'record \<Rightarrow> 'h \<Rightarrow> bool"
    and evidence :: "'record \<Rightarrow> 'row \<Rightarrow> bool"
  assumes publish_appends: "publish r s t \<Longrightarrow> home r h \<Longrightarrow> \<exists>row. evidence r row \<and> rows t h = rows s h @ [row]"
    and publish_elsewhere: "publish r s t \<Longrightarrow> \<not> home r h \<Longrightarrow> rows t h = rows s h"
begin

primrec published :: "'record list \<Rightarrow> 's \<Rightarrow> 's \<Rightarrow> bool" where
  "published [] s t \<longleftrightarrow> s = t"
| "published (r # rs) s t \<longleftrightarrow> (\<exists>u. publish r s u \<and> published rs u t)"

lemma published_append: "published (rs @ rs') s t \<longleftrightarrow> (\<exists>u. published rs s u \<and> published rs' u t)"
  by (induction rs arbitrary: s) auto

lemma published_home:
  "published rs s t \<Longrightarrow> \<forall>r\<in>set rs. home r h \<Longrightarrow> \<exists>new. rows t h = rows s h @ new \<and> list_all2 evidence rs new"
proof (induction rs arbitrary: s)
  case (Cons r rs)
  from Cons.prems obtain u where u: "publish r s u" "published rs u t" and h: "home r h" by auto
  obtain row where row: "evidence r row" "rows u h = rows s h @ [row]" using publish_appends [OF u(1) h] by blast
  obtain new where "rows t h = rows u h @ new" "list_all2 evidence rs new" using Cons.IH [OF u(2)] Cons.prems by auto
  then show ?case using row by (intro exI [of _ "row # new"]) simp
qed simp

lemma published_elsewhere: "published rs s t \<Longrightarrow> \<forall>r\<in>set rs. \<not> home r h \<Longrightarrow> rows t h = rows s h"
  by (induction rs arbitrary: s) (auto simp: publish_elsewhere)

end

definition publishes :: "DecisionInput \<Rightarrow> Store \<Rightarrow> Store \<Rightarrow> bool" where
  "publishes i store store' \<longleftrightarrow> (\<exists>clock allocated. recordProductPermissionDecision clock allocated store i = Inr store')"

definition evidences :: "DecisionInput \<Rightarrow> PermissionDecisionRow \<Rightarrow> bool" where
  "evidences i row \<longleftrightarrow> dr_decisionId row = di_decisionId i \<and> dr_result row = di_result i \<and> dr_mediation row = di_mediation i
    \<and> dr_reasonCode row = di_reasonCode i \<and> dr_policySnapshotId row = di_policySnapshotId i"

lemma prepared_home [simp]: "permissionDecisionDb (prepareControlPermissionDecision clock i) = permissionDecisionDb i"
  by (cases "di_ownerScope i"; cases "di_userDb i") (simp_all add: permissionDecisionDb_def prepareControlPermissionDecision_def)

lemma publishes_effect:
  assumes "publishes i s t"
  obtains handle row audits where "permissionDecisionDb i = Inr handle" "evidences i row" "succeeds (readPermissionDecisionRowV1 row)"
    "t = s(handle := \<lparr>tb_decisions = tb_decisions (s handle) @ [row], tb_audits = audits\<rparr>)"
proof -
  obtain clock allocated where "recordProductPermissionDecisionInDb clock allocated s (prepareControlPermissionDecision clock i) = Inr t"
    using assms by (auto simp: publishes_def recordProductPermissionDecision_def bindE_Inr_iff)
  then show ?thesis
  proof (rule record_effect)
    fix handle aid uses row audits
    assume *: "permissionDecisionDb (prepareControlPermissionDecision clock i) = Inr handle"
      "checkMediation clock aid (prepareControlPermissionDecision clock i) = Inr ()"
      "decisionRow clock aid (prepareControlPermissionDecision clock i) = Inr row"
      "t = s(handle := \<lparr>tb_decisions = tb_decisions (s handle) @ [row], tb_audits = audits\<rparr>)"
    have "evidences i row"
      using *(3) by (auto simp: decisionRow_def bindE_Inr_iff evidences_def prepareControlPermissionDecision_def)
    then show ?thesis using * row_reads_back [OF *(2,3)] that by auto
  qed
qed

interpretation decisions: decision_log "\<lambda>s h. tb_decisions (s h)" publishes "\<lambda>i h. permissionDecisionDb i = Inr h" evidences
proof unfold_locales
  show "\<exists>row. evidences r row \<and> tb_decisions (t h) = tb_decisions (s h) @ [row]"
    if "publishes r s t" "permissionDecisionDb r = Inr h" for r s t h
    using that(1) by (rule publishes_effect) (use that(2) in auto)
  show "tb_decisions (t h) = tb_decisions (s h)" if "publishes r s t" "permissionDecisionDb r \<noteq> Inr h" for r s t h
    using that(1) by (rule publishes_effect) (use that(2) in auto)
qed

lemma ownerRows_append: "ownerRows h (xs @ ys) = ownerRows h xs @ ownerRows h ys"
  by (cases h) (simp_all add: ownerRows_def)

lemma mapE_append: "mapE f (xs @ ys) = bindE (mapE f xs) (\<lambda>a. bindE (mapE f ys) (\<lambda>b. Inr (a @ b)))"
  by (induction xs; cases "mapE f ys") (auto simp: bindE_assoc)

text \<open>A use that was counted stays counted.\<close>

lemma publishes_count:
  assumes "publishes i s t" "readPolicyStatementUseCount s h r = Inr n"
  shows "\<exists>m\<ge>n. readPolicyStatementUseCount t h r = Inr m"
  using assms(1)
proof (rule publishes_effect)
  fix handle row audits
  assume ok: "succeeds (readPermissionDecisionRowV1 row)"
    and t: "t = s(handle := \<lparr>tb_decisions = tb_decisions (s handle) @ [row], tb_audits = audits\<rparr>)"
  have "\<forall>x\<in>set (ownerRows h [row]). succeeds (readPermissionDecisionRowV1 x)"
    using ok ownerRows_subset [of h "[row]"] by auto
  from mapE_succeeds [OF this] have "\<exists>ds. mapE readPermissionDecisionRowV1 (ownerRows h [row]) = Inr ds" by blast
  then show ?thesis using assms(2)
    by (cases "h = handle") (auto simp: t readPolicyStatementUseCount_def bindE_Inr_iff ownerRows_append mapE_append)
qed

lemma published_count:
  "decisions.published rs s t \<Longrightarrow> readPolicyStatementUseCount s h r = Inr n \<Longrightarrow> \<exists>m\<ge>n. readPolicyStatementUseCount t h r = Inr m"
proof (induction rs arbitrary: s n)
  case (Cons i rs)
  then obtain u where u: "publishes i s u" "decisions.published rs u t" by auto
  obtain m where m: "m \<ge> n" "readPolicyStatementUseCount u h r = Inr m" using publishes_count [OF u(1) Cons.prems(2)] by blast
  with Cons.IH [OF u(2) m(2)] show ?case by fastforce
qed auto

text \<open>A record that consumes nothing changes no count.\<close>

lemma publishes_unconsumed:
  assumes "publishes i s t" "di_mediation i = Some m" "pd_consumedStatements m = []"
  shows "readPolicyStatementUseCount t h r = readPolicyStatementUseCount s h r"
  using assms(1)
proof (rule publishes_effect)
  fix handle row audits
  assume row: "evidences i row" "succeeds (readPermissionDecisionRowV1 row)"
    and t: "t = s(handle := \<lparr>tb_decisions = tb_decisions (s handle) @ [row], tb_audits = audits\<rparr>)"
  obtain d where d: "readPermissionDecisionRowV1 row = Inr d" using row(2) by (auto simp: succeeds_iff)
  then have "rd_mediation d = Some m" using row(1) assms(2)
    by (auto simp: readPermissionDecisionRowV1_def readRetainedV1_def Let_def bindE_Inr_iff parseWith_Inr_iff evidences_def split: option.splits if_splits)
  then have "\<not> consumes r d" using assms(3) by (simp add: consumes_def)
  moreover have "mapE readPermissionDecisionRowV1 (ownerRows h [row]) = Inr (if ownerRows h [row] = [] then [] else [d])"
    using d by (cases h) (auto simp: ownerRows_def)
  ultimately show ?thesis
    by (cases "h = handle"; cases "mapE readPermissionDecisionRowV1 (ownerRows h (tb_decisions (s h)))")
      (auto simp: t readPolicyStatementUseCount_def ownerRows_append mapE_append parseWith_def ensure_def)
qed

subsection \<open>Owners and linked Audits\<close>

text \<open>A history of the recorder: the public entry, and the direct recording of a caller that passes the Workspace of the
  database it hands over. A caller may name an Audit of its own instead of having one published; those
  identifiers are collected in \<open>supplied\<close>.\<close>

definition suppliedAudits :: "DecisionInput \<Rightarrow> string set" where
  "suppliedAudits i = set_option (truthy (di_auditEventId i))"

definition namesOwner :: "DecisionInput \<Rightarrow> bool" where
  "namesOwner i \<longleftrightarrow> (di_ownerScope i = WorkspaceDecision \<longrightarrow> di_workspaceId i = di_workspaceDb i)"

inductive recordings :: "string set \<Rightarrow> Store \<Rightarrow> bool" for supplied where
  nothing: "recordings supplied emptyStore"
| entry: "recordings supplied (s :: Store) \<Longrightarrow> recordProductPermissionDecision clock allocated s i = Inr t \<Longrightarrow>
    suppliedAudits i \<subseteq> supplied \<Longrightarrow> recordings supplied t"
| direct: "recordings supplied (s :: Store) \<Longrightarrow> recordProductPermissionDecisionInDb clock allocated s i = Inr t \<Longrightarrow>
    namesOwner i \<Longrightarrow> suppliedAudits i \<subseteq> supplied \<Longrightarrow> recordings supplied t"

text \<open>A row stands in the database of its owner.\<close>

fun homed :: "Handle \<Rightarrow> PermissionDecisionRow \<Rightarrow> bool" where
  "homed (WorkspaceHandle ws) row \<longleftrightarrow> dr_ownerScope row = WorkspaceDecision \<and> dr_workspaceId row = Some ws"
| "homed (UserHandle _) row \<longleftrightarrow> dr_ownerScope row = UserDecision \<and> dr_workspaceId row = None"
| "homed CoreHandle row \<longleftrightarrow> dr_ownerScope row = ServerDecision"

fun handleWorkspace :: "Handle \<Rightarrow> string option" where
  "handleWorkspace (WorkspaceHandle ws) = Some ws"
| "handleWorkspace _ = None"

text \<open>The Audit a row names stands beside it, under its identifier, for its Workspace, with its outcome.\<close>

definition linked :: "Handle \<Rightarrow> AuditRow list \<Rightarrow> PermissionDecisionRow \<Rightarrow> bool" where
  "linked h audits row \<longleftrightarrow> (\<exists>a\<in>set audits. dr_auditEventId row = Some (ae_id (ar_event a))
    \<and> ae_permissionDecisionId (ar_event a) = Some (dr_decisionId row) \<and> ae_workspaceId (ar_event a) = handleWorkspace h
    \<and> ae_action (ar_event a) = ''permission.decision'' \<and> ae_outcome (ar_event a) = permissionAuditOutcome (dr_result row))"

lemma linked_mono: "linked h audits row \<Longrightarrow> set audits \<subseteq> set audits' \<Longrightarrow> linked h audits' row"
  by (auto simp: linked_def)

lemma prepared_named:
  assumes "recordProductPermissionDecision clock allocated s i = Inr t"
  shows "namesOwner (prepareControlPermissionDecision clock i)"
    "suppliedAudits (prepareControlPermissionDecision clock i) = suppliedAudits i"
  using assms by (auto simp: recordProductPermissionDecision_def bindE_Inr_iff ensure_Inr_iff namesOwner_def suppliedAudits_def
      prepareControlPermissionDecision_def split: option.splits)

lemma row_homed:
  assumes "permissionDecisionDb i = Inr handle" "decisionRow clock aid i = Inr row" "namesOwner i"
  shows "homed handle row"
  using assms by (cases "di_ownerScope i")
    (auto simp: permissionDecisionDb_def decisionRow_def bindE_Inr_iff namesOwner_def split: option.splits if_splits)

lemma published_linked:
  assumes handle: "permissionDecisionDb i = Inr handle" and check: "checkMediation clock aid i = Inr ()"
    and row: "decisionRow clock aid i = Inr row" and named: "namesOwner i" "suppliedAudits i = {}"
    and audit: "publishAudit clock aid rows i = Inr audits"
  shows "linked handle audits row"
proof -
  have ids: "isEntityId ''aud'' aid" "\<forall>ws. di_workspaceId i = Some ws \<longrightarrow> isEntityId ''ws'' ws"
    using check by (auto simp: checkMediation_def bindE_Inr_iff parseWith_Inr_iff PermissionDecisionRetainedV1Schema_def retainedForm_def)
  have "recordAuditEvent clock aid rows (handleWorkspace handle) (linkedAudit clock aid i) = Inr audits"
    using audit handle named ids entity_not_empty
    by (cases "di_ownerScope i")
      (auto simp: publishAudit_def permissionDecisionDb_def suppliedAudits_def namesOwner_def truthy_def split: option.splits if_splits)
  then show ?thesis
  proof (rule recordAuditEvent_appends)
    fix event
    assume "prepareAuditEvent clock aid (handleWorkspace handle) (linkedAudit clock aid i) = Inr event"
      "audits = rows @ [\<lparr>ar_schemaVersion = RETAINED_FORMAT_VERSION, ar_event = event\<rparr>]"
    moreover have "dr_auditEventId row = Some aid" "dr_decisionId row = di_decisionId i" "dr_result row = di_result i"
      using row by (auto simp: decisionRow_def bindE_Inr_iff)
    ultimately show ?thesis
      by (auto simp: linked_def prepareAuditEvent_def parseWith_Inr_iff linkedAudit_def orDefault_def)
  qed
qed

definition owned_rows :: "string set \<Rightarrow> Handle \<Rightarrow> Tables \<Rightarrow> bool" where
  "owned_rows supplied h t \<longleftrightarrow> (\<forall>row\<in>set (tb_decisions t). homed h row
    \<and> (linked h (tb_audits t) row \<or> (\<exists>a\<in>supplied. dr_auditEventId row = Some a)))"

lemma owned_step:
  assumes "recordProductPermissionDecisionInDb clock allocated s i = Inr t" "namesOwner i" "suppliedAudits i \<subseteq> supplied"
    and owned: "\<forall>h. owned_rows supplied h (s h)"
  shows "owned_rows supplied h (t h)"
  using assms(1)
proof (rule record_effect)
  fix handle aid uses row audits
  assume handle: "permissionDecisionDb i = Inr handle" and aid: "aid = permissionDecisionAuditEventId allocated i"
    and check: "checkMediation clock aid i = Inr ()" and row: "decisionRow clock aid i = Inr row"
    and audit: "publishAudit clock aid (tb_audits (s handle)) i = Inr audits"
    and t: "t = s(handle := \<lparr>tb_decisions = tb_decisions (s handle) @ [row], tb_audits = audits\<rparr>)"
  have kept: "set (tb_audits (s handle)) \<subseteq> set audits" using publishAudit_cases [OF audit] by auto
  have "linked handle audits row \<or> (\<exists>a\<in>supplied. dr_auditEventId row = Some a)"
  proof (cases "truthy (di_auditEventId i)")
    case None
    then show ?thesis using published_linked [OF handle check row assms(2) _ audit] by (simp add: suppliedAudits_def)
  next
    case (Some a)
    then show ?thesis using assms(3) row aid
      by (auto simp: suppliedAudits_def permissionDecisionAuditEventId_def decisionRow_def bindE_Inr_iff)
  qed
  moreover have "homed handle row" using handle row assms(2) by (rule row_homed)
  ultimately have "owned_rows supplied handle (t handle)"
    using owned linked_mono [OF _ kept] by (auto simp: owned_rows_def t)
  then show ?thesis using owned by (cases "h = handle") (simp_all add: t)
qed

lemma reachable_step:
  assumes "decision_reachable s" "recordProductPermissionDecisionInDb clock allocated s i = Inr t"
  shows "decision_reachable t"
proof -
  have "\<exists>i. decision_step i s t" using decision_step.recorded [OF assms(2)] by blast
  with assms(1) show ?thesis unfolding decision_reachable_def recorded_before_def by (auto intro: rtranclp.rtrancl_into_rtrancl)
qed

lemma recordings_owned: "recordings supplied store \<Longrightarrow> decision_reachable store \<and> (\<forall>h. owned_rows supplied h (store h))"
proof (induction rule: recordings.induct)
  case nothing
  then show ?case by (simp add: decision_reachable_def recorded_before_def owned_rows_def emptyStore_def)
next
  case (entry s clock allocated i t)
  have run: "recordProductPermissionDecisionInDb clock allocated s (prepareControlPermissionDecision clock i) = Inr t"
    using entry.hyps(2) by (simp add: recordProductPermissionDecision_def bindE_Inr_iff)
  then show ?case using entry.IH entry.hyps(3) prepared_named [OF entry.hyps(2)] owned_step [OF run] reachable_step [OF _ run] by simp
next
  case (direct s clock allocated i t)
  then show ?case using owned_step [OF direct.hyps(2,3,4)] reachable_step [OF _ direct.hyps(2)] by simp
qed

subsection \<open>Properties of the recorder\<close>

text \<open>C35: A recorded decision reads back. A recording appends exactly one decision to the database of its
  owner and changes no other database; the retained reader accepts the new row and returns the
  decision that was recorded, with its summaries as JSON values and, for a mediated decision, the
  subject projected from the mediation.\<close>

theorem decision_reads_back:
  assumes "recordProductPermissionDecisionInDb clock allocated store i = Inr store'"
  shows "\<exists>handle row. permissionDecisionDb i = Inr handle
    \<and> tb_decisions (store' handle) = tb_decisions (store handle) @ [row]
    \<and> readPermissionDecisionRowV1 row = Inr (readBack clock (permissionDecisionAuditEventId allocated i) i)
    \<and> (\<forall>h. h \<noteq> handle \<longrightarrow> store' h = store h)"
  using assms
proof (rule record_effect)
  fix handle aid uses row audits
  assume "permissionDecisionDb i = Inr handle" "aid = permissionDecisionAuditEventId allocated i"
    "checkMediation clock aid i = Inr ()" "decisionRow clock aid i = Inr row"
    "store' = store(handle := \<lparr>tb_decisions = tb_decisions (store handle) @ [row], tb_audits = audits\<rparr>)"
  then show ?thesis using row_reads_back by (intro exI [of _ handle] exI [of _ row]) auto
qed

text \<open>C4: Finite uses are never exceeded. When every decision that consumes a statement names the limit of
  that statement, then after any sequence of recordings, in every database, the number of final
  allows that consumed it is at most its limit; the count itself never fails.\<close>

theorem decision_uses_bounded:
  assumes "limited_before limit emptyStore store" "PolicyStatementReferenceV1Schema r" "0 < limit r"
  shows "\<exists>n. readPolicyStatementUseCount store h r = Inr n \<and> 0 \<le> n \<and> n \<le> limit r"
proof -
  have "tables_ok h (store h)"
    using limited_recorded [OF assms(1)] by (intro reachable_ok) (simp add: decision_reachable_def)
  from use_count [of h store, OF this assms(2)] limited_uses [OF assms] show ?thesis by simp
qed

text \<open>C28: The store stays consistent. After any sequence of recordings every database has unique decision
  and Audit identifiers, every row of it is accepted by its retained reader, and an Approval has at
  most one terminal decision, allow or deny, in its Workspace or User database. Owners are kept apart: a Workspace
  database holds only decisions of its Workspace, a User database only User decisions and Core only Server decisions.
  And every decision has its Audit beside it, under the identifier it names, bound to the decision, to the
  Workspace of the database and to the outcome, unless its caller supplied the identifier of an Audit of its own.\<close>

theorem decision_store_consistent:
  assumes "recordings supplied store"
  shows "tables_ok h (store h)
    \<and> (\<forall>row\<in>set (tb_decisions (store h)). homed h row
      \<and> (linked h (tb_audits (store h)) row \<or> (\<exists>a\<in>supplied. dr_auditEventId row = Some a)))"
  using recordings_owned [OF assms] reachable_ok by (simp add: owned_rows_def)

text \<open>A recorded use is confirmed from then on. When a Workspace decision that consumes a statement has
  been recorded through the public entry point, with the thread and turn of its process in its
  context, the check that this effect consumed the statement succeeds in every later store.\<close>

theorem decision_use_confirmed:
  assumes reachable: "decision_reachable store"
    and recorded: "recordProductPermissionDecision clock allocated store i = Inr mid" and later: "recorded_before mid later"
    and owner: "di_ownerScope i = WorkspaceDecision" "di_workspaceDb i = Some ws"
    and mediation: "di_mediation i = Some m" "pd_stage m = DecideStage" "r \<in> set (pd_consumedStatements m)"
    and lineage: "\<And>p. sj_process (pd_subject m) = Some p \<Longrightarrow>
      optionalStringField (jsonClone (di_contextSummary i)) ''threadId'' = Some (pp_threadId p)
      \<and> optionalStringField (jsonClone (di_contextSummary i)) ''turnId'' = Some (pp_turnId p)"
  shows "policyStatementUsedByDecision later ws r
    \<lparr>pu_decisionId = di_decisionId i, pu_proposalDigest = pd_proposalDigest m,
     pu_policyRevision = di_policySnapshotId i, pu_authorizationRevision = pd_authorizationRevision m\<rparr> = Inr True"
proof -
  define j where "j = prepareControlPermissionDecision clock i"
  have j: "di_ownerScope j = WorkspaceDecision" "di_workspaceDb j = Some ws" "di_mediation j = Some m"
      "di_decisionId j = di_decisionId i" "di_policySnapshotId j = di_policySnapshotId i"
    using owner mediation(1) by (simp_all add: j_def prepareControlPermissionDecision_def)
  have run: "recordProductPermissionDecisionInDb clock allocated store j = Inr mid" "di_workspaceId j = Some ws"
    using recorded owner by (auto simp: recordProductPermissionDecision_def bindE_Inr_iff ensure_Inr_iff j_def prepareControlPermissionDecision_def)
  have some: "pd_consumedStatements m \<noteq> []" using mediation(3) by auto
  from recorded_use [OF run(1) j(1,2) run(2) j(3) some] obtain row event where
      row: "row \<in> set (tb_decisions (mid (WorkspaceHandle ws)))" "readPermissionDecisionRowV1 row = Inr (readBack clock allocated j)"
        "dr_decisionId row = di_decisionId j" "dr_ownerScope row = WorkspaceDecision" "dr_workspaceId row = Some ws"
      and event: "\<lparr>ar_schemaVersion = RETAINED_FORMAT_VERSION, ar_event = event\<rparr> \<in> set (tb_audits (mid (WorkspaceHandle ws)))"
        "prepareAuditEvent clock allocated (Some ws) (linkedAudit clock allocated j) = Inr event" "AuditEventSchema event"
    by blast
  have "recorded_before store mid" unfolding recorded_before_def using decision_step.recorded [OF run(1)] by blast
  then have "decision_reachable later"
    using reachable later unfolding decision_reachable_def recorded_before_def by (meson rtranclp_trans)
  then have ok: "tables_ok (WorkspaceHandle ws) (later (WorkspaceHandle ws))" by (rule reachable_ok)
  have mem: "row \<in> set (tb_decisions (later (WorkspaceHandle ws)))"
      "\<lparr>ar_schemaVersion = RETAINED_FORMAT_VERSION, ar_event = event\<rparr> \<in> set (tb_audits (later (WorkspaceHandle ws)))"
    using before_extends [OF later, of "WorkspaceHandle ws"] row(1) event(1) by (auto simp: extends_def)
  have found: "List.find (\<lambda>y. dr_decisionId y = dr_decisionId row \<and> dr_ownerScope y = WorkspaceDecision \<and> dr_workspaceId y = Some ws)
      (tb_decisions (later (WorkspaceHandle ws))) = Some row"
    using ok mem(1) row(4,5) by (intro find_identified_by) (simp_all add: tables_ok_def)
  have id: "ae_id event = allocated" using event(2) by (auto simp: prepareAuditEvent_def parseWith_Inr_iff linkedAudit_def orDefault_def)
  have audit: "List.find (\<lambda>a. Some (ae_id (ar_event a)) = Some allocated) (tb_audits (later (WorkspaceHandle ws)))
      = Some \<lparr>ar_schemaVersion = RETAINED_FORMAT_VERSION, ar_event = event\<rparr>"
    using find_identified_by [where f = "ae_id \<circ> ar_event" and Q = "\<lambda>_. True", OF _ mem(2)] ok id
    by (simp add: tables_ok_def)
  obtain uses where uses: "checkUses j = Inr uses" using run(1) by (rule record_effect)
  note allow = checkUses_allow [OF uses j(3) some]
  obtain l where "(r, l) \<in> set uses" using consumed_requested [OF uses j(3) mediation(3)] by blast
  then have schema: "PolicyStatementReferenceV1Schema r" using allow(5) by (auto simp: usesSchema_def list_all_iff)
  have summary: "di_contextSummary j \<noteq> JUndefined" using run(1)
    by (rule record_effect) (auto simp: decisionRow_def bindE_Inr_iff jsonColumn_Inr)
  then have ctx: "di_contextSummary j = jsonClone (di_contextSummary i)"
    by (auto simp: j_def prepareControlPermissionDecision_def cloneSummary_def split: if_splits)
  have fields: "ae_permissionDecisionId event = Some (di_decisionId i)" "ae_workspaceId event = Some ws"
      "ae_action event = ''permission.decision''" "ae_outcome event = AuditSucceeded" "ae_resource event = Some (''permission:'' @ di_action j)"
      "ae_capabilityCallId event = optionalStringField (jsonClone (di_contextSummary i)) ''capabilityCallId''"
      "ae_threadId event = optionalStringField (jsonClone (di_contextSummary i)) ''threadId''"
      "ae_turnId event = optionalStringField (jsonClone (di_contextSummary i)) ''turnId''"
    using event(2) allow(1) j(4) by (auto simp: prepareAuditEvent_def parseWith_Inr_iff linkedAudit_def permissionAuditOutcome_def ctx)
  have reads: "rd_mediation (readBack clock allocated j) = Some m" "rd_result (readBack clock allocated j) = AllowResult"
      "rd_policySnapshotId (readBack clock allocated j) = di_policySnapshotId i" "rd_auditEventId (readBack clock allocated j) = Some allocated"
      "rd_decisionId (readBack clock allocated j) = di_decisionId i" "rd_action (readBack clock allocated j) = di_action j"
      "rd_contextSummary (readBack clock allocated j) = jsonClone (di_contextSummary i)"
    using j allow(1) by (simp_all add: readBack_def retainedForm_def ctx jsonClone_idem)
  have "list_ex (\<lambda>q. sf_id q = sf_id r \<and> sf_digest q = sf_digest r) (pd_consumedStatements m)"
    using mediation(3) by (auto simp: list_ex_iff)
  then show ?thesis
    using found row(2,3) j(4) schema audit written_audit_reads [OF event(3)] fields reads allow mediation(2) lineage
    by (simp add: policyStatementUsedByDecision_def Let_def split: option.split)
qed

subsection \<open>A recorded use\<close>

definition sampleReference :: PolicyStatementReferenceV1 where
  "sampleReference = \<lparr>sf_id = ''grant'', sf_digest = ''sha256:'' @ replicate 64 CHR ''a''\<rparr>"

definition sampleDecider :: PolicySubjectV1 where
  "sampleDecider =
    \<lparr>sj_principal = HumanPrincipal ''usr_01234567-89ab-7def-8123-456789abcdef'', sj_onBehalfOf = None,
     sj_actor = UserActor ''usr_01234567-89ab-7def-8123-456789abcdef'', sj_process = None,
     sj_credentialKind = SessionCredential, sj_responsibleHumanId = ''usr_01234567-89ab-7def-8123-456789abcdef''\<rparr>"

definition sampleMediation :: PolicyDecisionV1 where
  "sampleMediation =
    \<lparr>pd_operation = ''tool.call'', pd_stage = DecideStage, pd_proposalDigest = ''sha256:'' @ replicate 64 CHR ''1'',
     pd_authorizationRevision = ''sha256:'' @ replicate 64 CHR ''2'', pd_subject = sampleDecider, pd_role = FinalRole,
     pd_binding = None, pd_kernel = Some (Some \<lparr>kr_effect = KernelAllow, kr_reason = ''association-grant''\<rparr>),
     pd_invocations = [], pd_consumedStatements = [sampleReference]\<rparr>"

definition sampleUse :: DecisionInput where
  "sampleUse =
    \<lparr>di_coreDb = False, di_workspaceDb = Some ''ws_01234567-89ab-7def-8123-456789abcdef'', di_userDb = None,
     di_decisionId = ''pd_01234567-89ab-7def-8123-456789abcdef'', di_ownerScope = WorkspaceDecision,
     di_workspaceId = Some ''ws_01234567-89ab-7def-8123-456789abcdef'', di_policyEngineVersion = ''v1'',
     di_policySnapshotId = ''sha256:'' @ replicate 64 CHR ''3'', di_subjectSummary = JNull, di_action = ''tool.use'',
     di_resourceSummary = JNull, di_contextSummary = JObj [(''requestId'', JUndefined)], di_result = AllowResult,
     di_reasonCode = ''granted'', di_enforcementPoint = ''tool.call@decide'', di_mediation = Some sampleMediation,
     di_policyInvocation = None, di_uses = Some [(sampleReference, 1)], di_requiredApprovalKind = None,
     di_approvalId = None, di_auditEventId = None, di_auditActor = None, di_now = None\<rparr>"

definition sampleClock :: string where "sampleClock = ''2026-01-01T00:00:00.000Z''"

definition sampleAudit :: string where "sampleAudit = ''aud_01234567-89ab-7def-8123-456789abcdef''"

definition sampleWs :: string where "sampleWs = ''ws_01234567-89ab-7def-8123-456789abcdef''"

lemma sample_records:
  "\<exists>store. recordProductPermissionDecision sampleClock sampleAudit emptyStore sampleUse = Inr store"
  unfolding succeeds_iff [symmetric] by code_simp

lemma sample_records_indb:
  "\<exists>store. recordProductPermissionDecisionInDb sampleClock sampleAudit emptyStore sampleUse = Inr store"
  unfolding succeeds_iff [symmetric] by code_simp

lemma empty_reachable: "decision_reachable emptyStore"
  by (simp add: decision_reachable_def recorded_before_def)

theorem decision_reads_back_witness:
  "\<exists>store row. recordProductPermissionDecisionInDb sampleClock sampleAudit emptyStore sampleUse = Inr store
    \<and> tb_decisions (store (WorkspaceHandle sampleWs)) = [row]
    \<and> readPermissionDecisionRowV1 row = Inr (readBack sampleClock sampleAudit sampleUse)"
proof -
  obtain store where store: "recordProductPermissionDecisionInDb sampleClock sampleAudit emptyStore sampleUse = Inr store"
    using sample_records_indb ..
  have "permissionDecisionDb sampleUse = Inr (WorkspaceHandle sampleWs)"
      "permissionDecisionAuditEventId sampleAudit sampleUse = sampleAudit"
    by (simp_all add: permissionDecisionDb_def permissionDecisionAuditEventId_def sampleUse_def sampleWs_def truthy_def)
  with decision_reads_back [OF store] store show ?thesis by (auto simp: emptyStore_def)
qed

theorem decision_uses_bounded_witness:
  "\<exists>store n. recordProductPermissionDecisionInDb sampleClock sampleAudit emptyStore sampleUse = Inr store
    \<and> readPolicyStatementUseCount store (WorkspaceHandle sampleWs) sampleReference = Inr n \<and> n \<le> 1"
proof -
  obtain store where store: "recordProductPermissionDecisionInDb sampleClock sampleAudit emptyStore sampleUse = Inr store"
    using sample_records_indb ..
  have "keepsLimits (\<lambda>_. 1) sampleUse" by (simp add: keepsLimits_def sampleUse_def)
  with decision_step.recorded [OF store] have "limited_before (\<lambda>_. 1) emptyStore store"
    unfolding limited_before_def by blast
  moreover have "PolicyStatementReferenceV1Schema sampleReference" by code_simp
  ultimately show ?thesis using decision_uses_bounded [of "\<lambda>_. 1" store sampleReference] store by fastforce
qed

theorem decision_store_consistent_witness:
  "\<exists>store row. recordings {} store \<and> tb_decisions (store (WorkspaceHandle sampleWs)) = [row]
    \<and> tables_ok (WorkspaceHandle sampleWs) (store (WorkspaceHandle sampleWs))
    \<and> dr_workspaceId row = Some sampleWs \<and> linked (WorkspaceHandle sampleWs) (tb_audits (store (WorkspaceHandle sampleWs))) row"
proof -
  obtain store where store: "recordProductPermissionDecision sampleClock sampleAudit emptyStore sampleUse = Inr store"
    using sample_records ..
  have "suppliedAudits sampleUse \<subseteq> {}" by (simp add: suppliedAudits_def sampleUse_def truthy_def)
  then have run: "recordings {} store" by (rule recordings.entry [OF recordings.nothing store])
  have "case recordProductPermissionDecision sampleClock sampleAudit emptyStore sampleUse of
      Inl _ \<Rightarrow> False | Inr s \<Rightarrow> length (tb_decisions (s (WorkspaceHandle sampleWs))) = 1" by code_simp
  then obtain row where "tb_decisions (store (WorkspaceHandle sampleWs)) = [row]" using store by (auto simp: length_Suc_conv)
  with decision_store_consistent [OF run, of "WorkspaceHandle sampleWs"] run show ?thesis by auto
qed

theorem decision_use_confirmed_witness:
  "\<exists>store. recordProductPermissionDecision sampleClock sampleAudit emptyStore sampleUse = Inr store
    \<and> policyStatementUsedByDecision store sampleWs sampleReference
      \<lparr>pu_decisionId = di_decisionId sampleUse, pu_proposalDigest = pd_proposalDigest sampleMediation,
       pu_policyRevision = di_policySnapshotId sampleUse, pu_authorizationRevision = pd_authorizationRevision sampleMediation\<rparr> = Inr True"
proof -
  obtain store where store: "recordProductPermissionDecision sampleClock sampleAudit emptyStore sampleUse = Inr store"
    using sample_records ..
  have "recorded_before store store" by (simp add: recorded_before_def)
  from decision_use_confirmed [OF empty_reachable store this, of sampleWs sampleMediation sampleReference] store
  show ?thesis by (simp add: sampleUse_def sampleWs_def sampleMediation_def sampleDecider_def)
qed

end
