(* ===== verification/Interception_Properties.thy ===== *)
theory Interception_Properties
  imports Policy_Interception Decision_History
begin

text \<open>
  What the deciding point guarantees: the closed precedence of results, the evidence retained for
  every decision, what an allow rests on, and when the result is an error.
\<close>

subsection \<open>Precedence\<close>

lemma combine_ladder:
  "combineResults results =
    (if ErrorResult \<in> set results then ErrorResult else if DenyResult \<in> set results then DenyResult
     else if RequireEscalationResult \<in> set results then RequireEscalationResult
     else if RequireApprovalResult \<in> set results then RequireApprovalResult
     else if DeferResult \<in> set results then DeferResult else if AllowResult \<in> set results then AllowResult
     else NotApplicableResult)"
  by (auto simp: combineResults_def RESULT_PRECEDENCE_def orDefault_def list_ex_iff Let_def)

lemma allow_or_neutral:
  "set results \<subseteq> {AllowResult, NotApplicableResult} \<longleftrightarrow>
    ErrorResult \<notin> set results \<and> DenyResult \<notin> set results \<and> RequireEscalationResult \<notin> set results
    \<and> RequireApprovalResult \<notin> set results \<and> DeferResult \<notin> set results"
proof
  assume *: "ErrorResult \<notin> set results \<and> DenyResult \<notin> set results \<and> RequireEscalationResult \<notin> set results
    \<and> RequireApprovalResult \<notin> set results \<and> DeferResult \<notin> set results"
  show "set results \<subseteq> {AllowResult, NotApplicableResult}"
  proof
    fix r assume "r \<in> set results"
    with * show "r \<in> {AllowResult, NotApplicableResult}" by (cases r) auto
  qed
qed auto

fun severity :: "PermissionDecisionResult \<Rightarrow> nat" where
  "severity NotApplicableResult = 0"
| "severity AllowResult = 1"
| "severity DeferResult = 2"
| "severity RequireApprovalResult = 3"
| "severity RequireEscalationResult = 4"
| "severity DenyResult = 5"
| "severity ErrorResult = 6"

lemma severity_inject: "severity a = severity b \<Longrightarrow> a = b"
  by (cases a; cases b) simp_all

text \<open>Results are ordered by severity.\<close>

instantiation PermissionDecisionResult :: linorder
begin

definition less_eq_PermissionDecisionResult :: "PermissionDecisionResult \<Rightarrow> PermissionDecisionResult \<Rightarrow> bool" where
  "less_eq_PermissionDecisionResult a b = (severity a \<le> severity b)"

definition less_PermissionDecisionResult :: "PermissionDecisionResult \<Rightarrow> PermissionDecisionResult \<Rightarrow> bool" where
  "less_PermissionDecisionResult a b = (severity a < severity b)"

instance
  by standard (auto simp: less_eq_PermissionDecisionResult_def less_PermissionDecisionResult_def severity_inject)

end

lemma combine_allow_iff:
  "combineResults results = AllowResult \<longleftrightarrow> AllowResult \<in> set results \<and> set results \<subseteq> {AllowResult, NotApplicableResult}"
  by (auto simp: combine_ladder allow_or_neutral)

lemma combine_error_iff: "combineResults results = ErrorResult \<longleftrightarrow> ErrorResult \<in> set results"
  by (auto simp: combine_ladder)

lemma combine_append: "combineResults (a @ b) = combineResults [combineResults a, combineResults b]"
  by (simp add: combine_ladder)

subsection \<open>The records of a decision\<close>

text \<open>A record is owned by an input when it names its database and its Policy revision.\<close>

definition ownedBy :: "InterceptionInput \<Rightarrow> string \<Rightarrow> DecisionInput \<Rightarrow> bool" where
  "ownedBy i revision r \<longleftrightarrow> \<not> di_coreDb r \<and> di_userDb r = ii_userDb i
    \<and> di_workspaceDb r = (case ii_userDb i of Some _ \<Rightarrow> None | None \<Rightarrow> map_option wb_workspaceId (ii_workspaceDb i))
    \<and> di_ownerScope r = (if ii_userDb i \<noteq> None then UserDecision else WorkspaceDecision) \<and> di_policySnapshotId r = revision"

lemma ownedBy_home:
  assumes "ownedBy i revision r" "publishes r s t"
  shows "permissionDecisionDb r = Inr (ownerHandle i)"
  using assms(2)
proof (rule publishes_effect)
  fix handle assume "permissionDecisionDb r = Inr handle"
  then show ?thesis using assms(1)
    by (cases "ii_userDb i"; cases "ii_workspaceDb i") (auto simp: ownedBy_def permissionDecisionDb_def ownerHandle_def split: if_splits)
qed

lemma decisionInput_owned: "decisionInput pf i revision = Inr base \<Longrightarrow> ownedBy i revision base"
  by (auto simp: decisionInput_def bindE_Inr_iff ownedBy_def)

text \<open>The mediation of a gate record and of a final record.\<close>

definition gateEvidence :: "Platform \<Rightarrow> InterceptionInput \<Rightarrow> PolicyStatementV1 \<Rightarrow> PolicyDecisionV1 option \<Rightarrow> bool" where
  "gateEvidence pf i s mediation \<longleftrightarrow> (\<exists>m. mediation = Some m \<and> pd_role m = GateRole
    \<and> pd_binding m = Some (bindingReference pf s) \<and> pd_operation m = pq_operation (ii_proposal i)
    \<and> pd_proposalDigest m = policyProposalDigest pf (ii_proposal i)
    \<and> pd_authorizationRevision m = ii_authorizationRevision i \<and> pd_consumedStatements m = [])"

lemma gateRecord_evidence:
  assumes "gateRecord pf w k i (s, b) revision (policyProposalDigest pf (ii_proposal i)) attempt res = Inr r"
    "bd_operation b = pq_operation (ii_proposal i)"
  shows "ownedBy i revision r" "gateEvidence pf i s (di_mediation r)" "di_result r = res"
  using assms decisionInput_owned [of pf i revision]
  by (auto simp: gateRecord_def Let_def bindE_Inr_iff gateEvidence_def ownedBy_def)

subsection \<open>Gates\<close>

lemma publishesI: "recordProductPermissionDecision clock allocated s i = Inr t \<Longrightarrow> publishes i s t"
  by (auto simp: publishes_def)

lemma attempt_neutral:
  assumes "attemptParticipant pf ps w k circuits i (s, b) points = (circuits', attempt, called)"
    "bd_mode b = GateMode" "at_result attempt = NotApplicableResult"
  shows "bd_failure b = ContinueOnFailure"
proof (rule ccontr)
  assume "bd_failure b \<noteq> ContinueOnFailure"
  then have "failureResult b \<noteq> NotApplicableResult" by (cases "bd_failure b") (auto simp: failureResult_def)
  moreover have "parsedReply points b v = Some decided \<Longrightarrow> gateResult decided \<noteq> NotApplicableResult" for v decided
    using assms(2) by (cases decided rule: gateResult.cases) (auto simp: parsedReply_def split: if_splits option.splits)
  ultimately have "at_result (judgeReply pf w k i (s, b) points a) \<noteq> NotApplicableResult" for a
    by (auto simp: judgeReply_def Let_def split: Reply.splits option.splits sum.splits)
  with \<open>failureResult b \<noteq> NotApplicableResult\<close> assms(1,3) show False
    by (auto simp: attemptParticipant_def Let_def split: if_splits)
qed

lemma invoke_gate:
  assumes "invoke pf ps w st i (s, b) revision (policyProposalDigest pf (ii_proposal i)) = Inr (st', reference, res)"
    "bd_mode b = GateMode"
  obtains r where "ownedBy i revision r" "gateEvidence pf i s (di_mediation r)" "di_result r = res"
    "reference = DecisionReference (di_decisionId r)" "publishes r (pn_store st) (pn_store st')"
    "res = NotApplicableResult \<longrightarrow> bd_failure b = ContinueOnFailure"
proof -
  obtain points where points: "participationAvailable pf (ii_proposal i) b = Inr points"
    using assms(1) by (auto simp: invoke_def Let_def bindE_Inr_iff)
  obtain circuits attempt called where
      att: "attemptParticipant pf ps w (pn_tick st) (pn_circuits st) i (s, b) points = (circuits, attempt, called)"
    by (metis prod_cases3)
  obtain r where *:
      "gateRecord pf w (pn_tick st) i (s, b) revision (policyProposalDigest pf (ii_proposal i)) attempt res = Inr r"
      "res = (if at_error attempt then ErrorResult else at_result attempt)"
      "publishes r (pn_store st) (pn_store st')" "reference = DecisionReference (di_decisionId r)"
    using assms points att by (auto simp: invoke_def Let_def bindE_Inr_iff dest!: publishesI)
  moreover have "bd_operation b = pq_operation (ii_proposal i)"
    using points by (auto simp: participationAvailable_def bindE_Inr_iff ensure_Inr_iff)
  ultimately show ?thesis using attempt_neutral [OF att assms(2)] that [OF gateRecord_evidence [OF *(1)]]
    by (auto split: if_splits)
qed


text \<open>What a run of the gates leaves behind: one published record per participant that was called for,
  in order, and a result of every active gate whose uses are not spent.\<close>

definition spent :: "Platform \<Rightarrow> InterceptionInput \<Rightarrow> Store \<Rightarrow> PolicyStatementV1 \<Rightarrow> bool" where
  "spent pf i store s \<longleftrightarrow> (\<exists>limit n. lt_uses (st_lifetime s) = Some limit
    \<and> readPolicyStatementUseCount store (ownerHandle i) (bindingReference pf s) = Inr n \<and> n \<ge> limit)"

definition answers ::
  "Platform \<Rightarrow> InterceptionInput \<Rightarrow> bool \<Rightarrow> PermissionDecisionResult list \<Rightarrow> binding \<Rightarrow> DecisionInput \<Rightarrow> bool" where
  "answers pf i approved results sb r \<longleftrightarrow> gateEvidence pf i (fst sb) (di_mediation r)
    \<and> (di_result r = NotApplicableResult \<longrightarrow> bd_failure (snd sb) = ContinueOnFailure)
    \<and> (st_state (fst sb) \<noteq> ShadowState \<longrightarrow>
        (if di_result r = RequireEscalationResult \<and> approved then AllowResult else di_result r) \<in> set results)"

definition answered ::
  "Platform \<Rightarrow> InterceptionInput \<Rightarrow> bool \<Rightarrow> DecisionInput list \<Rightarrow> PermissionDecisionResult list \<Rightarrow> binding \<Rightarrow> bool" where
  "answered pf i approved records results sb \<longleftrightarrow> (\<exists>r\<in>set records. answers pf i approved results sb r)"

definition gateRun ::
  "Platform \<Rightarrow> InterceptionInput \<Rightarrow> binding list \<Rightarrow> Store \<Rightarrow> Prepared \<Rightarrow> Store \<Rightarrow> Prepared \<Rightarrow> DecisionInput list \<Rightarrow> bool" where
  "gateRun pf i gates store p store' p' records \<longleftrightarrow>
    decisions.published records store store'
    \<and> (\<forall>r\<in>set records. ownedBy i (pr_policyRevision p) r \<and> (\<exists>sb\<in>set gates. gateEvidence pf i (fst sb) (di_mediation r)))
    \<and> pr_invocations p' = pr_invocations p @ map (\<lambda>r. DecisionReference (di_decisionId r)) records
    \<and> (\<forall>sb\<in>set gates. spent pf i store' (fst sb) \<or> answered pf i (pr_humanApproved p) records (pr_results p') sb)
    \<and> set (pr_results p) \<subseteq> set (pr_results p')
    \<and> pr_policyRevision p' = pr_policyRevision p \<and> pr_proposalDigest p' = pr_proposalDigest p
    \<and> pr_humanApproved p' = pr_humanApproved p \<and> set (pr_used p) \<subseteq> set (pr_used p')
    \<and> (\<forall>sb\<in>set gates. st_state (fst sb) \<noteq> ShadowState \<longrightarrow> spent pf i store' (fst sb) \<or> sb \<in> set (pr_used p'))"

lemma spent_kept: "decisions.published rs s t \<Longrightarrow> spent pf i s x \<Longrightarrow> spent pf i t x"
  unfolding spent_def using published_count by (meson order_trans)

lemma answers_mono:
  "answers pf i approved results sb r \<Longrightarrow> set results \<subseteq> set results' \<Longrightarrow> answers pf i approved results' sb r"
  unfolding answers_def by auto

lemma gateRun_skip:
  assumes "gateRun pf i gates store p store' p' records" "spent pf i store (fst sb)"
  shows "gateRun pf i (sb # gates) store p store' p' records"
  using assms spent_kept [of records store store' pf i "fst sb"] unfolding gateRun_def by auto

lemma gateRun_step:
  assumes run: "gateRun pf i gates mid q store' p' records"
    and r: "ownedBy i (pr_policyRevision p) r" "gateEvidence pf i s (di_mediation r)" "publishes r store mid"
      "di_result r = NotApplicableResult \<longrightarrow> bd_failure b = ContinueOnFailure"
    and q: "pr_invocations q = pr_invocations p @ [DecisionReference (di_decisionId r)]"
      "pr_policyRevision q = pr_policyRevision p" "pr_proposalDigest q = pr_proposalDigest p"
      "pr_humanApproved q = pr_humanApproved p" "set (pr_used p) \<subseteq> set (pr_used q)"
      "set (pr_results p) \<subseteq> set (pr_results q)"
      "st_state s \<noteq> ShadowState \<longrightarrow>
        (if di_result r = RequireEscalationResult \<and> pr_humanApproved p then AllowResult else di_result r) \<in> set (pr_results q) \<and> (s, b) \<in> set (pr_used q)"
  shows "gateRun pf i ((s, b) # gates) store p store' p' (r # records)"
proof -
  have "answers pf i (pr_humanApproved p) (pr_results q) (s, b) r" using r(2,4) q(7) by (simp add: answers_def)
  moreover have "set (pr_results q) \<subseteq> set (pr_results p')" using run by (simp add: gateRun_def)
  ultimately have "answered pf i (pr_humanApproved p) (r # records) (pr_results p') (s, b)"
    using answers_mono by (auto simp: answered_def)
  moreover have "answered pf i (pr_humanApproved p) records (pr_results p') sb \<Longrightarrow>
      answered pf i (pr_humanApproved p) (r # records) (pr_results p') sb" for sb
    by (auto simp: answered_def)
  ultimately show ?thesis using run r(1-3) q unfolding gateRun_def by auto
qed


lemma noteGate_fixed [simp]:
  "pr_policyRevision (noteGate p sb reference res) = pr_policyRevision p"
  "pr_proposalDigest (noteGate p sb reference res) = pr_proposalDigest p"
  "pr_humanApproved (noteGate p sb reference res) = pr_humanApproved p"
  by (simp_all add: noteGate_def Let_def)

lemma runGates_run:
  assumes "runGates pf ps w i gates st p = Inr (st', p')" "\<forall>sb\<in>set gates. bd_mode (snd sb) = GateMode"
    "pr_proposalDigest p = policyProposalDigest pf (ii_proposal i)"
  shows "\<exists>records. gateRun pf i gates (pn_store st) p (pn_store st') p' records"
  using assms
proof (induction gates arbitrary: st p)
  case Nil
  then show ?case by (intro exI [of _ "[]"]) (simp add: gateRun_def)
next
  case (Cons sb gates)
  obtain s b where sb: "sb = (s, b)" by (cases sb)
  let ?count = "readPolicyStatementUseCount (pn_store st) (ownerHandle i) (bindingReference pf s)"
  consider (spent) limit n where "lt_uses (st_lifetime s) = Some limit" "?count = Inr n" "n \<ge> limit"
      "runGates pf ps w i gates st p = Inr (st', p')"
    | (invoked) mid reference res where
      "invoke pf ps w st i (s, b) (pr_policyRevision p) (pr_proposalDigest p) = Inr (mid, reference, res)"
      "runGates pf ps w i gates mid (noteGate p (s, b) reference res) = Inr (st', p')"
    using Cons.prems(1) by (auto simp: sb bindE_Inr_iff Let_def split: option.splits if_splits)
  then show ?case
  proof cases
    case spent
    then have "spent pf i (pn_store st) (fst sb)" by (simp add: spent_def sb)
    then show ?thesis using Cons.IH [OF spent(4)] Cons.prems(2,3) gateRun_skip by fastforce
  next
    case invoked
    let ?q = "noteGate p (s, b) reference res"
    from invoked(1) have inv: "invoke pf ps w st i (s, b) (pr_policyRevision p) (policyProposalDigest pf (ii_proposal i)) = Inr (mid, reference, res)"
      using Cons.prems(3) by simp
    have mode: "bd_mode b = GateMode" using Cons.prems(2) by (simp add: sb)
    obtain records where run: "gateRun pf i gates (pn_store mid) ?q (pn_store st') p' records"
      using Cons.IH [OF invoked(2)] Cons.prems(2,3) by auto
    from inv mode show ?thesis
    proof (rule invoke_gate)
      fix r assume r: "ownedBy i (pr_policyRevision p) r" "gateEvidence pf i s (di_mediation r)" "di_result r = res"
        "reference = DecisionReference (di_decisionId r)" "publishes r (pn_store st) (pn_store mid)"
        "res = NotApplicableResult \<longrightarrow> bd_failure b = ContinueOnFailure"
      have "gateRun pf i ((s, b) # gates) (pn_store st) p (pn_store st') p' (r # records)"
        by (rule gateRun_step [OF run]) (use r in \<open>auto simp: noteGate_def Let_def\<close>)
      then show ?thesis by (auto simp: sb)
    qed
  qed
qed


subsection \<open>Which gates are asked\<close>

text \<open>A run of the gates appends one row per gate whose uses are not spent when it starts, in their order.\<close>

definition askedGates :: "Platform \<Rightarrow> InterceptionInput \<Rightarrow> binding list \<Rightarrow> Store \<Rightarrow> Store \<Rightarrow> bool" where
  "askedGates pf i gates store store' \<longleftrightarrow> (\<exists>new. tb_decisions (store' (ownerHandle i)) = tb_decisions (store (ownerHandle i)) @ new
    \<and> list_all2 (\<lambda>sb g. gateEvidence pf i (fst sb) (dr_mediation g)) (filter (\<lambda>sb. \<not> spent pf i store (fst sb)) gates) new)"

lemma unconsumed_spent:
  assumes "publishes r store store'" "gateEvidence pf i s (di_mediation r)"
  shows "spent pf i store' x = spent pf i store x"
proof -
  obtain m where "di_mediation r = Some m" "pd_consumedStatements m = []" using assms(2) by (auto simp: gateEvidence_def)
  from publishes_unconsumed [OF assms(1) this] show ?thesis by (simp add: spent_def)
qed

lemma runGates_asked:
  assumes "runGates pf ps w i gates st p = Inr (st', p')" "\<forall>sb\<in>set gates. bd_mode (snd sb) = GateMode"
    "pr_proposalDigest p = policyProposalDigest pf (ii_proposal i)"
  shows "askedGates pf i gates (pn_store st) (pn_store st')"
  using assms
proof (induction gates arbitrary: st p)
  case Nil
  then show ?case by (simp add: askedGates_def)
next
  case (Cons sb gates)
  obtain s b where sb: "sb = (s, b)" by (cases sb)
  let ?count = "readPolicyStatementUseCount (pn_store st) (ownerHandle i) (bindingReference pf s)"
  consider (spent) limit n where "lt_uses (st_lifetime s) = Some limit" "?count = Inr n" "n \<ge> limit"
      "runGates pf ps w i gates st p = Inr (st', p')"
    | (invoked) mid reference res where "\<not> spent pf i (pn_store st) s"
      "invoke pf ps w st i (s, b) (pr_policyRevision p) (pr_proposalDigest p) = Inr (mid, reference, res)"
      "runGates pf ps w i gates mid (noteGate p (s, b) reference res) = Inr (st', p')"
    using Cons.prems(1) by (auto simp: sb spent_def bindE_Inr_iff Let_def split: option.splits if_splits)
  then show ?case
  proof cases
    case spent
    then have "spent pf i (pn_store st) s" by (simp add: spent_def)
    then show ?thesis using Cons.IH [OF spent(4)] Cons.prems(2,3) by (simp add: askedGates_def sb)
  next
    case invoked
    have mode: "bd_mode b = GateMode" using Cons.prems(2) by (simp add: sb)
    from invoked(2) [unfolded Cons.prems(3)] mode show ?thesis
    proof (rule invoke_gate)
      fix r assume r: "ownedBy i (pr_policyRevision p) r" "gateEvidence pf i s (di_mediation r)" "publishes r (pn_store st) (pn_store mid)"
      obtain row where row: "evidences r row" "tb_decisions (pn_store mid (ownerHandle i)) = tb_decisions (pn_store st (ownerHandle i)) @ [row]"
        using decisions.publish_appends [OF r(3) ownedBy_home [OF r(1,3)]] by blast
      have "askedGates pf i gates (pn_store mid) (pn_store st')" using Cons.IH [OF invoked(3)] Cons.prems(2,3) by simp
      then obtain new where "tb_decisions (pn_store st' (ownerHandle i)) = tb_decisions (pn_store st (ownerHandle i)) @ row # new"
          "list_all2 (\<lambda>sb g. gateEvidence pf i (fst sb) (dr_mediation g)) (filter (\<lambda>sb. \<not> spent pf i (pn_store st) (fst sb)) gates) new"
        using row(2) by (auto simp: askedGates_def unconsumed_spent [OF r(3,2)])
      moreover have "gateEvidence pf i s (dr_mediation row)" using row(1) r(2) by (simp add: evidences_def)
      ultimately show ?thesis unfolding askedGates_def using invoked(1) by (intro exI [of _ "row # new"]) (simp add: sb)
    qed
  qed
qed

subsection \<open>The final judgement\<close>

definition invalidKernel :: "PolicyDecision \<Rightarrow> bool" where
  "invalidKernel d = hasReason [''invalid-policy'', ''invalid-request'', ''missing-operation''] d"

definition approvedExactly :: "Platform \<Rightarrow> InterceptionInput \<Rightarrow> bool" where
  "approvedExactly pf i \<longleftrightarrow> (\<exists>a. ii_humanApproval i = Some a
    \<and> ab_proposalDigest (ha_binding a) = policyProposalDigest pf (ii_proposal i)
    \<and> ab_policyRevision (ha_binding a) = policyDigest pf (documentJson (ii_document i))
    \<and> ab_authorizationRevision (ha_binding a) = ii_authorizationRevision i)"

lemma prepareDecision_facts:
  assumes "prepareDecision pf w k i = Inr p"
  shows "pr_policyRevision p = policyDigest pf (documentJson (ii_document i))"
    "pr_proposalDigest p = policyProposalDigest pf (ii_proposal i)" "pr_humanApproved p = approvedExactly pf i"
    "pr_invocations p = []" "pr_used p = []"
    "pr_results p = (if (\<exists>c\<in>set (listOr (ii_permissions i)). pm_effect c = RequireApprovalEffect) \<and> \<not> approvedExactly pf i
      then [RequireApprovalResult] else [])"
    "selectPolicyBindings pf (ii_document i) (ii_proposal i) (Some DecideStage) (wd_now w k) (wd_authorCurrent w k)
      (wd_anchorCurrent w k) = Inr (pr_bindings p)"
  using assms
  by (auto simp: prepareDecision_def Let_def bindE_Inr_iff approvedExactly_def list_ex_iff split: option.splits if_splits)


lemma judgeKernel_escalates:
  assumes "judgeKernel i results answer = (results', evaluated, Some e)"
  obtains d where "answer = Inr (GoalKernel d (Some e) True)" "effect d = Deny" "reasons d \<noteq> []"
    "\<forall>r\<in>set (reasons d). reasonCode r = ''missing-privilege''" "set results \<subseteq> {AllowResult, NotApplicableResult}"
    "pq_workspaceId (ii_proposal i) = Some (ge_workspaceId e)"
  using assms
  by (auto simp: judgeKernel_def Let_def list_ex_iff subset_iff kernelOf_def split: if_splits option.splits KernelAnswer.splits sum.splits)

lemma judgeKernel_keeps: "set results \<subseteq> set (fst (judgeKernel i results answer))"
  by (auto simp: judgeKernel_def Let_def split: option.splits KernelAnswer.splits sum.splits)


definition finalEvidence :: "Platform \<Rightarrow> InterceptionInput \<Rightarrow> InterceptionDecision \<Rightarrow> PolicyInvocationReferenceV1 list \<Rightarrow> PolicyDecisionV1 option \<Rightarrow> bool" where
  "finalEvidence pf i d invocations mediation \<longleftrightarrow> (\<exists>m. mediation = Some m \<and> pd_role m = FinalRole
    \<and> pd_operation m = pq_operation (ii_proposal i) \<and> pd_stage m = DecideStage
    \<and> pd_proposalDigest m = id_proposalDigest d \<and> pd_authorizationRevision m = id_authorizationRevision d
    \<and> pd_subject m = pq_subject (ii_proposal i) \<and> pd_invocations m = invocations
    \<and> (pd_consumedStatements m \<noteq> [] \<longrightarrow> id_result d = AllowResult))"

definition recheckedResults :: "Platform \<Rightarrow> World \<Rightarrow> nat \<Rightarrow> InterceptionInput \<Rightarrow> Prepared \<Rightarrow> PermissionDecisionResult list" where
  "recheckedResults pf w k i p =
    pr_results p @ (if wd_stillCurrent w k = Inr True then [] else [ErrorResult]) @ recheckAgents pf w (k + 1) i (pr_used p)"

lemma currentAnswer: "(case c of Inr b \<Rightarrow> b | Inl _ \<Rightarrow> False) \<longleftrightarrow> c = Inr True"
  by (cases c) auto

lemma prepareFinalDecision_facts:
  assumes "prepareFinalDecision pf w k i p = Inr (r, d)"
  obtains results evaluated escalation where
    "judgeKernel i (recheckedResults pf w k i p) (wd_finalKernel w (k + 1 + 2 * length (pr_used p))) = (results, evaluated, escalation)"
    "id_result d = combineResults results" "di_result r = id_result d" "di_decisionId r = id_decisionId d"
    "ownedBy i (pr_policyRevision p) r" "finalEvidence pf i d (pr_invocations p) (di_mediation r)"
    "di_reasonCode r = finalReason (id_result d) evaluated"
    "id_escalation d = (if id_result d = RequireEscalationResult then escalation else None)"
    "id_proposalDigest d = pr_proposalDigest p" "id_policyRevision d = pr_policyRevision p"
    "id_authorizationRevision d = ii_authorizationRevision i"
proof -
  obtain results evaluated escalation where judged:
      "judgeKernel i (recheckedResults pf w k i p) (wd_finalKernel w (k + 1 + 2 * length (pr_used p))) = (results, evaluated, escalation)"
    by (metis prod_cases3)
  let ?consumed = "if combineResults results = AllowResult then consumedUses pf i (pr_used p) else []"
  have final: "finalRecord pf i p (id_decisionId d) (combineResults results) evaluated ?consumed = Inr r"
    and d: "id_result d = combineResults results"
      "id_escalation d = (if id_result d = RequireEscalationResult then escalation else None)"
      "id_proposalDigest d = pr_proposalDigest p" "id_policyRevision d = pr_policyRevision p"
      "id_authorizationRevision d = ii_authorizationRevision i"
    using assms judged
    by (auto simp: prepareFinalDecision_def Let_def bindE_Inr_iff recheckedResults_def currentAnswer simp del: append_assoc)
  have "ownedBy i (pr_policyRevision p) r" "di_result r = id_result d" "di_decisionId r = id_decisionId d"
      "finalEvidence pf i d (pr_invocations p) (di_mediation r)" "di_reasonCode r = finalReason (id_result d) evaluated"
    using final decisionInput_owned [of pf i "pr_policyRevision p"]
    by (auto simp: finalRecord_def bindE_Inr_iff ownedBy_def finalEvidence_def d)
  then show ?thesis using that judged d by simp
qed

text \<open>The parts of one awaited decision.\<close>

lemma decide_parts:
  assumes "decide pf ps w st i = Inr (st', d)"
  obtains p after mid r where "prepareDecision pf w (pn_tick st) i = Inr p"
    "runGates pf ps w i (gatesOf (pr_bindings p)) (st\<lparr>pn_tick := pn_tick st + 1\<rparr>) p = Inr (mid, after)"
    "prepareFinalDecision pf w (pn_tick mid) i after = Inr (r, d)" "publishes r (pn_store mid) (pn_store st')"
    "pn_circuits st' = pn_circuits mid"
  using assms by (auto simp: decide_def Let_def bindE_Inr_iff dest!: publishesI)

lemma gatesOf_mode: "\<forall>sb\<in>set (gatesOf bindings). bd_mode (snd sb) = GateMode"
  by (auto simp: gatesOf_def)

lemma decide_run:
  assumes "decide pf ps w st i = Inr (st', d)"
  obtains p after k r mid records where "prepareDecision pf w (pn_tick st) i = Inr p"
    "gateRun pf i (gatesOf (pr_bindings p)) (pn_store st) p mid after records"
    "prepareFinalDecision pf w k i after = Inr (r, d)" "publishes r mid (pn_store st')"
    "askedGates pf i (gatesOf (pr_bindings p)) (pn_store st) mid"
  using assms
proof (rule decide_parts)
  fix p after mid r
  assume *: "prepareDecision pf w (pn_tick st) i = Inr p"
    "runGates pf ps w i (gatesOf (pr_bindings p)) (st\<lparr>pn_tick := pn_tick st + 1\<rparr>) p = Inr (mid, after)"
    "prepareFinalDecision pf w (pn_tick mid) i after = Inr (r, d)" "publishes r (pn_store mid) (pn_store st')"
  from runGates_run [OF *(2) gatesOf_mode prepareDecision_facts(2) [OF *(1)]]
    runGates_asked [OF *(2) gatesOf_mode prepareDecision_facts(2) [OF *(1)]]
  show ?thesis using that [OF *(1) _ *(3,4)] by auto
qed


subsection \<open>What passes the gates\<close>

text \<open>An active gate has passed when its uses are spent, or when this decision retained a record of it
  that allows, or continues by configuration, or escalates to the human who approved exactly this
  proposal; an agent participant was still accountable and authorized afterwards.\<close>

definition gatePassed :: "Platform \<Rightarrow> World \<Rightarrow> InterceptionInput \<Rightarrow> Store \<Rightarrow> Store \<Rightarrow> binding \<Rightarrow> bool" where
  "gatePassed pf w i store store' sb \<longleftrightarrow> spent pf i store' (fst sb)
    \<or> (\<exists>row\<in>set (drop (length (tb_decisions (store (ownerHandle i)))) (tb_decisions (store' (ownerHandle i)))).
        gateEvidence pf i (fst sb) (dr_mediation row)
        \<and> (dr_result row = AllowResult \<or> dr_result row = NotApplicableResult \<and> bd_failure (snd sb) = ContinueOnFailure
           \<or> dr_result row = RequireEscalationResult \<and> approvedExactly pf i))
      \<and> (isAgentBinding (snd sb) \<longrightarrow>
          (\<exists>k. succeeds (readAgent pf w k i (snd sb)) \<and> wd_participantAuthorized w (k + 1) (fst sb) = Inr True))"

lemma recheckAgents_authorized:
  "ErrorResult \<notin> set (recheckAgents pf w k i used) \<Longrightarrow> (s, b) \<in> set used \<Longrightarrow> isAgentBinding b
    \<Longrightarrow> \<exists>k. succeeds (readAgent pf w k i b) \<and> wd_participantAuthorized w (k + 1) s = Inr True"
proof (induction used arbitrary: k)
  case (Cons sb used)
  obtain s' b' where sb: "sb = (s', b')" by (cases sb)
  show ?case
  proof (cases "isAgentBinding b'")
    case True
    then have "bindE (readAgent pf w k i b') (\<lambda>_. wd_participantAuthorized w (k + 1) s') = Inr True"
      using Cons.prems(1) by (auto simp: sb split: sum.splits if_splits)
    then have "succeeds (readAgent pf w k i b') \<and> wd_participantAuthorized w (k + 1) s' = Inr True"
      by (auto simp: bindE_Inr_iff)
    then show ?thesis using Cons True by (auto simp: sb)
  next
    case False
    then show ?thesis using Cons by (auto simp: sb)
  qed
qed simp

lemma list_all2_member: "list_all2 P xs ys \<Longrightarrow> x \<in> set xs \<Longrightarrow> \<exists>y\<in>set ys. P x y"
  by (induction rule: list_all2_induct) auto

lemma evidence_ids:
  "list_all2 evidences records rows \<Longrightarrow>
    map (\<lambda>r. DecisionReference (di_decisionId r)) records = map (\<lambda>g. DecisionReference (dr_decisionId g)) rows"
  by (induction rule: list_all2_induct) (auto simp: evidences_def)

lemma gateRun_homes:
  assumes "gateRun pf i gates store p store' after records" "r \<in> set records"
  shows "permissionDecisionDb r = Inr (ownerHandle i)"
proof -
  have "decisions.published records store store'" using assms(1) by (simp add: gateRun_def)
  then have "\<exists>s t. publishes r s t" using assms(2) by (induction records arbitrary: store) auto
  then show ?thesis using ownedBy_home [of i "pr_policyRevision p" r] assms by (auto simp: gateRun_def)
qed

lemma gateRun_rows:
  assumes "gateRun pf i gates store p store' after records"
  obtains new where "tb_decisions (store' (ownerHandle i)) = tb_decisions (store (ownerHandle i)) @ new" "list_all2 evidences records new"
proof -
  have "decisions.published records store store'" using assms by (simp add: gateRun_def)
  from decisions.published_home [OF this, of "ownerHandle i"] gateRun_homes [OF assms] that show ?thesis by blast
qed

lemma gateRun_elsewhere:
  assumes "gateRun pf i gates store p store' after records" "h \<noteq> ownerHandle i"
  shows "tb_decisions (store' h) = tb_decisions (store h)"
proof -
  have "decisions.published records store store'" using assms by (simp add: gateRun_def)
  from decisions.published_elsewhere [OF this, of h] gateRun_homes [OF assms(1)] assms(2) show ?thesis by auto
qed

lemma judged_error:
  assumes "judgeKernel i (recheckedResults pf w k i p) (wd_finalKernel w t) = (results, evaluated, escalation)"
    "wd_stillCurrent w k \<noteq> Inr True \<or> (\<forall>a. wd_finalKernel w t = Inr a \<longrightarrow> invalidKernel (kernelOf a))"
  shows "ErrorResult \<in> set results"
  using assms(2)
proof
  assume "wd_stillCurrent w k \<noteq> Inr True"
  then have "ErrorResult \<in> set (recheckedResults pf w k i p)" by (simp add: recheckedResults_def)
  then show ?thesis using judgeKernel_keeps [of "recheckedResults pf w k i p" i "wd_finalKernel w t"] assms(1) by auto
next
  assume "\<forall>a. wd_finalKernel w t = Inr a \<longrightarrow> invalidKernel (kernelOf a)"
  then show ?thesis using assms(1)
    by (cases "wd_finalKernel w t") (auto simp: judgeKernel_def Let_def invalidKernel_def)
qed

lemma gates_passed:
  assumes run: "gateRun pf i gates store p mid after records" and approved: "pr_humanApproved p = approvedExactly pf i"
    and final: "publishes r mid store'" "ownedBy i revision r"
    and ok: "set (pr_results after) \<subseteq> {AllowResult, NotApplicableResult}" "ErrorResult \<notin> set (recheckAgents pf w k i (pr_used after))"
    and sb: "sb \<in> set gates" "st_state (fst sb) \<noteq> ShadowState"
  shows "gatePassed pf w i store store' sb"
proof (cases "spent pf i store' (fst sb)")
  case False
  then have "\<not> spent pf i mid (fst sb)" using spent_kept [of "[r]" mid store'] final(1) by auto
  then have "answered pf i (pr_humanApproved p) records (pr_results after) sb" "sb \<in> set (pr_used after)"
    using run sb unfolding gateRun_def by blast+
  then obtain q where q: "q \<in> set records" "answers pf i (pr_humanApproved p) (pr_results after) sb q" by (auto simp: answered_def)
  obtain new where new: "tb_decisions (mid (ownerHandle i)) = tb_decisions (store (ownerHandle i)) @ new" "list_all2 evidences records new"
    using run by (rule gateRun_rows)
  obtain row where row: "row \<in> set new" "evidences q row"
    using list_all2_member [OF new(2) q(1)] by blast
  obtain last where "tb_decisions (store' (ownerHandle i)) = tb_decisions (mid (ownerHandle i)) @ [last]"
    using decisions.publish_appends [OF final(1) ownedBy_home [OF final(2,1)]] by blast
  then have "row \<in> set (drop (length (tb_decisions (store (ownerHandle i)))) (tb_decisions (store' (ownerHandle i))))"
    using new row by simp
  moreover have "gateEvidence pf i (fst sb) (dr_mediation row)"
      "dr_result row = AllowResult \<or> dr_result row = NotApplicableResult \<and> bd_failure (snd sb) = ContinueOnFailure
        \<or> dr_result row = RequireEscalationResult \<and> approvedExactly pf i"
    using q(2) row(2) ok(1) sb(2) approved by (auto simp: answers_def evidences_def split: if_splits)
  moreover have "isAgentBinding (snd sb) \<Longrightarrow>
      \<exists>k. succeeds (readAgent pf w k i (snd sb)) \<and> wd_participantAuthorized w (k + 1) (fst sb) = Inr True"
    using recheckAgents_authorized [OF ok(2)] \<open>sb \<in> set (pr_used after)\<close> by (cases sb) auto
  ultimately show ?thesis unfolding gatePassed_def by blast
qed (simp add: gatePassed_def)


text \<open>The results before the Kernel are those of the conditions, of the currency check and of the gates.\<close>

lemma rechecked_neutral:
  assumes "set (recheckedResults pf w k i p) \<subseteq> {AllowResult, NotApplicableResult}"
  shows "set (pr_results p) \<subseteq> {AllowResult, NotApplicableResult}" "wd_stillCurrent w k = Inr True"
    "ErrorResult \<notin> set (recheckAgents pf w (k + 1) i (pr_used p))"
  using assms by (auto simp: recheckedResults_def split: if_splits)

definition conditionsMet :: "Platform \<Rightarrow> World \<Rightarrow> nat \<Rightarrow> InterceptionInput \<Rightarrow> Store \<Rightarrow> Store \<Rightarrow> bool" where
  "conditionsMet pf w k i store store' \<longleftrightarrow>
    (\<exists>t. wd_stillCurrent w t = Inr True)
    \<and> ((\<exists>c\<in>set (listOr (ii_permissions i)). pm_effect c = RequireApprovalEffect) \<longrightarrow> approvedExactly pf i)
    \<and> (\<exists>bindings. selectPolicyBindings pf (ii_document i) (ii_proposal i) (Some DecideStage) (wd_now w k)
          (wd_authorCurrent w k) (wd_anchorCurrent w k) = Inr bindings
        \<and> (\<forall>sb\<in>set (gatesOf bindings). st_state (fst sb) \<noteq> ShadowState \<longrightarrow> gatePassed pf w i store store' sb))"

lemma conditions_met:
  assumes p: "prepareDecision pf w k i = Inr p" and run: "gateRun pf i (gatesOf (pr_bindings p)) store p mid after records"
    and final: "publishes r mid store'" "ownedBy i revision r"
    and ok: "set (recheckedResults pf w t i after) \<subseteq> {AllowResult, NotApplicableResult}"
  shows "conditionsMet pf w k i store store'"
proof -
  note facts = prepareDecision_facts [OF p] and neutral = rechecked_neutral [OF ok]
  have "set (pr_results p) \<subseteq> set (pr_results after)" using run by (simp add: gateRun_def)
  then have "(\<exists>c\<in>set (listOr (ii_permissions i)). pm_effect c = RequireApprovalEffect) \<longrightarrow> approvedExactly pf i"
    using facts(6) neutral(1) by (auto split: if_splits)
  moreover have "\<forall>sb\<in>set (gatesOf (pr_bindings p)). st_state (fst sb) \<noteq> ShadowState \<longrightarrow> gatePassed pf w i store store' sb"
    using gates_passed [OF run facts(3) final neutral(1,3)] by blast
  ultimately show ?thesis unfolding conditionsMet_def using neutral(2) facts(7) by blast
qed

subsection \<open>Properties of the deciding point\<close>


text \<open>An escalation is only a missing Goal Task privilege. When \<open>decide\<close> names an escalation, its result is
  require-escalation, the Kernel denied inside the Goal envelope for missing privileges alone, the
  escalation is of the Workspace of the proposal, and everything else that an allow needs held: no
  human condition and no participant refusal is redirected.\<close>

theorem interception_escalation_gap:
  assumes "decide pf ps w st i = Inr (st', d)" "id_escalation d = Some e"
  shows "id_result d = RequireEscalationResult \<and> conditionsMet pf w (pn_tick st) i (pn_store st) (pn_store st')
    \<and> pq_workspaceId (ii_proposal i) = Some (ge_workspaceId e)
    \<and> (\<exists>t denied. wd_finalKernel w t = Inr (GoalKernel denied (Some e) True) \<and> effect denied = Deny \<and> reasons denied \<noteq> []
        \<and> (\<forall>r\<in>set (reasons denied). reasonCode r = ''missing-privilege''))"
  using assms(1)
proof (rule decide_run)
  fix p after k r mid records
  assume p: "prepareDecision pf w (pn_tick st) i = Inr p" and run: "gateRun pf i (gatesOf (pr_bindings p)) (pn_store st) p mid after records"
    and final: "prepareFinalDecision pf w k i after = Inr (r, d)" and pub: "publishes r mid (pn_store st')"
  from final show ?thesis
  proof (rule prepareFinalDecision_facts)
    fix results evaluated escalation
    assume judged: "judgeKernel i (recheckedResults pf w k i after) (wd_finalKernel w (k + 1 + 2 * length (pr_used after)))
        = (results, evaluated, escalation)"
      and d: "id_escalation d = (if id_result d = RequireEscalationResult then escalation else None)"
      and owned: "ownedBy i (pr_policyRevision after) r"
    from d assms(2) have e: "id_result d = RequireEscalationResult" "escalation = Some e" by (auto split: if_splits)
    from judged [unfolded e] show ?thesis
      by (rule judgeKernel_escalates) (use e conditions_met [OF p run pub owned] in auto)
  qed
qed

text \<open>C5: The deciding point fails closed. When the facts are not current at the check made after the last gate,
  whatever that check would have answered before or while the gates ran, or when the Kernel evaluation that
  follows throws or reports an invalid policy, request or operation, \<open>decide\<close> returns an error, whatever the
  participants answered, and that error is the decision it retains.\<close>

theorem interception_fail_closed:
  assumes "decide pf ps w st i = Inr (st', d)" "prepareDecision pf w (pn_tick st) i = Inr p"
    and "runGates pf ps w i (gatesOf (pr_bindings p)) (st\<lparr>pn_tick := pn_tick st + 1\<rparr>) p = Inr (mid, after)"
    and "wd_stillCurrent w (pn_tick mid) \<noteq> Inr True
      \<or> (\<forall>a. wd_finalKernel w (pn_tick mid + 1 + 2 * length (pr_used after)) = Inr a \<longrightarrow> invalidKernel (kernelOf a))"
  shows "id_result d = ErrorResult \<and> (\<exists>row\<in>set (tb_decisions (pn_store st' (ownerHandle i))).
    dr_decisionId row = id_decisionId d \<and> dr_result row = ErrorResult \<and> dr_reasonCode row = ''evaluation_error'')"
proof -
  obtain r where final: "prepareFinalDecision pf w (pn_tick mid) i after = Inr (r, d)" and pub: "publishes r (pn_store mid) (pn_store st')"
    using assms(1) by (rule decide_parts) (use assms(2,3) in auto)
  from final show ?thesis
  proof (rule prepareFinalDecision_facts)
    fix results evaluated escalation
    assume judged: "judgeKernel i (recheckedResults pf w (pn_tick mid) i after) (wd_finalKernel w (pn_tick mid + 1 + 2 * length (pr_used after)))
        = (results, evaluated, escalation)"
      and d: "id_result d = combineResults results" "di_result r = id_result d" "di_decisionId r = id_decisionId d"
        "di_reasonCode r = finalReason (id_result d) evaluated" and owned: "ownedBy i (pr_policyRevision after) r"
    have "ErrorResult \<in> set results" by (rule judged_error [OF judged assms(4)])
    then have error: "id_result d = ErrorResult" by (simp add: d(1) combine_error_iff)
    obtain row where "evidences r row" "row \<in> set (tb_decisions (pn_store st' (ownerHandle i)))"
      using decisions.publish_appends [OF pub ownedBy_home [OF owned pub]] by auto
    then show ?thesis using error d(2-4) by (intro conjI bexI [of _ row]) (simp_all add: evidences_def finalReason_def)
  qed
qed

text \<open>C24: Every decision retains its evidence. A completed \<open>decide\<close> appends, to the database of its owner and to
  no other, one gate record for each gate selected for this proposal whose uses were not spent, in the order of selection, bound to
  that gate and to the digest of the proposal, and then the final record with the returned identifier and result, whose
  mediation lists exactly those gate records in order.\<close>

theorem interception_evidence:
  assumes "decide pf ps w st i = Inr (st', d)"
  shows "\<exists>gates final bindings. tb_decisions (pn_store st' (ownerHandle i)) = tb_decisions (pn_store st (ownerHandle i)) @ gates @ [final]
    \<and> (\<forall>h. h \<noteq> ownerHandle i \<longrightarrow> tb_decisions (pn_store st' h) = tb_decisions (pn_store st h))
    \<and> dr_decisionId final = id_decisionId d \<and> dr_result final = id_result d
    \<and> id_proposalDigest d = policyProposalDigest pf (ii_proposal i) \<and> id_policyRevision d = policyDigest pf (documentJson (ii_document i))
    \<and> finalEvidence pf i d (map (\<lambda>g. DecisionReference (dr_decisionId g)) gates) (dr_mediation final)
    \<and> selectPolicyBindings pf (ii_document i) (ii_proposal i) (Some DecideStage) (wd_now w (pn_tick st))
        (wd_authorCurrent w (pn_tick st)) (wd_anchorCurrent w (pn_tick st)) = Inr bindings
    \<and> list_all2 (\<lambda>sb g. gateEvidence pf i (fst sb) (dr_mediation g))
        (filter (\<lambda>sb. \<not> spent pf i (pn_store st) (fst sb)) (gatesOf bindings)) gates"
  using assms
proof (rule decide_run)
  fix p after k r mid records
  assume p: "prepareDecision pf w (pn_tick st) i = Inr p" and run: "gateRun pf i (gatesOf (pr_bindings p)) (pn_store st) p mid after records"
    and final: "prepareFinalDecision pf w k i after = Inr (r, d)" and pub: "publishes r mid (pn_store st')"
    and asked: "askedGates pf i (gatesOf (pr_bindings p)) (pn_store st) mid"
  note facts = prepareDecision_facts [OF p]
  from final show ?thesis
  proof (rule prepareFinalDecision_facts)
    assume d: "di_result r = id_result d" "di_decisionId r = id_decisionId d" "ownedBy i (pr_policyRevision after) r"
      "finalEvidence pf i d (pr_invocations after) (di_mediation r)" "id_proposalDigest d = pr_proposalDigest after"
      "id_policyRevision d = pr_policyRevision after"
    note home = ownedBy_home [OF d(3) pub]
    obtain last where last: "evidences r last" "tb_decisions (pn_store st' (ownerHandle i)) = tb_decisions (mid (ownerHandle i)) @ [last]"
      using decisions.publish_appends [OF pub home] by blast
    obtain gates where gates: "tb_decisions (mid (ownerHandle i)) = tb_decisions (pn_store st (ownerHandle i)) @ gates"
        "list_all2 evidences records gates" using run by (rule gateRun_rows)
    have "pr_invocations after = map (\<lambda>g. DecisionReference (dr_decisionId g)) gates"
      using run facts(4) evidence_ids [OF gates(2)] by (simp add: gateRun_def)
    moreover have "list_all2 (\<lambda>sb g. gateEvidence pf i (fst sb) (dr_mediation g))
        (filter (\<lambda>sb. \<not> spent pf i (pn_store st) (fst sb)) (gatesOf (pr_bindings p))) gates"
      using asked gates(1) by (simp add: askedGates_def)
    moreover have "\<forall>h. h \<noteq> ownerHandle i \<longrightarrow> tb_decisions (pn_store st' h) = tb_decisions (pn_store st h)"
      using gateRun_elsewhere [OF run] decisions.publish_elsewhere [OF pub] home by simp
    moreover have "pr_proposalDigest after = pr_proposalDigest p" "pr_policyRevision after = pr_policyRevision p"
      using run by (simp_all add: gateRun_def)
    ultimately show ?thesis using d last gates(1) facts(1,2,7)
      by (intro exI [of _ gates] exI [of _ last] exI [of _ "pr_bindings p"]) (simp add: evidences_def)
  qed
qed

text \<open>Results combine by one severity order. Combining gives the most severe result, so it does not depend on the order in
  which participants answered; a neutral result never supplies an allow, and an allow needs one allow and nothing but allows and
  neutral results.\<close>

theorem combine_most_severe:
  "combineResults results = Max (insert NotApplicableResult (set results))
    \<and> (combineResults results = AllowResult \<longleftrightarrow> AllowResult \<in> set results \<and> set results \<subseteq> {AllowResult, NotApplicableResult})"
proof -
  have "combineResults (r # rs) = max r (combineResults rs)" for r rs
    by (cases r) (simp_all add: combine_ladder max_def less_eq_PermissionDecisionResult_def)
  then have "combineResults results = Max (insert NotApplicableResult (set results))"
  proof (induction results)
    case (Cons r rs)
    have "insert NotApplicableResult (set (r # rs)) = insert r (insert NotApplicableResult (set rs))" by auto
    then have "Max (insert NotApplicableResult (set (r # rs))) = max r (Max (insert NotApplicableResult (set rs)))"
      by (metis Max_insert List.finite_set finite_insert insert_not_empty)
    then show ?case using Cons by simp
  qed (simp add: combine_ladder)
  then show ?thesis using combine_allow_iff by blast
qed

text \<open>The synchronous path decides like the awaited one. When only observers are bound and a synchronous
  decision is prepared, \<open>decide\<close> asked at the same moment publishes exactly that record, returns exactly
  that decision and calls no participant.\<close>

theorem synchronous_decision_agrees:
  assumes "prepareSynchronousDecision pf w (pn_tick st) i = Inr (Some (r, d))"
  shows "decide pf ps w st i =
    bindE (recordProductPermissionDecision (wd_iso w (pn_tick st + 4)) (wd_allocate w (pn_tick st + 5) ''aud'') (pn_store st) r)
      (\<lambda>store. Inr (st\<lparr>pn_store := store, pn_tick := pn_tick st + 6\<rparr>, d))"
proof -
  obtain p where p: "prepareDecision pf w (pn_tick st) i = Inr p" "prepareFinalDecision pf w (pn_tick st + 1) i p = Inr (r, d)"
      "\<not> list_ex (\<lambda>(s, b). bd_mode b \<noteq> ObserveMode) (pr_bindings p)"
    using assms by (auto simp: prepareSynchronousDecision_def bindE_Inr_iff split: if_splits)
  have "bd_mode b = ObserveMode" if "(s, b) \<in> set (pr_bindings p)" for s b using p(3) that by (auto simp: list_ex_iff)
  then have "gatesOf (pr_bindings p) = []" by (auto simp: gatesOf_def filter_empty_conv)
  then show ?thesis using p(1,2) prepareDecision_facts(5) [OF p(1)] by (simp add: decide_def Let_def add.commute)
qed

end
