(* ===== verification/Circuit_Breaker.thy ===== *)
theory Circuit_Breaker
  imports Policy_Interception
begin

text \<open>
  The circuit of a participant over any history of invocations: it trips after the configured number
  of consecutive failures, keeps the participant from being called until its recovery time, and never
  stays closed to it afterwards.

  A history lists the attempts in order, each with its tick, its binding, whether the participant was
  called and the outcome. Attempts of different bindings, inputs and participants interleave freely;
  whether the records of an attempt could be published does not matter here.
\<close>

type_synonym attempted = "nat \<times> binding \<times> bool \<times> InvocationOutcome"

definition circuitKey :: "Platform \<Rightarrow> binding \<Rightarrow> string" where
  "circuitKey pf sb = sf_digest (bindingReference pf (fst sb))"

inductive attempts ::
  "Platform \<Rightarrow> Participants \<Rightarrow> World \<Rightarrow> (string \<times> Circuit) list \<Rightarrow> attempted list \<Rightarrow> (string \<times> Circuit) list \<Rightarrow> bool"
  for pf ps w where
  no_attempt: "attempts pf ps w c [] c"
| next_attempt: "attempts pf ps w c history d \<Longrightarrow> attemptParticipant pf ps w k d i sb points = (e, a, called)
    \<Longrightarrow> attempts pf ps w c (history @ [(k, sb, called, at_outcome a)]) e"

inductive_cases attempts_snocE: "attempts pf ps w c (history @ [x]) e"
inductive_cases attempts_nilE: "attempts pf ps w c [] e"

lemma attempts_append:
  "attempts pf ps w c (history @ later) e \<Longrightarrow> \<exists>d. attempts pf ps w c history d \<and> attempts pf ps w d later e"
proof (induction later arbitrary: e rule: rev_induct)
  case (snoc x later)
  then show ?case by (auto simp flip: append_assoc elim!: attempts_snocE intro: attempts.intros) (metis next_attempt)
qed (auto intro: no_attempt)

text \<open>One attempt changes at most the circuit of its binding, and only when the participant was called.\<close>

lemma attempt_cases:
  assumes "attemptParticipant pf ps w k c i sb points = (d, a, called)"
  shows "\<not> called \<and> d = c
    \<or> called \<and> \<not> cc_probing (circuitOf c (circuitKey pf sb)) \<and> cc_retryAt (circuitOf c (circuitKey pf sb)) \<le> wd_now w (k + 4)
      \<and> d = AList.update (circuitKey pf sb)
          (settleCircuit (snd sb) (wd_now w (k + 9)) (at_outcome a) (circuitOf c (circuitKey pf sb))) c"
proof -
  obtain s b where "sb = (s, b)" by (cases sb)
  with assms show ?thesis
    unfolding attemptParticipant_def Let_def circuitKey_def by (simp split: if_splits) auto
qed

lemma circuitOf_update: "circuitOf (AList.update key v c) key' = (if key = key' then v else circuitOf c key')"
  by (simp add: circuitOf_def update_conv orDefault_def)

lemma attempt_circuit:
  assumes "attemptParticipant pf ps w k c i sb points = (d, a, called)"
  shows "circuitOf d key =
      (if called \<and> circuitKey pf sb = key then settleCircuit (snd sb) (wd_now w (k + 9)) (at_outcome a) (circuitOf c key) else circuitOf c key)"
    "called \<Longrightarrow> \<not> cc_probing (circuitOf c (circuitKey pf sb)) \<and> cc_retryAt (circuitOf c (circuitKey pf sb)) \<le> wd_now w (k + 4)"
  using attempt_cases [OF assms] by (auto simp: circuitOf_update)


definition isCall :: "Platform \<Rightarrow> string \<Rightarrow> attempted \<Rightarrow> bool" where
  "isCall pf key x = (case x of (k, sb, called, outcome) \<Rightarrow> called \<and> circuitKey pf sb = key)"

lemma isCall_iff [simp]: "isCall pf key (k, sb, called, outcome) \<longleftrightarrow> called \<and> circuitKey pf sb = key"
  by (simp add: isCall_def)

lemma open_holds:
  assumes "attempts pf ps w c history d" "\<forall>x\<in>set history. wd_now w (fst x + 4) < cc_retryAt (circuitOf c key)"
  shows "circuitOf d key = circuitOf c key \<and> (\<forall>x\<in>set history. \<not> isCall pf key x)"
  using assms
proof induction
  case (next_attempt c history d k i sb points e a called)
  then have d: "circuitOf d key = circuitOf c key" "wd_now w (k + 4) < cc_retryAt (circuitOf c key)" by auto
  then have "\<not> (called \<and> circuitKey pf sb = key)" using attempt_circuit(2) [OF next_attempt.hyps(2)] by auto
  then show ?case using next_attempt d attempt_circuit(1) [OF next_attempt.hyps(2), of key] by auto
qed simp

lemma failing_counts:
  assumes "attempts pf ps w c history d"
    "\<forall>(k, sb, called, outcome)\<in>set history. isCall pf key (k, sb, called, outcome) \<longrightarrow> outcome \<noteq> CompletedOutcome"
  shows "cc_failures (circuitOf d key) = cc_failures (circuitOf c key) + int (length (filter (isCall pf key) history))"
  using assms
proof induction
  case (next_attempt c history d k i sb points e a called)
  then have "cc_failures (circuitOf d key) = cc_failures (circuitOf c key) + int (length (filter (isCall pf key) history))" by auto
  moreover have "isCall pf key (k, sb, called, at_outcome a) \<Longrightarrow> at_outcome a \<noteq> CompletedOutcome" using next_attempt.prems by auto
  ultimately show ?case using attempt_circuit(1) [OF next_attempt.hyps(2), of key]
    by (auto simp: settleCircuit_def Let_def)
qed simp

text \<open>A circuit is never left probing, and its retry time is that of one of its calls.\<close>

lemma circuit_invariant:
  assumes "attempts pf ps w c history d" "c = []"
  shows "\<not> cc_probing (circuitOf d key) \<and> (cc_retryAt (circuitOf d key) = 0
    \<or> (\<exists>(k, sb, called, outcome)\<in>set history. isCall pf key (k, sb, called, outcome)
        \<and> cc_retryAt (circuitOf d key) = wd_now w (k + 9) + ci_recoveryAfterMs (bd_circuit (snd sb))))"
  using assms
proof induction
  case (next_attempt c history d k i sb points e a called)
  then show ?case using attempt_circuit(1) [OF next_attempt.hyps(2), of key]
    by (auto simp: settleCircuit_def Let_def)
qed (simp add: circuitOf_def orDefault_def)

lemma attempt_called:
  assumes "attemptParticipant pf ps w k c i sb points = (d, a, called)" "participantMatches ps (snd sb)"
    "\<not> au_error (checkAuthority pf w k i sb)" "au_current (checkAuthority pf w k i sb)" "au_authorized (checkAuthority pf w k i sb)"
    "\<not> cc_probing (circuitOf c (circuitKey pf sb))" "cc_retryAt (circuitOf c (circuitKey pf sb)) \<le> wd_now w (k + 4)"
  shows called
proof -
  obtain s b where "sb = (s, b)" by (cases sb)
  with assms show ?thesis unfolding attemptParticipant_def Let_def circuitKey_def by (simp split: if_splits)
qed

subsection \<open>Properties of the circuit\<close>

text \<open>C22: The circuit trips. When the calls of a participant since some point have all failed, up to and
  including a call that makes them at least the configured number, the participant is not called
  again by any later attempt before the recovery time counted from that call, however other bindings
  interleave.\<close>

theorem circuit_trips:
  assumes history: "attempts pf ps w c (earlier @ [(k, sb, True, outcome)] @ later) d"
    and failed: "outcome \<noteq> CompletedOutcome"
      "\<forall>(k', sb', called, outcome')\<in>set earlier. isCall pf (circuitKey pf sb) (k', sb', called, outcome') \<longrightarrow> outcome' \<noteq> CompletedOutcome"
    and enough: "0 \<le> cc_failures (circuitOf c (circuitKey pf sb))"
      "ci_failures (bd_circuit (snd sb)) \<le> int (length (filter (isCall pf (circuitKey pf sb)) earlier)) + 1"
    and soon: "\<forall>x\<in>set later. wd_now w (fst x + 4) < wd_now w (k + 9) + ci_recoveryAfterMs (bd_circuit (snd sb))"
  shows "\<forall>x\<in>set later. \<not> isCall pf (circuitKey pf sb) x"
proof -
  let ?key = "circuitKey pf sb"
  obtain mid where mid: "attempts pf ps w c (earlier @ [(k, sb, True, outcome)]) mid" "attempts pf ps w mid later d"
    using attempts_append [of pf ps w c "earlier @ [(k, sb, True, outcome)]"] history by auto
  obtain before i points a where before: "attempts pf ps w c earlier before"
      "attemptParticipant pf ps w k before i sb points = (mid, a, True)" "outcome = at_outcome a"
    using mid(1) by (auto elim!: attempts_snocE)
  have "cc_failures (circuitOf before ?key) = cc_failures (circuitOf c ?key) + int (length (filter (isCall pf ?key) earlier))"
    using failing_counts [OF before(1) failed(2)] .
  then have "cc_retryAt (circuitOf mid ?key) = wd_now w (k + 9) + ci_recoveryAfterMs (bd_circuit (snd sb))"
    using attempt_circuit(1) [OF before(2), of ?key] enough failed(1) before(3) by (auto simp: settleCircuit_def Let_def)
  with open_holds [OF mid(2), of ?key] soon show ?thesis by simp
qed

text \<open>C36: The circuit recovers. In every history from a fresh process, an attempt whose authority holds and
  whose participant is installed calls the participant as soon as the recovery time after each of its
  earlier calls has passed: no failure, timeout or probe closes it for good.\<close>

theorem circuit_recovers:
  assumes "attempts pf ps w [] history c" "attemptParticipant pf ps w k c i sb points = (d, a, called)"
    "\<forall>(k', sb', called', outcome)\<in>set history. isCall pf (circuitKey pf sb) (k', sb', called', outcome) \<longrightarrow>
      wd_now w (k' + 9) + ci_recoveryAfterMs (bd_circuit (snd sb')) \<le> wd_now w (k + 4)"
    "0 \<le> wd_now w (k + 4)" "participantMatches ps (snd sb)" "\<not> au_error (checkAuthority pf w k i sb)"
    "au_current (checkAuthority pf w k i sb)" "au_authorized (checkAuthority pf w k i sb)"
  shows called
proof -
  have "\<not> cc_probing (circuitOf c (circuitKey pf sb))" "cc_retryAt (circuitOf c (circuitKey pf sb)) \<le> wd_now w (k + 4)"
    using circuit_invariant [OF assms(1) refl, of "circuitKey pf sb"] assms(3,4) by fastforce+
  then show ?thesis using attempt_called [OF assms(2,5-8)] by blast
qed

end
