(* ===== verification/Interception_Samples.thy ===== *)
theory Interception_Samples
  imports Policy_Samples Interception_Properties Circuit_Breaker
begin

text \<open>
  A Workspace tool call with one gate, and the same call without gates: the theorems on the deciding
  point and the circuit at concrete inputs. The evaluation is staged, one operation at a time.
\<close>

subsection \<open>Stages of a decision\<close>

lemma invoke_stages:
  assumes "participationAvailable pf (ii_proposal i) b = Inr points" "bd_mode b = GateMode"
    "attemptParticipant pf ps w (pn_tick st) (pn_circuits st) i (s, b) points = (circuits, attempt, called)"
    "gateRecord pf w (pn_tick st) i (s, b) revision digest attempt (if at_error attempt then ErrorResult else at_result attempt) = Inr r"
    "recordProductPermissionDecision (wd_iso w (pn_tick st + 12)) (wd_allocate w (pn_tick st + 13) ''aud'') (pn_store st) r = Inr store"
  shows "invoke pf ps w st i (s, b) revision digest =
    Inr (st\<lparr>pn_circuits := circuits, pn_tick := pn_tick st + INVOKE_TICKS, pn_store := store\<rparr>,
      DecisionReference (di_decisionId r), if at_error attempt then ErrorResult else at_result attempt)"
  using assms by (simp add: invoke_def Let_def)

lemma decide_stages:
  assumes "prepareDecision pf w (pn_tick st) i = Inr p"
    "runGates pf ps w i (gatesOf (pr_bindings p)) (st\<lparr>pn_tick := pn_tick st + 1\<rparr>) p = Inr (mid, after)"
    "prepareFinalDecision pf w (pn_tick mid) i after = Inr (r, d)" "t = pn_tick mid + 3 + 2 * length (pr_used after)"
    "recordProductPermissionDecision (wd_iso w t) (wd_allocate w (t + 1) ''aud'') (pn_store mid) r = Inr store"
  shows "decide pf ps w st i = Inr (mid\<lparr>pn_store := store, pn_tick := t + 2\<rparr>, d)"
  using assms by (simp add: decide_def Let_def)

definition fromInr :: "'a result \<Rightarrow> 'a" where
  "fromInr r = (case r of Inr x \<Rightarrow> x | Inl _ \<Rightarrow> undefined)"

lemma fromInr: "succeeds r \<Longrightarrow> r = Inr (fromInr r)"
  by (cases r) (auto simp: fromInr_def)

subsection \<open>The pilot\<close>

definition pilotDigest :: string where "pilotDigest = ''sha256:'' @ replicate 64 CHR ''0''"

definition pilotPlatform :: Platform where
  "pilotPlatform = samplePlatform\<lparr>pf_sha256 := (\<lambda>_. replicate 64 CHR ''0'')\<rparr>"

definition pilotBinding :: PolicyBindingV1 where
  "pilotBinding = sampleBinding DecideStage GateMode (DeterministicParticipant ''audit'' pilotDigest) 1"

definition pilotGate :: PolicyStatementV1 where
  "pilotGate = sampleStatement ''gate'' [HumanPrincipal sampleUser] None (BindingBody pilotBinding)"

definition pilotParticipants :: Participants where
  "pilotParticipants = \<lparr>pt_participant = Some (''audit'', pilotDigest), pt_agentParticipant = None\<rparr>"

definition pilotKernel :: "PolicyDecisionEffect \<Rightarrow> PolicyDecisionReason list \<Rightarrow> PolicyDecision" where
  "pilotKernel e rs =
    \<lparr>effect = e, reasons = rs,
     trace = \<lparr>tr_user = None, tr_process = None, requiredAccessRights = [], userClosure = [], targetClosure = [],
       policyClasses = [], matchedAssociations = [], matchedProhibitions = []\<rparr>\<rparr>"

definition pilotWorld :: "bool \<Rightarrow> KernelAnswer \<Rightarrow> World" where
  "pilotWorld current answer =
    \<lparr>wd_now = (\<lambda>_. 0), wd_iso = (\<lambda>_. ''2026-01-01T00:00:00.000Z''),
     wd_allocate = (\<lambda>k kind. kind @ ''_01234567-89ab-7def-8123-456789abcd'' @ [char_of (48 + k div 10), char_of (48 + k mod 10)]),
     wd_authorCurrent = (\<lambda>_ _. True), wd_anchorCurrent = (\<lambda>_ _. True), wd_participantAuthorized = (\<lambda>_ _. Inr True),
     wd_stillCurrent = (\<lambda>_. Inr current), wd_finalKernel = (\<lambda>_. Inr answer),
     wd_reply = (\<lambda>_. Replied (JObj [(''decision'', JStr ''allow'')])), wd_userDatabasePath = (\<lambda>_. Inr ())\<rparr>"

definition pilotInput :: "PolicyDocumentV1 \<Rightarrow> InterceptionInput" where
  "pilotInput document =
    \<lparr>ii_document = document, ii_proposal = sampleProposal, ii_authorizationRevision = pilotDigest,
     ii_permissions = None, ii_resourceSummary = None, ii_contextSummary = None, ii_decisionLineage = None,
     ii_authorizationUses = None, ii_humanApproval = None,
     ii_workspaceDb = Some \<lparr>wb_scope = ''workspace'', wb_workspaceId = sampleWorkspace\<rparr>, ii_userDb = None\<rparr>"

definition pilotState :: PolicyInterception where
  "pilotState = \<lparr>pn_circuits = [], pn_tick = 0, pn_store = emptyStore\<rparr>"

lemma pilotState_simps [simp]: "pn_circuits pilotState = []" "pn_tick pilotState = 0" "pn_store pilotState = emptyStore"
  by (simp_all add: pilotState_def)

definition pilotPrepared :: "binding list \<Rightarrow> Prepared" where
  "pilotPrepared bindings =
    \<lparr>pr_bindings = bindings, pr_invocations = [], pr_results = [], pr_used = [], pr_policyRevision = pilotDigest,
     pr_proposalDigest = pilotDigest, pr_humanApproved = False\<rparr>"

subsection \<open>A gated allow\<close>

definition allowWorld :: World where "allowWorld = pilotWorld True (PlainKernel (pilotKernel Allow []))"

definition gatedInput :: InterceptionInput where "gatedInput = pilotInput [pilotGate]"

definition gatedPrepared :: Prepared where "gatedPrepared = pilotPrepared [(pilotGate, pilotBinding)]"

definition gatedAttempt :: Attempt where
  "gatedAttempt =
    \<lparr>at_outcome = CompletedOutcome, at_result = AllowResult, at_agent = None, at_error = False,
     at_output = JObj [(''decision'', JStr ''allow'')]\<rparr>"

definition gatedPoints :: OperationPoints where
  "gatedPoints = fromInr (participationAvailable pilotPlatform sampleProposal pilotBinding)"

definition gatedRecord :: DecisionInput where
  "gatedRecord = fromInr (gateRecord pilotPlatform allowWorld 1 gatedInput (pilotGate, pilotBinding) pilotDigest pilotDigest gatedAttempt AllowResult)"

definition gatedStore :: Store where
  "gatedStore = fromInr (recordProductPermissionDecision (wd_iso allowWorld 13) (wd_allocate allowWorld 14 ''aud'') emptyStore gatedRecord)"

definition gatedNoted :: Prepared where
  "gatedNoted = noteGate gatedPrepared (pilotGate, pilotBinding) (DecisionReference (di_decisionId gatedRecord)) AllowResult"

definition gatedFinal :: "DecisionInput \<times> InterceptionDecision" where
  "gatedFinal = fromInr (prepareFinalDecision pilotPlatform allowWorld 15 gatedInput gatedNoted)"

lemma gated_prepared: "prepareDecision pilotPlatform allowWorld 0 gatedInput = Inr gatedPrepared"
  by code_simp

lemma gated_points: "participationAvailable pilotPlatform sampleProposal pilotBinding = Inr gatedPoints"
  unfolding gatedPoints_def by (rule fromInr) code_simp

lemma gated_attempt:
  "attemptParticipant pilotPlatform pilotParticipants allowWorld 1 [] gatedInput (pilotGate, pilotBinding) gatedPoints
    = ([(pilotDigest, \<lparr>cc_failures = 0, cc_retryAt = 0, cc_probing = False\<rparr>)], gatedAttempt, True)"
  by code_simp

lemma gated_record:
  "gateRecord pilotPlatform allowWorld 1 gatedInput (pilotGate, pilotBinding) pilotDigest pilotDigest gatedAttempt AllowResult = Inr gatedRecord"
  unfolding gatedRecord_def by (rule fromInr) code_simp

lemma gated_store:
  "recordProductPermissionDecision (wd_iso allowWorld 13) (wd_allocate allowWorld 14 ''aud'') emptyStore gatedRecord = Inr gatedStore"
  unfolding gatedStore_def by (rule fromInr) code_simp

lemma gated_final: "prepareFinalDecision pilotPlatform allowWorld 15 gatedInput gatedNoted = Inr gatedFinal"
  unfolding gatedFinal_def by (rule fromInr) code_simp

lemma gated_published:
  "succeeds (recordProductPermissionDecision (wd_iso allowWorld 20) (wd_allocate allowWorld 21 ''aud'') gatedStore (fst gatedFinal))"
  by code_simp


definition gatedMid :: PolicyInterception where
  "gatedMid = pilotState\<lparr>pn_circuits := [(pilotDigest, \<lparr>cc_failures = 0, cc_retryAt = 0, cc_probing = False\<rparr>)],
    pn_tick := 15, pn_store := gatedStore\<rparr>"

lemma gatedMid_simps [simp]: "pn_tick gatedMid = 15" "pn_store gatedMid = gatedStore"
  by (simp_all add: gatedMid_def)

lemma gated_used [simp]: "length (pr_used gatedNoted) = 1"
  by (simp add: gatedNoted_def noteGate_def gatedPrepared_def pilotPrepared_def pilotGate_def sampleStatement_def)

lemma gates_run:
  assumes "attemptParticipant pilotPlatform pilotParticipants w 1 [] gatedInput (pilotGate, pilotBinding) gatedPoints
      = ([(pilotDigest, \<lparr>cc_failures = 0, cc_retryAt = 0, cc_probing = False\<rparr>)], gatedAttempt, True)"
    and "gateRecord pilotPlatform w 1 gatedInput (pilotGate, pilotBinding) pilotDigest pilotDigest gatedAttempt AllowResult = Inr gatedRecord"
    and "recordProductPermissionDecision (wd_iso w 13) (wd_allocate w 14 ''aud'') emptyStore gatedRecord = Inr gatedStore"
  shows "runGates pilotPlatform pilotParticipants w gatedInput (gatesOf (pr_bindings gatedPrepared))
      (pilotState\<lparr>pn_tick := pn_tick pilotState + 1\<rparr>) gatedPrepared = Inr (gatedMid, gatedNoted)"
proof -
  have invoked: "invoke pilotPlatform pilotParticipants w (pilotState\<lparr>pn_tick := 1\<rparr>) gatedInput (pilotGate, pilotBinding) pilotDigest pilotDigest
      = Inr (gatedMid, DecisionReference (di_decisionId gatedRecord), AllowResult)"
    using invoke_stages [of pilotPlatform gatedInput pilotBinding gatedPoints pilotParticipants w "pilotState\<lparr>pn_tick := 1\<rparr>" pilotGate]
      gated_points assms
    by (simp add: gatedInput_def pilotInput_def gatedAttempt_def INVOKE_TICKS_def pilotBinding_def sampleBinding_def gatedMid_def)
  have gates: "gatesOf (pr_bindings gatedPrepared) = [(pilotGate, pilotBinding)]" "lt_uses (st_lifetime pilotGate) = None"
    by (simp_all add: gatesOf_def gatedPrepared_def pilotPrepared_def pilotBinding_def sampleBinding_def pilotGate_def sampleStatement_def)
  from invoked show ?thesis by (simp add: gates gatedNoted_def) (simp add: gatedPrepared_def pilotPrepared_def)
qed

lemmas gated_run = gates_run [OF gated_attempt gated_record gated_store]

lemma gated_decision: "\<exists>st. decide pilotPlatform pilotParticipants allowWorld pilotState gatedInput = Inr (st, snd gatedFinal)"
proof -
  obtain store where
      "recordProductPermissionDecision (wd_iso allowWorld 20) (wd_allocate allowWorld 21 ''aud'') gatedStore (fst gatedFinal) = Inr store"
    using gated_published unfolding succeeds_iff ..
  with gated_run gated_prepared gated_final show ?thesis
    using decide_stages [of pilotPlatform allowWorld pilotState gatedInput gatedPrepared pilotParticipants
      gatedMid gatedNoted "fst gatedFinal" "snd gatedFinal" 20 store]
    by (simp del: runGates.simps)
qed

subsection \<open>Facts that go stale while the gate runs\<close>

definition staleWorld :: World where
  "staleWorld = allowWorld\<lparr>wd_stillCurrent := (\<lambda>k. Inr (k < 15))\<rparr>"

definition staleFinal :: "DecisionInput \<times> InterceptionDecision" where
  "staleFinal = fromInr (prepareFinalDecision pilotPlatform staleWorld 15 gatedInput gatedNoted)"

lemma stale_prepared: "prepareDecision pilotPlatform staleWorld 0 gatedInput = Inr gatedPrepared"
  by code_simp

lemma stale_attempt:
  "attemptParticipant pilotPlatform pilotParticipants staleWorld 1 [] gatedInput (pilotGate, pilotBinding) gatedPoints
    = ([(pilotDigest, \<lparr>cc_failures = 0, cc_retryAt = 0, cc_probing = False\<rparr>)], gatedAttempt, True)"
  by code_simp

lemma stale_record:
  "gateRecord pilotPlatform staleWorld 1 gatedInput (pilotGate, pilotBinding) pilotDigest pilotDigest gatedAttempt AllowResult = Inr gatedRecord"
  using gated_record by (simp add: gateRecord_def invocationRecord_def staleWorld_def)

lemma stale_store:
  "recordProductPermissionDecision (wd_iso staleWorld 13) (wd_allocate staleWorld 14 ''aud'') emptyStore gatedRecord = Inr gatedStore"
  using gated_store by (simp add: staleWorld_def)

lemmas stale_run = gates_run [OF stale_attempt stale_record stale_store]

lemma stale_final: "prepareFinalDecision pilotPlatform staleWorld 15 gatedInput gatedNoted = Inr staleFinal"
  unfolding staleFinal_def by (rule fromInr) code_simp

lemma stale_published:
  "succeeds (recordProductPermissionDecision (wd_iso staleWorld 20) (wd_allocate staleWorld 21 ''aud'') gatedStore (fst staleFinal))"
  by code_simp

lemma stale_decision: "\<exists>st. decide pilotPlatform pilotParticipants staleWorld pilotState gatedInput = Inr (st, snd staleFinal)"
proof -
  obtain store where
      "recordProductPermissionDecision (wd_iso staleWorld 20) (wd_allocate staleWorld 21 ''aud'') gatedStore (fst staleFinal) = Inr store"
    using stale_published unfolding succeeds_iff ..
  with stale_run stale_prepared stale_final show ?thesis
    using decide_stages [of pilotPlatform staleWorld pilotState gatedInput gatedPrepared pilotParticipants
      gatedMid gatedNoted "fst staleFinal" "snd staleFinal" 20 store]
    by (simp del: runGates.simps)
qed

subsection \<open>The theorems at the samples\<close>


text \<open>The facts are current while the gate runs and stale at the check that follows it: the decision is an error.\<close>

theorem interception_fail_closed_witness:
  "\<exists>st d. decide pilotPlatform pilotParticipants staleWorld pilotState gatedInput = Inr (st, d)
    \<and> (\<forall>k<15. wd_stillCurrent staleWorld k = Inr True) \<and> id_result d = ErrorResult"
proof -
  obtain st where st: "decide pilotPlatform pilotParticipants staleWorld pilotState gatedInput = Inr (st, snd staleFinal)"
    using stale_decision ..
  have "wd_stillCurrent staleWorld (pn_tick gatedMid) \<noteq> Inr True" by (simp add: staleWorld_def)
  with interception_fail_closed [OF st _ stale_run] stale_prepared have "id_result (snd staleFinal) = ErrorResult" by simp
  moreover have "\<forall>k<15. wd_stillCurrent staleWorld k = Inr True" by (simp add: staleWorld_def)
  ultimately show ?thesis using st by blast
qed

lemma gated_bindings:
  "selectPolicyBindings pilotPlatform (ii_document gatedInput) (ii_proposal gatedInput) (Some DecideStage) (wd_now allowWorld 0)
    (wd_authorCurrent allowWorld 0) (wd_anchorCurrent allowWorld 0) = Inr [(pilotGate, pilotBinding)]"
  by code_simp

lemma gated_asked: "filter (\<lambda>sb. \<not> spent pilotPlatform gatedInput emptyStore (fst sb)) (gatesOf [(pilotGate, pilotBinding)]) = [(pilotGate, pilotBinding)]"
  by (simp add: gatesOf_def pilotBinding_def sampleBinding_def spent_def pilotGate_def sampleStatement_def)

theorem interception_evidence_witness:
  "\<exists>st (gate :: PermissionDecisionRow) (final :: PermissionDecisionRow).
    decide pilotPlatform pilotParticipants allowWorld pilotState gatedInput = Inr (st, snd gatedFinal)
    \<and> tb_decisions (pn_store st (ownerHandle gatedInput)) = [gate, final]
    \<and> gateEvidence pilotPlatform gatedInput pilotGate (dr_mediation gate)
    \<and> finalEvidence pilotPlatform gatedInput (snd gatedFinal) [DecisionReference (dr_decisionId gate)] (dr_mediation final)"
proof -
  obtain st where st: "decide pilotPlatform pilotParticipants allowWorld pilotState gatedInput = Inr (st, snd gatedFinal)"
    using gated_decision ..
  from interception_evidence [OF st] obtain gates final where
      rows: "tb_decisions (pn_store st (ownerHandle gatedInput)) = tb_decisions (emptyStore (ownerHandle gatedInput)) @ gates @ [final]"
      and evidence: "finalEvidence pilotPlatform gatedInput (snd gatedFinal) (map (\<lambda>g. DecisionReference (dr_decisionId g)) gates) (dr_mediation final)"
      and asked: "list_all2 (\<lambda>sb g. gateEvidence pilotPlatform gatedInput (fst sb) (dr_mediation g)) [(pilotGate, pilotBinding)] gates"
    by (auto simp: gated_bindings gated_asked)
  from asked obtain gate where "gates = [gate]" "gateEvidence pilotPlatform gatedInput pilotGate (dr_mediation gate)"
    by (auto simp: list_all2_Cons1)
  with st rows evidence show ?thesis by (auto simp: emptyStore_def)
qed

subsection \<open>A circuit\<close>

definition slowBinding :: PolicyBindingV1 where
  "slowBinding = pilotBinding\<lparr>bd_circuit := \<lparr>ci_failures = 1, ci_recoveryAfterMs = 1000\<rparr>\<rparr>"

text \<open>The participant always times out; the clock stands still up to tick 40 and is then past the recovery time.\<close>

definition slowWorld :: World where
  "slowWorld = (allowWorld\<lparr>wd_reply := (\<lambda>_. TimedOut), wd_now := (\<lambda>k. if k < 40 then 0 else 5000)\<rparr>)"

definition slowCircuits :: "(string \<times> Circuit) list" where
  "slowCircuits = [(pilotDigest, \<lparr>cc_failures = 1, cc_retryAt = 1000, cc_probing = False\<rparr>)]"

definition slowAttempt :: "nat \<Rightarrow> (string \<times> Circuit) list \<Rightarrow> (string \<times> Circuit) list \<times> Attempt \<times> bool" where
  "slowAttempt k circuits = attemptParticipant pilotPlatform pilotParticipants slowWorld k circuits gatedInput (pilotGate, slowBinding) gatedPoints"

lemma slow_key: "circuitKey pilotPlatform (pilotGate, slowBinding) = pilotDigest"
  by code_simp

lemma slow_first:
  "attempts pilotPlatform pilotParticipants slowWorld [] [(0, (pilotGate, slowBinding), True, TimeoutOutcome)] slowCircuits"
proof -
  have "case slowAttempt 0 [] of (circuits, attempt, called) \<Rightarrow> circuits = slowCircuits \<and> at_outcome attempt = TimeoutOutcome \<and> called"
    by code_simp
  then have "attemptParticipant pilotPlatform pilotParticipants slowWorld 0 [] gatedInput (pilotGate, slowBinding) gatedPoints
      = (slowCircuits, fst (snd (slowAttempt 0 [])), True)" "at_outcome (fst (snd (slowAttempt 0 []))) = TimeoutOutcome"
    unfolding slowAttempt_def by (simp_all add: prod_eq_iff case_prod_beta)
  from next_attempt [OF no_attempt this(1)] this(2) show ?thesis by simp
qed

lemma slow_second:
  "attempts pilotPlatform pilotParticipants slowWorld []
    ([(0, (pilotGate, slowBinding), True, TimeoutOutcome)] @ [(20, (pilotGate, slowBinding), False, OpenCircuitOutcome)]) slowCircuits"
proof -
  have "case slowAttempt 20 slowCircuits of (circuits, attempt, called) \<Rightarrow>
      circuits = slowCircuits \<and> at_outcome attempt = OpenCircuitOutcome \<and> \<not> called" by code_simp
  then have "attemptParticipant pilotPlatform pilotParticipants slowWorld 20 slowCircuits gatedInput (pilotGate, slowBinding) gatedPoints
      = (slowCircuits, fst (snd (slowAttempt 20 slowCircuits)), False)" "at_outcome (fst (snd (slowAttempt 20 slowCircuits))) = OpenCircuitOutcome"
    unfolding slowAttempt_def by (simp_all add: prod_eq_iff case_prod_beta)
  from next_attempt [OF slow_first this(1)] this(2) show ?thesis by simp
qed

theorem circuit_trips_witness:
  "\<exists>later circuits. attempts pilotPlatform pilotParticipants slowWorld []
      ([(0, (pilotGate, slowBinding), True, TimeoutOutcome)] @ later) circuits
    \<and> later \<noteq> [] \<and> filter (isCall pilotPlatform pilotDigest) later = []"
proof -
  let ?later = "[(20, (pilotGate, slowBinding), False, OpenCircuitOutcome)]"
  have "\<forall>x\<in>set ?later. \<not> isCall pilotPlatform (circuitKey pilotPlatform (pilotGate, slowBinding)) x"
  proof (rule circuit_trips [where earlier = "[]"])
    show "attempts pilotPlatform pilotParticipants slowWorld []
        ([] @ [(0, (pilotGate, slowBinding), True, TimeoutOutcome)] @ ?later) slowCircuits"
      using slow_second by simp
  qed (simp_all add: circuitOf_def orDefault_def slowBinding_def slowWorld_def)
  then show ?thesis using slow_second slow_key by (intro exI [of _ ?later] exI [of _ slowCircuits]) simp
qed

theorem circuit_recovers_witness:
  "snd (snd (attemptParticipant pilotPlatform pilotParticipants slowWorld 40 slowCircuits gatedInput (pilotGate, slowBinding) gatedPoints))"
proof (rule circuit_recovers [OF slow_first])
  show "attemptParticipant pilotPlatform pilotParticipants slowWorld 40 slowCircuits gatedInput (pilotGate, slowBinding) gatedPoints
      = (fst (slowAttempt 40 slowCircuits), fst (snd (slowAttempt 40 slowCircuits)),
         snd (snd (attemptParticipant pilotPlatform pilotParticipants slowWorld 40 slowCircuits gatedInput (pilotGate, slowBinding) gatedPoints)))"
    by (simp add: slowAttempt_def)
  show "participantMatches pilotParticipants (snd (pilotGate, slowBinding))" by code_simp
  show "\<not> au_error (checkAuthority pilotPlatform slowWorld 40 gatedInput (pilotGate, slowBinding))" by code_simp
  show "au_current (checkAuthority pilotPlatform slowWorld 40 gatedInput (pilotGate, slowBinding))" by code_simp
  show "au_authorized (checkAuthority pilotPlatform slowWorld 40 gatedInput (pilotGate, slowBinding))" by code_simp
qed (simp_all add: slowBinding_def slowWorld_def)

end
