(* ===== verification/Layered_Policy.thy ===== *)
theory Layered_Policy
  imports Policy_Kernel
begin

text \<open>
  The shape of every graph that the product builds for the kernel: one user and one object, each
  assigned to attributes, and attributes assigned to policy classes. The locale states the shape and
  derives what the kernel decides on it; the clients of the kernel interpret it on their own graphs.
\<close>

lemma assigned_iff: "(x, y) \<in> assigned P \<longleftrightarrow> \<lparr>child = x, parent = y\<rparr> \<in> set (assignments P)"
proof
  assume "(x, y) \<in> assigned P"
  then obtain a where "a \<in> set (assignments P)" "child a = x" "parent a = y" by (auto simp: assigned_def)
  moreover from this have "a = \<lparr>child = x, parent = y\<rparr>" by simp
  ultimately show "\<lparr>child = x, parent = y\<rparr> \<in> set (assignments P)" by simp
qed (force simp: assigned_def)

locale layered_policy =
  fixes P :: PolicyState and u t :: string
  assumes ids_named: "named P"
    and ids_distinct: "distinct (map el_id (elements P))"
    and user_kind: "element_kind P u = Some User"
    and target_kind: "element_kind P t = Some Object"
    and layers: "a \<in> set (assignments P) \<Longrightarrow>
      (element_kind P (child a), element_kind P (parent a)) \<in>
        {(Some User, Some UserAttribute), (Some UserAttribute, Some PolicyClass),
         (Some Object, Some ObjectAttribute), (Some ObjectAttribute, Some PolicyClass)}"
    and connected: "e \<in> set (elements P) \<Longrightarrow> el_kind e \<noteq> PolicyClass \<Longrightarrow> el_id e \<in> child ` set (assignments P)"
    and operations_ok: "oper \<in> set (operations P) \<Longrightarrow> op_accessRights oper \<noteq> []"
    and associations_ok: "s \<in> set (associations P) \<Longrightarrow> element_kind P (as_userAttribute s) = Some UserAttribute
      \<and> element_kind P (as_targetAttribute s) = Some ObjectAttribute \<and> as_accessRights s \<noteq> []"
    and processes_ok: "m \<in> set (or_empty (processUsers P)) \<Longrightarrow> pu_user m = u"
    and prohibitions_ok: "pr \<in> set (or_empty (prohibitions P)) \<Longrightarrow> prohibition_wellformed P pr"
begin

definition member :: "string \<Rightarrow> bool" where
  "member ua \<longleftrightarrow> (u, ua) \<in> assigned P"

definition filed :: "string \<Rightarrow> bool" where
  "filed oa \<longleftrightarrow> (t, oa) \<in> assigned P"

text \<open>The decision on a layered graph: each class over the target needs an association of its own.\<close>

definition granted :: "string \<Rightarrow> string \<Rightarrow> bool" where
  "granted ar pc \<longleftrightarrow> (\<exists>a\<in>set (associations P). member (as_userAttribute a) \<and> filed (as_targetAttribute a)
    \<and> (as_targetAttribute a, pc) \<in> assigned P \<and> ar \<in> set (as_accessRights a))"

lemma assigned_kinds:
  "(x, y) \<in> assigned P \<Longrightarrow> (element_kind P x, element_kind P y) \<in>
    {(Some User, Some UserAttribute), (Some UserAttribute, Some PolicyClass),
     (Some Object, Some ObjectAttribute), (Some ObjectAttribute, Some PolicyClass)}"
  unfolding assigned_def using layers by auto

lemma assigned_child:
  assumes "(x, y) \<in> assigned P"
  shows "element_kind P x = Some User \<Longrightarrow> element_kind P y = Some UserAttribute"
    "element_kind P x = Some Object \<Longrightarrow> element_kind P y = Some ObjectAttribute"
    "element_kind P x = Some UserAttribute \<Longrightarrow> element_kind P y = Some PolicyClass"
    "element_kind P x = Some ObjectAttribute \<Longrightarrow> element_kind P y = Some PolicyClass"
    "element_kind P x \<noteq> Some PolicyClass"
  using assigned_kinds [OF assms] by auto

lemma assigned_twice: "(x, y) \<in> assigned P \<Longrightarrow> (y, z) \<in> assigned P \<Longrightarrow> element_kind P z = Some PolicyClass"
  using assigned_kinds [of x y] assigned_kinds [of y z] by auto

lemma two_steps:
  "contained P x y \<longleftrightarrow> x = y \<or> (x, y) \<in> assigned P \<or> (\<exists>z. (x, z) \<in> assigned P \<and> (z, y) \<in> assigned P)"
proof
  assume "contained P x y"
  then have "(x, y) \<in> (assigned P)\<^sup>*" by (simp add: contained_def)
  then show "x = y \<or> (x, y) \<in> assigned P \<or> (\<exists>z. (x, z) \<in> assigned P \<and> (z, y) \<in> assigned P)"
  proof induction
    case (step y z)
    have "\<not> (\<exists>v. (x, v) \<in> assigned P \<and> (v, y) \<in> assigned P)"
      using assigned_twice [of x _ y] assigned_child(5) [OF step.hyps(2)] by blast
    then show ?case using step by blast
  qed simp
qed (auto simp: contained_def)

lemma acyclic_assigned: "acyclic (assigned P)"
proof -
  define rank :: "string \<Rightarrow> nat" where
    "rank x = (if element_kind P x = Some PolicyClass then 0
      else if element_kind P x \<in> {Some UserAttribute, Some ObjectAttribute} then 1 else 2)" for x
  have "(assigned P)\<inverse> \<subseteq> measure rank" using assigned_kinds by (fastforce simp: rank_def)
  then have "acyclic ((assigned P)\<inverse>)" using wf_acyclic wf_subset [OF wf_measure] by blast
  then show ?thesis by simp
qed

lemma element_connected:
  assumes "e \<in> set (elements P)"
  shows "\<exists>pc. contained P (el_id e) pc \<and> element_kind P pc = Some PolicyClass"
proof (cases "el_kind e = PolicyClass")
  case True
  then show ?thesis using element_kind_SomeI [OF ids_distinct assms] by (auto simp: contained_def)
next
  case False
  then obtain a where a: "a \<in> set (assignments P)" "child a = el_id e" using connected [OF assms] by auto
  then have first: "(el_id e, parent a) \<in> assigned P" by (force simp: assigned_def)
  show ?thesis
  proof (cases "element_kind P (parent a) = Some PolicyClass")
    case True
    with first show ?thesis by (auto simp: contained_def)
  next
    case attribute: False
    obtain e' where e': "e' \<in> set (elements P)" "el_id e' = parent a" "el_kind e' \<noteq> PolicyClass"
        "element_kind P (parent a) \<in> {Some UserAttribute, Some ObjectAttribute}"
      using layers [OF a(1)] attribute element_kind_SomeD by fastforce
    then obtain a' where a': "a' \<in> set (assignments P)" "child a' = parent a" using connected [OF e'(1)] by auto
    then have "(parent a, parent a') \<in> assigned P" by (force simp: assigned_def)
    moreover have "element_kind P (parent a') = Some PolicyClass" using layers [OF a'(1)] a'(2) e'(4) by auto
    ultimately show ?thesis using first unfolding two_steps by blast
  qed
qed

lemma wellformed: "ngac_wellformed P"
proof -
  have "\<exists>c p. element_kind P (child a) = Some c \<and> element_kind P (parent a) = Some p \<and> isAllowedAssignment c p"
    if "a \<in> set (assignments P)" for a using layers [OF that] by auto
  then show ?thesis unfolding ngac_wellformed_def
    using ids_distinct acyclic_assigned element_connected operations_ok associations_ok processes_ok prohibitions_ok user_kind
    by (auto simp: isAttributeElement_def)
qed

lemma requester_iff: "rq_user r = Some u \<Longrightarrow> requester P r v \<longleftrightarrow> v = u"
proof -
  have "process_user P p \<in> {None, Some u}" for p
  proof (cases "List.find (\<lambda>e. pu_process e = p) (or_empty (processUsers P))")
    case (Some m)
    then have "m \<in> set (or_empty (processUsers P))" by (auto simp: find_Some_iff)
    with Some processes_ok show ?thesis by (simp add: process_user_def)
  qed (simp add: process_user_def)
  then show "rq_user r = Some u \<Longrightarrow> requester P r v \<longleftrightarrow> v = u" using user_kind by (auto simp: requester_def)
qed

lemma contained_member:
  assumes "element_kind P ua = Some UserAttribute"
  shows "contained P u ua \<longleftrightarrow> member ua"
proof -
  have "u \<noteq> ua" using assms user_kind by auto
  moreover have "\<not> ((u, z) \<in> assigned P \<and> (z, ua) \<in> assigned P)" for z using assigned_twice [of u z ua] assms by auto
  ultimately show ?thesis unfolding two_steps member_def by blast
qed

lemma contained_filed:
  assumes "element_kind P oa = Some ObjectAttribute"
  shows "contained P t oa \<longleftrightarrow> filed oa"
proof -
  have "t \<noteq> oa" using assms target_kind by auto
  moreover have "\<not> ((t, z) \<in> assigned P \<and> (z, oa) \<in> assigned P)" for z using assigned_twice [of t z oa] assms by auto
  ultimately show ?thesis unfolding two_steps filed_def by blast
qed

lemma contained_class:
  assumes "element_kind P oa = Some ObjectAttribute" "element_kind P pc = Some PolicyClass"
  shows "contained P oa pc \<longleftrightarrow> (oa, pc) \<in> assigned P"
proof -
  have "oa \<noteq> pc" using assms by auto
  moreover have "\<not> ((oa, z) \<in> assigned P \<and> (z, pc) \<in> assigned P)" for z
    using assigned_child(4) [of oa z] assigned_child(5) [of z pc] assms(1) by auto
  ultimately show ?thesis unfolding two_steps by blast
qed

lemma privileged_iff:
  assumes "element_kind P pc = Some PolicyClass"
  shows "privileged P u t ar pc \<longleftrightarrow> granted ar pc"
  unfolding privileged_def granted_def
proof (rule bex_cong [OF refl])
  fix a assume "a \<in> set (associations P)"
  then show "(contained P u (as_userAttribute a) \<and> contained P t (as_targetAttribute a) \<and> contained P (as_targetAttribute a) pc
      \<and> ar \<in> set (as_accessRights a)) = (member (as_userAttribute a) \<and> filed (as_targetAttribute a)
      \<and> (as_targetAttribute a, pc) \<in> assigned P \<and> ar \<in> set (as_accessRights a))"
    using associations_ok [of a] by (simp add: contained_member contained_filed contained_class assms)
qed

lemma target_class_iff:
  "contained P t pc \<and> element_kind P pc = Some PolicyClass \<longleftrightarrow> (\<exists>oa. filed oa \<and> (oa, pc) \<in> assigned P)"
proof
  assume *: "contained P t pc \<and> element_kind P pc = Some PolicyClass"
  then have "t \<noteq> pc" "(t, pc) \<notin> assigned P" using target_kind assigned_child(2) [of t pc] by auto
  with * show "\<exists>oa. filed oa \<and> (oa, pc) \<in> assigned P" unfolding two_steps filed_def by blast
next
  assume "\<exists>oa. filed oa \<and> (oa, pc) \<in> assigned P"
  then show "contained P t pc \<and> element_kind P pc = Some PolicyClass"
    using assigned_twice unfolding two_steps filed_def by blast
qed

lemma permits_iff:
  assumes "rq_user r = Some u" "rq_target r = t"
  shows "ngac_permits P r \<longleftrightarrow> (\<exists>oper. List.find (\<lambda>e. op_id e = rq_operation r) (operations P) = Some oper
    \<and> (\<forall>ar\<in>set (op_accessRights oper). \<forall>oa pc. filed oa \<and> (oa, pc) \<in> assigned P \<longrightarrow> granted ar pc)
    \<and> (\<forall>pr\<in>set (or_empty (prohibitions P)). \<not> restricted P r u (op_accessRights oper) pr))"
proof -
  have classes: "(\<forall>pc. contained P t pc \<and> element_kind P pc = Some PolicyClass \<longrightarrow> privileged P u t ar pc)
      \<longleftrightarrow> (\<forall>oa pc. filed oa \<and> (oa, pc) \<in> assigned P \<longrightarrow> granted ar pc)" for ar
    using target_class_iff privileged_iff by blast
  show ?thesis
    unfolding ngac_permits_def requester_iff [OF assms(1)] assms(2) using wellformed target_kind by (simp add: classes)
qed

lemma evaluate_iff:
  assumes "rq_user r = Some u" "rq_target r = t"
  shows "effect (evaluateAccess P r) = Allow \<longleftrightarrow>
    (\<exists>oper. List.find (\<lambda>e. op_id e = rq_operation r) (operations P) = Some oper
      \<and> (\<forall>ar\<in>set (op_accessRights oper). \<forall>oa pc. filed oa \<and> (oa, pc) \<in> assigned P \<longrightarrow> granted ar pc)
      \<and> (\<forall>pr\<in>set (or_empty (prohibitions P)). \<not> restricted P r u (op_accessRights oper) pr))"
  using kernel.eval_iff [OF ids_named] permits_iff [OF assms] by simp

lemma evaluate_decides:
  assumes "rq_user r = Some u" "rq_target r = t" "List.find (\<lambda>e. op_id e = rq_operation r) (operations P) = Some oper"
  shows "evaluateAccess P r = decide_request P r oper u"
proof -
  have "validatePolicy P (element_index_of P) (parent_index_of P) = None"
    using validatePolicy_iff_wellformed [OF ids_named] wellformed by (simp add: valid_policy_def)
  moreover have "resolveRequestUser P r (element_index_of P) = Inr u"
    using resolveRequestUser_iff [OF ids_named wellformed] requester_iff [OF assms(1)] by simp
  moreover have "kind_of (element_index_of P) t = Some Object"
    using target_kind by (simp add: kind_of_element_index [OF ids_distinct])
  ultimately show ?thesis using assms by (simp add: evaluateAccess_def Let_def)
qed

lemma ends_named: "u \<noteq> []" "t \<noteq> []"
  using ids_named element_kind_SomeD [OF user_kind] element_kind_SomeD [OF target_kind] by (auto simp: named_def)

lemma matches_iff:
  assumes "rq_target r = t"
  shows "matchesRestriction pr r u (computeContainmentClosure u (parent_index_of P)) t rights (parent_index_of P)
    \<longleftrightarrow> restricted P r u rights pr"
proof -
  have "assignments_typed P" using wellformed by (simp add: ngac_wellformed_def assignments_typed_def)
  then show ?thesis using matchesRestriction_iff [OF ids_named _ ends_named(1), of r pr rights] ends_named(2) assms by simp
qed

text \<open>A restricted request is denied by its first restriction, and its trace names them all.\<close>

lemma evaluate_restricted:
  assumes "rq_user r = Some u" "rq_target r = t" "List.find (\<lambda>e. op_id e = rq_operation r) (operations P) = Some oper"
    "filter (restricted P r u (op_accessRights oper)) (or_empty (prohibitions P)) = pr # prs"
  shows "effect (evaluateAccess P r) = Deny" "reasons (evaluateAccess P r) = [Restriction (pr_id pr)]"
    "matchedProhibitions (trace (evaluateAccess P r)) = map pr_id (pr # prs)"
proof -
  have "filter (\<lambda>pr. matchesRestriction pr r u (computeContainmentClosure u (parent_index_of P)) (rq_target r) (op_accessRights oper)
      (parent_index_of P)) (or_empty (prohibitions P)) = pr # prs"
    unfolding assms(2) matches_iff [OF assms(2)] by (rule assms(4))
  then show "effect (evaluateAccess P r) = Deny" "reasons (evaluateAccess P r) = [Restriction (pr_id pr)]"
    "matchedProhibitions (trace (evaluateAccess P r)) = map pr_id (pr # prs)"
    unfolding evaluate_decides [OF assms(1-3)] by (simp_all add: decide_request_def Let_def deny_def split: prod.splits)
qed

lemma evaluate_missing:
  assumes "rq_user r = Some u" "rq_target r = t" "List.find (\<lambda>e. op_id e = rq_operation r) (operations P) = Some oper"
    "or_empty (prohibitions P) = []" "effect (evaluateAccess P r) \<noteq> Allow"
  shows "\<exists>ar. reasons (evaluateAccess P r) = [MissingPrivilege ar]"
  using assms(4,5) unfolding evaluate_decides [OF assms(1-3)]
  by (auto simp: decide_request_def deny_def Let_def split: prod.splits option.splits)

end

text \<open>The shape as a computation over the lists of a graph, by which the clients establish it.\<close>

definition layerPairs :: "(PolicyElementKind option \<times> PolicyElementKind option) set" where
  "layerPairs = {(Some User, Some UserAttribute), (Some UserAttribute, Some PolicyClass),
     (Some Object, Some ObjectAttribute), (Some ObjectAttribute, Some PolicyClass)}"

lemma layered_policyI:
  assumes "list_all (\<lambda>e. el_id e \<noteq> []) (elements P)" "distinct (map el_id (elements P))"
    "element_kind P u = Some User" "element_kind P t = Some Object"
    "list_all (\<lambda>a. (element_kind P (child a), element_kind P (parent a)) \<in> layerPairs) (assignments P)"
    "list_all (\<lambda>e. el_kind e = PolicyClass \<or> el_id e \<in> child ` set (assignments P)) (elements P)"
    "list_all (\<lambda>oper. op_accessRights oper \<noteq> []) (operations P)"
    "list_all (\<lambda>s. element_kind P (as_userAttribute s) = Some UserAttribute
      \<and> element_kind P (as_targetAttribute s) = Some ObjectAttribute \<and> as_accessRights s \<noteq> []) (associations P)"
    "list_all (\<lambda>m. pu_user m = u) (or_empty (processUsers P))"
    "list_all (prohibition_wellformed P) (or_empty (prohibitions P))"
  shows "layered_policy P u t"
  using assms by unfold_locales (auto simp: list_all_iff named_def layerPairs_def)

end
