(* ===== verification/Goal_Task_Access.thy ===== *)
theory Goal_Task_Access
  imports Policy_Interception Layered_Policy
begin

text \<open>
  Access of a Goal Task (\<^verbatim>\<open>apps/nanocore/src/policy/goal-task-access.ts\<close>): the Goal domain approved by a
  human and the resources of the Task become two mandatory policy classes of one small graph, and
  the kernel decides on it; a current delegated permission can extend the Task class only.

  A Goal domain is a statement with its delegation, a delegated permission a statement with its
  permission body.
\<close>

type_synonym domain = "PolicyStatementV1 \<times> PolicyDelegationV1"

type_synonym delegated = "PolicyStatementV1 \<times> PolicyPermissionV1"

record GoalTaskAccessInput =
  gi_domain :: "domain option"
  gi_permissions :: "delegated list option"
  gi_subject :: PolicySubjectV1
  gi_responsibleHumanId :: string
  gi_resources :: "PolicyResourceV1 list"
  gi_operation :: string
  gi_resource :: PolicyResourceV1
  gi_humanKernel :: PolicyDecision

record GoalTaskAccessResult =
  gr_kernel :: PolicyDecision
  gr_escalation :: "GoalEscalation option"
  gr_inGoalEnvelope :: bool
  gr_authorizationRevision :: string
  gr_permission :: "delegated option"

subsection \<open>The graph\<close>

fun principalName :: "PolicyPrincipalV1 \<Rightarrow> string" where
  "principalName (HumanPrincipal i) = ''human:'' @ i"
| "principalName (AgentPrincipal i) = ''agent:'' @ i"

definition GOAL_CLASSES :: "string list" where
  "GOAL_CLASSES = [''goal-envelope'', ''goal-task'']"

definition scopeGraph :: "(string \<times> string) option \<Rightarrow> string \<Rightarrow> string option \<Rightarrow> bool \<Rightarrow> bool \<Rightarrow> PolicyState" where
  "scopeGraph operation user process inGoalEnvelope selectedByTask =
    (let accessRights = (case operation of Some (_, right) \<Rightarrow> [right] | None \<Rightarrow> []) in
     \<lparr>elements = [\<lparr>el_id = user, el_kind = User\<rparr>, \<lparr>el_id = ''goal-request'', el_kind = Object\<rparr>]
        @ concat (map (\<lambda>i. [\<lparr>el_id = ''ua:'' @ i, el_kind = UserAttribute\<rparr>, \<lparr>el_id = ''oa:'' @ i, el_kind = ObjectAttribute\<rparr>,
            \<lparr>el_id = ''pc:'' @ i, el_kind = PolicyClass\<rparr>]) GOAL_CLASSES),
      assignments = concat (map (\<lambda>i. [\<lparr>child = user, parent = ''ua:'' @ i\<rparr>, \<lparr>child = ''ua:'' @ i, parent = ''pc:'' @ i\<rparr>,
        \<lparr>child = ''goal-request'', parent = ''oa:'' @ i\<rparr>, \<lparr>child = ''oa:'' @ i, parent = ''pc:'' @ i\<rparr>]) GOAL_CLASSES),
      operations = (case operation of Some (i, _) \<Rightarrow> [\<lparr>op_id = i, op_accessRights = accessRights\<rparr>] | None \<Rightarrow> []),
      processUsers = map_option (\<lambda>p. [\<lparr>pu_process = p, pu_user = user\<rparr>]) (truthy process),
      associations = map (\<lambda>i. \<lparr>as_id = i, as_userAttribute = ''ua:'' @ i, as_accessRights = accessRights, as_targetAttribute = ''oa:'' @ i\<rparr>)
        (filter (\<lambda>i. if i = ''goal-envelope'' then inGoalEnvelope else selectedByTask) GOAL_CLASSES),
      prohibitions = None\<rparr>)"

definition productOperation :: "string \<Rightarrow> (string \<times> string) option" where
  "productOperation operation = map_option (Pair operation) (map_of PRODUCT_OPERATION_ACCESS_RIGHTS operation)"

definition scopeKernel :: "string \<Rightarrow> string \<Rightarrow> string option \<Rightarrow> bool \<Rightarrow> bool \<Rightarrow> PolicyDecision \<Rightarrow> PolicyDecision" where
  "scopeKernel operation user process inGoalEnvelope selectedByTask humanKernel =
    (if effect humanKernel = Deny then humanKernel
     else evaluateAccess (scopeGraph (productOperation operation) user process inGoalEnvelope selectedByTask)
       \<lparr>rq_user = Some user, rq_process = truthy process, rq_operation = operation, rq_target = ''goal-request''\<rparr>)"

subsection \<open>Revisions\<close>

definition optionalMember :: "string \<Rightarrow> string option \<Rightarrow> (string \<times> JsValue) list" where
  "optionalMember k v = (case v of None \<Rightarrow> [] | Some s \<Rightarrow> [(k, JStr s)])"

definition textsJson :: "string list \<Rightarrow> JsValue" where
  "textsJson xs = JArr (map JStr xs)"

fun reasonMember :: "PolicyDecisionReason \<Rightarrow> string \<times> JsValue" where
  "reasonMember (AssociationGrant a) = (''associationId'', JStr a)"
| "reasonMember (MissingPrivilege a) = (''accessRight'', JStr a)"
| "reasonMember (Restriction a) = (''prohibitionId'', JStr a)"
| "reasonMember (MissingOperation a) = (''operation'', JStr a)"
| "reasonMember (InvalidPolicy a) = (''message'', JStr a)"
| "reasonMember (InvalidRequest a) = (''message'', JStr a)"

definition kernelJson :: "PolicyDecision \<Rightarrow> JsValue" where
  "kernelJson d =
    JObj [(''effect'', JStr (case effect d of Allow \<Rightarrow> ''allow'' | Deny \<Rightarrow> ''deny'')),
      (''reasons'', JArr (map (\<lambda>r. JObj [(''code'', JStr (reasonCode r)), reasonMember r]) (reasons d))),
      (''trace'', JObj (optionalMember ''user'' (tr_user (trace d)) @ optionalMember ''process'' (tr_process (trace d))
        @ [(''requiredAccessRights'', textsJson (requiredAccessRights (trace d))), (''userClosure'', textsJson (userClosure (trace d))),
           (''targetClosure'', textsJson (targetClosure (trace d))), (''policyClasses'', textsJson (policyClasses (trace d))),
           (''matchedAssociations'', textsJson (matchedAssociations (trace d))),
           (''matchedProhibitions'', textsJson (matchedProhibitions (trace d)))]))]"

definition referenceJson :: "Platform \<Rightarrow> PolicyStatementV1 \<Rightarrow> JsValue" where
  "referenceJson pf s = JObj [(''id'', JStr (st_id s)), (''digest'', JStr (policyDigest pf (statementJson s)))]"

subsection \<open>Access\<close>

text \<open>\<^verbatim>\<open>find\<close> with a predicate that may throw.\<close>

fun findE :: "('a \<Rightarrow> bool result) \<Rightarrow> 'a list \<Rightarrow> 'a option result" where
  "findE f [] = Inr None"
| "findE f (x # xs) = bindE (f x) (\<lambda>found. if found then Inr (Some x) else findE f xs)"

definition resourceIn :: "Platform \<Rightarrow> PolicyResourceV1 \<Rightarrow> PolicyResourceV1 list \<Rightarrow> bool" where
  "resourceIn pf r rs = list_ex (\<lambda>v. policyDigest pf (resourceJson v) = policyDigest pf (resourceJson r)) rs"

definition goalEnvelope :: "Platform \<Rightarrow> GoalTaskAccessInput \<Rightarrow> bool" where
  "goalEnvelope pf i =
    (let subject = gi_subject i in
     case gi_domain i of
       None \<Rightarrow> False
     | Some (s, d) \<Rightarrow>
         st_state s = ActiveState \<and> (case st_author s of HumanPrincipal _ \<Rightarrow> True | AgentPrincipal _ \<Rightarrow> False)
         \<and> (case sj_principal subject of
              HumanPrincipal _ \<Rightarrow> False
            | AgentPrincipal agent \<Rightarrow>
                sj_onBehalfOf subject = None
                \<and> (case sj_actor subject of ResponsibleActor k a _ \<Rightarrow> k = AgentActor \<and> a = agent | _ \<Rightarrow> False)
                \<and> sj_responsibleHumanId subject = gi_responsibleHumanId i
                \<and> map_option pp_workspaceId (sj_process subject) = Some (ds_workspaceId (dl_source d))
                \<and> AgentPrincipal agent \<in> set (ps_subjects (st_scope s))
                \<and> gi_operation i \<in> set (ps_actions (st_scope s)) \<and> resourceIn pf (gi_resource i) (ps_resources (st_scope s))))"

definition permissionApplies :: "Platform \<Rightarrow> GoalTaskAccessInput \<Rightarrow> domain \<Rightarrow> delegated \<Rightarrow> bool result" where
  "permissionApplies pf i domain candidate =
    (let (s, d) = domain; (c, p) = candidate in
     bindE (parseWith (\<lambda>c. statementSchema (pf_parseUrl pf) c \<and> st_body c = PermissionBody p) c) (\<lambda>_.
     Inr (st_state c = ActiveState \<and> pm_effect p = AllowEffect \<and> pm_grant p = OrdinaryGrant
       \<and> (case (st_author c, dl_delegate d) of
            (AgentPrincipal a, AgentPrincipal b) \<Rightarrow> a = b | (AgentPrincipal a, HumanPrincipal b) \<Rightarrow> a = b | _ \<Rightarrow> False)
       \<and> st_authority c = DelegationAuthority \<lparr>sf_id = st_id s, sf_digest = policyDigest pf (statementJson s)\<rparr>
       \<and> policyScopeContains pf (st_scope s) (st_scope c)
       \<and> list_ex (\<lambda>v. policyDigest pf (principalJson v) = policyDigest pf (principalJson (sj_principal (gi_subject i)))) (ps_subjects (st_scope c))
       \<and> gi_operation i \<in> set (ps_actions (st_scope c)) \<and> resourceIn pf (gi_resource i) (ps_resources (st_scope c)))))"

definition selectedPermission :: "Platform \<Rightarrow> GoalTaskAccessInput \<Rightarrow> bool \<Rightarrow> delegated option result" where
  "selectedPermission pf i selectedByTask =
    (case gi_domain i of
       None \<Rightarrow> Inr None
     | Some domain \<Rightarrow> if selectedByTask then Inr None else findE (permissionApplies pf i domain) (listOr (gi_permissions i)))"

definition goalEscalation :: "GoalTaskAccessInput \<Rightarrow> bool \<Rightarrow> bool \<Rightarrow> bool \<Rightarrow> PolicyDecision \<Rightarrow> GoalEscalation option" where
  "goalEscalation i inGoalEnvelope selectedByTask permitted decision =
    (case gi_domain i of
       None \<Rightarrow> None
     | Some (s, d) \<Rightarrow>
         if inGoalEnvelope \<and> \<not> selectedByTask \<and> \<not> permitted \<and> effect (gi_humanKernel i) = Allow
            \<and> effect decision = Deny \<and> reasons decision \<noteq> []
            \<and> list_all (\<lambda>r. reasonCode r = ''missing-privilege'') (reasons decision)
         then Some \<lparr>ge_workspaceId = ds_workspaceId (dl_source d), ge_goalId = ds_goalId (dl_source d),
           ge_agentId = (case dl_delegate d of AgentPrincipal a \<Rightarrow> a | HumanPrincipal h \<Rightarrow> h)\<rparr>
         else None)"

definition accessRevision :: "Platform \<Rightarrow> GoalTaskAccessInput \<Rightarrow> delegated option \<Rightarrow> string" where
  "accessRevision pf i permission =
    policyDigest pf (JObj [(''domain'', nullJson (\<lambda>d. referenceJson pf (fst d)) (gi_domain i)),
      (''subject'', subjectJson (gi_subject i)), (''responsibleHumanId'', JStr (gi_responsibleHumanId i)),
      (''resources'', JArr (map resourceJson (gi_resources i))),
      (''permission'', nullJson (\<lambda>p. referenceJson pf (fst p)) permission), (''operation'', JStr (gi_operation i)),
      (''resource'', resourceJson (gi_resource i)), (''humanKernel'', kernelJson (gi_humanKernel i))])"

definition evaluateGoalTaskAccess :: "Platform \<Rightarrow> GoalTaskAccessInput \<Rightarrow> GoalTaskAccessResult result" where
  "evaluateGoalTaskAccess pf i =
    bindE (parseWith PolicySubjectV1Schema (gi_subject i)) (\<lambda>subject.
    bindE (parseWith PolicyResourceV1Schema (gi_resource i)) (\<lambda>resource.
    bindE (mapE (parseWith PolicyResourceV1Schema) (gi_resources i)) (\<lambda>resources.
    bindE (parseWith (isEntityId ''usr'') (gi_responsibleHumanId i)) (\<lambda>_.
    let inGoalEnvelope = goalEnvelope pf i; selectedByTask = resourceIn pf resource resources in
    bindE (selectedPermission pf i selectedByTask) (\<lambda>permission.
    let decision = scopeKernel (gi_operation i) (principalName (sj_principal subject)) (map_option pp_turnId (sj_process subject))
          inGoalEnvelope (selectedByTask \<or> permission \<noteq> None) (gi_humanKernel i)
    in Inr \<lparr>gr_kernel = decision,
         gr_escalation = goalEscalation i inGoalEnvelope selectedByTask (permission \<noteq> None) decision,
         gr_inGoalEnvelope = inGoalEnvelope, gr_authorizationRevision = accessRevision pf i permission,
         gr_permission = permission\<rparr>)))))"

subsection \<open>Admission of a prepared Task\<close>

record GoalTaskAdmissionInput =
  ga_domain :: "domain option"
  ga_workspaceId :: string
  ga_planVersionId :: string
  ga_agentId :: string
  ga_resources :: "PolicyResourceV1 list"
  ga_humanKernel :: PolicyDecision

record GoalTaskAdmission =
  gd_domainAvailable :: bool
  gd_kernel :: PolicyDecision
  gd_authorizationRevision :: string

definition evaluateGoalTaskAdmission :: "Platform \<Rightarrow> GoalTaskAdmissionInput \<Rightarrow> GoalTaskAdmission result" where
  "evaluateGoalTaskAdmission pf i =
    bindE (parseWith textSchema (ga_agentId i)) (\<lambda>agentId.
    bindE (mapE (parseWith PolicyResourceV1Schema) (ga_resources i)) (\<lambda>resources.
    let inGoalEnvelope = (case ga_domain i of
            None \<Rightarrow> False
          | Some (s, d) \<Rightarrow> st_state s = ActiveState \<and> ds_workspaceId (dl_source d) = ga_workspaceId i
              \<and> ds_planVersionId (dl_source d) = ga_planVersionId i \<and> AgentPrincipal agentId \<in> set (ps_subjects (st_scope s)));
        selectedByTask = (case ga_domain i of
            None \<Rightarrow> False
          | Some (s, d) \<Rightarrow> list_all (\<lambda>r. resourceIn pf r (ps_resources (st_scope s))) resources)
    in Inr \<lparr>gd_domainAvailable = (case ga_domain i of None \<Rightarrow> False | Some (s, d) \<Rightarrow> st_state s = ActiveState),
         gd_kernel = scopeKernel ''turn.run'' (''agent:'' @ agentId) None inGoalEnvelope selectedByTask (ga_humanKernel i),
         gd_authorizationRevision = policyDigest pf (JObj
           [(''domain'', nullJson (\<lambda>d. statementJson (fst d)) (ga_domain i)), (''workspaceId'', JStr (ga_workspaceId i)),
            (''planVersionId'', JStr (ga_planVersionId i)), (''agentId'', JStr agentId),
            (''resources'', JArr (map resourceJson resources)), (''humanKernel'', kernelJson (ga_humanKernel i))])\<rparr>))"

end
