(* ===== verification/Goal_Access_Properties.thy ===== *)
theory Goal_Access_Properties
  imports Goal_Task_Access Interception_Properties Policy_Admission
begin

text \<open>
  What Goal Task access guarantees, through the layered graph it hands to the kernel, and how its
  escalation meets the check of the deciding point.
\<close>

lemma productOperation_Some: "productOperation operation = Some x \<longleftrightarrow> (\<exists>right. map_of PRODUCT_OPERATION_ACCESS_RIGHTS operation = Some right \<and> x = (operation, right))"
  by (auto simp: productOperation_def)

lemma principalName_prefix [simp]:
  "principalName p \<noteq> ''goal-request''" "principalName p \<noteq> CHR ''u'' # x" "principalName p \<noteq> CHR ''o'' # x" "principalName p \<noteq> CHR ''p'' # x"
  "''goal-request'' \<noteq> principalName p" "CHR ''u'' # x \<noteq> principalName p" "CHR ''o'' # x \<noteq> principalName p" "CHR ''p'' # x \<noteq> principalName p"
  by (cases p; simp)+

lemma principalName_nonempty [simp]: "principalName p \<noteq> []"
  by (cases p) simp_all

lemma scope_kinds:
  "element_kind (scopeGraph op (principalName p) process a b) (principalName p) = Some User"
  "element_kind (scopeGraph op (principalName p) process a b) ''goal-request'' = Some Object"
  "i \<in> set GOAL_CLASSES \<Longrightarrow> element_kind (scopeGraph op (principalName p) process a b) (''ua:'' @ i) = Some UserAttribute"
  "i \<in> set GOAL_CLASSES \<Longrightarrow> element_kind (scopeGraph op (principalName p) process a b) (''oa:'' @ i) = Some ObjectAttribute"
  "i \<in> set GOAL_CLASSES \<Longrightarrow> element_kind (scopeGraph op (principalName p) process a b) (''pc:'' @ i) = Some PolicyClass"
  by (auto simp: scopeGraph_def GOAL_CLASSES_def Let_def element_kind_def)

lemma scope_fields:
  "elements (scopeGraph op u process a b) = [\<lparr>el_id = u, el_kind = User\<rparr>, \<lparr>el_id = ''goal-request'', el_kind = Object\<rparr>]
    @ concat (map (\<lambda>i. [\<lparr>el_id = ''ua:'' @ i, el_kind = UserAttribute\<rparr>, \<lparr>el_id = ''oa:'' @ i, el_kind = ObjectAttribute\<rparr>,
        \<lparr>el_id = ''pc:'' @ i, el_kind = PolicyClass\<rparr>]) GOAL_CLASSES)"
  "assignments (scopeGraph op u process a b) = concat (map (\<lambda>i. [\<lparr>child = u, parent = ''ua:'' @ i\<rparr>, \<lparr>child = ''ua:'' @ i, parent = ''pc:'' @ i\<rparr>,
    \<lparr>child = ''goal-request'', parent = ''oa:'' @ i\<rparr>, \<lparr>child = ''oa:'' @ i, parent = ''pc:'' @ i\<rparr>]) GOAL_CLASSES)"
  "processUsers (scopeGraph op u process a b) = map_option (\<lambda>p. [\<lparr>pu_process = p, pu_user = u\<rparr>]) (truthy process)"
  "associations (scopeGraph (Some (i, right)) u process a b) =
    map (\<lambda>i. \<lparr>as_id = i, as_userAttribute = ''ua:'' @ i, as_accessRights = [right], as_targetAttribute = ''oa:'' @ i\<rparr>)
        (filter (\<lambda>i. if i = ''goal-envelope'' then a else b) GOAL_CLASSES)"
  "operations (scopeGraph (Some (i, right)) u process a b) = [\<lparr>op_id = i, op_accessRights = [right]\<rparr>]"
  "prohibitions (scopeGraph op u process a b) = None"
  by (simp_all add: scopeGraph_def Let_def)

lemma goal_connected: "list_all (\<lambda>e. el_kind e = PolicyClass \<or> el_id e \<in> child ` set (assignments (scopeGraph op u process a b)))
   (elements (scopeGraph op u process a b))"
  unfolding scope_fields list_all_iff by (auto simp: image_iff GOAL_CLASSES_def)

interpretation goal_scope: layered_policy "scopeGraph (Some operation) (principalName p) process inGoal inTask" "principalName p" "''goal-request''"
  for operation p process inGoal inTask
proof -
  let ?P = "scopeGraph (Some operation) (principalName p) process inGoal inTask"
  obtain i right where operation: "operation = (i, right)" by (cases operation)
  show "layered_policy ?P (principalName p) ''goal-request''"
  proof (rule layered_policyI)
    show "list_all (\<lambda>e. el_id e \<noteq> []) (elements ?P)" "distinct (map el_id (elements ?P))"
      by (simp_all add: scope_fields GOAL_CLASSES_def)
    show "list_all (\<lambda>a. (element_kind ?P (child a), element_kind ?P (parent a)) \<in> layerPairs) (assignments ?P)"
      unfolding scope_fields(2) list_all_iff layerPairs_def using scope_kinds by fastforce
    show "list_all (\<lambda>s. element_kind ?P (as_userAttribute s) = Some UserAttribute
        \<and> element_kind ?P (as_targetAttribute s) = Some ObjectAttribute \<and> as_accessRights s \<noteq> []) (associations ?P)"
      unfolding operation scope_fields(4) list_all_iff using scope_kinds by auto
    show "list_all (\<lambda>m. pu_user m = principalName p) (or_empty (processUsers ?P))"
      unfolding scope_fields(3) by (cases "truthy process") (simp_all add: or_empty_def)
  qed (simp_all add: scope_kinds goal_connected operation scope_fields(5,6) or_empty_def)
qed
lemma scope_assigned:
  "(x, y) \<in> assigned (scopeGraph operation user process inGoal inTask) \<longleftrightarrow>
    (\<exists>i\<in>set GOAL_CLASSES. x = user \<and> y = ''ua:'' @ i \<or> x = ''ua:'' @ i \<and> y = ''pc:'' @ i
      \<or> x = ''goal-request'' \<and> y = ''oa:'' @ i \<or> x = ''oa:'' @ i \<and> y = ''pc:'' @ i)"
  by (auto simp: assigned_iff scope_fields)

lemma scope_granted:
  "goal_scope.granted (operation, right) p process inGoal inTask right (''pc:'' @ i) \<longleftrightarrow>
    i = ''goal-envelope'' \<and> inGoal \<or> i = ''goal-task'' \<and> inTask"
  by (auto simp: goal_scope.granted_def goal_scope.member_def goal_scope.filed_def scope_assigned)
    (auto simp: scope_fields GOAL_CLASSES_def split: if_splits)

lemma scope_classes:
  "goal_scope.filed (operation, right) p process inGoal inTask oa
      \<and> (oa, pc) \<in> assigned (scopeGraph (Some (operation, right)) (principalName p) process inGoal inTask)
    \<longleftrightarrow> (\<exists>i\<in>set GOAL_CLASSES. oa = ''oa:'' @ i \<and> pc = ''pc:'' @ i)"
  by (auto simp: goal_scope.filed_def scope_assigned)

lemma scopeKernel_allow:
  "effect (scopeKernel operation (principalName p) process inGoal inTask human) = Allow \<longleftrightarrow>
    effect human = Allow \<and> operation \<in> fst ` set PRODUCT_OPERATION_ACCESS_RIGHTS \<and> inGoal \<and> inTask"
proof (cases "map_of PRODUCT_OPERATION_ACCESS_RIGHTS operation")
  case None
  let ?P = "scopeGraph None (principalName p) process inGoal inTask"
  have "named ?P" by (cases p) (simp_all add: named_def scopeGraph_def GOAL_CLASSES_def Let_def)
  then have "effect (evaluateAccess ?P r) \<noteq> Allow" for r
    using kernel.eval_iff [of ?P r] by (auto simp: ngac_permits_def scopeGraph_def Let_def)
  moreover have "operation \<notin> fst ` set PRODUCT_OPERATION_ACCESS_RIGHTS" using None by (simp add: map_of_eq_None_iff)
  ultimately show ?thesis using None by (cases "effect human") (auto simp: scopeKernel_def productOperation_def)
next
  case (Some right)
  let ?P = "scopeGraph (Some (operation, right)) (principalName p) process inGoal inTask"
  let ?r = "\<lparr>rq_user = Some (principalName p), rq_process = truthy process, rq_operation = operation, rq_target = ''goal-request''\<rparr>"
  have "operation \<in> fst ` set PRODUCT_OPERATION_ACCESS_RIGHTS" using map_of_SomeD [OF Some] by force
  moreover have "effect (evaluateAccess ?P ?r) = Allow \<longleftrightarrow> (\<forall>i\<in>set GOAL_CLASSES.
      goal_scope.granted (operation, right) p process inGoal inTask right (''pc:'' @ i))"
    using goal_scope.evaluate_iff [of ?r p "(operation, right)" process inGoal inTask]
    by (simp only: scope_classes) (auto simp: scope_fields)
  moreover have "(\<forall>i\<in>set GOAL_CLASSES. goal_scope.granted (operation, right) p process inGoal inTask right (''pc:'' @ i)) \<longleftrightarrow> inGoal \<and> inTask"
    unfolding scope_granted by (auto simp: GOAL_CLASSES_def)
  ultimately show ?thesis using Some by (cases "effect human") (auto simp: scopeKernel_def productOperation_def)
qed

lemma scopeKernel_missing:
  assumes "effect (scopeKernel operation (principalName p) process inGoal inTask human) = Deny" "effect human = Allow"
    "operation \<in> fst ` set PRODUCT_OPERATION_ACCESS_RIGHTS"
  shows "\<exists>right. reasons (scopeKernel operation (principalName p) process inGoal inTask human) = [MissingPrivilege right]"
proof -
  obtain right where right: "productOperation operation = Some (operation, right)"
    using assms(3) by (cases "map_of PRODUCT_OPERATION_ACCESS_RIGHTS operation") (auto simp: productOperation_def map_of_eq_None_iff)
  let ?P = "scopeGraph (Some (operation, right)) (principalName p) process inGoal inTask"
  let ?r = "\<lparr>rq_user = Some (principalName p), rq_process = truthy process, rq_operation = operation, rq_target = ''goal-request''\<rparr>"
  have same: "scopeKernel operation (principalName p) process inGoal inTask human = evaluateAccess ?P ?r"
    using assms(2) right by (simp add: scopeKernel_def)
  show ?thesis unfolding same
    by (rule goal_scope.evaluate_missing [where oper = "\<lparr>op_id = operation, op_accessRights = [right]\<rparr>"])
      (use assms(1) same in \<open>simp_all add: scope_fields\<close>)
qed

subsection \<open>The decision in terms of the statements\<close>

text \<open>The Goal envelope: an active domain of a human author that names the agent, the action and the
  resource, for the agent acting as itself in the domain's Workspace.\<close>

definition enveloped :: "GoalTaskAccessInput \<Rightarrow> PolicyStatementV1 \<Rightarrow> PolicyDelegationV1 \<Rightarrow> string \<Rightarrow> bool" where
  "enveloped i s d agent \<longleftrightarrow>
    st_state s = ActiveState \<and> (\<exists>h. st_author s = HumanPrincipal h)
    \<and> sj_principal (gi_subject i) = AgentPrincipal agent \<and> sj_onBehalfOf (gi_subject i) = None
    \<and> (\<exists>r. sj_actor (gi_subject i) = ResponsibleActor AgentActor agent r)
    \<and> sj_responsibleHumanId (gi_subject i) = gi_responsibleHumanId i
    \<and> map_option pp_workspaceId (sj_process (gi_subject i)) = Some (ds_workspaceId (dl_source d))
    \<and> AgentPrincipal agent \<in> set (ps_subjects (st_scope s))
    \<and> gi_operation i \<in> set (ps_actions (st_scope s)) \<and> gi_resource i \<in> set (ps_resources (st_scope s))"

text \<open>A delegated exception: an active ordinary allow that the delegate of the domain issued under it,
  within its scope, and that names the principal, the action and the resource.\<close>

definition excepted :: "Platform \<Rightarrow> GoalTaskAccessInput \<Rightarrow> PolicyStatementV1 \<Rightarrow> PolicyDelegationV1 \<Rightarrow> delegated \<Rightarrow> bool" where
  "excepted pf i s d = (\<lambda>(c, p).
    st_state c = ActiveState \<and> pm_effect p = AllowEffect \<and> pm_grant p = OrdinaryGrant
    \<and> (\<exists>a. st_author c = AgentPrincipal a \<and> dl_delegate d \<in> {AgentPrincipal a, HumanPrincipal a})
    \<and> st_authority c = DelegationAuthority \<lparr>sf_id = st_id s, sf_digest = policyDigest pf (statementJson s)\<rparr>
    \<and> set (ps_subjects (st_scope c)) \<subseteq> set (ps_subjects (st_scope s)) \<and> set (ps_actions (st_scope c)) \<subseteq> set (ps_actions (st_scope s))
    \<and> set (ps_resources (st_scope c)) \<subseteq> set (ps_resources (st_scope s))
    \<and> sj_principal (gi_subject i) \<in> set (ps_subjects (st_scope c))
    \<and> gi_operation i \<in> set (ps_actions (st_scope c)) \<and> gi_resource i \<in> set (ps_resources (st_scope c)))"

text \<open>The values that Goal Task access compares by digest.\<close>

definition comparedValues :: "GoalTaskAccessInput \<Rightarrow> JsValue set" where
  "comparedValues i =
    {principalJson (sj_principal (gi_subject i)), resourceJson (gi_resource i)} \<union> resourceJson ` set (gi_resources i)
    \<union> (case gi_domain i of None \<Rightarrow> {} | Some (s, d) \<Rightarrow> scopeValues (st_scope s))
    \<union> (\<Union>(c, p)\<in>set (listOr (gi_permissions i)). scopeValues (st_scope c))"

lemma compared_values:
  "principalJson (sj_principal (gi_subject i)) \<in> comparedValues i" "resourceJson (gi_resource i) \<in> comparedValues i"
  "resourceJson ` set (gi_resources i) \<subseteq> comparedValues i"
  "gi_domain i = Some (s, d) \<Longrightarrow> scopeValues (st_scope s) \<subseteq> comparedValues i"
  "(c, p) \<in> set (listOr (gi_permissions i)) \<Longrightarrow> scopeValues (st_scope c) \<subseteq> comparedValues i"
  unfolding comparedValues_def by auto

lemma resourceIn_iff:
  assumes "collision_free pf V" "resourceJson r \<in> V" "resourceJson ` set rs \<subseteq> V"
  shows "resourceIn pf r rs \<longleftrightarrow> r \<in> set rs"
proof -
  have "policyDigest pf (resourceJson v) = policyDigest pf (resourceJson r) \<longleftrightarrow> v = r" if "v \<in> set rs" for v
    using digest_inj_on(2) [OF assms(1) _ assms(2)] assms(3) that by blast
  then show ?thesis unfolding resourceIn_def list_ex_iff by blast
qed

lemma compared_resources:
  assumes "collision_free pf (comparedValues i)"
  shows "resourceIn pf (gi_resource i) (gi_resources i) \<longleftrightarrow> gi_resource i \<in> set (gi_resources i)"
    and "gi_domain i = Some (s, d) \<Longrightarrow>
      resourceIn pf (gi_resource i) (ps_resources (st_scope s)) \<longleftrightarrow> gi_resource i \<in> set (ps_resources (st_scope s))"
    and "(c, p) \<in> set (listOr (gi_permissions i)) \<Longrightarrow>
      resourceIn pf (gi_resource i) (ps_resources (st_scope c)) \<longleftrightarrow> gi_resource i \<in> set (ps_resources (st_scope c))"
  by (rule resourceIn_iff [OF assms compared_values(2) compared_values(3)]
      resourceIn_iff [OF assms compared_values(2) order_trans [OF scope_values(3) compared_values(4)]]
      resourceIn_iff [OF assms compared_values(2) order_trans [OF scope_values(3) compared_values(5)]]; assumption)+

lemma compared_principal:
  assumes "collision_free pf (comparedValues i)" "(c, p) \<in> set (listOr (gi_permissions i))"
  shows "list_ex (\<lambda>v. policyDigest pf (principalJson v) = policyDigest pf (principalJson (sj_principal (gi_subject i))))
      (ps_subjects (st_scope c)) \<longleftrightarrow> sj_principal (gi_subject i) \<in> set (ps_subjects (st_scope c))"
proof -
  have "policyDigest pf (principalJson v) = policyDigest pf (principalJson (sj_principal (gi_subject i))) \<longleftrightarrow> v = sj_principal (gi_subject i)"
    if "v \<in> set (ps_subjects (st_scope c))" for v
    using digest_inj_on(1) [OF assms(1) _ compared_values(1)] compared_values(5) [OF assms(2)] scope_values(1) that by blast
  then show ?thesis unfolding list_ex_iff by blast
qed

lemma compared_scopes:
  assumes "collision_free pf (comparedValues i)" "gi_domain i = Some (s, d)" "(c, p) \<in> set (listOr (gi_permissions i))"
  shows "collision_free pf (scopeValues (st_scope s) \<union> scopeValues (st_scope c))"
  by (rule collision_free_mono [OF assms(1) Un_least [OF compared_values(4) [OF assms(2)] compared_values(5) [OF assms(3)]]])

lemma goalEnvelope_iff:
  assumes "collision_free pf (comparedValues i)"
  shows "goalEnvelope pf i \<longleftrightarrow> (\<exists>s d agent. gi_domain i = Some (s, d) \<and> enveloped i s d agent)"
  unfolding goalEnvelope_def enveloped_def Let_def
  by (cases "gi_domain i"; cases "sj_principal (gi_subject i)"; cases "sj_actor (gi_subject i)")
    (auto simp: compared_resources(2) [OF assms] split: PolicyPrincipalV1.splits)

lemma permissionApplies_iff:
  assumes "collision_free pf (comparedValues i)" "gi_domain i = Some (s, d)" "x \<in> set (listOr (gi_permissions i))"
    "permissionApplies pf i (s, d) x = Inr b"
  shows "b \<longleftrightarrow> excepted pf i s d x"
proof -
  obtain c p where x: "x = (c, p)" by (cases x)
  note current = assms(3) [unfolded x]
  have author: "(case st_author c of HumanPrincipal _ \<Rightarrow> False
      | AgentPrincipal a \<Rightarrow> (case dl_delegate d of HumanPrincipal b \<Rightarrow> a = b | AgentPrincipal b \<Rightarrow> a = b))
    \<longleftrightarrow> (\<exists>a. st_author c = AgentPrincipal a \<and> dl_delegate d \<in> {AgentPrincipal a, HumanPrincipal a})"
    by (cases "st_author c"; cases "dl_delegate d") auto
  show ?thesis
    using assms(4) unfolding x permissionApplies_def excepted_def Let_def prod.case author bindE_Inr_iff sum.inject
      compared_principal [OF assms(1) current] compared_resources(3) [OF assms(1) current]
      policyScopeContains_iff [OF compared_scopes [OF assms(1,2) current]]
    by (elim exE conjE) (simp only: conj_assoc)
qed

lemma findE_Inr:
  assumes "findE f xs = Inr r"
  shows "r = None \<and> (\<forall>x\<in>set xs. f x = Inr False) \<or> (\<exists>x\<in>set xs. r = Some x \<and> f x = Inr True)"
  using assms by (induction xs) (auto simp: bindE_Inr_iff split: if_splits)

lemma selectedPermission_iff:
  assumes "collision_free pf (comparedValues i)" "selectedPermission pf i False = Inr r" "gi_domain i = Some (s, d)"
  shows "r \<noteq> None \<longleftrightarrow> (\<exists>x\<in>set (listOr (gi_permissions i)). excepted pf i s d x)"
proof -
  have find: "findE (permissionApplies pf i (s, d)) (listOr (gi_permissions i)) = Inr r"
    using assms(2,3) by (simp add: selectedPermission_def)
  have applies: "b \<longleftrightarrow> excepted pf i s d x" if "x \<in> set (listOr (gi_permissions i))" "permissionApplies pf i (s, d) x = Inr b" for x b
    by (rule permissionApplies_iff [OF assms(1,3) that])
  from findE_Inr [OF find] show ?thesis
  proof
    assume "r = None \<and> (\<forall>x\<in>set (listOr (gi_permissions i)). permissionApplies pf i (s, d) x = Inr False)"
    then show ?thesis using applies by blast
  next
    assume "\<exists>x\<in>set (listOr (gi_permissions i)). r = Some x \<and> permissionApplies pf i (s, d) x = Inr True"
    then show ?thesis using applies by blast
  qed
qed

lemma mapE_parseWith: "mapE (parseWith ok) xs = Inr ys \<longleftrightarrow> list_all ok xs \<and> ys = xs"
  by (induction xs arbitrary: ys) (auto simp: bindE_Inr_iff parseWith_Inr_iff)

lemma access_parts:
  assumes "evaluateGoalTaskAccess pf i = Inr result"
  obtains permission where
    "selectedPermission pf i (resourceIn pf (gi_resource i) (gi_resources i)) = Inr permission"
    "gr_permission result = permission" "gr_inGoalEnvelope result = goalEnvelope pf i"
    "gr_kernel result = scopeKernel (gi_operation i) (principalName (sj_principal (gi_subject i)))
      (map_option pp_turnId (sj_process (gi_subject i))) (goalEnvelope pf i)
      (resourceIn pf (gi_resource i) (gi_resources i) \<or> permission \<noteq> None) (gi_humanKernel i)"
    "gr_escalation result = goalEscalation i (goalEnvelope pf i) (resourceIn pf (gi_resource i) (gi_resources i))
      (permission \<noteq> None) (gr_kernel result)"
  using assms that by (auto simp: evaluateGoalTaskAccess_def Let_def bindE_Inr_iff parseWith_Inr_iff mapE_parseWith)

text \<open>C8: A Goal Task is allowed exactly by its statements. When the hash has no collision among the
  principals, actions and resources compared, the access of a Goal Task is allowed exactly when the independent human decision allows, the operation is one of
  the product, the Goal domain is an active statement of a human author that names the acting agent,
  the action and the resource for the responsible human and the Workspace of the process, and the
  Task itself names the resource or a current permission that the domain's delegate issued under
  the domain and within its scope names the principal, the action and the resource.\<close>

theorem goal_task_access_exact:
  assumes "collision_free pf (comparedValues i)" "evaluateGoalTaskAccess pf i = Inr result"
  shows "effect (gr_kernel result) = Allow \<longleftrightarrow>
    effect (gi_humanKernel i) = Allow \<and> gi_operation i \<in> fst ` set PRODUCT_OPERATION_ACCESS_RIGHTS
    \<and> (\<exists>s d agent. gi_domain i = Some (s, d) \<and> enveloped i s d agent
        \<and> (gi_resource i \<in> set (gi_resources i) \<or> (\<exists>x\<in>set (listOr (gi_permissions i)). excepted pf i s d x)))"
proof -
  obtain permission where p: "selectedPermission pf i (gi_resource i \<in> set (gi_resources i)) = Inr permission"
      "gr_kernel result = scopeKernel (gi_operation i) (principalName (sj_principal (gi_subject i)))
        (map_option pp_turnId (sj_process (gi_subject i))) (goalEnvelope pf i)
        (gi_resource i \<in> set (gi_resources i) \<or> permission \<noteq> None) (gi_humanKernel i)"
    using access_parts [OF assms(2)] unfolding compared_resources(1) [OF assms(1)] by blast
  show ?thesis
  proof (cases "gi_domain i")
    case None
    then show ?thesis unfolding p(2) scopeKernel_allow goalEnvelope_iff [OF assms(1)] by simp
  next
    case (Some domain)
    then obtain s d where domain: "gi_domain i = Some (s, d)" by (cases domain) simp
    have "permission \<noteq> None \<longleftrightarrow> (\<exists>x\<in>set (listOr (gi_permissions i)). excepted pf i s d x)" if "gi_resource i \<notin> set (gi_resources i)"
      using selectedPermission_iff [OF assms(1) _ domain, of permission] p(1) that by simp
    then have "gi_resource i \<in> set (gi_resources i) \<or> permission \<noteq> None \<longleftrightarrow>
        gi_resource i \<in> set (gi_resources i) \<or> (\<exists>x\<in>set (listOr (gi_permissions i)). excepted pf i s d x)" by argo
    then show ?thesis unfolding p(2) scopeKernel_allow goalEnvelope_iff [OF assms(1)] by (simp add: domain)
  qed
qed

subsection \<open>Escalation\<close>

text \<open>The gap that Goal Task access reports: the Goal names the effect, the Task does not.\<close>

lemma escalation_gap:
  assumes "evaluateGoalTaskAccess pf i = Inr result" "gr_escalation result = Some e"
  obtains s d where "gi_domain i = Some (s, d)" "gr_inGoalEnvelope result" "effect (gr_kernel result) = Deny"
    "reasons (gr_kernel result) \<noteq> []" "list_all (\<lambda>r. reasonCode r = ''missing-privilege'') (reasons (gr_kernel result))"
    "ge_workspaceId e = ds_workspaceId (dl_source d)" "ge_goalId e = ds_goalId (dl_source d)" "gr_permission result = None"
proof -
  obtain permission where "gr_permission result = permission" "gr_inGoalEnvelope result = goalEnvelope pf i"
      "gr_escalation result = goalEscalation i (goalEnvelope pf i) (resourceIn pf (gi_resource i) (gi_resources i))
        (permission \<noteq> None) (gr_kernel result)"
    by (rule access_parts [OF assms(1)])
  then show ?thesis using assms(2) that by (cases permission) (auto simp: goalEscalation_def split: option.splits if_splits)
qed

lemma escalation_workspace:
  assumes "evaluateGoalTaskAccess pf i = Inr result" "gr_escalation result = Some e"
  shows "\<exists>p. sj_process (gi_subject i) = Some p \<and> pp_workspaceId p = ge_workspaceId e"
proof -
  obtain s d where s: "gi_domain i = Some (s, d)" "gr_inGoalEnvelope result" "ge_workspaceId e = ds_workspaceId (dl_source d)"
    by (rule escalation_gap [OF assms])
  have "goalEnvelope pf i" using access_parts [OF assms(1)] s(2) by metis
  then show ?thesis using s(1,3) by (auto simp: goalEnvelope_def Let_def split: PolicyPrincipalV1.splits)
qed

text \<open>Goal Task access and the deciding point agree on escalation. When Goal Task access answers for the
  Workspace of the acting process, the deciding point never takes its escalation for a contradiction:
  unless an earlier result already refuses, a reported gap becomes the request for escalation to
  the Coordinator of that Goal, and otherwise the decision of the Kernel is the result, an error only
  when the Kernel reports an invalid policy, an invalid request or an unknown operation.\<close>

theorem goal_escalation_consistent:
  assumes "evaluateGoalTaskAccess pf g = Inr result"
    and "sj_process (gi_subject g) = Some process" "pq_workspaceId (ii_proposal i) = Some (pp_workspaceId process)"
  shows "judgeKernel i results (Inr (GoalKernel (gr_kernel result) (gr_escalation result) (gr_inGoalEnvelope result))) =
    (case gr_escalation result of
       Some e \<Rightarrow>
         if list_ex (\<lambda>r. r \<noteq> AllowResult \<and> r \<noteq> NotApplicableResult) results then (results, Some (gr_kernel result), None)
         else (results @ [RequireEscalationResult], Some (gr_kernel result), Some e)
     | None \<Rightarrow>
         (results @ [if hasReason [''invalid-policy'', ''invalid-request'', ''missing-operation''] (gr_kernel result) then ErrorResult
            else effectResult (gr_kernel result)], Some (gr_kernel result), None))"
proof (cases "gr_escalation result")
  case (Some e)
  then obtain s d where s: "gr_inGoalEnvelope result" "effect (gr_kernel result) = Deny" "reasons (gr_kernel result) \<noteq> []"
      and codes: "list_all (\<lambda>r. reasonCode r = ''missing-privilege'') (reasons (gr_kernel result))"
    using escalation_gap [OF assms(1)] by metis
  have "\<not> hasReason [''invalid-policy'', ''invalid-request'', ''missing-operation''] (gr_kernel result)"
      "\<not> hasReason [''restriction''] (gr_kernel result)" "\<not> list_ex (\<lambda>r. reasonCode r \<noteq> ''missing-privilege'') (reasons (gr_kernel result))"
    using codes by (auto simp: hasReason_def list_all_iff list_ex_iff)
  moreover have "pq_workspaceId (ii_proposal i) = Some (ge_workspaceId e)" using escalation_workspace [OF assms(1) Some] assms(2,3) by auto
  ultimately show ?thesis using s Some by (simp add: judgeKernel_def kernelOf_def Let_def)
qed (simp add: judgeKernel_def kernelOf_def Let_def)

end
