(* ===== verification/Product_Access.thy ===== *)
theory Product_Access
  imports Policy_Interception Layered_Policy
begin

text \<open>
  The primary admission of a product operation (\<^verbatim>\<open>apps/nanocore/src/policy/workspace-access.ts\<close>): the current
  identity, credential and target facts are projected into one graph with two policy classes, that
  of the target and that of the credential, and the kernel decides on it.

  The closure \<^verbatim>\<open>bind\<close> of the code appends one assignment and one association to the graph;
  \<open>productBindings\<close> is the list of its calls, in order.
\<close>

section \<open>The model\<close>

definition WORKSPACE_MEMBER_OPERATIONS :: "string list" where
  "WORKSPACE_MEMBER_OPERATIONS =
    [''approval.respond'', ''artifact.read'', ''artifact.write'', ''audit.read'', ''knowledge.propose'', ''knowledge.read'',
     ''knowledge.write'', ''llm.gateway.use'', ''membership.manage'', ''network.egress'', ''review.apply'', ''runtime.launch'',
     ''thread.read'', ''tool.grant'', ''tool.use'', ''turn.run'', ''vault.admin'', ''vault.use'', ''workspace.configure'',
     ''workspace.leave'', ''workspace.lifecycle'', ''workspace.read'', ''workspace.write'']"

definition IDENTITY_OPERATIONS :: "string list" where
  "IDENTITY_OPERATIONS = filter (\<lambda>operation. operation \<noteq> ''administration.configuration.apply'') (map fst PRODUCT_OPERATION_ACCESS_RIGHTS)"

definition SERVER_FAMILY_OPERATIONS :: "(string \<times> string list) list" where
  "SERVER_FAMILY_OPERATIONS =
    [(''administration'', IDENTITY_OPERATIONS), (''mcp'', [''api.call'']),
     (''knowledge'', [''knowledge.read'', ''knowledge.write'', ''review.apply'', ''thread.read'', ''turn.run''])]"

datatype AccessCredentialKind = LocalKind | SessionKind | TokenKind | RetainedAuthorKind

record AccessCredential =
  ac_current :: bool
  ac_workspaceBound :: bool
  ac_readOnly :: bool
  ac_kind :: AccessCredentialKind

record ProductAccessFacts =
  pa_userId :: string
  pa_activeUser :: bool
  pa_administrator :: bool
  pa_credential :: AccessCredential

datatype WorkspaceMembership = OwnerMembership | MemberMembership

record DeletedRecovery =
  dr_ownerActive :: bool
  dr_originalOwner :: bool

datatype ProductAccessTarget =
    UserTarget "string option" "bool option"
  | InvitationTarget string "string option"
  | ServerTarget "string option"
  | WorkspaceTarget string bool "WorkspaceMembership option" "DeletedRecovery option"

fun scopeKind :: "ProductAccessTarget \<Rightarrow> string" where
  "scopeKind (UserTarget _ _) = ''user''"
| "scopeKind (InvitationTarget _ _) = ''invitation''"
| "scopeKind (ServerTarget _) = ''server''"
| "scopeKind (WorkspaceTarget _ _ _ _) = ''workspace''"

text \<open>\<^verbatim>\<open>JSON.stringify\<close> of a list of two strings.\<close>

definition stringifyPair :: "string \<Rightarrow> string \<Rightarrow> string" where
  "stringifyPair a b = ''['' @ jsonString a @ '','' @ jsonString b @ '']''"

definition targetName :: "ProductAccessFacts \<Rightarrow> ProductAccessTarget \<Rightarrow> string" where
  "targetName facts scope =
    (case scope of
       ServerTarget family \<Rightarrow> ''object:server:'' @ orDefault family ''administration''
     | WorkspaceTarget workspaceId _ _ _ \<Rightarrow> ''object:'' @ stringifyPair (scopeKind scope) workspaceId
     | InvitationTarget invitationId _ \<Rightarrow> ''object:'' @ stringifyPair (scopeKind scope) invitationId
     | UserTarget userId _ \<Rightarrow> ''object:'' @ stringifyPair (scopeKind scope) (orDefault userId (pa_userId facts)))"

definition policyClass :: "ProductAccessTarget \<Rightarrow> string" where
  "policyClass scope = ''pc:'' @ scopeKind scope"

definition objects :: "ProductAccessTarget \<Rightarrow> string" where
  "objects scope = ''oa:'' @ scopeKind scope @ ''-resource''"

definition memberAttribute :: "ProductAccessTarget \<Rightarrow> string" where
  "memberAttribute scope = ''ua:'' @ scopeKind scope @ ''-member''"

definition administratorAttribute :: "ProductAccessTarget \<Rightarrow> string" where
  "administratorAttribute scope = ''ua:'' @ scopeKind scope @ ''-administrator''"

definition userName :: "ProductAccessFacts \<Rightarrow> string" where
  "userName facts = ''user:'' @ pa_userId facts"

definition currentSubject :: string where "currentSubject = ''ua:current-subject''"

definition credentialClass :: string where "credentialClass = ''pc:credential''"

definition credentialObjects :: string where "credentialObjects = ''oa:credential-resource''"

definition authenticated :: string where "authenticated = ''ua:credential-current''"

definition writable :: string where "writable = ''ua:credential-writable''"

definition accessRight :: "string \<Rightarrow> string" where
  "accessRight operation = orDefault (map_of PRODUCT_OPERATION_ACCESS_RIGHTS operation) ''''"

definition productBindings :: "ProductAccessFacts \<Rightarrow> ProductAccessTarget \<Rightarrow> (string \<times> string list \<times> string) list" where
  "productBindings facts scope =
    (let member = memberAttribute scope; administrator = administratorAttribute scope;
         interactive = ac_kind (pa_credential facts) \<in> {LocalKind, SessionKind}
     in if \<not> (pa_activeUser facts \<and> pa_userId facts \<noteq> '''') then []
        else case scope of
          WorkspaceTarget workspaceId active membership (Some recovery) \<Rightarrow>
            if dr_ownerActive recovery
            then (if dr_originalOwner recovery then [(member, [''workspace.write''], ''assoc:workspace-recovery-owner'')] else [])
              @ (if pa_administrator facts then [(administrator, [''workspace.write''], ''assoc:workspace-recovery-administrator'')] else [])
            else []
        | WorkspaceTarget workspaceId active membership None \<Rightarrow>
            if active \<and> workspaceId \<noteq> ''''
            then (if membership \<noteq> None then [(member, WORKSPACE_MEMBER_OPERATIONS, ''assoc:workspace-active-member'')] else [])
              @ (if pa_administrator facts then [(administrator, IDENTITY_OPERATIONS, ''assoc:workspace-administrator'')] else [])
            else []
        | InvitationTarget invitationId inviteeUserId \<Rightarrow>
            if inviteeUserId \<noteq> None
            then (if inviteeUserId = Some (pa_userId facts) \<and> interactive
                then [(member, [''invitation.respond''], ''assoc:invitation-invitee'')] else [])
              @ (if pa_administrator facts then [(administrator, [''invitation.respond''], ''assoc:invitation-administrator'')] else [])
            else []
        | UserTarget userId active \<Rightarrow>
            if active \<noteq> Some False
            then (if userId = None \<and> interactive then [(member, IDENTITY_OPERATIONS, ''assoc:user-authenticated'')] else [])
              @ (if pa_administrator facts then [(administrator, IDENTITY_OPERATIONS, ''assoc:user-administrator'')] else [])
            else []
        | ServerTarget given \<Rightarrow>
            let family = orDefault given ''administration'' in
            (case map_of SERVER_FAMILY_OPERATIONS family of
               Some ops \<Rightarrow>
                 if pa_administrator facts \<and> family \<noteq> '''' then [(administrator, ops, ''assoc:server-administrator:'' @ family)] else []
             | None \<Rightarrow> []))"

definition fixedAssignments :: "ProductAccessFacts \<Rightarrow> ProductAccessTarget \<Rightarrow> PolicyAssignment list" where
  "fixedAssignments facts scope =
    [\<lparr>child = userName facts, parent = currentSubject\<rparr>, \<lparr>child = currentSubject, parent = policyClass scope\<rparr>,
     \<lparr>child = currentSubject, parent = credentialClass\<rparr>, \<lparr>child = memberAttribute scope, parent = policyClass scope\<rparr>,
     \<lparr>child = administratorAttribute scope, parent = policyClass scope\<rparr>, \<lparr>child = targetName facts scope, parent = objects scope\<rparr>,
     \<lparr>child = objects scope, parent = policyClass scope\<rparr>, \<lparr>child = targetName facts scope, parent = credentialObjects\<rparr>,
     \<lparr>child = credentialObjects, parent = credentialClass\<rparr>, \<lparr>child = authenticated, parent = credentialClass\<rparr>,
     \<lparr>child = writable, parent = credentialClass\<rparr>]"

definition credentialAssignments :: "ProductAccessFacts \<Rightarrow> ProductAccessTarget \<Rightarrow> PolicyAssignment list" where
  "credentialAssignments facts scope =
    (if ac_current (pa_credential facts)
        \<and> (scopeKind scope \<noteq> ''workspace'' \<or> ac_workspaceBound (pa_credential facts) \<or> pa_administrator facts)
     then \<lparr>child = userName facts, parent = authenticated\<rparr>
       # (if ac_readOnly (pa_credential facts) then [] else [\<lparr>child = userName facts, parent = writable\<rparr>])
     else [])"

definition credentialAssociations :: "bool \<Rightarrow> PolicyAssociation list" where
  "credentialAssociations mutating =
    (let credentialRights = map accessRight IDENTITY_OPERATIONS in
     (if mutating then [] else [\<lparr>as_id = ''assoc:credential-current'', as_userAttribute = authenticated,
        as_accessRights = credentialRights, as_targetAttribute = credentialObjects\<rparr>])
     @ [\<lparr>as_id = ''assoc:credential-writable'', as_userAttribute = writable,
        as_accessRights = credentialRights, as_targetAttribute = credentialObjects\<rparr>])"

definition productGraph :: "ProductAccessFacts \<Rightarrow> ProductAccessTarget \<Rightarrow> bool \<Rightarrow> PolicyState" where
  "productGraph facts scope mutating =
    (let bindings = productBindings facts scope in
     \<lparr>elements = [\<lparr>el_id = userName facts, el_kind = User\<rparr>, \<lparr>el_id = targetName facts scope, el_kind = Object\<rparr>]
        @ map (\<lambda>i. \<lparr>el_id = i, el_kind = UserAttribute\<rparr>)
            [currentSubject, memberAttribute scope, administratorAttribute scope, authenticated, writable]
        @ map (\<lambda>i. \<lparr>el_id = i, el_kind = ObjectAttribute\<rparr>) [objects scope, credentialObjects]
        @ map (\<lambda>i. \<lparr>el_id = i, el_kind = PolicyClass\<rparr>) [policyClass scope, credentialClass],
      assignments = fixedAssignments facts scope @ map (\<lambda>(attribute, _, _). \<lparr>child = userName facts, parent = attribute\<rparr>) bindings
        @ credentialAssignments facts scope,
      operations = map (\<lambda>i. \<lparr>op_id = i, op_accessRights = [accessRight i]\<rparr>) IDENTITY_OPERATIONS,
      processUsers = None,
      associations = map (\<lambda>(attribute, ops, i). \<lparr>as_id = i, as_userAttribute = attribute,
          as_accessRights = map accessRight ops, as_targetAttribute = objects scope\<rparr>) bindings @ credentialAssociations mutating,
      prohibitions = None\<rparr>)"

definition evaluateProductAccess :: "ProductAccessFacts \<Rightarrow> ProductAccessTarget \<Rightarrow> string \<Rightarrow> bool \<Rightarrow> PolicyDecision" where
  "evaluateProductAccess facts scope operation mutating =
    evaluateAccess (productGraph facts scope mutating)
      \<lparr>rq_user = Some (userName facts), rq_process = None, rq_operation = operation, rq_target = targetName facts scope\<rparr>"

section \<open>The decision\<close>

subsection \<open>The shape of the graph\<close>

lemma product_names:
  "distinct [userName facts, targetName facts scope, currentSubject, memberAttribute scope, administratorAttribute scope, authenticated,
    writable, objects scope, credentialObjects, policyClass scope, credentialClass]"
proof -
  obtain name where "targetName facts scope = ''object:'' @ name" by (cases scope) (auto simp: targetName_def)
  then show ?thesis by (cases scope)
    (simp_all add: userName_def currentSubject_def memberAttribute_def administratorAttribute_def authenticated_def writable_def
      objects_def credentialObjects_def policyClass_def credentialClass_def)
qed

lemma names_nonempty:
  "userName facts \<noteq> []" "targetName facts scope \<noteq> []" "currentSubject \<noteq> []" "memberAttribute scope \<noteq> []" "administratorAttribute scope \<noteq> []"
  "authenticated \<noteq> []" "writable \<noteq> []" "objects scope \<noteq> []" "credentialObjects \<noteq> []" "policyClass scope \<noteq> []" "credentialClass \<noteq> []"
  by (cases scope; simp add: userName_def currentSubject_def memberAttribute_def administratorAttribute_def authenticated_def writable_def
      objects_def credentialObjects_def policyClass_def credentialClass_def targetName_def)+

lemma binding_attribute:
  "(a, ops, name) \<in> set (productBindings facts scope) \<Longrightarrow> a \<in> {memberAttribute scope, administratorAttribute scope} \<and> ops \<noteq> []"
  by (auto simp: productBindings_def Let_def WORKSPACE_MEMBER_OPERATIONS_def IDENTITY_OPERATIONS_def PRODUCT_OPERATION_ACCESS_RIGHTS_def
      SERVER_FAMILY_OPERATIONS_def split: if_splits ProductAccessTarget.splits option.splits)

definition credentialCurrent :: "ProductAccessFacts \<Rightarrow> ProductAccessTarget \<Rightarrow> bool" where
  "credentialCurrent facts scope \<longleftrightarrow>
    ac_current (pa_credential facts)
    \<and> (\<not> (\<exists>w a m r. scope = WorkspaceTarget w a m r) \<or> ac_workspaceBound (pa_credential facts) \<or> pa_administrator facts)"

lemma workspace_kind: "scopeKind scope = ''workspace'' \<longleftrightarrow> (\<exists>w a m r. scope = WorkspaceTarget w a m r)"
  by (cases scope) simp_all

lemma product_assigned:
  "(x, y) \<in> assigned (productGraph facts scope mutating) \<longleftrightarrow>
    \<lparr>child = x, parent = y\<rparr> \<in> set (fixedAssignments facts scope)
    \<or> x = userName facts \<and> (y \<in> fst ` set (productBindings facts scope)
      \<or> credentialCurrent facts scope \<and> (y = authenticated \<or> y = writable \<and> \<not> ac_readOnly (pa_credential facts)))"
proof -
  have "\<lparr>child = x, parent = y\<rparr> \<in> set (map (\<lambda>(attribute, _, _). \<lparr>child = userName facts, parent = attribute\<rparr>)
      (productBindings facts scope)) \<longleftrightarrow> x = userName facts \<and> y \<in> fst ` set (productBindings facts scope)"
    by force
  moreover have "\<lparr>child = x, parent = y\<rparr> \<in> set (credentialAssignments facts scope) \<longleftrightarrow>
      x = userName facts \<and> credentialCurrent facts scope \<and> (y = authenticated \<or> y = writable \<and> \<not> ac_readOnly (pa_credential facts))"
    by (auto simp: credentialAssignments_def credentialCurrent_def workspace_kind split: if_splits)
  ultimately show ?thesis unfolding assigned_iff productGraph_def Let_def PolicyState.simps set_append Un_iff by argo
qed

lemma product_member:
  "(userName facts, y) \<in> assigned (productGraph facts scope mutating) \<longleftrightarrow>
    y = currentSubject \<or> y \<in> fst ` set (productBindings facts scope)
    \<or> credentialCurrent facts scope \<and> (y = authenticated \<or> y = writable \<and> \<not> ac_readOnly (pa_credential facts))"
  using product_names [of facts scope] unfolding product_assigned by (auto simp: fixedAssignments_def)

lemma product_filed: "(targetName facts scope, y) \<in> assigned (productGraph facts scope mutating) \<longleftrightarrow> y \<in> {objects scope, credentialObjects}"
  using product_names [of facts scope] unfolding product_assigned by (auto simp: fixedAssignments_def)

lemma product_classes:
  "(objects scope, y) \<in> assigned (productGraph facts scope mutating) \<longleftrightarrow> y = policyClass scope"
  "(credentialObjects, y) \<in> assigned (productGraph facts scope mutating) \<longleftrightarrow> y = credentialClass"
  using product_names [of facts scope] unfolding product_assigned by (auto simp: fixedAssignments_def)

lemma product_fields:
  "elements (productGraph facts scope mutating) = [\<lparr>el_id = userName facts, el_kind = User\<rparr>, \<lparr>el_id = targetName facts scope, el_kind = Object\<rparr>]
    @ map (\<lambda>i. \<lparr>el_id = i, el_kind = UserAttribute\<rparr>) [currentSubject, memberAttribute scope, administratorAttribute scope, authenticated, writable]
    @ map (\<lambda>i. \<lparr>el_id = i, el_kind = ObjectAttribute\<rparr>) [objects scope, credentialObjects]
    @ map (\<lambda>i. \<lparr>el_id = i, el_kind = PolicyClass\<rparr>) [policyClass scope, credentialClass]"
  "operations (productGraph facts scope mutating) = map (\<lambda>i. \<lparr>op_id = i, op_accessRights = [accessRight i]\<rparr>) IDENTITY_OPERATIONS"
  "or_empty (processUsers (productGraph facts scope mutating)) = []" "or_empty (prohibitions (productGraph facts scope mutating)) = []"
  by (simp_all add: productGraph_def Let_def or_empty_def)

lemma product_kinds:
  "element_kind (productGraph facts scope mutating) (userName facts) = Some User"
  "element_kind (productGraph facts scope mutating) (targetName facts scope) = Some Object"
  "x \<in> {currentSubject, memberAttribute scope, administratorAttribute scope, authenticated, writable}
    \<Longrightarrow> element_kind (productGraph facts scope mutating) x = Some UserAttribute"
  "x \<in> {objects scope, credentialObjects} \<Longrightarrow> element_kind (productGraph facts scope mutating) x = Some ObjectAttribute"
  "x \<in> {policyClass scope, credentialClass} \<Longrightarrow> element_kind (productGraph facts scope mutating) x = Some PolicyClass"
  using product_names [of facts scope] by (auto simp: element_kind_def product_fields)

lemma product_assignments:
  "a \<in> set (assignments (productGraph facts scope mutating)) \<longleftrightarrow> (child a, parent a) \<in> assigned (productGraph facts scope mutating)"
  by (cases a) (simp add: assigned_iff)

lemma binding_kind:
  assumes "y \<in> fst ` set (productBindings facts scope)"
  shows "element_kind (productGraph facts scope mutating) y = Some UserAttribute"
proof -
  obtain b where "b \<in> set (productBindings facts scope)" "y = fst b" using assms by blast
  then have "y \<in> {memberAttribute scope, administratorAttribute scope}"
    using binding_attribute [of "fst b" "fst (snd b)" "snd (snd b)"] by simp
  then show ?thesis by (intro product_kinds(3)) blast
qed

lemma product_layers:
  assumes "(x, y) \<in> assigned (productGraph facts scope mutating)"
  shows "(element_kind (productGraph facts scope mutating) x, element_kind (productGraph facts scope mutating) y) \<in> layerPairs"
  using assms unfolding product_assigned
proof (elim disjE conjE)
  assume "\<lparr>child = x, parent = y\<rparr> \<in> set (fixedAssignments facts scope)"
  then show ?thesis by (auto simp: fixedAssignments_def product_kinds layerPairs_def)
qed (simp_all add: product_kinds binding_kind layerPairs_def)

lemma product_associations:
  "set (associations (productGraph facts scope mutating)) =
    (\<lambda>(a, ops, i). \<lparr>as_id = i, as_userAttribute = a, as_accessRights = map accessRight ops, as_targetAttribute = objects scope\<rparr>)
      ` set (productBindings facts scope) \<union> set (credentialAssociations mutating)"
  by (simp add: productGraph_def Let_def)

interpretation product_graph: layered_policy "productGraph facts scope mutating" "userName facts" "targetName facts scope"
  for facts scope mutating
proof (rule layered_policyI)
  let ?P = "productGraph facts scope mutating"
  show "list_all (\<lambda>e. el_id e \<noteq> []) (elements ?P)" by (simp add: product_fields names_nonempty)
  show "distinct (map el_id (elements ?P))" using product_names [of facts scope] by (simp add: product_fields)
  show "list_all (\<lambda>a. (element_kind ?P (child a), element_kind ?P (parent a)) \<in> layerPairs) (assignments ?P)"
    unfolding list_all_iff by (intro ballI product_layers) (simp add: product_assignments)
  show "list_all (\<lambda>e. el_kind e = PolicyClass \<or> el_id e \<in> child ` set (assignments ?P)) (elements ?P)"
    by (simp add: product_fields) (simp add: productGraph_def fixedAssignments_def Let_def)
  have "element_kind ?P a = Some UserAttribute \<and> ops \<noteq> []" if "(a, ops, i) \<in> set (productBindings facts scope)" for a ops i
    using that binding_attribute [OF that] by (auto intro!: product_kinds(3))
  moreover have "IDENTITY_OPERATIONS \<noteq> []" by (simp add: IDENTITY_OPERATIONS_def PRODUCT_OPERATION_ACCESS_RIGHTS_def)
  ultimately show "list_all (\<lambda>s. element_kind ?P (as_userAttribute s) = Some UserAttribute
      \<and> element_kind ?P (as_targetAttribute s) = Some ObjectAttribute \<and> as_accessRights s \<noteq> []) (associations ?P)"
    unfolding list_all_iff product_associations by (auto simp: credentialAssociations_def Let_def product_kinds)
qed (simp_all add: product_kinds product_fields list_all_iff)

subsection \<open>What each class grants\<close>

lemma product_rights: "inj_on accessRight (set IDENTITY_OPERATIONS)"
proof -
  have "distinct (map accessRight IDENTITY_OPERATIONS)" by code_simp
  then show ?thesis by (simp add: distinct_map)
qed

lemma identity_operations:
  "set WORKSPACE_MEMBER_OPERATIONS \<subseteq> set IDENTITY_OPERATIONS" "''workspace.write'' \<in> set IDENTITY_OPERATIONS"
  "''invitation.respond'' \<in> set IDENTITY_OPERATIONS"
  by (simp_all add: WORKSPACE_MEMBER_OPERATIONS_def IDENTITY_OPERATIONS_def PRODUCT_OPERATION_ACCESS_RIGHTS_def)

lemma family_operations: "map_of SERVER_FAMILY_OPERATIONS family = Some ops \<Longrightarrow> set ops \<subseteq> set IDENTITY_OPERATIONS"
  by (auto simp: SERVER_FAMILY_OPERATIONS_def split: if_splits) (simp_all add: IDENTITY_OPERATIONS_def PRODUCT_OPERATION_ACCESS_RIGHTS_def)

lemma binding_operations: "(a, ops, name) \<in> set (productBindings facts scope) \<Longrightarrow> set ops \<subseteq> set IDENTITY_OPERATIONS"
  using identity_operations family_operations
  by (auto simp: productBindings_def Let_def split: if_splits ProductAccessTarget.splits option.splits)

text \<open>The names once more from the back, for the other direction of each inequality.\<close>

lemma product_names_rev:
  "distinct [credentialClass, policyClass scope, credentialObjects, objects scope, writable, authenticated, administratorAttribute scope,
    memberAttribute scope, currentSubject, targetName facts scope, userName facts]"
  using distinct_rev [THEN iffD2, OF product_names [of facts scope]] by (simp only: rev.simps append.simps)

lemma product_granted:
  "product_graph.granted facts scope mutating ar pc \<longleftrightarrow>
    pc = policyClass scope \<and> (\<exists>(a, ops, i)\<in>set (productBindings facts scope). ar \<in> accessRight ` set ops)
    \<or> pc = credentialClass \<and> (\<exists>s\<in>set (credentialAssociations mutating).
        (userName facts, as_userAttribute s) \<in> assigned (productGraph facts scope mutating) \<and> ar \<in> set (as_accessRights s))"
proof -
  have target: "as_targetAttribute s = credentialObjects" if "s \<in> set (credentialAssociations mutating)" for s
    using that by (auto simp: credentialAssociations_def Let_def split: if_splits)
  have member: "(userName facts, fst b) \<in> assigned (productGraph facts scope mutating)" if "b \<in> set (productBindings facts scope)" for b
    using that unfolding product_member by blast
  let ?made = "\<lambda>(a, ops, i). \<lparr>as_id = i, as_userAttribute = a, as_accessRights = map accessRight ops, as_targetAttribute = objects scope\<rparr>"
  let ?grants = "\<lambda>s. (userName facts, as_userAttribute s) \<in> assigned (productGraph facts scope mutating)
    \<and> (targetName facts scope, as_targetAttribute s) \<in> assigned (productGraph facts scope mutating)
    \<and> (as_targetAttribute s, pc) \<in> assigned (productGraph facts scope mutating) \<and> ar \<in> set (as_accessRights s)"
  have "(\<exists>s\<in>?made ` set (productBindings facts scope). ?grants s) \<longleftrightarrow>
      (\<exists>b\<in>set (productBindings facts scope). pc = policyClass scope \<and> (case b of (a, ops, i) \<Rightarrow> ar \<in> accessRight ` set ops))"
    unfolding bex_simps(7) by (rule bex_cong [OF refl]) (use member in \<open>simp add: split_beta product_filed product_classes\<close>)
  moreover have "(\<exists>s\<in>set (credentialAssociations mutating). ?grants s) \<longleftrightarrow> (\<exists>s\<in>set (credentialAssociations mutating).
      pc = credentialClass \<and> (userName facts, as_userAttribute s) \<in> assigned (productGraph facts scope mutating) \<and> ar \<in> set (as_accessRights s))"
    by (rule bex_cong [OF refl]) (auto simp: target product_filed product_classes)
  ultimately show ?thesis
    unfolding product_graph.granted_def product_graph.member_def product_graph.filed_def product_associations bex_Un by blast
qed

lemma granted_target:
  assumes "operation \<in> set IDENTITY_OPERATIONS"
  shows "product_graph.granted facts scope mutating (accessRight operation) (policyClass scope) \<longleftrightarrow>
    (\<exists>(a, ops, i)\<in>set (productBindings facts scope). operation \<in> set ops)"
proof -
  have "accessRight operation \<in> accessRight ` set ops \<longleftrightarrow> operation \<in> set ops" if "(a, ops, i) \<in> set (productBindings facts scope)" for a ops i
    using inj_on_image_mem_iff [OF product_rights assms binding_operations [OF that]] .
  then have "(\<exists>(a, ops, i)\<in>set (productBindings facts scope). accessRight operation \<in> accessRight ` set ops) \<longleftrightarrow>
      (\<exists>(a, ops, i)\<in>set (productBindings facts scope). operation \<in> set ops)"
    by (intro bex_cong refl) auto
  moreover have "policyClass scope \<noteq> credentialClass" using product_names [of facts scope] by simp
  ultimately show ?thesis unfolding product_granted by simp
qed

lemma granted_credential:
  assumes "operation \<in> set IDENTITY_OPERATIONS"
  shows "product_graph.granted facts scope mutating (accessRight operation) credentialClass \<longleftrightarrow>
    credentialCurrent facts scope \<and> (mutating \<longrightarrow> \<not> ac_readOnly (pa_credential facts))"
proof -
  have attributes: "y \<notin> fst ` set (productBindings facts scope)" if "y = authenticated \<or> y = writable" for y
    using binding_attribute [of y _ _ facts scope] product_names [of facts scope] product_names_rev [of scope facts] that by fastforce
  have "(userName facts, authenticated) \<in> assigned (productGraph facts scope mutating) \<longleftrightarrow> credentialCurrent facts scope"
    "(userName facts, writable) \<in> assigned (productGraph facts scope mutating) \<longleftrightarrow> credentialCurrent facts scope \<and> \<not> ac_readOnly (pa_credential facts)"
    unfolding product_member using attributes product_names [of facts scope] product_names_rev [of scope facts] by auto
  then show ?thesis unfolding product_granted using product_names_rev [of scope facts] assms
    by (cases mutating) (auto simp: credentialAssociations_def Let_def)
qed

subsection \<open>The exact admission\<close>

lemma bindings_iff:
  "(\<exists>(a, ops, i)\<in>set (productBindings facts scope). operation \<in> set ops) \<longleftrightarrow>
    pa_activeUser facts \<and> pa_userId facts \<noteq> '''' \<and>
    (case scope of
       WorkspaceTarget workspaceId active membership (Some recovery) \<Rightarrow>
         dr_ownerActive recovery \<and> operation = ''workspace.write'' \<and> (dr_originalOwner recovery \<or> pa_administrator facts)
     | WorkspaceTarget workspaceId active membership None \<Rightarrow>
         active \<and> workspaceId \<noteq> ''''
         \<and> (membership \<noteq> None \<and> operation \<in> set WORKSPACE_MEMBER_OPERATIONS \<or> pa_administrator facts \<and> operation \<in> set IDENTITY_OPERATIONS)
     | InvitationTarget invitationId inviteeUserId \<Rightarrow>
         inviteeUserId \<noteq> None \<and> operation = ''invitation.respond''
         \<and> (inviteeUserId = Some (pa_userId facts) \<and> ac_kind (pa_credential facts) \<in> {LocalKind, SessionKind} \<or> pa_administrator facts)
     | UserTarget userId active \<Rightarrow>
         active \<noteq> Some False \<and> operation \<in> set IDENTITY_OPERATIONS
         \<and> (userId = None \<and> ac_kind (pa_credential facts) \<in> {LocalKind, SessionKind} \<or> pa_administrator facts)
     | ServerTarget family \<Rightarrow>
         pa_administrator facts \<and> (\<exists>ops. map_of SERVER_FAMILY_OPERATIONS (orDefault family ''administration'') = Some ops \<and> operation \<in> set ops))"
proof -
  have "map_of SERVER_FAMILY_OPERATIONS family = Some ops \<Longrightarrow> family \<noteq> ''''" for family ops by (auto simp: SERVER_FAMILY_OPERATIONS_def)
  moreover have as_list: "(\<exists>(a, ops, i)\<in>set (productBindings facts scope). operation \<in> set ops) \<longleftrightarrow>
      list_ex (\<lambda>b. operation \<in> set (fst (snd b))) (productBindings facts scope)"
    by (simp add: list_ex_iff split_beta)
  ultimately show ?thesis unfolding as_list
    by (auto simp: productBindings_def Let_def split: ProductAccessTarget.splits option.splits if_splits dest: sym)
qed

lemma find_made: "List.find (\<lambda>e. op_id e = x) (map (\<lambda>i. \<lparr>op_id = i, op_accessRights = f i\<rparr>) xs) =
    (if x \<in> set xs then Some \<lparr>op_id = x, op_accessRights = f x\<rparr> else None)"
  by (induction xs) auto

text \<open>C9: Product access is exactly its rule table. An operation is admitted exactly when it is a product
  operation other than delegated maintenance; the user is active and the target grants the operation
  (a Workspace its member operations to a member and all to an administrator, a deleted Workspace
  only recovery, to its original owner or an administrator, an invitation only the response, to its
  invitee in an interactive session or an administrator, a user record to oneself or an
  administrator, the server the operations of the family to an administrator); and the credential is
  current, bound to the Workspace unless an administrator's, and not read-only when the operation
  mutates.\<close>

theorem product_access_exact:
  "effect (evaluateProductAccess facts scope operation mutating) = Allow \<longleftrightarrow>
    operation \<in> set IDENTITY_OPERATIONS \<and> pa_activeUser facts \<and> pa_userId facts \<noteq> '''' \<and>
    (case scope of
       WorkspaceTarget workspaceId active membership (Some recovery) \<Rightarrow>
         dr_ownerActive recovery \<and> operation = ''workspace.write'' \<and> (dr_originalOwner recovery \<or> pa_administrator facts)
     | WorkspaceTarget workspaceId active membership None \<Rightarrow>
         active \<and> workspaceId \<noteq> ''''
         \<and> (membership \<noteq> None \<and> operation \<in> set WORKSPACE_MEMBER_OPERATIONS \<or> pa_administrator facts \<and> operation \<in> set IDENTITY_OPERATIONS)
     | InvitationTarget invitationId inviteeUserId \<Rightarrow>
         inviteeUserId \<noteq> None \<and> operation = ''invitation.respond''
         \<and> (inviteeUserId = Some (pa_userId facts) \<and> ac_kind (pa_credential facts) \<in> {LocalKind, SessionKind} \<or> pa_administrator facts)
     | UserTarget userId active \<Rightarrow>
         active \<noteq> Some False \<and> operation \<in> set IDENTITY_OPERATIONS
         \<and> (userId = None \<and> ac_kind (pa_credential facts) \<in> {LocalKind, SessionKind} \<or> pa_administrator facts)
     | ServerTarget family \<Rightarrow>
         pa_administrator facts \<and> (\<exists>ops. map_of SERVER_FAMILY_OPERATIONS (orDefault family ''administration'') = Some ops \<and> operation \<in> set ops))
    \<and> credentialCurrent facts scope \<and> \<not> (mutating \<and> ac_readOnly (pa_credential facts))"
proof -
  let ?r = "\<lparr>rq_user = Some (userName facts), rq_process = None, rq_operation = operation, rq_target = targetName facts scope\<rparr>"
  have classes: "product_graph.filed facts scope mutating oa \<and> (oa, pc) \<in> assigned (productGraph facts scope mutating) \<longleftrightarrow>
      oa = objects scope \<and> pc = policyClass scope \<or> oa = credentialObjects \<and> pc = credentialClass" for oa pc
    unfolding product_graph.filed_def product_filed using product_classes by auto
  have "effect (evaluateProductAccess facts scope operation mutating) = Allow \<longleftrightarrow>
      operation \<in> set IDENTITY_OPERATIONS
      \<and> product_graph.granted facts scope mutating (accessRight operation) (policyClass scope)
      \<and> product_graph.granted facts scope mutating (accessRight operation) credentialClass"
    using product_graph.evaluate_iff [of ?r facts scope mutating]
    unfolding evaluateProductAccess_def classes product_fields AccessRequest.simps find_made by (auto split: if_splits)
  then show ?thesis using granted_target granted_credential bindings_iff [of facts scope operation] by blast
qed

end
