(* ===== verification/Resource_Access.thy ===== *)
theory Resource_Access
  imports Product_Access Protocol_Actors
begin

text \<open>
  Access to a Thread of a Workspace (\<^verbatim>\<open>apps/nanocore/src/policy/workspace-resource-access.ts\<close>) and the
  Workspace Policy document it rests on (\<^verbatim>\<open>packages/config-schema/src/workspace-resource-policy.ts\<close>). The audience
  of the Thread, the owner of a personal Workspace and the grants of a managed boundary become three
  policy classes of one graph, the prohibitions of the boundary its prohibitions, and the kernel
  decides.

  A boundary is keyed in the code by the JSON text of its container, whose members are fixed; the
  model uses the container.
\<close>

section \<open>Workspace Policy documents\<close>

datatype WorkspacePolicySubject = UserSubject string | AgentSubject string string

fun threadContainer :: "PolicyStatementV1 \<Rightarrow> PolicyContainerV1 option" where
  "threadContainer s = (case ps_resources (st_scope s) of [ContainerResource c] \<Rightarrow> if pc_kind c = ''thread'' then Some c else None | _ \<Rightarrow> None)"

definition workspaceStatement :: "PolicyStatementV1 \<Rightarrow> bool" where
  "workspaceStatement s =
    (let anchor = lt_anchor (st_lifetime s) in
     (case (st_author s, st_authority s) of (HumanPrincipal a, HumanAuthority u) \<Rightarrow> a = u | _ \<Rightarrow> False)
     \<and> pc_owner anchor = OwnerWorkspace (pc_id anchor) \<and> pc_kind anchor = ''workspace''
     \<and> lt_notAfter (st_lifetime s) = None \<and> lt_uses (st_lifetime s) = None
     \<and> (case threadContainer s of None \<Rightarrow> False | Some c \<Rightarrow> pc_owner c = OwnerWorkspace (pc_id anchor))
     \<and> (case st_body s of
          ManagedBoundaryBody \<Rightarrow> True
        | PermissionBody p \<Rightarrow>
            (case pm_grant p of OrdinaryGrant \<Rightarrow> True | AgentProcessGrant _ \<Rightarrow> True | _ \<Rightarrow> False)
            \<and> (st_state s = ActiveState \<longrightarrow> pm_effect p \<in> {AllowEffect, ProhibitEffect})
            \<and> (case ps_subjects (st_scope s) of [HumanPrincipal _] \<Rightarrow> True | _ \<Rightarrow> False)
            \<and> list_all (\<lambda>action. action \<in> set (map fst PRODUCT_OPERATION_ACCESS_RIGHTS)) (ps_actions (st_scope s))
        | _ \<Rightarrow> False))"

definition activeBoundaries :: "PolicyDocumentV1 \<Rightarrow> PolicyContainerV1 list" where
  "activeBoundaries document =
    List.map_filter (\<lambda>s. if st_state s = ActiveState \<and> st_body s = ManagedBoundaryBody then threadContainer s else None) document"

definition activePermissions :: "PolicyDocumentV1 \<Rightarrow> PolicyContainerV1 list" where
  "activePermissions document =
    List.map_filter (\<lambda>s. if st_state s = ActiveState \<and> (case st_body s of PermissionBody _ \<Rightarrow> True | _ \<Rightarrow> False)
      then threadContainer s else None) document"

definition WorkspacePolicyDocumentSchema :: "(string \<Rightarrow> UrlParts option) \<Rightarrow> PolicyDocumentV1 \<Rightarrow> bool" where
  "WorkspacePolicyDocumentSchema parseUrl document =
    (PolicyDocumentV1Schema parseUrl document \<and> list_all workspaceStatement document \<and> distinct (activeBoundaries document)
     \<and> list_all (\<lambda>key. key \<in> set (activeBoundaries document)) (activePermissions document))"

definition parseWorkspacePolicy :: "Platform \<Rightarrow> string \<Rightarrow> PolicyDocumentV1 \<Rightarrow> PolicyDocumentV1 result" where
  "parseWorkspacePolicy pf workspaceId input =
    bindE (parseWith (WorkspacePolicyDocumentSchema (pf_parseUrl pf)) input) (\<lambda>document.
    if list_ex (\<lambda>s. pc_owner (lt_anchor (st_lifetime s)) \<noteq> OwnerWorkspace workspaceId) document
    then Inl ''Workspace Policy belongs to a different owner.'' else Inr document)"

definition workspacePolicySubject :: "PolicyStatementV1 \<Rightarrow> WorkspacePolicySubject option result" where
  "workspacePolicySubject s =
    (case st_body s of
       PermissionBody p \<Rightarrow>
         (case ps_subjects (st_scope s) of
            HumanPrincipal user # _ \<Rightarrow>
              (case pm_grant p of
                 OrdinaryGrant \<Rightarrow> Inr (Some (UserSubject user))
               | AgentProcessGrant agent \<Rightarrow> Inr (Some (AgentSubject user agent))
               | _ \<Rightarrow> Inl ''Unsupported Workspace Policy grant.'')
          | _ \<Rightarrow> Inl ''Workspace Policy recipient must be human-rooted.'')
     | _ \<Rightarrow> Inr None)"

section \<open>Access\<close>

datatype ResourcePolicyActor = UserResourceActor string | AgentResourceActor string string string

fun actorUser :: "ResourcePolicyActor \<Rightarrow> string" where
  "actorUser (UserResourceActor user) = user"
| "actorUser (AgentResourceActor user _ _) = user"

fun actorProcess :: "ResourcePolicyActor \<Rightarrow> string option" where
  "actorProcess (UserResourceActor _) = None"
| "actorProcess (AgentResourceActor _ _ process) = Some process"

fun subjectMatches :: "WorkspacePolicySubject \<Rightarrow> ResourcePolicyActor \<Rightarrow> bool" where
  "subjectMatches (UserSubject user) (UserResourceActor user') = (user = user')"
| "subjectMatches (AgentSubject user agent) (AgentResourceActor user' agent' _) = (user = user' \<and> agent = agent')"
| "subjectMatches _ _ = False"

datatype AudienceVisibility = WorkspaceVisible | PrivateVisible

record ResourceAccessInput =
  ra_actor :: ResourcePolicyActor
  ra_administrator :: bool
  ra_visibility :: AudienceVisibility
  ra_privateOwnerUserId :: "string option"
  ra_personalWorkspaceId :: "string option"
  ra_workspaceId :: string
  ra_policy :: PolicyDocumentV1
  ra_threadId :: string
  ra_operation :: string

type_synonym allocation = "WorkspacePolicySubject \<times> string list"

record ManagedPolicy =
  mp_grants :: "allocation list"
  mp_prohibitions :: "allocation list"

definition matchingStatements :: "ResourceAccessInput \<Rightarrow> PolicyDocumentV1 \<Rightarrow> PolicyStatementV1 list" where
  "matchingStatements i document =
    filter (\<lambda>s. st_state s = ActiveState
      \<and> list_ex (\<lambda>r. case r of ContainerResource c \<Rightarrow> pc_kind c = ''thread'' \<and> pc_id c = ra_threadId i | _ \<Rightarrow> False)
          (ps_resources (st_scope s))) document"

definition allocations :: "PermissionEffect \<Rightarrow> PolicyStatementV1 list \<Rightarrow> allocation list result" where
  "allocations eff matching =
    mapE (\<lambda>s. bindE (workspacePolicySubject s) (\<lambda>subject.
      case subject of Some x \<Rightarrow> Inr (x, ps_actions (st_scope s)) | None \<Rightarrow> Inl ''Workspace Policy recipient must be human-rooted.''))
    (filter (\<lambda>s. case st_body s of PermissionBody p \<Rightarrow> pm_effect p = eff | _ \<Rightarrow> False) matching)"

definition managedPolicy :: "ResourceAccessInput \<Rightarrow> PolicyDocumentV1 \<Rightarrow> ManagedPolicy option result" where
  "managedPolicy i document =
    (let matching = matchingStatements i document in
     if list_ex (\<lambda>s. st_body s = ManagedBoundaryBody) matching
     then bindE (allocations AllowEffect matching) (\<lambda>grants. bindE (allocations ProhibitEffect matching) (\<lambda>restrictions.
       Inr (Some \<lparr>mp_grants = grants, mp_prohibitions = restrictions\<rparr>)))
     else Inr None)"

definition resourceUser :: "ResourceAccessInput \<Rightarrow> string" where
  "resourceUser i = ''user:'' @ actorUser (ra_actor i)"

definition resourceTarget :: "ResourceAccessInput \<Rightarrow> string" where
  "resourceTarget i = ''object:'' @ ''{'' @ jsonString ''family'' @ '':'' @ jsonString ''thread'' @ '','' @ jsonString ''id'' @ '':''
    @ jsonString (ra_threadId i) @ ''}''"

definition threadSubject :: string where "threadSubject = ''ua:thread-subject''"

definition threadShared :: string where "threadShared = ''ua:thread-shared''"

definition threadPrivateOwner :: string where "threadPrivateOwner = ''ua:thread-private-owner''"

definition threadAdministrator :: string where "threadAdministrator = ''ua:thread-administrator''"

definition threadObjects :: string where "threadObjects = ''oa:workspace-resource''"

definition audienceClass :: string where "audienceClass = ''pc:thread-audience''"

definition personalClass :: string where "personalClass = ''pc:personal-workspace-audience''"

definition personalObjects :: string where "personalObjects = ''oa:personal-workspace''"

definition personalOwner :: string where "personalOwner = ''ua:personal-workspace-owner''"

definition personalAdministrator :: string where "personalAdministrator = ''ua:personal-workspace-administrator''"

definition managedClass :: string where "managedClass = ''pc:managed-resource''"

definition managedObjects :: string where "managedObjects = ''oa:managed-resource''"

definition allocationAttribute :: "nat \<Rightarrow> string" where
  "allocationAttribute index = ''ua:resource-allocation:'' @ natText index"

definition memberRights :: "string list" where
  "memberRights = map accessRight WORKSPACE_MEMBER_OPERATIONS"

definition audienceElements :: "ResourceAccessInput \<Rightarrow> PolicyElement list" where
  "audienceElements i =
    [\<lparr>el_id = resourceUser i, el_kind = User\<rparr>, \<lparr>el_id = threadSubject, el_kind = UserAttribute\<rparr>,
     \<lparr>el_id = threadShared, el_kind = UserAttribute\<rparr>, \<lparr>el_id = threadPrivateOwner, el_kind = UserAttribute\<rparr>,
     \<lparr>el_id = threadAdministrator, el_kind = UserAttribute\<rparr>, \<lparr>el_id = resourceTarget i, el_kind = Object\<rparr>,
     \<lparr>el_id = threadObjects, el_kind = ObjectAttribute\<rparr>, \<lparr>el_id = audienceClass, el_kind = PolicyClass\<rparr>]"

definition audienceAssignments :: "ResourceAccessInput \<Rightarrow> PolicyAssignment list" where
  "audienceAssignments i =
    [\<lparr>child = resourceUser i, parent = threadSubject\<rparr>, \<lparr>child = threadSubject, parent = audienceClass\<rparr>]
    @ (if ra_visibility i = WorkspaceVisible then [\<lparr>child = resourceUser i, parent = threadShared\<rparr>] else [])
    @ (if ra_visibility i = PrivateVisible \<and> ra_privateOwnerUserId i = Some (actorUser (ra_actor i))
       then [\<lparr>child = resourceUser i, parent = threadPrivateOwner\<rparr>] else [])
    @ (if ra_administrator i then [\<lparr>child = resourceUser i, parent = threadAdministrator\<rparr>] else [])
    @ [\<lparr>child = threadPrivateOwner, parent = audienceClass\<rparr>, \<lparr>child = threadAdministrator, parent = audienceClass\<rparr>,
       \<lparr>child = threadShared, parent = audienceClass\<rparr>, \<lparr>child = resourceTarget i, parent = threadObjects\<rparr>,
       \<lparr>child = threadObjects, parent = audienceClass\<rparr>]"

definition grantAssociation :: "string \<Rightarrow> string \<Rightarrow> PolicyAssociation" where
  "grantAssociation objects_name attribute =
    \<lparr>as_id = ''assoc:'' @ attribute, as_userAttribute = attribute, as_accessRights = memberRights, as_targetAttribute = objects_name\<rparr>"

definition personalElements :: "ResourceAccessInput \<Rightarrow> PolicyElement list" where
  "personalElements i = (if ra_personalWorkspaceId i = None then [] else
    [\<lparr>el_id = personalClass, el_kind = PolicyClass\<rparr>, \<lparr>el_id = personalObjects, el_kind = ObjectAttribute\<rparr>,
     \<lparr>el_id = personalOwner, el_kind = UserAttribute\<rparr>, \<lparr>el_id = personalAdministrator, el_kind = UserAttribute\<rparr>])"

definition personalAssignments :: "ResourceAccessInput \<Rightarrow> PolicyAssignment list" where
  "personalAssignments i = (if ra_personalWorkspaceId i = None then [] else
    [\<lparr>child = threadSubject, parent = personalClass\<rparr>, \<lparr>child = resourceTarget i, parent = personalObjects\<rparr>,
     \<lparr>child = personalObjects, parent = personalClass\<rparr>, \<lparr>child = personalOwner, parent = personalClass\<rparr>,
     \<lparr>child = personalAdministrator, parent = personalClass\<rparr>]
    @ (if ra_personalWorkspaceId i = Some (ra_workspaceId i) then [\<lparr>child = resourceUser i, parent = personalOwner\<rparr>] else [])
    @ (if ra_administrator i then [\<lparr>child = resourceUser i, parent = personalAdministrator\<rparr>] else []))"

definition managedElements :: "ManagedPolicy option \<Rightarrow> PolicyElement list" where
  "managedElements managed = (case managed of None \<Rightarrow> [] | Some m \<Rightarrow>
    [\<lparr>el_id = managedClass, el_kind = PolicyClass\<rparr>, \<lparr>el_id = managedObjects, el_kind = ObjectAttribute\<rparr>]
    @ map (\<lambda>index. \<lparr>el_id = allocationAttribute index, el_kind = UserAttribute\<rparr>) [0..<length (mp_grants m)])"

definition managedAssignments :: "ResourceAccessInput \<Rightarrow> ManagedPolicy option \<Rightarrow> PolicyAssignment list" where
  "managedAssignments i managed = (case managed of None \<Rightarrow> [] | Some m \<Rightarrow>
    [\<lparr>child = resourceTarget i, parent = managedObjects\<rparr>, \<lparr>child = managedObjects, parent = managedClass\<rparr>]
    @ concat (map (\<lambda>(index, subject, ops). \<lparr>child = allocationAttribute index, parent = managedClass\<rparr>
        # (if subjectMatches subject (ra_actor i) then [\<lparr>child = resourceUser i, parent = allocationAttribute index\<rparr>] else []))
      (List.enumerate 0 (mp_grants m))))"

definition managedAssociations :: "ManagedPolicy option \<Rightarrow> PolicyAssociation list" where
  "managedAssociations managed = (case managed of None \<Rightarrow> [] | Some m \<Rightarrow>
    map (\<lambda>(index, subject, ops). \<lparr>as_id = ''assoc:resource-allocation:'' @ natText index,
        as_userAttribute = allocationAttribute index, as_accessRights = map accessRight ops, as_targetAttribute = managedObjects\<rparr>)
      (List.enumerate 0 (mp_grants m)))"

definition managedProhibition :: "ResourceAccessInput \<Rightarrow> nat \<times> allocation \<Rightarrow> PolicyProhibition list" where
  "managedProhibition i = (\<lambda>(index, subject, ops).
    let restrictUser = (case subject of UserSubject user \<Rightarrow> user = actorUser (ra_actor i) | _ \<Rightarrow> False) in
    if \<not> restrictUser \<and> \<not> subjectMatches subject (ra_actor i) then []
    else [\<lparr>pr_id = ''prohibition:resource:'' @ natText index, pr_kind = (if restrictUser then ForUser else ForProcess),
      pr_subject = (if restrictUser then resourceUser i
        else case ra_actor i of AgentResourceActor _ _ process \<Rightarrow> process | UserResourceActor _ \<Rightarrow> resourceUser i),
      pr_accessRights = map accessRight ops,
      pr_range = \<lparr>rg_type = Disjunctive, rg_include = Some [managedObjects], rg_exclude = None\<rparr>\<rparr>])"

definition resourceGraph :: "ResourceAccessInput \<Rightarrow> ManagedPolicy option \<Rightarrow> PolicyState" where
  "resourceGraph i managed =
    \<lparr>elements = audienceElements i @ personalElements i @ managedElements managed,
     assignments = audienceAssignments i @ personalAssignments i @ managedAssignments i managed,
     operations = map (\<lambda>operation. \<lparr>op_id = operation, op_accessRights = [accessRight operation]\<rparr>) WORKSPACE_MEMBER_OPERATIONS,
     processUsers = map_option (\<lambda>process. [\<lparr>pu_process = process, pu_user = resourceUser i\<rparr>]) (actorProcess (ra_actor i)),
     associations = map (grantAssociation threadObjects) [threadShared, threadPrivateOwner, threadAdministrator]
       @ (if ra_personalWorkspaceId i = None then [] else map (grantAssociation personalObjects) [personalOwner, personalAdministrator])
       @ managedAssociations managed,
     prohibitions = map_option (\<lambda>m. concat (map (managedProhibition i) (List.enumerate 0 (mp_prohibitions m)))) managed\<rparr>"

definition evaluateWorkspaceResourceAccess :: "Platform \<Rightarrow> ResourceAccessInput \<Rightarrow> PolicyDecision result" where
  "evaluateWorkspaceResourceAccess pf i =
    bindE (parseWorkspacePolicy pf (ra_workspaceId i) (ra_policy i)) (\<lambda>document.
    bindE (managedPolicy i document) (\<lambda>managed.
    Inr (evaluateAccess (resourceGraph i managed)
      \<lparr>rq_user = Some (resourceUser i), rq_process = actorProcess (ra_actor i), rq_operation = ra_operation i, rq_target = resourceTarget i\<rparr>)))"

section \<open>Thread authorization\<close>

datatype ThreadStatus = ActiveThread | ArchivedThread

datatype ThreadEntryPath = ConversationEntry | AdministrationEntry | KnowledgeManagerEntry

datatype ThreadSource = ConversationSource | WorkerSource

datatype ThreadVisibility = PrivateThread | WorkspaceThread | ServerThread

record Thread =
  th_id :: string
  th_owner :: WorkOwner
  th_parentThreadId :: "string option"
  th_name :: "string option"
  th_preview :: string
  th_status :: ThreadStatus
  th_entryPath :: ThreadEntryPath
  th_threadSource :: "ThreadSource option"
  th_visibility :: ThreadVisibility
  th_privateOwnerUserId :: "string option"
  th_createdAt :: string
  th_updatedAt :: string

definition ThreadSchema :: "Thread \<Rightarrow> bool" where
  "ThreadSchema t =
    (isEntityId ''th'' (th_id t) \<and> WorkOwnerSchema (th_owner t) \<and> nullable (isEntityId ''th'') (th_parentThreadId t)
     \<and> nullable textSchema (th_name t) \<and> textSchema (th_preview t) \<and> nullable (isEntityId ''usr'') (th_privateOwnerUserId t)
     \<and> textSchema (th_createdAt t) \<and> textSchema (th_updatedAt t)
     \<and> th_parentThreadId t \<noteq> Some (th_id t)
     \<and> (th_visibility t = PrivateThread) = (th_privateOwnerUserId t \<noteq> None)
     \<and> (th_owner t = ServerOwner) = (th_visibility t = ServerThread)
     \<and> (th_entryPath t = AdministrationEntry \<and> th_owner t \<noteq> ServerOwner \<longrightarrow> th_visibility t = PrivateThread))"

record ThreadAuthorization =
  ta_thread :: Thread
  ta_workspaceId :: string
  ta_userId :: string
  ta_administrator :: bool
  ta_personalWorkspaceId :: "string option"
  ta_policy :: PolicyDocumentV1
  ta_operation :: string
  ta_actor :: "ResourcePolicyActor option"

definition evaluateThreadAuthorization :: "Platform \<Rightarrow> ThreadAuthorization \<Rightarrow> PolicyDecision result" where
  "evaluateThreadAuthorization pf a =
    (let thread = ta_thread a in
     if ta_userId a = '''' \<or> \<not> ThreadSchema thread \<or> th_visibility thread = ServerThread \<or> th_owner thread = ServerOwner
        \<or> workspaceIdForOwner (Some (th_owner thread)) \<noteq> Inr (Some (ta_workspaceId a))
        \<or> (case ta_actor a of None \<Rightarrow> False | Some actor \<Rightarrow> actorUser actor \<noteq> ta_userId a)
     then Inl ''Thread authorization requires exact current audience and actor facts.''
     else evaluateWorkspaceResourceAccess pf
       \<lparr>ra_actor = orDefault (ta_actor a) (UserResourceActor (ta_userId a)), ra_administrator = ta_administrator a,
        ra_visibility = (if th_visibility thread = PrivateThread then PrivateVisible else WorkspaceVisible),
        ra_privateOwnerUserId = th_privateOwnerUserId thread, ra_personalWorkspaceId = ta_personalWorkspaceId a,
        ra_workspaceId = ta_workspaceId a, ra_policy = ta_policy a, ra_threadId = th_id thread, ra_operation = ta_operation a\<rparr>)"

end
