(* ===== verification/Tool_Conditions.thy ===== *)
theory Tool_Conditions
  imports Policy_Interception Policy_Selection Layered_Policy
begin

text \<open>
  The human-authored conditions on MCP tools (\<^verbatim>\<open>apps/nanocore/src/policy/mcp-tool-permissions.ts\<close>): the
  selection of the current statements for one tool call, and the prohibitions among them as
  prohibitions of the kernel, over an association that stands for the decision already made.
\<close>

section \<open>The model\<close>

record ToolProposal =
  tp_workspaceId :: string
  tp_serverId :: string
  tp_toolName :: string
  tp_subject :: PolicySubjectV1

definition toolCondition :: "Platform \<Rightarrow> ToolProposal \<Rightarrow> (string \<Rightarrow> bool) \<Rightarrow> int \<Rightarrow> PolicyStatementV1 \<Rightarrow> bool result" where
  "toolCondition pf proposal authorCurrent now s =
    (case (st_body s, st_author s, st_authority s) of
       (PermissionBody p, HumanPrincipal author, HumanAuthority _) \<Rightarrow>
         if st_state s \<noteq> ActiveState \<or> pm_grant p \<noteq> OrdinaryGrant \<or> pm_effect p \<notin> {ProhibitEffect, RequireApprovalEffect} then Inr False
         else let anchor = lt_anchor (st_lifetime s) in
           if pc_owner anchor \<noteq> OwnerWorkspace (tp_workspaceId proposal) \<or> pc_kind anchor \<noteq> ''workspace''
              \<or> pc_id anchor \<noteq> tp_workspaceId proposal \<or> expired (st_lifetime s) now then Inr False
           else if \<not> list_ex (\<lambda>v. policyDigest pf (principalJson v) = policyDigest pf (principalJson (sj_principal (tp_subject proposal))))
                  (ps_subjects (st_scope s))
              \<or> ''tool.use'' \<notin> set (ps_actions (st_scope s))
              \<or> \<not> list_ex (\<lambda>r. r = McpTool (tp_workspaceId proposal) (tp_serverId proposal) (tp_toolName proposal)) (ps_resources (st_scope s))
           then Inr False
           else if \<not> authorCurrent author then Inl ''MCP Policy author no longer has current authority.''
           else Inr True
     | _ \<Rightarrow> Inr False)"

definition selectMcpToolPermissions ::
  "Platform \<Rightarrow> PolicyDocumentV1 \<Rightarrow> ToolProposal \<Rightarrow> (string \<Rightarrow> bool) \<Rightarrow> int \<Rightarrow> PolicyStatementV1 list result" where
  "selectMcpToolPermissions pf document proposal authorCurrent now = filterE (toolCondition pf proposal authorCurrent now) document"

fun permissionEffect :: "PolicyStatementV1 \<Rightarrow> PermissionEffect option" where
  "permissionEffect s = (case st_body s of PermissionBody p \<Rightarrow> Some (pm_effect p) | _ \<Rightarrow> None)"

definition toolGraph :: "bool \<Rightarrow> PolicyStatementV1 list \<Rightarrow> PolicyState" where
  "toolGraph allowed prohibited =
    \<lparr>elements = [\<lparr>el_id = ''caller'', el_kind = User\<rparr>, \<lparr>el_id = ''eligible'', el_kind = UserAttribute\<rparr>,
       \<lparr>el_id = ''tool'', el_kind = Object\<rparr>, \<lparr>el_id = ''tools'', el_kind = ObjectAttribute\<rparr>, \<lparr>el_id = ''mcp'', el_kind = PolicyClass\<rparr>],
     assignments = [\<lparr>child = ''caller'', parent = ''eligible''\<rparr>, \<lparr>child = ''eligible'', parent = ''mcp''\<rparr>,
       \<lparr>child = ''tool'', parent = ''tools''\<rparr>, \<lparr>child = ''tools'', parent = ''mcp''\<rparr>],
     operations = [\<lparr>op_id = ''tool.use'', op_accessRights = [''use'']\<rparr>], processUsers = None,
     associations = (if allowed then [\<lparr>as_id = ''current-native-authority'', as_userAttribute = ''eligible'',
       as_accessRights = [''use''], as_targetAttribute = ''tools''\<rparr>] else []),
     prohibitions = Some (map (\<lambda>s. \<lparr>pr_id = st_id s, pr_kind = ForUser, pr_subject = ''caller'', pr_accessRights = [''use''],
       pr_range = \<lparr>rg_type = Disjunctive, rg_include = Some [''tools''], rg_exclude = None\<rparr>\<rparr>) prohibited)\<rparr>"

definition toolRequest :: AccessRequest where
  "toolRequest = \<lparr>rq_user = Some ''caller'', rq_process = None, rq_operation = ''tool.use'', rq_target = ''tool''\<rparr>"

definition applyMcpToolProhibitions :: "PolicyDecision \<Rightarrow> PolicyStatementV1 list \<Rightarrow> PolicyDecision" where
  "applyMcpToolProhibitions previous permissions =
    (let prohibited = filter (\<lambda>s. permissionEffect s = Some ProhibitEffect) permissions in
     if prohibited = [] \<or> hasReason [''invalid-policy'', ''invalid-request'', ''missing-operation''] previous then previous
     else let decision = evaluateAccess (toolGraph (effect previous = Allow) prohibited) toolRequest in
       decision\<lparr>trace := (trace decision)\<lparr>matchedAssociations := matchedAssociations (trace previous),
         matchedProhibitions := matchedProhibitions (trace previous) @ matchedProhibitions (trace decision)\<rparr>\<rparr>)"

section \<open>The prohibitions\<close>

interpretation tool_graph: layered_policy "toolGraph allowed prohibited" "''caller''" "''tool''" for allowed prohibited
proof (rule layered_policyI)
  let ?P = "toolGraph allowed prohibited"
  have kinds: "element_kind ?P ''caller'' = Some User" "element_kind ?P ''tool'' = Some Object" "element_kind ?P ''eligible'' = Some UserAttribute"
    "element_kind ?P ''tools'' = Some ObjectAttribute" "element_kind ?P ''mcp'' = Some PolicyClass"
    by (simp_all add: element_kind_def toolGraph_def)
  then show "element_kind ?P ''caller'' = Some User" "element_kind ?P ''tool'' = Some Object" by simp_all
  show "list_all (prohibition_wellformed ?P) (or_empty (prohibitions ?P))"
    by (simp add: list_all_iff prohibition_wellformed_def isAttributeElement_def toolGraph_def element_kind_def or_empty_def)
qed (simp_all add: toolGraph_def or_empty_def element_kind_def layerPairs_def)

lemma tool_contained: "contained (toolGraph allowed prohibited) ''tool'' ''tools''"
  by (rule tool_graph.contained_filed [THEN iffD2])
    (simp_all add: tool_graph.filed_def assigned_iff, simp_all add: toolGraph_def element_kind_def)

lemma tool_restricted:
  "restricted (toolGraph allowed prohibited) toolRequest ''caller'' [''use''] \<lparr>pr_id = i, pr_kind = ForUser, pr_subject = ''caller'',
    pr_accessRights = [''use''], pr_range = \<lparr>rg_type = Disjunctive, rg_include = Some [''tools''], rg_exclude = None\<rparr>\<rparr>"
  using tool_contained by (simp add: restricted_def in_range_def toolRequest_def or_empty_def)

text \<open>Every prohibition of the graph applies: the decision names the first and traces them all.\<close>

lemma tool_decision:
  assumes "prohibited = p # ps"
  shows "effect (evaluateAccess (toolGraph allowed prohibited) toolRequest) = Deny"
    "reasons (evaluateAccess (toolGraph allowed prohibited) toolRequest) = [Restriction (st_id p)]"
    "matchedProhibitions (trace (evaluateAccess (toolGraph allowed prohibited) toolRequest)) = map st_id prohibited"
proof -
  let ?P = "toolGraph allowed prohibited" and ?oper = "\<lparr>op_id = ''tool.use'', op_accessRights = [''use'']\<rparr>"
  let ?made = "\<lambda>s. \<lparr>pr_id = st_id s, pr_kind = ForUser, pr_subject = ''caller'', pr_accessRights = [''use''],
    pr_range = \<lparr>rg_type = Disjunctive, rg_include = Some [''tools''], rg_exclude = None\<rparr>\<rparr>"
  have made: "or_empty (prohibitions ?P) = map ?made prohibited" by (simp add: toolGraph_def or_empty_def)
  have "filter (restricted ?P toolRequest ''caller'' (op_accessRights ?oper)) (or_empty (prohibitions ?P)) = ?made p # map ?made ps"
    unfolding made using tool_restricted [of allowed prohibited] by (subst filter_True) (auto simp: assms)
  moreover have "rq_user toolRequest = Some ''caller''" "rq_target toolRequest = ''tool''"
      "List.find (\<lambda>e. op_id e = rq_operation toolRequest) (operations ?P) = Some ?oper"
    by (simp_all add: toolRequest_def toolGraph_def)
  ultimately have "effect (evaluateAccess ?P toolRequest) = Deny" "reasons (evaluateAccess ?P toolRequest) = [Restriction (pr_id (?made p))]"
      "matchedProhibitions (trace (evaluateAccess ?P toolRequest)) = map pr_id (?made p # map ?made ps)"
    using tool_graph.evaluate_restricted [of toolRequest allowed prohibited ?oper "?made p" "map ?made ps"] by blast+
  then  show "effect (evaluateAccess ?P toolRequest) = Deny" "reasons (evaluateAccess ?P toolRequest) = [Restriction (st_id p)]"
    "matchedProhibitions (trace (evaluateAccess ?P toolRequest)) = map st_id prohibited"
    by (simp_all add: assms comp_def)
qed

lemma apply_effect:
  "effect (applyMcpToolProhibitions (evaluateAccess P r) permissions) = Allow \<longleftrightarrow>
    effect (evaluateAccess P r) = Allow \<and> (\<forall>s\<in>set permissions. permissionEffect s \<noteq> Some ProhibitEffect)"
proof (cases "filter (\<lambda>s. permissionEffect s = Some ProhibitEffect) permissions")
  case Nil
  then show ?thesis by (auto simp: applyMcpToolProhibitions_def filter_empty_conv)
next
  case (Cons p ps)
  then have "p \<in> set (filter (\<lambda>s. permissionEffect s = Some ProhibitEffect) permissions)" by simp
  then have some: "\<exists>s\<in>set permissions. permissionEffect s = Some ProhibitEffect" unfolding set_filter by blast
  have valid: "effect (evaluateAccess P r) \<noteq> Allow"
    if "hasReason [''invalid-policy'', ''invalid-request'', ''missing-operation''] (evaluateAccess P r)"
  proof (cases rule: evaluateAccess_cases [of P r])
    case (decided oper u k)
    then show ?thesis using that decide_request_reasons [of P r oper u] by (auto simp: hasReason_def)
  qed (simp add: deny_def)
  have "effect (applyMcpToolProhibitions (evaluateAccess P r) permissions) \<noteq> Allow"
    unfolding applyMcpToolProhibitions_def Let_def Cons using valid tool_decision(1) [OF refl] by simp
  with some show ?thesis by blast
qed

section \<open>The selection\<close>

text \<open>A current human-authored condition on one tool call.\<close>

definition conditionOf :: "ToolProposal \<Rightarrow> int \<Rightarrow> PolicyStatementV1 \<Rightarrow> string \<Rightarrow> PermissionEffect \<Rightarrow> bool" where
  "conditionOf proposal now s author eff \<longleftrightarrow>
    st_state s = ActiveState \<and> st_author s = HumanPrincipal author \<and> (\<exists>h. st_authority s = HumanAuthority h)
    \<and> st_body s = PermissionBody \<lparr>pm_effect = eff, pm_grant = OrdinaryGrant\<rparr> \<and> eff \<noteq> AllowEffect
    \<and> lt_anchor (st_lifetime s) = \<lparr>pc_owner = OwnerWorkspace (tp_workspaceId proposal), pc_kind = ''workspace'', pc_id = tp_workspaceId proposal\<rparr>
    \<and> \<not> expired (st_lifetime s) now
    \<and> sj_principal (tp_subject proposal) \<in> set (ps_subjects (st_scope s)) \<and> ''tool.use'' \<in> set (ps_actions (st_scope s))
    \<and> McpTool (tp_workspaceId proposal) (tp_serverId proposal) (tp_toolName proposal) \<in> set (ps_resources (st_scope s))"

lemma conditionOf_unique: "conditionOf proposal now s a e \<Longrightarrow> conditionOf proposal now s a' e' \<Longrightarrow> a' = a \<and> e' = e"
  by (simp add: conditionOf_def)

definition toolSubjects :: "ToolProposal \<Rightarrow> PolicyDocumentV1 \<Rightarrow> JsValue set" where
  "toolSubjects proposal document =
    principalJson ` insert (sj_principal (tp_subject proposal)) (\<Union>s\<in>set document. set (ps_subjects (st_scope s)))"

lemma subject_listed:
  assumes "collision_free pf (toolSubjects proposal document)" "s \<in> set document"
  shows "list_ex (\<lambda>v. policyDigest pf (principalJson v) = policyDigest pf (principalJson (sj_principal (tp_subject proposal))))
    (ps_subjects (st_scope s)) \<longleftrightarrow> sj_principal (tp_subject proposal) \<in> set (ps_subjects (st_scope s))"
proof -
  have "policyDigest pf (principalJson v) = policyDigest pf (principalJson (sj_principal (tp_subject proposal))) \<longleftrightarrow> v = sj_principal (tp_subject proposal)"
    if "v \<in> set (ps_subjects (st_scope s))" for v
    by (rule digest_inj_on(1) [OF assms(1)]) (use assms(2) that in \<open>auto simp: toolSubjects_def\<close>)
  then show ?thesis unfolding list_ex_iff by blast
qed

text \<open>The condition as one test, for a permission of a human author.\<close>

definition inForce :: "ToolProposal \<Rightarrow> int \<Rightarrow> PolicyStatementV1 \<Rightarrow> PolicyPermissionV1 \<Rightarrow> bool" where
  "inForce proposal now s p \<longleftrightarrow>
    st_state s = ActiveState \<and> pm_grant p = OrdinaryGrant \<and> pm_effect p \<in> {ProhibitEffect, RequireApprovalEffect}
    \<and> pc_owner (lt_anchor (st_lifetime s)) = OwnerWorkspace (tp_workspaceId proposal) \<and> pc_kind (lt_anchor (st_lifetime s)) = ''workspace''
    \<and> pc_id (lt_anchor (st_lifetime s)) = tp_workspaceId proposal \<and> \<not> expired (st_lifetime s) now
    \<and> sj_principal (tp_subject proposal) \<in> set (ps_subjects (st_scope s)) \<and> ''tool.use'' \<in> set (ps_actions (st_scope s))
    \<and> McpTool (tp_workspaceId proposal) (tp_serverId proposal) (tp_toolName proposal) \<in> set (ps_resources (st_scope s))"

lemma conditionOf_iff:
  "conditionOf proposal now s author eff \<longleftrightarrow>
    (\<exists>p h. st_body s = PermissionBody p \<and> st_author s = HumanPrincipal author \<and> st_authority s = HumanAuthority h \<and> pm_effect p = eff
      \<and> inForce proposal now s p)"
proof -
  have permission: "p = \<lparr>pm_effect = eff, pm_grant = OrdinaryGrant\<rparr> \<longleftrightarrow> pm_effect p = eff \<and> pm_grant p = OrdinaryGrant" for p :: PolicyPermissionV1
    by (cases p) auto
  have anchor: "lt_anchor l = \<lparr>pc_owner = w, pc_kind = k, pc_id = i\<rparr> \<longleftrightarrow> pc_owner (lt_anchor l) = w \<and> pc_kind (lt_anchor l) = k \<and> pc_id (lt_anchor l) = i"
    for l :: PolicyLifetimeV1 and w k i by (cases "lt_anchor l") auto
  have effects: "eff \<noteq> AllowEffect \<longleftrightarrow> eff \<in> {ProhibitEffect, RequireApprovalEffect}" by (cases eff) simp_all
  show ?thesis unfolding conditionOf_def inForce_def anchor effects by (cases "st_body s") (auto simp: permission)
qed

lemma toolCondition_eq:
  assumes "collision_free pf (toolSubjects proposal document)" "s \<in> set document"
  shows "toolCondition pf proposal authorCurrent now s =
    (case (st_body s, st_author s, st_authority s) of
       (PermissionBody p, HumanPrincipal author, HumanAuthority _) \<Rightarrow>
         if \<not> inForce proposal now s p then Inr False else if authorCurrent author then Inr True
         else Inl ''MCP Policy author no longer has current authority.''
     | _ \<Rightarrow> Inr False)"
proof -
  have merge: "(if a then x else if b then x else if c then x else y) = (if \<not> (\<not> a \<and> \<not> b \<and> \<not> c) then x else y)"
    for a b c and x y :: "bool result" by simp
  have listed: "list_ex (\<lambda>r. r = x) rs \<longleftrightarrow> x \<in> set rs" for x and rs :: "PolicyResourceV1 list" by (auto simp: list_ex_iff)
  show ?thesis unfolding toolCondition_def Let_def subject_listed [OF assms] listed merge inForce_def de_Morgan_disj not_not conj_assoc
    by (cases "st_body s"; cases "st_author s"; cases "st_authority s") (simp_all cong: if_cong)
qed

lemma toolCondition_iff:
  assumes "collision_free pf (toolSubjects proposal document)" "s \<in> set document"
  shows "toolCondition pf proposal authorCurrent now s = Inr True \<longleftrightarrow>
      (\<exists>author eff. conditionOf proposal now s author eff \<and> authorCurrent author)"
    "toolCondition pf proposal authorCurrent now s = Inl e \<longleftrightarrow>
      e = ''MCP Policy author no longer has current authority.'' \<and> (\<exists>author eff. conditionOf proposal now s author eff \<and> \<not> authorCurrent author)"
  unfolding toolCondition_eq [OF assms] conditionOf_iff
  by (auto split: StatementBody.splits PolicyPrincipalV1.splits PolicyAuthorityV1.splits if_splits)

lemma selected_iff:
  assumes "collision_free pf (toolSubjects proposal document)" "selectMcpToolPermissions pf document proposal authorCurrent now = Inr ps"
  shows "ps = filter (\<lambda>s. \<exists>author eff. conditionOf proposal now s author eff) document"
    "s \<in> set document \<Longrightarrow> conditionOf proposal now s author eff \<Longrightarrow> authorCurrent author"
proof -
  note finished = filterE_succeeds [OF assms(2) [unfolded selectMcpToolPermissions_def]]
  show current: "authorCurrent author" if "s \<in> set document" "conditionOf proposal now s author eff" for s author eff
  proof (rule ccontr)
    assume "\<not> authorCurrent author"
    then have "toolCondition pf proposal authorCurrent now s = Inl ''MCP Policy author no longer has current authority.''"
      using that unfolding toolCondition_iff(2) [OF assms(1) that(1)] by blast
    then show False using finished that(1) by fastforce
  qed
  have "ps = filter (\<lambda>s. toolCondition pf proposal authorCurrent now s = Inr True) document" using finished by blast
  also have "\<dots> = filter (\<lambda>s. \<exists>author eff. conditionOf proposal now s author eff) document"
    by (rule filter_cong [OF refl]) (use current in \<open>simp add: toolCondition_iff(1) [OF assms(1)]; blast\<close>)
  finally show "ps = filter (\<lambda>s. \<exists>author eff. conditionOf proposal now s author eff) document" .
qed

text \<open>C21: The human conditions on a tool are mandatory. When the hash has no collision among the principals
  compared, the selection for a tool call fails exactly when a current condition on that call has lost
  its author's authority; otherwise it returns exactly the active, unexpired prohibitions and
  approval requirements of the Workspace that name the subject and the tool, in the order of the
  document, and with them a decision of the kernel stays an allow exactly when it was one and no
  current statement prohibits the call.\<close>

theorem tool_conditions_mandatory:
  assumes "collision_free pf (toolSubjects proposal document)"
  shows "case selectMcpToolPermissions pf document proposal authorCurrent now of
      Inl e \<Rightarrow> e = ''MCP Policy author no longer has current authority.''
        \<and> (\<exists>s\<in>set document. \<exists>author eff. conditionOf proposal now s author eff \<and> \<not> authorCurrent author)
    | Inr permissions \<Rightarrow>
        permissions = filter (\<lambda>s. \<exists>author eff. conditionOf proposal now s author eff) document
        \<and> \<not> (\<exists>s\<in>set document. \<exists>author eff. conditionOf proposal now s author eff \<and> \<not> authorCurrent author)
        \<and> (effect (applyMcpToolProhibitions (evaluateAccess P r) permissions) = Allow \<longleftrightarrow>
            effect (evaluateAccess P r) = Allow \<and> \<not> (\<exists>s\<in>set document. \<exists>author. conditionOf proposal now s author ProhibitEffect))"
proof (cases "selectMcpToolPermissions pf document proposal authorCurrent now")
  case (Inl e)
  then obtain s where "s \<in> set document" "toolCondition pf proposal authorCurrent now s = Inl e"
    using filterE_error [of "toolCondition pf proposal authorCurrent now" document e] by (auto simp: selectMcpToolPermissions_def)
  then show ?thesis using toolCondition_iff(2) [OF assms, of s authorCurrent now e] unfolding Inl sum.case by blast
next
  case (Inr ps)
  note selected = selected_iff [OF assms Inr]
  have prohibits: "permissionEffect s = Some ProhibitEffect \<longleftrightarrow> conditionOf proposal now s author ProhibitEffect"
    if "conditionOf proposal now s author eff" for s author eff
    using that unfolding conditionOf_iff by (elim exE conjE) simp
  have "(\<forall>s\<in>set ps. permissionEffect s \<noteq> Some ProhibitEffect) \<longleftrightarrow>
      \<not> (\<exists>s\<in>set document. \<exists>author. conditionOf proposal now s author ProhibitEffect)"
    unfolding selected(1) set_filter using prohibits by blast
  then show ?thesis unfolding Inr sum.case apply_effect using selected by blast
qed

end
