(* ===== verification/Resource_Access_Properties.thy ===== *)
theory Resource_Access_Properties
  imports Resource_Access Tool_Conditions
begin

text \<open>
  The exact decision of Thread access, through the layered graph it hands to the kernel.
\<close>

subsection \<open>The shape of the graph\<close>

lemma resource_names:
  "distinct [resourceUser i, threadSubject, threadShared, threadPrivateOwner, threadAdministrator, resourceTarget i, threadObjects, audienceClass,
    personalClass, personalObjects, personalOwner, personalAdministrator, managedClass, managedObjects]"
  "distinct [managedObjects, managedClass, personalAdministrator, personalOwner, personalObjects, personalClass, audienceClass, threadObjects,
    resourceTarget i, threadAdministrator, threadPrivateOwner, threadShared, threadSubject, resourceUser i]"
  "allocationAttribute n \<notin> {resourceUser i, threadSubject, threadShared, threadPrivateOwner, threadAdministrator, resourceTarget i, threadObjects,
    audienceClass, personalClass, personalObjects, personalOwner, personalAdministrator, managedClass, managedObjects}"
  "list_all (\<lambda>name. name \<noteq> allocationAttribute n) [resourceUser i, threadSubject, threadShared, threadPrivateOwner, threadAdministrator,
    resourceTarget i, threadObjects, audienceClass, personalClass, personalObjects, personalOwner, personalAdministrator, managedClass, managedObjects]"
  by (simp_all add: resourceUser_def threadSubject_def threadShared_def threadPrivateOwner_def threadAdministrator_def resourceTarget_def
      threadObjects_def audienceClass_def personalClass_def personalObjects_def personalOwner_def personalAdministrator_def managedClass_def
      managedObjects_def allocationAttribute_def)

lemmas node_names [simp] = resource_names [simplified]

lemma allocation_inj [simp]: "allocationAttribute m = allocationAttribute n \<longleftrightarrow> m = n"
  by (auto simp: allocationAttribute_def dest: natText_inj)

lemma resource_names_nonempty:
  "resourceUser i \<noteq> []" "threadSubject \<noteq> []" "threadShared \<noteq> []" "threadPrivateOwner \<noteq> []" "threadAdministrator \<noteq> []" "resourceTarget i \<noteq> []"
  "threadObjects \<noteq> []" "audienceClass \<noteq> []" "personalClass \<noteq> []" "personalObjects \<noteq> []" "personalOwner \<noteq> []" "personalAdministrator \<noteq> []"
  "managedClass \<noteq> []" "managedObjects \<noteq> []" "allocationAttribute n \<noteq> []"
  by (simp_all add: resourceUser_def threadSubject_def threadShared_def threadPrivateOwner_def threadAdministrator_def resourceTarget_def
      threadObjects_def audienceClass_def personalClass_def personalObjects_def personalOwner_def personalAdministrator_def managedClass_def
      managedObjects_def allocationAttribute_def)

lemmas resource_element_defs = audienceElements_def personalElements_def managedElements_def

lemma resource_elements: "elements (resourceGraph i m) = audienceElements i @ personalElements i @ managedElements m"
  by (simp add: resourceGraph_def)

lemma resource_distinct: "distinct (map el_id (elements (resourceGraph i m)))"
proof -
  have "distinct (map allocationAttribute [0..<n])" for n by (simp add: distinct_map inj_on_def)
  then show ?thesis
    by (cases m) (auto simp: resource_elements resource_element_defs comp_def)
qed

lemma resource_kind:
  "\<lparr>el_id = x, el_kind = k\<rparr> \<in> set (audienceElements i @ personalElements i @ managedElements m) \<Longrightarrow> element_kind (resourceGraph i m) x = Some k"
  using element_kind_SomeI [OF resource_distinct, of "\<lparr>el_id = x, el_kind = k\<rparr>" i m] by (simp add: resource_elements)

lemma resource_kinds:
  "element_kind (resourceGraph i m) (resourceUser i) = Some User" "element_kind (resourceGraph i m) (resourceTarget i) = Some Object"
  "element_kind (resourceGraph i m) threadSubject = Some UserAttribute" "element_kind (resourceGraph i m) threadShared = Some UserAttribute"
  "element_kind (resourceGraph i m) threadPrivateOwner = Some UserAttribute"
  "element_kind (resourceGraph i m) threadAdministrator = Some UserAttribute"
  "element_kind (resourceGraph i m) threadObjects = Some ObjectAttribute" "element_kind (resourceGraph i m) audienceClass = Some PolicyClass"
  "ra_personalWorkspaceId i \<noteq> None \<Longrightarrow> element_kind (resourceGraph i m) personalClass = Some PolicyClass"
  "ra_personalWorkspaceId i \<noteq> None \<Longrightarrow> element_kind (resourceGraph i m) personalObjects = Some ObjectAttribute"
  "ra_personalWorkspaceId i \<noteq> None \<Longrightarrow> element_kind (resourceGraph i m) personalOwner = Some UserAttribute"
  "ra_personalWorkspaceId i \<noteq> None \<Longrightarrow> element_kind (resourceGraph i m) personalAdministrator = Some UserAttribute"
  "m = Some p \<Longrightarrow> element_kind (resourceGraph i m) managedClass = Some PolicyClass"
  "m = Some p \<Longrightarrow> element_kind (resourceGraph i m) managedObjects = Some ObjectAttribute"
  "m = Some p \<Longrightarrow> n < length (mp_grants p) \<Longrightarrow> element_kind (resourceGraph i m) (allocationAttribute n) = Some UserAttribute"
  by (rule resource_kind; auto simp: resource_element_defs)+

text \<open>The assignments, by part.\<close>

lemma audience_assigned:
  "\<lparr>child = x, parent = y\<rparr> \<in> set (audienceAssignments i) \<longleftrightarrow>
    (x, y) \<in> {(resourceUser i, threadSubject), (threadSubject, audienceClass), (threadPrivateOwner, audienceClass),
      (threadAdministrator, audienceClass), (threadShared, audienceClass), (resourceTarget i, threadObjects), (threadObjects, audienceClass)}
    \<or> x = resourceUser i \<and> (y = threadShared \<and> ra_visibility i = WorkspaceVisible
      \<or> y = threadPrivateOwner \<and> ra_visibility i = PrivateVisible \<and> ra_privateOwnerUserId i = Some (actorUser (ra_actor i))
      \<or> y = threadAdministrator \<and> ra_administrator i)"
  by (auto simp: audienceAssignments_def)

lemma personal_assigned:
  "\<lparr>child = x, parent = y\<rparr> \<in> set (personalAssignments i) \<longleftrightarrow> ra_personalWorkspaceId i \<noteq> None \<and>
    ((x, y) \<in> {(threadSubject, personalClass), (resourceTarget i, personalObjects), (personalObjects, personalClass), (personalOwner, personalClass),
      (personalAdministrator, personalClass)}
    \<or> x = resourceUser i \<and> (y = personalOwner \<and> ra_personalWorkspaceId i = Some (ra_workspaceId i)
      \<or> y = personalAdministrator \<and> ra_administrator i))"
  by (auto simp: personalAssignments_def)

lemma enumerate_indexed: "List.enumerate 0 xs = map (\<lambda>n. (n, xs ! n)) [0..<length xs]"
  by (rule nth_equalityI) (simp_all add: nth_enumerate_eq)

lemma managed_assigned:
  "\<lparr>child = x, parent = y\<rparr> \<in> set (managedAssignments i m) \<longleftrightarrow> (\<exists>p. m = Some p \<and>
    ((x, y) \<in> {(resourceTarget i, managedObjects), (managedObjects, managedClass)}
    \<or> (\<exists>n<length (mp_grants p). x = allocationAttribute n \<and> y = managedClass
        \<or> x = resourceUser i \<and> y = allocationAttribute n \<and> subjectMatches (fst (mp_grants p ! n)) (ra_actor i))))"
  by (cases m) (auto simp: managedAssignments_def enumerate_indexed split_beta)

lemma resource_assigned:
  "(x, y) \<in> assigned (resourceGraph i m) \<longleftrightarrow> \<lparr>child = x, parent = y\<rparr> \<in> set (audienceAssignments i)
    \<or> \<lparr>child = x, parent = y\<rparr> \<in> set (personalAssignments i) \<or> \<lparr>child = x, parent = y\<rparr> \<in> set (managedAssignments i m)"
  unfolding assigned_iff by (simp add: resourceGraph_def)

lemma resource_layers:
  assumes "(x, y) \<in> assigned (resourceGraph i m)"
  shows "(element_kind (resourceGraph i m) x, element_kind (resourceGraph i m) y) \<in> layerPairs"
  using assms unfolding resource_assigned
proof (elim disjE)
  assume "\<lparr>child = x, parent = y\<rparr> \<in> set (audienceAssignments i)"
  then show ?thesis unfolding audience_assigned by (auto simp: resource_kinds layerPairs_def)
next
  assume "\<lparr>child = x, parent = y\<rparr> \<in> set (personalAssignments i)"
  then show ?thesis unfolding personal_assigned by (elim conjE disjE) (auto simp: resource_kinds layerPairs_def)
next
  assume "\<lparr>child = x, parent = y\<rparr> \<in> set (managedAssignments i m)"
  then show ?thesis unfolding managed_assigned by (auto simp: resource_kinds layerPairs_def)
qed

lemma resource_member:
  "(resourceUser i, y) \<in> assigned (resourceGraph i m) \<longleftrightarrow> y = threadSubject
    \<or> y = threadShared \<and> ra_visibility i = WorkspaceVisible
    \<or> y = threadPrivateOwner \<and> ra_visibility i = PrivateVisible \<and> ra_privateOwnerUserId i = Some (actorUser (ra_actor i))
    \<or> y = threadAdministrator \<and> ra_administrator i
    \<or> y = personalOwner \<and> ra_personalWorkspaceId i = Some (ra_workspaceId i)
    \<or> y = personalAdministrator \<and> ra_personalWorkspaceId i \<noteq> None \<and> ra_administrator i
    \<or> (\<exists>p n. m = Some p \<and> n < length (mp_grants p) \<and> y = allocationAttribute n \<and> subjectMatches (fst (mp_grants p ! n)) (ra_actor i))"
  unfolding resource_assigned audience_assigned personal_assigned managed_assigned by auto

lemma resource_filed:
  "(resourceTarget i, y) \<in> assigned (resourceGraph i m) \<longleftrightarrow> y = threadObjects
    \<or> y = personalObjects \<and> ra_personalWorkspaceId i \<noteq> None \<or> y = managedObjects \<and> m \<noteq> None"
  unfolding resource_assigned audience_assigned personal_assigned managed_assigned by auto

lemma resource_classes:
  "(threadObjects, y) \<in> assigned (resourceGraph i m) \<longleftrightarrow> y = audienceClass"
  "(personalObjects, y) \<in> assigned (resourceGraph i m) \<longleftrightarrow> y = personalClass \<and> ra_personalWorkspaceId i \<noteq> None"
  "(managedObjects, y) \<in> assigned (resourceGraph i m) \<longleftrightarrow> y = managedClass \<and> m \<noteq> None"
  unfolding resource_assigned audience_assigned personal_assigned managed_assigned by auto

text \<open>The policy of a boundary as the schema admits it: every allocation names an operation, and only
  operations of the product.\<close>

definition allocated :: "ManagedPolicy option \<Rightarrow> bool" where
  "allocated m \<longleftrightarrow> (\<forall>p. m = Some p \<longrightarrow> (\<forall>x\<in>set (mp_grants p) \<union> set (mp_prohibitions p).
    snd x \<noteq> [] \<and> set (snd x) \<subseteq> fst ` set PRODUCT_OPERATION_ACCESS_RIGHTS))"

lemma member_nonempty: "memberRights \<noteq> []"
  by (simp add: memberRights_def WORKSPACE_MEMBER_OPERATIONS_def)

lemma resource_associations:
  "set (associations (resourceGraph i m)) =
    grantAssociation threadObjects ` {threadShared, threadPrivateOwner, threadAdministrator}
    \<union> (if ra_personalWorkspaceId i = None then {} else grantAssociation personalObjects ` {personalOwner, personalAdministrator})
    \<union> (\<Union>p\<in>set_option m. (\<lambda>n. \<lparr>as_id = ''assoc:resource-allocation:'' @ natText n, as_userAttribute = allocationAttribute n,
        as_accessRights = map accessRight (snd (mp_grants p ! n)), as_targetAttribute = managedObjects\<rparr>) ` {..<length (mp_grants p)})"
proof -
  have managed: "set (managedAssociations m) = (\<Union>p\<in>set_option m. (\<lambda>n. \<lparr>as_id = ''assoc:resource-allocation:'' @ natText n,
      as_userAttribute = allocationAttribute n, as_accessRights = map accessRight (snd (mp_grants p ! n)),
      as_targetAttribute = managedObjects\<rparr>) ` {..<length (mp_grants p)})"
    by (cases m) (simp_all add: managedAssociations_def enumerate_indexed split_beta image_image lessThan_atLeast0)
  show ?thesis unfolding resourceGraph_def PolicyState.simps set_append managed by simp
qed

lemma resource_prohibitions:
  "set (or_empty (prohibitions (resourceGraph i m))) =
    (\<Union>p\<in>set_option m. \<Union>n\<in>{..<length (mp_prohibitions p)}. set (managedProhibition i (n, mp_prohibitions p ! n)))"
  by (cases m) (auto simp: resourceGraph_def or_empty_def enumerate_indexed)

lemma resource_children:
  "{resourceUser i, threadSubject, threadPrivateOwner, threadAdministrator, threadShared, resourceTarget i, threadObjects}
    \<subseteq> child ` set (audienceAssignments i)"
  "ra_personalWorkspaceId i \<noteq> None \<Longrightarrow> {personalObjects, personalOwner, personalAdministrator} \<subseteq> child ` set (personalAssignments i)"
  "m = Some p \<Longrightarrow> insert managedObjects (allocationAttribute ` {..<length (mp_grants p)}) \<subseteq> child ` set (managedAssignments i m)"
  by (simp_all add: audienceAssignments_def personalAssignments_def managedAssignments_def enumerate_indexed image_Un image_UN split_beta)
    (auto simp: image_iff)

lemma resource_connected: "list_all (\<lambda>e. el_kind e = PolicyClass \<or> el_id e \<in> child ` set (assignments (resourceGraph i m))) (elements (resourceGraph i m))"
proof -
  have parts: "child ` set (assignments (resourceGraph i m)) =
      child ` set (audienceAssignments i) \<union> child ` set (personalAssignments i) \<union> child ` set (managedAssignments i m)"
    by (simp add: resourceGraph_def image_Un Un_assoc)
  have "el_kind e = PolicyClass \<or> el_id e \<in> child ` set (audienceAssignments i)" if "e \<in> set (audienceElements i)" for e
    using that resource_children(1) [of i] by (auto simp: audienceElements_def)
  moreover have "el_kind e = PolicyClass \<or> el_id e \<in> child ` set (personalAssignments i)" if "e \<in> set (personalElements i)" for e
    using that resource_children(2) [of i] by (auto simp: personalElements_def split: if_splits)
  moreover have "el_kind e = PolicyClass \<or> el_id e \<in> child ` set (managedAssignments i m)" if "e \<in> set (managedElements m)" for e
    using that resource_children(3) [of m _ i] by (cases m) (force simp: managedElements_def)+
  ultimately show ?thesis unfolding list_all_iff resource_elements parts set_append by blast
qed

lemma managed_prohibition:
  assumes "pr \<in> set (managedProhibition i (n, subject, ops))"
  shows "pr_accessRights pr = map accessRight ops" "pr_range pr = \<lparr>rg_type = Disjunctive, rg_include = Some [managedObjects], rg_exclude = None\<rparr>"
    "pr_kind pr = ForUser \<and> pr_subject pr = resourceUser i \<or> pr_kind pr = ForProcess \<and> actorProcess (ra_actor i) = Some (pr_subject pr)"
  using assms
  by (cases subject; cases "ra_actor i"; auto simp: managedProhibition_def Let_def split: if_splits)+

lemma allocated_ops:
  assumes "allocated m" "m = Some p"
  shows "n < length (mp_grants p) \<Longrightarrow> snd (mp_grants p ! n) \<noteq> [] \<and> set (snd (mp_grants p ! n)) \<subseteq> fst ` set PRODUCT_OPERATION_ACCESS_RIGHTS"
    "n < length (mp_prohibitions p) \<Longrightarrow>
      snd (mp_prohibitions p ! n) \<noteq> [] \<and> set (snd (mp_prohibitions p ! n)) \<subseteq> fst ` set PRODUCT_OPERATION_ACCESS_RIGHTS"
  using assms unfolding allocated_def by (blast dest: nth_mem)+

lemma resource_operations:
  "operations (resourceGraph i m) = map (\<lambda>i. \<lparr>op_id = i, op_accessRights = [accessRight i]\<rparr>) WORKSPACE_MEMBER_OPERATIONS"
  by (simp add: resourceGraph_def)

lemma resource_layered:
  assumes "allocated m"
  shows "layered_policy (resourceGraph i m) (resourceUser i) (resourceTarget i)"
proof (rule layered_policyI)
  let ?P = "resourceGraph i m"
  show "list_all (\<lambda>e. el_id e \<noteq> []) (elements ?P)"
    by (cases m) (auto simp: resource_elements resource_element_defs resource_names_nonempty list_all_iff)
  show "distinct (map el_id (elements ?P))" by (rule resource_distinct)
  show "list_all (\<lambda>a. (element_kind ?P (child a), element_kind ?P (parent a)) \<in> layerPairs) (assignments ?P)"
    unfolding list_all_iff by (intro ballI resource_layers) (auto simp: assigned_def)
  show "list_all (\<lambda>e. el_kind e = PolicyClass \<or> el_id e \<in> child ` set (assignments ?P)) (elements ?P)" by (rule resource_connected)
  show "list_all (\<lambda>s. element_kind ?P (as_userAttribute s) = Some UserAttribute
      \<and> element_kind ?P (as_targetAttribute s) = Some ObjectAttribute \<and> as_accessRights s \<noteq> []) (associations ?P)"
    unfolding list_all_iff resource_associations
    by (auto simp: grantAssociation_def member_nonempty resource_kinds allocated_ops [OF assms] split: if_splits)
  have "prohibition_wellformed ?P pr" if pr: "m = Some p" "n < length (mp_prohibitions p)" "pr \<in> set (managedProhibition i (n, mp_prohibitions p ! n))" for p n pr
  proof -
    note made = managed_prohibition [of pr i n "fst (mp_prohibitions p ! n)" "snd (mp_prohibitions p ! n)", simplified, OF pr(3)]
    have "element_kind ?P managedObjects = Some ObjectAttribute" "map accessRight (snd (mp_prohibitions p ! n)) \<noteq> []"
      using resource_kinds(14) [OF pr(1)] allocated_ops(2) [OF assms pr(1,2)] by simp_all
    moreover have "case pr_kind pr of ForUser \<Rightarrow> element_kind ?P (pr_subject pr) = Some User
        | ForUserAttribute \<Rightarrow> element_kind ?P (pr_subject pr) = Some UserAttribute
        | ForProcess \<Rightarrow> \<exists>e\<in>set (or_empty (processUsers ?P)). pu_process e = pr_subject pr"
      using made(3) by (auto simp: resource_kinds) (simp add: resourceGraph_def or_empty_def)
    ultimately show ?thesis unfolding prohibition_wellformed_def made(1,2) by (simp add: or_empty_def isAttributeElement_def)
  qed
  then show "list_all (prohibition_wellformed ?P) (or_empty (prohibitions ?P))"
    unfolding list_all_iff resource_prohibitions by (cases m) auto
  show "list_all (\<lambda>u. pu_user u = resourceUser i) (or_empty (processUsers ?P))"
    by (cases "actorProcess (ra_actor i)") (simp_all add: resourceGraph_def or_empty_def)
qed (simp_all add: resource_kinds resource_operations list_all_iff)

subsection \<open>What each class grants\<close>

lemma rights_inj: "inj_on accessRight (fst ` set PRODUCT_OPERATION_ACCESS_RIGHTS)"
proof -
  have "distinct (map accessRight (map fst PRODUCT_OPERATION_ACCESS_RIGHTS))" by code_simp
  then show ?thesis by (simp add: distinct_map comp_inj_on_iff [symmetric] inj_on_imageI del: map_map)
qed

lemma member_operations: "set WORKSPACE_MEMBER_OPERATIONS \<subseteq> fst ` set PRODUCT_OPERATION_ACCESS_RIGHTS"
  by (simp add: WORKSPACE_MEMBER_OPERATIONS_def PRODUCT_OPERATION_ACCESS_RIGHTS_def)

lemma right_allocated:
  assumes "operation \<in> set WORKSPACE_MEMBER_OPERATIONS" "set ops \<subseteq> fst ` set PRODUCT_OPERATION_ACCESS_RIGHTS"
  shows "accessRight operation \<in> set (map accessRight ops) \<longleftrightarrow> operation \<in> set ops"
  using inj_on_image_mem_iff [OF rights_inj _ assms(2), of operation] member_operations assms(1) by auto

abbreviation resourceGrants :: "ResourceAccessInput \<Rightarrow> ManagedPolicy option \<Rightarrow> string \<Rightarrow> string \<Rightarrow> bool" where
  "resourceGrants i m \<equiv> layered_policy.granted (resourceGraph i m) (resourceUser i) (resourceTarget i)"

lemma resource_granted:
  assumes "allocated m"
  shows "resourceGrants i m ar pc \<longleftrightarrow> (\<exists>a\<in>set (associations (resourceGraph i m)).
    (resourceUser i, as_userAttribute a) \<in> assigned (resourceGraph i m) \<and> (resourceTarget i, as_targetAttribute a) \<in> assigned (resourceGraph i m)
    \<and> (as_targetAttribute a, pc) \<in> assigned (resourceGraph i m) \<and> ar \<in> set (as_accessRights a))"
  unfolding layered_policy.granted_def [OF resource_layered [OF assms]] layered_policy.member_def [OF resource_layered [OF assms]]
    layered_policy.filed_def [OF resource_layered [OF assms]] ..

lemma granted_classes:
  assumes "allocated m" "operation \<in> set WORKSPACE_MEMBER_OPERATIONS"
  shows "resourceGrants i m (accessRight operation) audienceClass \<longleftrightarrow>
      ra_visibility i = WorkspaceVisible \<or> ra_visibility i = PrivateVisible \<and> ra_privateOwnerUserId i = Some (actorUser (ra_actor i)) \<or> ra_administrator i"
    "ra_personalWorkspaceId i \<noteq> None \<Longrightarrow> resourceGrants i m (accessRight operation) personalClass \<longleftrightarrow>
      ra_personalWorkspaceId i = Some (ra_workspaceId i) \<or> ra_administrator i"
    "m = Some p \<Longrightarrow> resourceGrants i m (accessRight operation) managedClass \<longleftrightarrow>
      (\<exists>x\<in>set (mp_grants p). subjectMatches (fst x) (ra_actor i) \<and> operation \<in> set (snd x))"
proof -
  have right: "accessRight operation \<in> set memberRights" using assms(2) by (simp add: memberRights_def)
  note unfold = resource_granted [OF assms(1)] resource_associations bex_Un resource_member resource_filed resource_classes
  show "resourceGrants i m (accessRight operation) audienceClass \<longleftrightarrow>
      ra_visibility i = WorkspaceVisible \<or> ra_visibility i = PrivateVisible \<and> ra_privateOwnerUserId i = Some (actorUser (ra_actor i)) \<or> ra_administrator i"
    unfolding unfold using right by (cases m) (auto simp: grantAssociation_def resource_classes)
  show "ra_personalWorkspaceId i \<noteq> None \<Longrightarrow> resourceGrants i m (accessRight operation) personalClass \<longleftrightarrow>
      ra_personalWorkspaceId i = Some (ra_workspaceId i) \<or> ra_administrator i"
    unfolding unfold using right by (cases m) (auto simp: grantAssociation_def resource_classes)
  assume m: "m = Some p"
  have "resourceGrants i m (accessRight operation) managedClass \<longleftrightarrow>
      (\<exists>n<length (mp_grants p). subjectMatches (fst (mp_grants p ! n)) (ra_actor i) \<and> operation \<in> set (snd (mp_grants p ! n)))"
    unfolding unfold using right_allocated [OF assms(2)] allocated_ops(1) [OF assms(1) m] m
    by (auto simp: grantAssociation_def resource_classes)
  then show "resourceGrants i m (accessRight operation) managedClass \<longleftrightarrow>
      (\<exists>x\<in>set (mp_grants p). subjectMatches (fst x) (ra_actor i) \<and> operation \<in> set (snd x))"
    by (metis in_set_conv_nth)
qed

lemma resource_restricted:
  assumes "allocated m" "operation \<in> set WORKSPACE_MEMBER_OPERATIONS" "m = Some p" "rq_process r = actorProcess (ra_actor i)" "rq_target r = resourceTarget i"
  shows "(\<exists>pr\<in>set (or_empty (prohibitions (resourceGraph i m))). restricted (resourceGraph i m) r (resourceUser i) [accessRight operation] pr) \<longleftrightarrow>
    (\<exists>x\<in>set (mp_prohibitions p). (fst x = UserSubject (actorUser (ra_actor i)) \<or> subjectMatches (fst x) (ra_actor i)) \<and> operation \<in> set (snd x))"
proof -
  let ?P = "resourceGraph i m"
  have "contained ?P (resourceTarget i) managedObjects"
    unfolding layered_policy.contained_filed [OF resource_layered [OF assms(1)] resource_kinds(14) [OF assms(3)]]
      layered_policy.filed_def [OF resource_layered [OF assms(1)]] resource_filed using assms(3) by simp
  then have range: "in_range ?P (rq_target r) \<lparr>rg_type = Disjunctive, rg_include = Some [managedObjects], rg_exclude = None\<rparr>"
    by (simp add: in_range_def or_empty_def assms(5))
  have "(\<exists>pr\<in>set (managedProhibition i (n, x)). restricted ?P r (resourceUser i) [accessRight operation] pr) \<longleftrightarrow>
      (fst x = UserSubject (actorUser (ra_actor i)) \<or> subjectMatches (fst x) (ra_actor i)) \<and> operation \<in> set (snd x)"
    if "set (snd x) \<subseteq> fst ` set PRODUCT_OPERATION_ACCESS_RIGHTS" for n x
  proof -
    have "restricted ?P r (resourceUser i) [accessRight operation] pr \<longleftrightarrow> operation \<in> set (snd x)" if "pr \<in> set (managedProhibition i (n, x))" for pr
      using managed_prohibition [of pr i n "fst x" "snd x", simplified, OF that] right_allocated [OF assms(2) \<open>set (snd x) \<subseteq> _\<close>] range assms(4)
      by (auto simp: restricted_def)
    moreover have "managedProhibition i (n, x) \<noteq> [] \<longleftrightarrow> fst x = UserSubject (actorUser (ra_actor i)) \<or> subjectMatches (fst x) (ra_actor i)"
      by (cases "fst x") (auto simp: managedProhibition_def Let_def split_beta)
    ultimately show ?thesis by (cases "managedProhibition i (n, x)") auto
  qed
  note each = this [OF allocated_ops(2) [OF assms(1,3), THEN conjunct2]]
  have "(\<exists>pr\<in>set (or_empty (prohibitions ?P)). restricted ?P r (resourceUser i) [accessRight operation] pr) \<longleftrightarrow>
      (\<exists>n<length (mp_prohibitions p). \<exists>pr\<in>set (managedProhibition i (n, mp_prohibitions p ! n)).
        restricted ?P r (resourceUser i) [accessRight operation] pr)"
    unfolding resource_prohibitions using assms(3) by auto
  also have "\<dots> \<longleftrightarrow> (\<exists>n<length (mp_prohibitions p). (fst (mp_prohibitions p ! n) = UserSubject (actorUser (ra_actor i))
      \<or> subjectMatches (fst (mp_prohibitions p ! n)) (ra_actor i)) \<and> operation \<in> set (snd (mp_prohibitions p ! n)))"
    using each by blast
  also have "\<dots> \<longleftrightarrow> (\<exists>x\<in>set (mp_prohibitions p).
      (fst x = UserSubject (actorUser (ra_actor i)) \<or> subjectMatches (fst x) (ra_actor i)) \<and> operation \<in> set (snd x))"
    by (metis in_set_conv_nth)
  finally show ?thesis .
qed

text \<open>The decision on a graph, class by class.\<close>

lemma resource_decision:
  assumes "allocated m"
  shows "effect (evaluateAccess (resourceGraph i m)
      \<lparr>rq_user = Some (resourceUser i), rq_process = actorProcess (ra_actor i), rq_operation = operation, rq_target = resourceTarget i\<rparr>) = Allow \<longleftrightarrow>
    operation \<in> set WORKSPACE_MEMBER_OPERATIONS
    \<and> (ra_visibility i = WorkspaceVisible \<or> ra_visibility i = PrivateVisible \<and> ra_privateOwnerUserId i = Some (actorUser (ra_actor i)) \<or> ra_administrator i)
    \<and> (ra_personalWorkspaceId i = None \<or> ra_personalWorkspaceId i = Some (ra_workspaceId i) \<or> ra_administrator i)
    \<and> (\<forall>p. m = Some p \<longrightarrow>
        (\<exists>x\<in>set (mp_grants p). subjectMatches (fst x) (ra_actor i) \<and> operation \<in> set (snd x))
        \<and> \<not> (\<exists>x\<in>set (mp_prohibitions p). (fst x = UserSubject (actorUser (ra_actor i)) \<or> subjectMatches (fst x) (ra_actor i)) \<and> operation \<in> set (snd x)))"
    (is "effect (evaluateAccess ?P ?r) = Allow \<longleftrightarrow> _")
proof (cases "operation \<in> set WORKSPACE_MEMBER_OPERATIONS")
  case False
  then show ?thesis using layered_policy.evaluate_iff [OF resource_layered [OF assms, of i], of ?r]
    by (simp add: resource_operations find_made)
next
  case True
  note layered = resource_layered [OF assms, of i]
  have free: "(\<forall>pr\<in>set (or_empty (prohibitions ?P)). \<not> restricted ?P ?r (resourceUser i) [accessRight operation] pr) \<longleftrightarrow>
      (\<forall>p. m = Some p \<longrightarrow> \<not> (\<exists>x\<in>set (mp_prohibitions p).
        (fst x = UserSubject (actorUser (ra_actor i)) \<or> subjectMatches (fst x) (ra_actor i)) \<and> operation \<in> set (snd x)))"
  proof (cases m)
    case None
    then show ?thesis by (simp add: resource_prohibitions)
  next
    case (Some p)
    then show ?thesis using resource_restricted [OF assms True Some, of ?r i] by (simp only: AccessRequest.simps) blast
  qed
  have "effect (evaluateAccess ?P ?r) = Allow \<longleftrightarrow>
      (\<forall>oa pc. (resourceTarget i, oa) \<in> assigned ?P \<and> (oa, pc) \<in> assigned ?P \<longrightarrow> resourceGrants i m (accessRight operation) pc)
      \<and> (\<forall>pr\<in>set (or_empty (prohibitions ?P)). \<not> restricted ?P ?r (resourceUser i) [accessRight operation] pr)"
    using layered_policy.evaluate_iff [OF layered, of ?r] True
    by (simp add: resource_operations find_made layered_policy.filed_def [OF layered])
  moreover have "(\<forall>oa pc. (resourceTarget i, oa) \<in> assigned ?P \<and> (oa, pc) \<in> assigned ?P \<longrightarrow> resourceGrants i m (accessRight operation) pc) \<longleftrightarrow>
      resourceGrants i m (accessRight operation) audienceClass
      \<and> (ra_personalWorkspaceId i \<noteq> None \<longrightarrow> resourceGrants i m (accessRight operation) personalClass)
      \<and> (m \<noteq> None \<longrightarrow> resourceGrants i m (accessRight operation) managedClass)"
  proof -
    have "(\<forall>oa pc. (resourceTarget i, oa) \<in> assigned ?P \<and> (oa, pc) \<in> assigned ?P \<longrightarrow> resourceGrants i m (accessRight operation) pc) \<longleftrightarrow>
        (\<forall>pc. (threadObjects, pc) \<in> assigned ?P \<longrightarrow> resourceGrants i m (accessRight operation) pc)
        \<and> (ra_personalWorkspaceId i \<noteq> None \<longrightarrow> (\<forall>pc. (personalObjects, pc) \<in> assigned ?P \<longrightarrow> resourceGrants i m (accessRight operation) pc))
        \<and> (m \<noteq> None \<longrightarrow> (\<forall>pc. (managedObjects, pc) \<in> assigned ?P \<longrightarrow> resourceGrants i m (accessRight operation) pc))"
      unfolding resource_filed by blast
    then show ?thesis unfolding resource_classes by simp
  qed
  moreover note granted = granted_classes [OF assms True, where i = i]
  moreover have "(ra_personalWorkspaceId i \<noteq> None \<longrightarrow> resourceGrants i m (accessRight operation) personalClass) \<longleftrightarrow>
      ra_personalWorkspaceId i = None \<or> ra_personalWorkspaceId i = Some (ra_workspaceId i) \<or> ra_administrator i"
    using granted(2) by (cases "ra_personalWorkspaceId i") simp_all
  moreover have "(m \<noteq> None \<longrightarrow> resourceGrants i m (accessRight operation) managedClass) \<longleftrightarrow>
      (\<forall>p. m = Some p \<longrightarrow> (\<exists>x\<in>set (mp_grants p). subjectMatches (fst x) (ra_actor i) \<and> operation \<in> set (snd x)))"
    using granted(3) by (cases m) simp_all
  ultimately show ?thesis unfolding free granted(1) using True by (simp only: all_conj_distrib imp_conjR) argo
qed

subsection \<open>From the document to the graph\<close>

declare permissionEffect.simps [simp del]

text \<open>A statement governs a Thread when it is active and names the Thread; a rule of an effect is a governing
  permission of that effect, for one of its recipients and actions.\<close>

definition governs :: "string \<Rightarrow> PolicyStatementV1 \<Rightarrow> bool" where
  "governs thread s \<longleftrightarrow> st_state s = ActiveState
    \<and> (\<exists>c. ContainerResource c \<in> set (ps_resources (st_scope s)) \<and> pc_kind c = ''thread'' \<and> pc_id c = thread)"

definition managedThread :: "PolicyDocumentV1 \<Rightarrow> string \<Rightarrow> bool" where
  "managedThread document thread \<longleftrightarrow> (\<exists>s\<in>set document. governs thread s \<and> st_body s = ManagedBoundaryBody)"

definition threadRule :: "PolicyDocumentV1 \<Rightarrow> string \<Rightarrow> PermissionEffect \<Rightarrow> WorkspacePolicySubject \<Rightarrow> string \<Rightarrow> bool" where
  "threadRule document thread eff subject operation \<longleftrightarrow>
    (\<exists>s\<in>set document. governs thread s \<and> permissionEffect s = Some eff \<and> workspacePolicySubject s = Inr (Some subject)
      \<and> operation \<in> set (ps_actions (st_scope s)))"

lemma matching_iff: "s \<in> set (matchingStatements i document) \<longleftrightarrow> s \<in> set document \<and> governs (ra_threadId i) s"
proof -
  have "list_ex (\<lambda>r. case r of ContainerResource c \<Rightarrow> pc_kind c = ''thread'' \<and> pc_id c = x | _ \<Rightarrow> False) rs \<longleftrightarrow>
      (\<exists>c. ContainerResource c \<in> set rs \<and> pc_kind c = ''thread'' \<and> pc_id c = x)" for x rs
    by (auto simp: list_ex_iff split: PolicyResourceV1.splits) (metis PolicyResourceV1.exhaust)
  then show ?thesis by (auto simp: matchingStatements_def governs_def)
qed

lemma recipient:
  assumes "workspaceStatement s" "permissionEffect s = Some eff"
  shows "\<exists>subject. workspacePolicySubject s = Inr (Some subject)" "set (ps_actions (st_scope s)) \<subseteq> fst ` set PRODUCT_OPERATION_ACCESS_RIGHTS"
  using assms
  by (auto simp: workspaceStatement_def workspacePolicySubject_def permissionEffect.simps Let_def list_all_iff
      split: StatementBody.splits list.splits PolicyPrincipalV1.splits PolicyGrantV1.splits)

lemma allocations_iff:
  assumes "\<And>s. s \<in> set matching \<Longrightarrow> workspaceStatement s"
  shows "\<exists>xs. allocations eff matching = Inr xs \<and> (\<forall>subject ops. (subject, ops) \<in> set xs \<longleftrightarrow>
    (\<exists>s\<in>set matching. permissionEffect s = Some eff \<and> workspacePolicySubject s = Inr (Some subject) \<and> ops = ps_actions (st_scope s)))"
  using assms
proof (induction matching)
  case Nil
  then show ?case by (simp add: allocations_def)
next
  case (Cons s matching)
  then obtain xs where xs: "allocations eff matching = Inr xs" "\<forall>subject ops. (subject, ops) \<in> set xs \<longleftrightarrow>
      (\<exists>s\<in>set matching. permissionEffect s = Some eff \<and> workspacePolicySubject s = Inr (Some subject) \<and> ops = ps_actions (st_scope s))"
    by auto
  have effect: "(case st_body s of PermissionBody p \<Rightarrow> pm_effect p = eff | _ \<Rightarrow> False) \<longleftrightarrow> permissionEffect s = Some eff"
    by (cases "st_body s") (simp_all add: permissionEffect.simps)
  show ?case
  proof (cases "permissionEffect s = Some eff")
    case True
    then obtain subject where "workspacePolicySubject s = Inr (Some subject)" using recipient(1) [of s eff] Cons.prems by auto
    then have "allocations eff (s # matching) = Inr ((subject, ps_actions (st_scope s)) # xs)" using True xs(1) effect by (simp add: allocations_def)
    then show ?thesis using xs(2) True \<open>workspacePolicySubject s = _\<close> by auto
  next
    case False
    then have "allocations eff (s # matching) = Inr xs" using xs(1) effect by (simp add: allocations_def)
    then show ?thesis using xs(2) False by auto
  qed
qed

lemma parsed_policy:
  assumes "parseWorkspacePolicy pf workspaceId input = Inr document"
  shows "document = input" "s \<in> set document \<Longrightarrow> workspaceStatement s" "s \<in> set document \<Longrightarrow> statementSchema (pf_parseUrl pf) s"
  using assms
  by (auto simp: parseWorkspacePolicy_def bindE_Inr_iff parseWith_Inr_iff WorkspacePolicyDocumentSchema_def PolicyDocumentV1Schema_def list_all_iff
      split: if_splits)

lemma permission_actions:
  assumes "statementSchema parseUrl s" "permissionEffect s = Some eff"
  shows "ps_actions (st_scope s) \<noteq> []"
  using assms by (auto simp: statementSchema_def permissionEffect.simps PolicyScopeV1Schema_def split: StatementBody.splits)

lemma managed_policy:
  assumes "parseWorkspacePolicy pf (ra_workspaceId i) (ra_policy i) = Inr document"
  obtains m where "managedPolicy i document = Inr m" "allocated m" "m \<noteq> None \<longleftrightarrow> managedThread (ra_policy i) (ra_threadId i)"
    "\<forall>p subject operation. m = Some p \<longrightarrow> (\<exists>ops. (subject, ops) \<in> set (mp_grants p) \<and> operation \<in> set ops) \<longleftrightarrow>
      threadRule (ra_policy i) (ra_threadId i) AllowEffect subject operation"
    "\<forall>p subject operation. m = Some p \<longrightarrow> (\<exists>ops. (subject, ops) \<in> set (mp_prohibitions p) \<and> operation \<in> set ops) \<longleftrightarrow>
      threadRule (ra_policy i) (ra_threadId i) ProhibitEffect subject operation"
proof -
  note parsed = parsed_policy [OF assms]
  let ?matching = "matchingStatements i document"
  have statement: "workspaceStatement s" if "s \<in> set ?matching" for s using that parsed(2) unfolding matching_iff by blast
  have found: "\<exists>xs. allocations eff ?matching = Inr xs \<and> (\<forall>subject ops. (subject, ops) \<in> set xs \<longleftrightarrow>
      (\<exists>s\<in>set ?matching. permissionEffect s = Some eff \<and> workspacePolicySubject s = Inr (Some subject) \<and> ops = ps_actions (st_scope s)))" for eff
    by (rule allocations_iff) (rule statement)
  obtain grants where grants: "allocations AllowEffect ?matching = Inr grants" "\<forall>subject ops. (subject, ops) \<in> set grants \<longleftrightarrow>
      (\<exists>s\<in>set ?matching. permissionEffect s = Some AllowEffect \<and> workspacePolicySubject s = Inr (Some subject) \<and> ops = ps_actions (st_scope s))"
    using found [of AllowEffect] by (elim exE conjE) (rule that)
  obtain bans where bans: "allocations ProhibitEffect ?matching = Inr bans" "\<forall>subject ops. (subject, ops) \<in> set bans \<longleftrightarrow>
      (\<exists>s\<in>set ?matching. permissionEffect s = Some ProhibitEffect \<and> workspacePolicySubject s = Inr (Some subject) \<and> ops = ps_actions (st_scope s))"
    using found [of ProhibitEffect] by (elim exE conjE) (rule that)
  define m where "m = (if managedThread (ra_policy i) (ra_threadId i) then Some \<lparr>mp_grants = grants, mp_prohibitions = bans\<rparr> else None)"
  have "list_ex (\<lambda>s. st_body s = ManagedBoundaryBody) ?matching \<longleftrightarrow> managedThread (ra_policy i) (ra_threadId i)"
    unfolding list_ex_iff Bex_def matching_iff managedThread_def parsed(1) by blast
  then have "managedPolicy i document = Inr m" using grants(1) bans(1) by (simp add: managedPolicy_def Let_def m_def)
  moreover have "snd x \<noteq> [] \<and> set (snd x) \<subseteq> fst ` set PRODUCT_OPERATION_ACCESS_RIGHTS" if listed: "x \<in> set grants \<union> set bans" for x
  proof -
    obtain subject ops where x: "x = (subject, ops)" by (cases x)
    then obtain s eff where s: "s \<in> set ?matching" "permissionEffect s = Some eff" "ops = ps_actions (st_scope s)"
      using listed grants(2) [rule_format, of subject ops] bans(2) [rule_format, of subject ops] by auto
    have "s \<in> set document" using s(1) unfolding matching_iff by blast
    then show ?thesis using recipient(2) [OF statement [OF s(1)] s(2)] permission_actions [OF parsed(3) s(2)] x s(3) by simp
  qed
  then have "allocated m" by (simp add: allocated_def m_def)
  moreover have "m \<noteq> None \<longleftrightarrow> managedThread (ra_policy i) (ra_threadId i)" by (simp add: m_def)
  moreover have "(\<exists>ops. (subject, ops) \<in> set (mp_grants p) \<and> operation \<in> set ops) \<longleftrightarrow>
      threadRule (ra_policy i) (ra_threadId i) AllowEffect subject operation" if "m = Some p" for p subject operation
  proof -
    have "mp_grants p = grants" using that by (auto simp: m_def split: if_splits)
    then have "(\<exists>ops. (subject, ops) \<in> set (mp_grants p) \<and> operation \<in> set ops) \<longleftrightarrow> (\<exists>s. s \<in> set ?matching \<and> permissionEffect s = Some AllowEffect
        \<and> workspacePolicySubject s = Inr (Some subject) \<and> operation \<in> set (ps_actions (st_scope s)))" using grants(2) by auto
    then show ?thesis unfolding threadRule_def matching_iff parsed(1) by blast
  qed
  moreover have "(\<exists>ops. (subject, ops) \<in> set (mp_prohibitions p) \<and> operation \<in> set ops) \<longleftrightarrow>
      threadRule (ra_policy i) (ra_threadId i) ProhibitEffect subject operation" if "m = Some p" for p subject operation
  proof -
    have "mp_prohibitions p = bans" using that by (auto simp: m_def split: if_splits)
    then have "(\<exists>ops. (subject, ops) \<in> set (mp_prohibitions p) \<and> operation \<in> set ops) \<longleftrightarrow> (\<exists>s. s \<in> set ?matching \<and> permissionEffect s = Some ProhibitEffect
        \<and> workspacePolicySubject s = Inr (Some subject) \<and> operation \<in> set (ps_actions (st_scope s)))" using bans(2) by auto
    then show ?thesis unfolding threadRule_def matching_iff parsed(1) by blast
  qed
  ultimately show ?thesis by (intro that) blast+
qed

subsection \<open>The exact decision\<close>

lemma workspace_resource_access:
  assumes "evaluateWorkspaceResourceAccess pf i = Inr decision"
  shows "effect decision = Allow \<longleftrightarrow>
    ra_operation i \<in> set WORKSPACE_MEMBER_OPERATIONS
    \<and> (ra_visibility i = WorkspaceVisible \<or> ra_visibility i = PrivateVisible \<and> ra_privateOwnerUserId i = Some (actorUser (ra_actor i)) \<or> ra_administrator i)
    \<and> (ra_personalWorkspaceId i = None \<or> ra_personalWorkspaceId i = Some (ra_workspaceId i) \<or> ra_administrator i)
    \<and> (\<not> managedThread (ra_policy i) (ra_threadId i)
      \<or> (\<exists>subject. subjectMatches subject (ra_actor i) \<and> threadRule (ra_policy i) (ra_threadId i) AllowEffect subject (ra_operation i))
        \<and> \<not> (\<exists>subject. (subject = UserSubject (actorUser (ra_actor i)) \<or> subjectMatches subject (ra_actor i))
            \<and> threadRule (ra_policy i) (ra_threadId i) ProhibitEffect subject (ra_operation i)))"
proof -
  obtain document where document: "parseWorkspacePolicy pf (ra_workspaceId i) (ra_policy i) = Inr document"
    using assms by (auto simp: evaluateWorkspaceResourceAccess_def bindE_Inr_iff)
  obtain m where m: "managedPolicy i document = Inr m" "allocated m" "m \<noteq> None \<longleftrightarrow> managedThread (ra_policy i) (ra_threadId i)"
    and grants: "\<forall>p subject operation. m = Some p \<longrightarrow> (\<exists>ops. (subject, ops) \<in> set (mp_grants p) \<and> operation \<in> set ops) \<longleftrightarrow>
      threadRule (ra_policy i) (ra_threadId i) AllowEffect subject operation"
    and bans: "\<forall>p subject operation. m = Some p \<longrightarrow> (\<exists>ops. (subject, ops) \<in> set (mp_prohibitions p) \<and> operation \<in> set ops) \<longleftrightarrow>
      threadRule (ra_policy i) (ra_threadId i) ProhibitEffect subject operation"
    by (rule managed_policy [OF document])
  have decision: "decision = evaluateAccess (resourceGraph i m)
      \<lparr>rq_user = Some (resourceUser i), rq_process = actorProcess (ra_actor i), rq_operation = ra_operation i, rq_target = resourceTarget i\<rparr>"
    using assms document m(1) by (simp add: evaluateWorkspaceResourceAccess_def)
  have pairs: "(\<exists>x\<in>set xs. P (fst x) \<and> operation \<in> set (snd x)) \<longleftrightarrow> (\<exists>subject. P subject \<and> (\<exists>ops. (subject, ops) \<in> set xs \<and> operation \<in> set ops))"
    for xs :: "allocation list" and P operation by force
  show ?thesis
  proof (cases m)
    case None
    then show ?thesis using m(3) unfolding decision resource_decision [OF m(2)] by simp
  next
    case (Some p)
    then have "(\<exists>ops. (subject, ops) \<in> set (mp_grants p) \<and> operation \<in> set ops) \<longleftrightarrow>
        threadRule (ra_policy i) (ra_threadId i) AllowEffect subject operation"
      "(\<exists>ops. (subject, ops) \<in> set (mp_prohibitions p) \<and> operation \<in> set ops) \<longleftrightarrow>
        threadRule (ra_policy i) (ra_threadId i) ProhibitEffect subject operation" for subject operation
      using grants bans by blast+
    note rules = this
    have granted: "(\<exists>x\<in>set (mp_grants p). subjectMatches (fst x) (ra_actor i) \<and> ra_operation i \<in> set (snd x)) \<longleftrightarrow>
        (\<exists>subject. subjectMatches subject (ra_actor i) \<and> threadRule (ra_policy i) (ra_threadId i) AllowEffect subject (ra_operation i))"
      unfolding rules(1) [symmetric] by (rule pairs)
    have banned: "(\<exists>x\<in>set (mp_prohibitions p). (fst x = UserSubject (actorUser (ra_actor i)) \<or> subjectMatches (fst x) (ra_actor i))
          \<and> ra_operation i \<in> set (snd x)) \<longleftrightarrow>
        (\<exists>subject. (subject = UserSubject (actorUser (ra_actor i)) \<or> subjectMatches subject (ra_actor i))
          \<and> threadRule (ra_policy i) (ra_threadId i) ProhibitEffect subject (ra_operation i))"
      unfolding rules(2) [symmetric] by (rule pairs)
    have "managedThread (ra_policy i) (ra_threadId i)" using m(3) Some by simp
    then show ?thesis unfolding decision granted [symmetric] banned [symmetric] Some
      using resource_decision [OF m(2) [unfolded Some], of i "ra_operation i"] by simp
  qed
qed

text \<open>C10: The authorization of a Thread is exactly its rules. A decision on a Thread of a Workspace allows
  exactly when the operation is one of a member; the Thread is shared with the Workspace, or is the user's own private
  Thread, or the user is an administrator; a personal Workspace is the user's own unless an
  administrator asks; and, when an active boundary manages the Thread, an active grant of the Policy
  names exactly the acting user or agent and the operation and no active prohibition names the
  operation for the user, whoever acts for them, or for exactly the acting agent.\<close>

theorem thread_access_exact:
  assumes "evaluateThreadAuthorization pf a = Inr decision"
    and "actor = orDefault (ta_actor a) (UserResourceActor (ta_userId a))"
  shows "effect decision = Allow \<longleftrightarrow>
    ta_operation a \<in> set WORKSPACE_MEMBER_OPERATIONS
    \<and> (th_visibility (ta_thread a) = WorkspaceThread \<or> th_privateOwnerUserId (ta_thread a) = Some (ta_userId a) \<or> ta_administrator a)
    \<and> (ta_personalWorkspaceId a = None \<or> ta_personalWorkspaceId a = Some (ta_workspaceId a) \<or> ta_administrator a)
    \<and> (\<not> managedThread (ta_policy a) (th_id (ta_thread a))
      \<or> (\<exists>subject. subjectMatches subject actor \<and> threadRule (ta_policy a) (th_id (ta_thread a)) AllowEffect subject (ta_operation a))
        \<and> \<not> (\<exists>subject. (subject = UserSubject (ta_userId a) \<or> subjectMatches subject actor)
            \<and> threadRule (ta_policy a) (th_id (ta_thread a)) ProhibitEffect subject (ta_operation a)))"
proof -
  have "actorUser actor = ta_userId a" "ThreadSchema (ta_thread a)" "th_visibility (ta_thread a) \<noteq> ServerThread"
    using assms unfolding evaluateThreadAuthorization_def Let_def by (auto simp: orDefault_def split: if_splits option.splits)
  moreover from this have "th_visibility (ta_thread a) \<in> {PrivateThread, WorkspaceThread}"
      "th_privateOwnerUserId (ta_thread a) \<noteq> None \<longleftrightarrow> th_visibility (ta_thread a) = PrivateThread"
    by (cases "th_visibility (ta_thread a)"; auto simp: ThreadSchema_def)+
  moreover have "evaluateWorkspaceResourceAccess pf
     \<lparr>ra_actor = actor, ra_administrator = ta_administrator a,
      ra_visibility = (if th_visibility (ta_thread a) = PrivateThread then PrivateVisible else WorkspaceVisible),
      ra_privateOwnerUserId = th_privateOwnerUserId (ta_thread a), ra_personalWorkspaceId = ta_personalWorkspaceId a,
      ra_workspaceId = ta_workspaceId a, ra_policy = ta_policy a, ra_threadId = th_id (ta_thread a), ra_operation = ta_operation a\<rparr> = Inr decision"
    using assms unfolding evaluateThreadAuthorization_def Let_def by (auto split: if_splits)
  note workspace_resource_access [OF this]
  ultimately show ?thesis by auto
qed

end
