(* ===== verification/Access_Samples.thy ===== *)
theory Access_Samples
  imports Goal_Access_Properties Resource_Access_Properties Policy_Samples
begin

text \<open>
  The theorems on the clients of the kernel at concrete inputs: a Goal domain that a human approved for an
  agent, delegated to its Coordinator, with a permission that the Coordinator issued under it; a
  tool that a human prohibits; and a Thread that a boundary manages for its user.
\<close>

subsection \<open>Goal Tasks\<close>

text \<open>A hash with values of the right form that tells the compared values apart by their length.\<close>

definition goalPlatform :: Platform where
  "goalPlatform = samplePlatform\<lparr>pf_sha256 := \<lambda>text. replicate 64 (''0123456789abcdef'' ! (length text mod 16))\<rparr>"

definition goalProcess :: PolicyProcess where
  "goalProcess = \<lparr>pp_workspaceId = sampleWorkspace, pp_threadId = ''th_01234567-89ab-7def-8123-456789abcdef'',
    pp_turnId = ''tu_01234567-89ab-7def-8123-456789abcdef''\<rparr>"

definition goalDelegation :: PolicyDelegationV1 where
  "goalDelegation = \<lparr>dl_delegate = AgentPrincipal ''lead'', dl_source = \<lparr>ds_workspaceId = sampleWorkspace, ds_goalId = ''goal'',
    ds_planVersionId = ''plan'', ds_planDigest = ''sha256:'' @ replicate 64 CHR ''0'', ds_approvalRequestId = ''approval''\<rparr>\<rparr>"

definition goalStatement :: PolicyStatementV1 where
  "goalStatement = sampleStatement ''domain'' [AgentPrincipal ''helper''] None (DelegationBody goalDelegation)"

definition goalPermission :: PolicyPermissionV1 where
  "goalPermission = \<lparr>pm_effect = AllowEffect, pm_grant = OrdinaryGrant\<rparr>"

definition goalException :: PolicyStatementV1 where
  "goalException = (sampleStatement ''exception'' [AgentPrincipal ''helper''] None (PermissionBody goalPermission))
    \<lparr>st_author := AgentPrincipal ''lead'',
     st_authority := DelegationAuthority \<lparr>sf_id = ''domain'', sf_digest = policyDigest goalPlatform (statementJson goalStatement)\<rparr>\<rparr>"

definition humanAllow :: PolicyDecision where
  "humanAllow = \<lparr>effect = Allow, reasons = [AssociationGrant ''member''],
    trace = \<lparr>tr_user = None, tr_process = None, requiredAccessRights = [], userClosure = [], targetClosure = [],
      policyClasses = [], matchedAssociations = [], matchedProhibitions = []\<rparr>\<rparr>"

definition goalInput :: "delegated list \<Rightarrow> GoalTaskAccessInput" where
  "goalInput permissions =
    \<lparr>gi_domain = Some (goalStatement, goalDelegation), gi_permissions = Some permissions,
     gi_subject = \<lparr>sj_principal = AgentPrincipal ''helper'', sj_onBehalfOf = None,
       sj_actor = ResponsibleActor AgentActor ''helper'' (Some sampleUser), sj_process = Some goalProcess,
       sj_credentialKind = WorkerPackageCredential, sj_responsibleHumanId = sampleUser\<rparr>,
     gi_responsibleHumanId = sampleUser, gi_resources = [], gi_operation = ''tool.use'',
     gi_resource = McpTool sampleWorkspace ''server'' ''tool'', gi_humanKernel = humanAllow\<rparr>"

lemma goalInput_simps [simp]:
  "gi_domain (goalInput ps) = Some (goalStatement, goalDelegation)" "gi_permissions (goalInput ps) = Some ps"
  "gi_resources (goalInput ps) = []" "sj_process (gi_subject (goalInput ps)) = Some goalProcess"
  by (simp_all add: goalInput_def)

lemma goal_input_valid:
  "PolicySubjectV1Schema (gi_subject (goalInput ps))" "PolicyResourceV1Schema (gi_resource (goalInput ps))"
  "isEntityId ''usr'' (gi_responsibleHumanId (goalInput ps))"
  by code_simp+

lemma goal_exception_valid: "statementSchema (pf_parseUrl goalPlatform) goalException"
  by code_simp

lemma goal_collision_free:
  assumes "\<forall>(c, p)\<in>set ps. st_scope c = sampleScope [AgentPrincipal ''helper'']"
  shows "collision_free goalPlatform (comparedValues (goalInput ps))"
proof -
  let ?V = "{principalJson (AgentPrincipal ''helper''), JStr ''tool.use'', resourceJson (McpTool sampleWorkspace ''server'' ''tool'')}"
  have "scopeValues (sampleScope [AgentPrincipal ''helper'']) = ?V" by (auto simp: scopeValues_def sampleScope_def)
  then have "comparedValues (goalInput ps) \<subseteq> ?V"
    using assms by (fastforce simp: comparedValues_def goalInput_def goalStatement_def sampleStatement_def orDefault_def)
  moreover have "distinct (map (policyDigest goalPlatform) [principalJson (AgentPrincipal ''helper''), JStr ''tool.use'',
      resourceJson (McpTool sampleWorkspace ''server'' ''tool'')])"
    by code_simp
  then have "collision_free goalPlatform ?V" by (auto simp: collision_free_def)
  ultimately show ?thesis by (rule collision_free_mono [rotated])
qed

lemma goal_permissions_read:
  "permissionApplies goalPlatform (goalInput ps) (goalStatement, goalDelegation) (goalException, goalPermission) \<noteq> Inl e"
  using goal_exception_valid by (simp add: permissionApplies_def) (simp add: goalException_def sampleStatement_def)

lemma goal_evaluated:
  "evaluateGoalTaskAccess goalPlatform (goalInput []) \<noteq> Inl e"
  "evaluateGoalTaskAccess goalPlatform (goalInput [(goalException, goalPermission)]) \<noteq> Inl e"
  using goal_input_valid goal_permissions_read
  by (auto simp: evaluateGoalTaskAccess_def selectedPermission_def Let_def orDefault_def bindE_Inl_iff split: if_splits)

lemma sum_not_Inl: "(\<And>e. r \<noteq> Inl e) \<Longrightarrow> \<exists>x. r = Inr x"
  by (cases r) auto

lemma goal_enveloped: "enveloped (goalInput ps) goalStatement goalDelegation ''helper''"
  by (simp add: enveloped_def goalInput_def goalStatement_def sampleStatement_def sampleScope_def goalDelegation_def goalProcess_def)

theorem goal_task_access_exact_witness:
  "(\<exists>result. evaluateGoalTaskAccess goalPlatform (goalInput [(goalException, goalPermission)]) = Inr result
      \<and> effect (gr_kernel result) = Allow)
   \<and> (\<exists>result. evaluateGoalTaskAccess goalPlatform (goalInput []) = Inr result \<and> effect (gr_kernel result) = Deny)"
proof
  obtain result where result: "evaluateGoalTaskAccess goalPlatform (goalInput [(goalException, goalPermission)]) = Inr result"
    using sum_not_Inl [OF goal_evaluated(2)] by blast
  have free: "collision_free goalPlatform (comparedValues (goalInput [(goalException, goalPermission)]))"
    by (rule goal_collision_free) (simp add: goalException_def sampleStatement_def)
  have "effect (gi_humanKernel (goalInput ps)) = Allow" "gi_operation (goalInput ps) \<in> fst ` set PRODUCT_OPERATION_ACCESS_RIGHTS" for ps
    by (simp_all add: goalInput_def humanAllow_def PRODUCT_OPERATION_ACCESS_RIGHTS_def)
  moreover have "excepted goalPlatform (goalInput ps) goalStatement goalDelegation (goalException, goalPermission)" for ps
    by (simp add: excepted_def goalInput_def goalException_def goalPermission_def goalStatement_def sampleStatement_def sampleScope_def
        goalDelegation_def)
  ultimately have "effect (gr_kernel result) = Allow"
    using goal_enveloped unfolding goal_task_access_exact [OF free result] by (simp add: orDefault_def) blast
  with result show "\<exists>result. evaluateGoalTaskAccess goalPlatform (goalInput [(goalException, goalPermission)]) = Inr result
      \<and> effect (gr_kernel result) = Allow" by blast
next
  obtain result where result: "evaluateGoalTaskAccess goalPlatform (goalInput []) = Inr result"
    using sum_not_Inl [OF goal_evaluated(1)] by blast
  have "effect (gr_kernel result) \<noteq> Allow"
    unfolding goal_task_access_exact [OF goal_collision_free result, simplified] by (simp add: orDefault_def)
  then show "\<exists>result. evaluateGoalTaskAccess goalPlatform (goalInput []) = Inr result \<and> effect (gr_kernel result) = Deny"
    using result PolicyDecisionEffect.exhaust by blast
qed

lemma goal_gap:
  assumes "evaluateGoalTaskAccess goalPlatform (goalInput []) = Inr result"
  shows "gr_escalation result = Some \<lparr>ge_workspaceId = sampleWorkspace, ge_goalId = ''goal'', ge_agentId = ''lead''\<rparr>"
proof -
  let ?i = "goalInput []"
  obtain permission where p: "selectedPermission goalPlatform ?i (resourceIn goalPlatform (gi_resource ?i) (gi_resources ?i)) = Inr permission"
      "gr_kernel result = scopeKernel (gi_operation ?i) (principalName (sj_principal (gi_subject ?i)))
        (map_option pp_turnId (sj_process (gi_subject ?i))) (goalEnvelope goalPlatform ?i)
        (resourceIn goalPlatform (gi_resource ?i) (gi_resources ?i) \<or> permission \<noteq> None) (gi_humanKernel ?i)"
      "gr_escalation result = goalEscalation ?i (goalEnvelope goalPlatform ?i) (resourceIn goalPlatform (gi_resource ?i) (gi_resources ?i))
        (permission \<noteq> None) (gr_kernel result)"
    by (rule access_parts [OF assms])
  have task: "\<not> resourceIn goalPlatform (gi_resource ?i) (gi_resources ?i)" by (simp add: resourceIn_def)
  then have none: "permission = None" using p(1) by (simp add: selectedPermission_def orDefault_def)
  have envelope: "goalEnvelope goalPlatform ?i"
    unfolding goalEnvelope_iff [OF goal_collision_free [of "[]", simplified]] using goal_enveloped by auto
  have human: "effect (gi_humanKernel ?i) = Allow" "gi_operation ?i \<in> fst ` set PRODUCT_OPERATION_ACCESS_RIGHTS"
    by (simp_all add: goalInput_def humanAllow_def PRODUCT_OPERATION_ACCESS_RIGHTS_def)
  have "effect (gr_kernel result) \<noteq> Allow" unfolding p(2) scopeKernel_allow using task none by simp
  then have deny: "effect (gr_kernel result) = Deny" by (cases "effect (gr_kernel result)") simp_all
  obtain right where "reasons (gr_kernel result) = [MissingPrivilege right]"
    using scopeKernel_missing [OF deny [unfolded p(2)] human] unfolding p(2) by blast
  then show ?thesis using p(3) envelope human(1) deny task none by (simp add: goalEscalation_def goalDelegation_def)
qed

definition goalInterception :: InterceptionInput where
  "goalInterception =
    \<lparr>ii_document = [goalStatement], ii_proposal = sampleProposal\<lparr>pq_subject := gi_subject (goalInput [])\<rparr>,
     ii_authorizationRevision = ''sha256:'' @ replicate 64 CHR ''0'', ii_permissions = None, ii_resourceSummary = None,
     ii_contextSummary = None, ii_decisionLineage = None, ii_authorizationUses = None, ii_humanApproval = None,
     ii_workspaceDb = Some \<lparr>wb_scope = ''workspace'', wb_workspaceId = sampleWorkspace\<rparr>, ii_userDb = None\<rparr>"

theorem goal_escalation_consistent_witness:
  "\<exists>result. evaluateGoalTaskAccess goalPlatform (goalInput []) = Inr result
    \<and> judgeKernel goalInterception [AllowResult] (Inr (GoalKernel (gr_kernel result) (gr_escalation result) (gr_inGoalEnvelope result))) =
      ([AllowResult, RequireEscalationResult], Some (gr_kernel result),
       Some \<lparr>ge_workspaceId = sampleWorkspace, ge_goalId = ''goal'', ge_agentId = ''lead''\<rparr>)"
proof -
  obtain result where result: "evaluateGoalTaskAccess goalPlatform (goalInput []) = Inr result"
    using sum_not_Inl [OF goal_evaluated(1)] by blast
  have "pq_workspaceId (ii_proposal goalInterception) = Some (pp_workspaceId goalProcess)"
    by (simp add: goalInterception_def sampleProposal_def goalProcess_def)
  then show ?thesis
    using goal_escalation_consistent [OF result goalInput_simps(4), of goalInterception "[AllowResult]"] result goal_gap [OF result] by simp
qed

subsection \<open>Tools\<close>

definition toolBan :: PolicyStatementV1 where
  "toolBan = sampleStatement ''ban'' [HumanPrincipal sampleUser] None (PermissionBody \<lparr>pm_effect = ProhibitEffect, pm_grant = OrdinaryGrant\<rparr>)"

definition toolProposal :: ToolProposal where
  "toolProposal = \<lparr>tp_workspaceId = sampleWorkspace, tp_serverId = ''server'', tp_toolName = ''tool'', tp_subject = pq_subject sampleProposal\<rparr>"

theorem tool_conditions_mandatory_witness:
  "effect (evaluateAccess (toolGraph True []) toolRequest) = Allow
   \<and> (\<exists>permissions. selectMcpToolPermissions samplePlatform [toolBan] toolProposal (\<lambda>_. True) 0 = Inr permissions
     \<and> effect (applyMcpToolProhibitions (evaluateAccess (toolGraph True []) toolRequest) permissions) \<noteq> Allow)"
proof
  show "effect (evaluateAccess (toolGraph True []) toolRequest) = Allow" by code_simp
  have "collision_free samplePlatform (toolSubjects toolProposal [toolBan])"
    by (rule collision_free_mono [OF ideal_hash [OF sample_ideal_hash]]) (auto simp: toolSubjects_def)
  note exact = tool_conditions_mandatory [where authorCurrent = "\<lambda>_. True" and now = 0 and P = "toolGraph True []" and r = toolRequest, OF this]
  have "conditionOf toolProposal 0 toolBan sampleUser ProhibitEffect"
    by (simp add: conditionOf_def toolBan_def toolProposal_def sampleStatement_def sampleScope_def sampleProposal_def expired_def)
  with exact show "\<exists>permissions. selectMcpToolPermissions samplePlatform [toolBan] toolProposal (\<lambda>_. True) 0 = Inr permissions
      \<and> effect (applyMcpToolProhibitions (evaluateAccess (toolGraph True []) toolRequest) permissions) \<noteq> Allow"
    by (cases "selectMcpToolPermissions samplePlatform [toolBan] toolProposal (\<lambda>_. True) 0") (simp, force)
qed

subsection \<open>Threads\<close>

definition sampleThread :: Thread where
  "sampleThread = \<lparr>th_id = ''th_01234567-89ab-7def-8123-456789abcdef'', th_owner = WorkspaceOwner sampleWorkspace, th_parentThreadId = None,
    th_name = None, th_preview = ''preview'', th_status = ActiveThread, th_entryPath = ConversationEntry, th_threadSource = None,
    th_visibility = WorkspaceThread, th_privateOwnerUserId = None, th_createdAt = ''2026-01-01T00:00:00.000Z'',
    th_updatedAt = ''2026-01-01T00:00:00.000Z''\<rparr>"

definition threadStatement :: "string \<Rightarrow> PolicyPrincipalV1 list \<Rightarrow> string list \<Rightarrow> StatementBody \<Rightarrow> PolicyStatementV1" where
  "threadStatement i subjects actions body = (sampleStatement i subjects None body)\<lparr>st_scope := \<lparr>ps_subjects = subjects, ps_actions = actions,
    ps_resources = [ContainerResource \<lparr>pc_owner = OwnerWorkspace sampleWorkspace, pc_kind = ''thread'', pc_id = th_id sampleThread\<rparr>]\<rparr>\<rparr>"

definition threadPolicy :: PolicyDocumentV1 where
  "threadPolicy = [threadStatement ''boundary'' [] [] ManagedBoundaryBody,
    threadStatement ''grant'' [HumanPrincipal sampleUser] [''thread.read'']
      (PermissionBody \<lparr>pm_effect = AllowEffect, pm_grant = OrdinaryGrant\<rparr>)]"

definition threadRequest :: "ResourcePolicyActor option \<Rightarrow> ThreadAuthorization" where
  "threadRequest actor = \<lparr>ta_thread = sampleThread, ta_workspaceId = sampleWorkspace, ta_userId = sampleUser, ta_administrator = False,
    ta_personalWorkspaceId = None, ta_policy = threadPolicy, ta_operation = ''thread.read'', ta_actor = actor\<rparr>"

lemma thread_policy_parsed: "parseWorkspacePolicy samplePlatform sampleWorkspace threadPolicy = Inr threadPolicy"
proof -
  have "WorkspacePolicyDocumentSchema (pf_parseUrl samplePlatform) threadPolicy"
    "\<not> list_ex (\<lambda>s. pc_owner (lt_anchor (st_lifetime s)) \<noteq> OwnerWorkspace sampleWorkspace) threadPolicy"
    by code_simp+
  then show ?thesis by (simp add: parseWorkspacePolicy_def)
qed

lemma thread_decided:
  assumes "actor = None \<or> actor = Some (AgentResourceActor sampleUser ''helper'' ''process'')"
  shows "\<exists>decision. evaluateThreadAuthorization samplePlatform (threadRequest actor) = Inr decision"
proof -
  have "ThreadSchema sampleThread" "sampleUser \<noteq> ''''" by code_simp+
  moreover have "\<exists>decision. evaluateWorkspaceResourceAccess samplePlatform i = Inr decision"
    if "ra_workspaceId i = sampleWorkspace" "ra_policy i = threadPolicy" for i
  proof -
    have parsed: "parseWorkspacePolicy samplePlatform (ra_workspaceId i) (ra_policy i) = Inr threadPolicy" using that thread_policy_parsed by simp
    obtain m where "managedPolicy i threadPolicy = Inr m" by (rule managed_policy [OF parsed])
    with parsed show ?thesis by (simp add: evaluateWorkspaceResourceAccess_def)
  qed
  ultimately show ?thesis using assms by (auto simp: evaluateThreadAuthorization_def threadRequest_def sampleThread_def Let_def)
qed

lemma thread_managed: "managedThread threadPolicy (th_id sampleThread)"
  by (simp add: managedThread_def governs_def threadPolicy_def threadStatement_def sampleStatement_def)

lemma thread_rules:
  "threadRule threadPolicy (th_id sampleThread) eff subject ''thread.read'' \<longleftrightarrow> eff = AllowEffect \<and> subject = UserSubject sampleUser"
  by (auto simp: threadRule_def governs_def threadPolicy_def threadStatement_def sampleStatement_def workspacePolicySubject_def permissionEffect.simps)

theorem thread_access_exact_witness:
  "(\<exists>decision. evaluateThreadAuthorization samplePlatform (threadRequest None) = Inr decision \<and> effect decision = Allow)
   \<and> (\<exists>decision. evaluateThreadAuthorization samplePlatform (threadRequest (Some (AgentResourceActor sampleUser ''helper'' ''process''))) = Inr decision
     \<and> effect decision \<noteq> Allow)"
proof
  obtain decision where decision: "evaluateThreadAuthorization samplePlatform (threadRequest None) = Inr decision" using thread_decided by blast
  have "effect decision = Allow"
    using thread_access_exact [OF decision refl] thread_managed thread_rules
    by (simp add: threadRequest_def sampleThread_def orDefault_def WORKSPACE_MEMBER_OPERATIONS_def)
  with decision show "\<exists>decision. evaluateThreadAuthorization samplePlatform (threadRequest None) = Inr decision \<and> effect decision = Allow" by blast
next
  let ?actor = "Some (AgentResourceActor sampleUser ''helper'' ''process'')"
  obtain decision where decision: "evaluateThreadAuthorization samplePlatform (threadRequest ?actor) = Inr decision" using thread_decided by blast
  have "effect decision \<noteq> Allow"
    using thread_access_exact [OF decision refl] thread_managed thread_rules by (simp add: threadRequest_def orDefault_def)
  with decision show "\<exists>decision. evaluateThreadAuthorization samplePlatform (threadRequest ?actor) = Inr decision \<and> effect decision \<noteq> Allow" by blast
qed

end
