(* ===== verification/Gregorian_Calendar.thy ===== *)
theory Gregorian_Calendar
  imports Ecma_Date
begin

text \<open>
  Reading a UTC date out of a day number, as \<^verbatim>\<open>getUTCFullYear\<close>, \<^verbatim>\<open>getUTCMonth\<close> and \<^verbatim>\<open>getUTCDate\<close> do, and that
  this inverts \<open>makeDay\<close>. The year is estimated by the mean length of a Gregorian year, which is off by
  at most one.
\<close>

definition yearFromDay :: "int \<Rightarrow> int" where
  "yearFromDay d =
    (let y = 1970 + (400 * d) div 146097
     in if d < dayFromYear y then y - 1 else if dayFromYear (y + 1) \<le> d then y + 1 else y)"

definition monthFromDay :: "int \<Rightarrow> int" where
  "monthFromDay d =
    (let y = yearFromDay d; day = d - dayFromYear y
     in foldr (\<lambda>m later. if day < monthStart y (m + 1) then m else later) [0, 1, 2, 3, 4, 5, 6, 7, 8, 9, 10] 11)"

definition dateFromDay :: "int \<Rightarrow> int" where
  "dateFromDay d = d - dayFromYear (yearFromDay d) - monthStart (yearFromDay d) (monthFromDay d) + 1"

section \<open>Years\<close>

lemma div_between: "(0::int) < k \<Longrightarrow> k * (x div k) \<le> x \<and> x < k * (x div k) + k"
  using pos_mod_bound [of k x] pos_mod_sign [of k x] mult_div_mod_eq [of k x] by linarith

lemma dayFromYear_bounds:
  "146097 * (y - 1970) - 506 \<le> 400 * dayFromYear y" "400 * dayFromYear y \<le> 146097 * (y - 1970) + 589"
proof -
  define a b c where "a = (y - 1969) div 4" "b = (y - 1901) div 100" "c = (y - 1601) div 400"
  have day: "dayFromYear y = 365 * (y - 1970) + a - b + c" by (simp add: dayFromYear_def a_b_c_def)
  have "4 * a \<le> y - 1969" "y - 1969 < 4 * a + 4" "100 * b \<le> y - 1901" "y - 1901 < 100 * b + 100" "400 * c \<le> y - 1601" "y - 1601 < 400 * c + 400"
    using div_between [of 4 "y - 1969"] div_between [of 100 "y - 1901"] div_between [of 400 "y - 1601"] by (simp_all add: a_b_c_def)
  then show "146097 * (y - 1970) - 506 \<le> 400 * dayFromYear y" "400 * dayFromYear y \<le> 146097 * (y - 1970) + 589"
    unfolding day by simp_all
qed

lemma int_div_Suc:
  assumes "(0::int) < k"
  shows "(x + 1) div k = x div k + (if (x + 1) mod k = 0 then 1 else 0)"
proof (cases "x mod k + 1 = k")
  case True
  then have "x + 1 = k * (x div k) + k" using mult_div_mod_eq [of k x] by linarith
  then have "x + 1 = k * (x div k + 1)" by (simp add: distrib_left)
  then show ?thesis using assms by simp
next
  case False
  then have "x + 1 = k * (x div k) + (x mod k + 1)" "0 \<le> x mod k + 1" "x mod k + 1 < k"
    using mult_div_mod_eq [of k x] pos_mod_bound [OF assms, of x] pos_mod_sign [OF assms, of x] by linarith+
  then have "(x + 1) div k = x div k" "(x + 1) mod k = x mod k + 1"
    by (metis div_pos_pos_trivial add.right_neutral div_mult_self2 assms less_irrefl mult.commute add.commute,
        metis mod_pos_pos_trivial mod_mult_self2 add.commute)
  then show ?thesis using pos_mod_sign [OF assms, of x] by simp
qed

lemma div_step:
  assumes "(0::int) < k" "k dvd c" "b = c + 1"
  shows "(y - c) div k = (y - b) div k + (if y mod k = 0 then 1 else 0)"
proof -
  have "(y - c) mod k = y mod k" using assms(2) by (simp add: mod_eq_dvd_iff)
  moreover have "y - b + 1 = y - c" using assms(3) by simp
  ultimately show ?thesis using int_div_Suc [OF assms(1), of "y - b"] by metis
qed

lemma dayFromYear_Suc: "dayFromYear (y + 1) = dayFromYear y + daysInYear y"
proof -
  have steps: "(y - 1968) div 4 = (y - 1969) div 4 + (if y mod 4 = 0 then 1 else 0)"
    "(y - 1900) div 100 = (y - 1901) div 100 + (if y mod 100 = 0 then 1 else 0)"
    "(y - 1600) div 400 = (y - 1601) div 400 + (if y mod 400 = 0 then 1 else 0)"
    by (rule div_step; simp)+
  have leap: "y mod 100 = 0 \<Longrightarrow> y mod 4 = 0" "y mod 400 = 0 \<Longrightarrow> y mod 100 = 0"
    using mod_mod_cancel [of 4 100 y] mod_mod_cancel [of 100 400 y] by simp_all
  have "y + 1 - 1970 = (y - 1970) + 1" "y + 1 - 1969 = y - 1968" "y + 1 - 1901 = y - 1900" "y + 1 - 1601 = y - 1600" by simp_all
  note shifted = this
  define p q r where "p \<longleftrightarrow> y mod 4 = 0" "q \<longleftrightarrow> y mod 100 = 0" "r \<longleftrightarrow> y mod 400 = 0"
  show ?thesis unfolding dayFromYear_def shifted steps daysInYear_def inLeapYear_def using leap
    unfolding p_q_r_def [symmetric] by (cases p; cases q; cases r) simp_all
qed

lemma daysInYear_bounds: "365 \<le> daysInYear y" "daysInYear y \<le> 366"
  by (simp_all add: daysInYear_def)

lemma dayFromYear_less: "y < z \<Longrightarrow> dayFromYear y + daysInYear y \<le> dayFromYear z"
proof (induction z rule: int_gr_induct)
  case base
  then show ?case by (simp add: dayFromYear_Suc)
next
  case (step z)
  then show ?case using dayFromYear_Suc [of z] daysInYear_bounds(1) [of z] by linarith
qed

lemma yearFromDay_spec: "dayFromYear (yearFromDay d) \<le> d" "d < dayFromYear (yearFromDay d + 1)"
proof -
  define y where "y = 1970 + (400 * d) div 146097"
  have y: "146097 * (y - 1970) \<le> 400 * d" "400 * d < 146097 * (y - 1970) + 146097" using div_between [of 146097 "400 * d"] unfolding y_def by simp_all
  have "dayFromYear (y - 1) \<le> d" using y(1) dayFromYear_bounds(2) [of "y - 1"] by simp
  moreover have "d < dayFromYear (y + 2)" using y(2) dayFromYear_bounds(1) [of "y + 2"] by simp
  ultimately show "dayFromYear (yearFromDay d) \<le> d" "d < dayFromYear (yearFromDay d + 1)"
    unfolding yearFromDay_def y_def [symmetric] Let_def by (auto simp: algebra_simps)
qed

lemma yearFromDay_eqI: "dayFromYear y \<le> d \<Longrightarrow> d < dayFromYear (y + 1) \<Longrightarrow> yearFromDay d = y"
  using yearFromDay_spec [of d] dayFromYear_less [of y "yearFromDay d"] dayFromYear_less [of "yearFromDay d" y]
    dayFromYear_Suc [of y] dayFromYear_Suc [of "yearFromDay d"] by linarith

section \<open>Months\<close>

lemma int_month_cases:
  assumes "0 \<le> m" "m \<le> (11::int)"
  shows "m \<in> {0, 1, 2, 3, 4, 5, 6, 7, 8, 9, 10, 11}"
  using assms by simp presburger

lemma monthStart_step: "0 \<le> m \<Longrightarrow> m < 11 \<Longrightarrow> monthStart y m + 28 \<le> monthStart y (m + 1)"
  using int_month_cases [of m] by (auto simp: monthStart_def)

lemma monthStart_ends: "monthStart y 0 = 0" "monthStart y 11 + 31 = daysInYear y"
  by (simp_all add: monthStart_def daysInYear_def)

lemma monthStart_less:
  assumes "0 \<le> m" "m < n" "n \<le> 11"
  shows "monthStart y m + 28 \<le> monthStart y n"
  using assms(2,1,3)
proof (induction n rule: int_gr_induct)
  case base
  then show ?case using monthStart_step [of m y] by simp
next
  case (step n)
  then show ?case using monthStart_step [of n y] by simp
qed

lemma monthFromDay_spec:
  shows "0 \<le> monthFromDay d" "monthFromDay d \<le> 11"
    "monthStart (yearFromDay d) (monthFromDay d) \<le> d - dayFromYear (yearFromDay d)"
    "monthFromDay d < 11 \<Longrightarrow> d - dayFromYear (yearFromDay d) < monthStart (yearFromDay d) (monthFromDay d + 1)"
proof -
  define y day where "y = yearFromDay d" "day = d - dayFromYear y"
  have start: "monthStart y 0 \<le> day" using yearFromDay_spec(1) [of d] by (simp add: y_day_def monthStart_ends)
  have "monthFromDay d = foldr (\<lambda>m later. if day < monthStart y (m + 1) then m else later) [0, 1, 2, 3, 4, 5, 6, 7, 8, 9, 10] 11"
    by (simp add: monthFromDay_def Let_def y_day_def)
  then have "0 \<le> monthFromDay d \<and> monthFromDay d \<le> 11 \<and> monthStart y (monthFromDay d) \<le> day
      \<and> (monthFromDay d < 11 \<longrightarrow> day < monthStart y (monthFromDay d + 1))"
    using start by (simp split: if_splits)
  then show "0 \<le> monthFromDay d" "monthFromDay d \<le> 11"
    "monthStart (yearFromDay d) (monthFromDay d) \<le> d - dayFromYear (yearFromDay d)"
    "monthFromDay d < 11 \<Longrightarrow> d - dayFromYear (yearFromDay d) < monthStart (yearFromDay d) (monthFromDay d + 1)"
    by (simp_all add: y_day_def)
qed

section \<open>Month indices\<close>

text \<open>The months since year 0, and the day of a given date in one of them.\<close>

definition monthDay :: "int \<Rightarrow> int \<Rightarrow> int" where
  "monthDay k d = makeDay (k div 12) (k mod 12) d"

lemma next_month:
  "(k + 1) div 12 = (if k mod 12 = 11 then k div 12 + 1 else k div 12)" "(k + 1) mod 12 = (if k mod 12 = 11 then 0 else k mod 12 + 1)" for k :: int
proof -
  have last_month: "(k + 1) mod 12 = 0 \<longleftrightarrow> k mod 12 = 11" by presburger
  then show div: "(k + 1) div 12 = (if k mod 12 = 11 then k div 12 + 1 else k div 12)" using int_div_Suc [of 12 k] by simp
  show "(k + 1) mod 12 = (if k mod 12 = 11 then 0 else k mod 12 + 1)"
    using last_month div minus_mult_div_eq_mod [of "k + 1" 12] minus_mult_div_eq_mod [of k 12] by (cases "k mod 12 = 11") simp_all
qed

lemma monthDay_step: "monthDay k 1 + 28 \<le> monthDay (k + 1) 1"
proof (cases "k mod 12 = 11")
  case True
  have "monthDay k 1 = dayFromYear (k div 12) + monthStart (k div 12) 11" by (simp add: monthDay_def makeDay_def True)
  moreover have "monthDay (k + 1) 1 = dayFromYear (k div 12) + daysInYear (k div 12)"
    unfolding monthDay_def makeDay_def next_month using True by (simp add: monthStart_ends dayFromYear_Suc)
  ultimately show ?thesis using monthStart_ends(2) [of "k div 12"] by linarith
next
  case False
  then have "monthStart (k div 12) (k mod 12) + 28 \<le> monthStart (k div 12) (k mod 12 + 1)"
    using pos_mod_bound [of 12 k] by (intro monthStart_step) simp_all
  then show ?thesis unfolding monthDay_def makeDay_def next_month using False by simp
qed

lemma monthDay_less: "k < l \<Longrightarrow> monthDay k 1 + 28 \<le> monthDay l 1"
proof (induction l rule: int_gr_induct)
  case base
  then show ?case by (rule monthDay_step)
next
  case (step l)
  then show ?case using monthDay_step [of l] by linarith
qed

definition dayMonth :: "int \<Rightarrow> int" where
  "dayMonth d = yearFromDay d * 12 + monthFromDay d"

lemma dayMonth_parts: "dayMonth d div 12 = yearFromDay d" "dayMonth d mod 12 = monthFromDay d"
  using monthFromDay_spec(1,2) [of d] by (simp_all add: dayMonth_def)

lemma dayMonth_spec: "monthDay (dayMonth d) 1 \<le> d" "d < monthDay (dayMonth d + 1) 1"
proof -
  show "monthDay (dayMonth d) 1 \<le> d"
    using monthFromDay_spec(3) [of d] unfolding monthDay_def makeDay_def dayMonth_parts by simp
  show "d < monthDay (dayMonth d + 1) 1"
  proof (cases "monthFromDay d = 11")
    case True
    then have next_year: "(dayMonth d + 1) div 12 = yearFromDay d + 1" "(dayMonth d + 1) mod 12 = 0" by (simp_all add: dayMonth_def)
    show ?thesis unfolding monthDay_def makeDay_def next_year using yearFromDay_spec(2) [of d] by (simp add: monthStart_ends)
  next
    case False
    then have same_year: "(dayMonth d + 1) div 12 = yearFromDay d" "(dayMonth d + 1) mod 12 = monthFromDay d + 1"
      using monthFromDay_spec(1,2) [of d] mod_mult_self3 [of "yearFromDay d" 12 "monthFromDay d + 1"] mod_pos_pos_trivial [of "monthFromDay d + 1" 12]
      by (simp_all add: dayMonth_def add.assoc)
    show ?thesis unfolding monthDay_def makeDay_def same_year using monthFromDay_spec(2,4) [of d] False by simp
  qed
qed

lemma dayMonth_eqI:
  assumes "monthDay k 1 \<le> d" "d < monthDay (k + 1) 1"
  shows "dayMonth d = k"
  using assms dayMonth_spec [of d] monthDay_less [of k "dayMonth d"] monthDay_less [of "dayMonth d" k]
    monthDay_less [of "k + 1" "dayMonth d"] monthDay_less [of "dayMonth d + 1" k]
  by (cases "dayMonth d < k"; cases "k < dayMonth d"; cases "dayMonth d + 1 = k"; cases "k + 1 = dayMonth d") auto

text \<open>Reading a date back.\<close>

lemma monthDay_back:
  assumes "1 \<le> d" "d \<le> 28"
  shows "dayMonth (monthDay k d) = k" "dateFromDay (monthDay k d) = d"
proof -
  have "monthDay k d = monthDay k 1 + (d - 1)" by (simp add: monthDay_def makeDay_def)
  then show month: "dayMonth (monthDay k d) = k" using monthDay_step [of k] assms by (intro dayMonth_eqI) simp_all
  have "yearFromDay (monthDay k d) = k div 12" "monthFromDay (monthDay k d) = k mod 12"
    using dayMonth_parts [of "monthDay k d"] by (simp_all add: month)
  then show "dateFromDay (monthDay k d) = d" by (simp add: dateFromDay_def monthDay_def makeDay_def)
qed

lemma day_back: "monthDay (dayMonth d) (dateFromDay d) = d"
  by (simp add: monthDay_def makeDay_def dayMonth_parts dateFromDay_def)

end
