(* ===== verification/Recurring_Cadence.thy ===== *)
theory Recurring_Cadence
  imports Gregorian_Calendar Entity_Id
begin

text \<open>
  Recurring cadences (\<^verbatim>\<open>apps/nanocore/src/lib/recurring-cadence.ts\<close> with the cadence schema of
  \<^verbatim>\<open>apps/nanocore/src/storage/recurring-retained-v1.ts\<close>): a fixed interval or a monthly UTC rule, the next nominal
  instant, and the prefix of nominal instants up to a cutoff in constant work.

  An instant is an integer number of milliseconds; a \<^verbatim>\<open>Date\<close> is its time value. The source computes
  with doubles: every sum, product and quotient it keeps lies below \<open>2\<^sup>5\<^sup>3\<close> in magnitude, where they are exact (the
  quotient of two such integers whose product bound is below \<open>2\<^sup>5\<^sup>3\<close> rounds to the same floor), and a larger one is refused
  by the check for safe integers or for the calendar.
\<close>

section \<open>The model\<close>

datatype CadenceError = CadenceParse | CadenceRange string | CadenceExhausted

record MonthlyUtcSchedule =
  mu_zone :: string
  mu_dayOfMonth :: int
  mu_hour :: int
  mu_minute :: int
  mu_second :: int

record AutomationCadence =
  cd_intervalSeconds :: "int option"
  cd_monthlyUtc :: "MonthlyUtcSchedule option"

definition StoredRecurringMonthlyUtcV1Schema :: "MonthlyUtcSchedule \<Rightarrow> bool" where
  "StoredRecurringMonthlyUtcV1Schema m =
    (mu_zone m = ''UTC'' \<and> 1 \<le> mu_dayOfMonth m \<and> mu_dayOfMonth m \<le> 28 \<and> 0 \<le> mu_hour m \<and> mu_hour m \<le> 23
     \<and> 0 \<le> mu_minute m \<and> mu_minute m \<le> 59 \<and> 0 \<le> mu_second m \<and> mu_second m \<le> 59)"

definition StoredAutomationCadenceV1Schema :: "AutomationCadence \<Rightarrow> bool" where
  "StoredAutomationCadenceV1Schema c =
    ((case cd_intervalSeconds c of None \<Rightarrow> True | Some s \<Rightarrow> isSafeInteger s \<and> 5 \<le> s)
     \<and> (case cd_monthlyUtc c of None \<Rightarrow> True | Some m \<Rightarrow> StoredRecurringMonthlyUtcV1Schema m)
     \<and> (cd_intervalSeconds c = None) \<noteq> (cd_monthlyUtc c = None))"

definition parseCadence :: "AutomationCadence \<Rightarrow> CadenceError + AutomationCadence" where
  "parseCadence c = (if StoredAutomationCadenceV1Schema c then Inr c else Inl CadenceParse)"

definition getUTCFullYear :: "int \<Rightarrow> int" where "getUTCFullYear t = yearFromDay (t div msPerDay)"

definition getUTCMonth :: "int \<Rightarrow> int" where "getUTCMonth t = monthFromDay (t div msPerDay)"

definition getUTCDate :: "int \<Rightarrow> int" where "getUTCDate t = dateFromDay (t div msPerDay)"

definition getUTCHours :: "int \<Rightarrow> int" where "getUTCHours t = t mod msPerDay div 3600000"

definition getUTCMinutes :: "int \<Rightarrow> int" where "getUTCMinutes t = t mod msPerDay div 60000 mod 60"

definition getUTCSeconds :: "int \<Rightarrow> int" where "getUTCSeconds t = t mod msPerDay div 1000 mod 60"

definition getUTCMilliseconds :: "int \<Rightarrow> int" where "getUTCMilliseconds t = t mod msPerDay mod 1000"

definition checkedDate :: "int \<Rightarrow> CadenceError + int" where
  "checkedDate instant =
    (if \<not> isSafeInteger instant \<or> 8640000000000000 < \<bar>instant\<bar> \<or> getUTCFullYear instant < 0 \<or> 9999 < getUTCFullYear instant
     then Inl (CadenceRange ''Recurring nominal timestamp is outside the supported UTC range.'') else Inr instant)"

definition intervalStep :: "int \<Rightarrow> CadenceError + int" where
  "intervalStep seconds =
    (let step = seconds * 1000 in
     if isSafeInteger step then Inr step else Inl (CadenceRange ''Recurring interval exceeds safe integer arithmetic.''))"

definition monthIndex :: "int \<Rightarrow> CadenceError + int" where
  "monthIndex instant = bindE (checkedDate instant) (\<lambda>date. Inr (getUTCFullYear date * 12 + getUTCMonth date))"

definition monthlyInstant :: "int \<Rightarrow> MonthlyUtcSchedule \<Rightarrow> CadenceError + int" where
  "monthlyInstant index monthly =
    (if \<not> isSafeInteger index \<or> index < 0 \<or> 120000 \<le> index
     then Inl (CadenceRange ''Recurring monthly successor is outside the supported UTC range.'')
     else checkedDate (makeDay (index div 12) (index mod 12) (mu_dayOfMonth monthly) * msPerDay
       + makeTime (mu_hour monthly) (mu_minute monthly) (mu_second monthly) 0))"

definition recurringNominalMatches :: "AutomationCadence \<Rightarrow> int \<Rightarrow> CadenceError + bool" where
  "recurringNominalMatches cadence instant =
    bindE (parseCadence cadence) (\<lambda>timing. bindE (checkedDate instant) (\<lambda>date.
    Inr (case cd_monthlyUtc timing of
       None \<Rightarrow> True
     | Some monthly \<Rightarrow> getUTCDate date = mu_dayOfMonth monthly \<and> getUTCHours date = mu_hour monthly
         \<and> getUTCMinutes date = mu_minute monthly \<and> getUTCSeconds date = mu_second monthly \<and> getUTCMilliseconds date = 0)))"

text \<open>The handler of \<^verbatim>\<open>advanceRecurringNominal\<close>: a range error of the step means exhaustion.\<close>

definition exhaust :: "CadenceError + int \<Rightarrow> CadenceError + int" where
  "exhaust r = (case r of Inl (CadenceRange _) \<Rightarrow> Inl CadenceExhausted | Inl CadenceExhausted \<Rightarrow> Inl CadenceExhausted | _ \<Rightarrow> r)"

definition cursorMismatch :: CadenceError where
  "cursorMismatch = CadenceRange ''Recurring cursor does not match its monthly UTC rule.''"

definition advanceRecurringNominal :: "AutomationCadence \<Rightarrow> int \<Rightarrow> CadenceError + int" where
  "advanceRecurringNominal cadence instant =
    bindE (parseCadence cadence) (\<lambda>timing. bindE (recurringNominalMatches timing instant) (\<lambda>matching.
    if \<not> matching then Inl cursorMismatch
    else exhaust (case cd_monthlyUtc timing of
       None \<Rightarrow> bindE (intervalStep (the (cd_intervalSeconds timing))) (\<lambda>step. checkedDate (instant + step))
     | Some monthly \<Rightarrow> bindE (monthIndex instant) (\<lambda>index. monthlyInstant (index + 1) monthly))))"

definition nextOrNull :: "AutomationCadence \<Rightarrow> int \<Rightarrow> CadenceError + int option" where
  "nextOrNull cadence instant =
    (case advanceRecurringNominal cadence instant of
       Inr n \<Rightarrow> Inr (Some n) | Inl CadenceExhausted \<Rightarrow> Inr None | Inl e \<Rightarrow> Inl e)"

record RecurringNominalPrefix =
  rn_count :: int
  rn_last :: int
  rn_next :: "int option"

definition recurringPrefixThrough :: "AutomationCadence \<Rightarrow> int \<Rightarrow> int \<Rightarrow> CadenceError + RecurringNominalPrefix option" where
  "recurringPrefixThrough cadence first through =
    bindE (parseCadence cadence) (\<lambda>timing. bindE (checkedDate through) (\<lambda>_. bindE (recurringNominalMatches timing first) (\<lambda>matching.
    if \<not> matching then Inl cursorMismatch
    else if through < first then Inr None
    else case cd_monthlyUtc timing of
      Some monthly \<Rightarrow>
        bindE (monthIndex first) (\<lambda>firstMonth. bindE (monthIndex through) (\<lambda>throughMonth.
        bindE (monthlyInstant throughMonth monthly) (\<lambda>candidate.
        let lastMonth = (if through < candidate then throughMonth - 1 else throughMonth) in
        bindE (monthlyInstant lastMonth monthly) (\<lambda>last. bindE (nextOrNull timing last) (\<lambda>next.
        Inr (Some \<lparr>rn_count = lastMonth - firstMonth + 1, rn_last = last, rn_next = next\<rparr>))))))
    | None \<Rightarrow>
        if \<not> isSafeInteger (the (cd_intervalSeconds timing) * 1000)
        then Inr (Some \<lparr>rn_count = 1, rn_last = first, rn_next = None\<rparr>)
        else bindE (intervalStep (the (cd_intervalSeconds timing))) (\<lambda>step.
          let count = (through - first) div step + 1; last = first + (count - 1) * step in
          bindE (checkedDate last) (\<lambda>checked. bindE (nextOrNull timing last) (\<lambda>next.
          Inr (Some \<lparr>rn_count = count, rn_last = checked, rn_next = next\<rparr>)))))))"

record RecurringRange =
  rr_cadence :: AutomationCadence
  rr_firstScheduledAt :: string
  rr_lastScheduledAt :: string
  rr_count :: int
  rr_snapshotMonthly :: "MonthlyUtcSchedule option"

definition validateRecurringRangeCoverage :: "RecurringRange \<Rightarrow> CadenceError + unit" where
  "validateRecurringRangeCoverage covered =
    bindE (case (dateParse (rr_firstScheduledAt covered), dateParse (rr_lastScheduledAt covered)) of
        (Some first, Some final) \<Rightarrow> map_sum id (map_option (\<lambda>p. (p, final))) (recurringPrefixThrough (rr_cadence covered) first final)
      | _ \<Rightarrow> bindE (parseCadence (rr_cadence covered)) (\<lambda>_.
          Inl (CadenceRange ''Recurring nominal timestamp is outside the supported UTC range.''))) (\<lambda>coverage.
    if (case coverage of None \<Rightarrow> False | Some (p, final) \<Rightarrow> rn_last p = final \<and> rn_count p = rr_count covered)
       \<and> cd_monthlyUtc (rr_cadence covered) = rr_snapshotMonthly covered
    then Inr () else Inl (CadenceRange ''Expired recurring range contradicts its exact cadence or snapshot.''))"

text \<open>The optional callback of \<^verbatim>\<open>nextRecurringNominal\<close> is the list of the errors handed to it.\<close>

definition nextRecurringNominal :: "AutomationCadence \<Rightarrow> int \<Rightarrow> CadenceError + int option \<times> CadenceError list" where
  "nextRecurringNominal cadence at =
    (case advanceRecurringNominal cadence at of
       Inr n \<Rightarrow> Inr (Some n, []) | Inl CadenceExhausted \<Rightarrow> Inr (None, [CadenceExhausted]) | Inl e \<Rightarrow> Inl e)"

section \<open>The calendar of the instants\<close>

lemma checkedDate_iff: "checkedDate t = Inr u \<longleftrightarrow> u = t \<and> 0 \<le> getUTCFullYear t \<and> getUTCFullYear t \<le> 9999"
proof -
  have "\<bar>t\<bar> \<le> 8640000000000000" if "0 \<le> getUTCFullYear t" "getUTCFullYear t \<le> 9999"
  proof -
    define d y where "d = t div msPerDay" "y = yearFromDay d"
    have y: "0 \<le> y" "y \<le> 9999" "dayFromYear y \<le> d" "d < dayFromYear (y + 1)"
      using that yearFromDay_spec [of d] by (simp_all add: getUTCFullYear_def d_y_def)
    have "- 1000000 \<le> d" "d \<le> 3000000" using y dayFromYear_bounds [of y] dayFromYear_bounds [of "y + 1"] by simp_all
    moreover have "86400000 * d \<le> t" "t < 86400000 * d + 86400000" using div_between [of 86400000 t] by (simp_all add: d_y_def msPerDay_def)
    ultimately show ?thesis by linarith
  qed
  then show ?thesis by (auto simp: checkedDate_def isSafeInteger_def MAX_SAFE_INTEGER_def)
qed

definition timeMonth :: "int \<Rightarrow> int" where
  "timeMonth t = dayMonth (t div msPerDay)"

lemma timeMonth_year: "0 \<le> getUTCFullYear t \<and> getUTCFullYear t \<le> 9999 \<longleftrightarrow> 0 \<le> timeMonth t \<and> timeMonth t < 120000"
  using monthFromDay_spec(1,2) [of "t div msPerDay"] unfolding timeMonth_def dayMonth_def getUTCFullYear_def by presburger

lemma checkedDate_month: "checkedDate t = Inr u \<longleftrightarrow> u = t \<and> 0 \<le> timeMonth t \<and> timeMonth t < 120000"
  unfolding checkedDate_iff timeMonth_year by simp

lemma monthIndex_iff: "monthIndex t = Inr k \<longleftrightarrow> k = timeMonth t \<and> 0 \<le> k \<and> k < 120000"
  by (auto simp: monthIndex_def bindE_Inr_iff checkedDate_month timeMonth_def dayMonth_def getUTCFullYear_def getUTCMonth_def)

subsection \<open>The instants of a monthly rule\<close>

definition timeOfDay :: "MonthlyUtcSchedule \<Rightarrow> int" where
  "timeOfDay m = makeTime (mu_hour m) (mu_minute m) (mu_second m) 0"

definition monthAt :: "int \<Rightarrow> MonthlyUtcSchedule \<Rightarrow> int" where
  "monthAt k m = monthDay k (mu_dayOfMonth m) * msPerDay + timeOfDay m"

lemma timeOfDay_bounds:
  assumes "StoredRecurringMonthlyUtcV1Schema m"
  shows "0 \<le> timeOfDay m" "timeOfDay m < msPerDay"
  using assms by (simp_all add: StoredRecurringMonthlyUtcV1Schema_def timeOfDay_def makeTime_def msPerDay_def)

lemma monthAt_parts:
  assumes "StoredRecurringMonthlyUtcV1Schema m"
  shows "monthAt k m div msPerDay = monthDay k (mu_dayOfMonth m)" "monthAt k m mod msPerDay = timeOfDay m"
  using timeOfDay_bounds [OF assms] by (simp_all add: monthAt_def msPerDay_def)

lemma timeMonth_monthAt:
  assumes "StoredRecurringMonthlyUtcV1Schema m"
  shows "timeMonth (monthAt k m) = k"
  using assms monthDay_back(1) [of "mu_dayOfMonth m"] by (simp add: timeMonth_def monthAt_parts StoredRecurringMonthlyUtcV1Schema_def)

lemma monthlyInstant_iff:
  assumes "StoredRecurringMonthlyUtcV1Schema m"
  shows "monthlyInstant k m = (if 0 \<le> k \<and> k < 120000 then Inr (monthAt k m)
    else Inl (CadenceRange ''Recurring monthly successor is outside the supported UTC range.''))"
proof -
  have "checkedDate (monthAt k m) = Inr (monthAt k m)" if "0 \<le> k" "k < 120000"
    using that by (simp add: checkedDate_month timeMonth_monthAt [OF assms])
  then show ?thesis
    by (auto simp: monthlyInstant_def monthAt_def monthDay_def timeOfDay_def isSafeInteger_def MAX_SAFE_INTEGER_def)
qed

lemma time_fields:
  fixes r h mi s :: int
  shows "r div 3600000 = h \<and> r div 60000 mod 60 = mi \<and> r div 1000 mod 60 = s \<and> r mod 1000 = 0 \<longleftrightarrow>
    0 \<le> mi \<and> mi \<le> 59 \<and> 0 \<le> s \<and> s \<le> 59 \<and> r = makeTime h mi s 0"
proof -
  define a where "a = r div 1000"
  have nested: "r div 60000 = a div 60" "r div 3600000 = a div 60 div 60"
    using zdiv_zmult2_eq [of 60 r 1000] zdiv_zmult2_eq [of 60 "a" 60] zdiv_zmult2_eq [of 3600 r 1000] by (simp_all add: a_def)
  have r: "r mod 1000 = 0 \<longleftrightarrow> r = 1000 * a" unfolding a_def by (metis eq_iff_diff_eq_0 minus_mult_div_eq_mod)
  have "a div 60 div 60 = h \<and> a div 60 mod 60 = mi \<and> a mod 60 = s \<longleftrightarrow>
      0 \<le> mi \<and> mi \<le> 59 \<and> 0 \<le> s \<and> s \<le> 59 \<and> a = (h * 60 + mi) * 60 + s"
  proof -
    have split: "x div 60 = q \<and> x mod 60 = m \<longleftrightarrow> 0 \<le> m \<and> m \<le> 59 \<and> x = q * 60 + m" for x q m :: int
    proof
      assume "x div 60 = q \<and> x mod 60 = m"
      then show "0 \<le> m \<and> m \<le> 59 \<and> x = q * 60 + m" using div_mult_mod_eq [of x 60] pos_mod_bound [of 60 x] pos_mod_sign [of 60 x] by simp
    next
      assume "0 \<le> m \<and> m \<le> 59 \<and> x = q * 60 + m"
      then show "x div 60 = q \<and> x mod 60 = m" by simp
    qed
    have "a div 60 div 60 = h \<and> a div 60 mod 60 = mi \<and> a mod 60 = s \<longleftrightarrow>
        0 \<le> mi \<and> mi \<le> 59 \<and> a div 60 = h * 60 + mi \<and> a mod 60 = s" using split [of "a div 60" h mi] by blast
    then show ?thesis using split [of a "h * 60 + mi" s] by blast
  qed
  moreover have "r = makeTime h mi s 0 \<longleftrightarrow> r = 1000 * a \<and> a = (h * 60 + mi) * 60 + s"
  proof
    assume time: "r = makeTime h mi s 0"
    then have "r = 1000 * ((h * 60 + mi) * 60 + s)" by (simp add: makeTime_def)
    then show "r = 1000 * a \<and> a = (h * 60 + mi) * 60 + s" unfolding a_def by (metis nonzero_mult_div_cancel_left zero_neq_numeral)
  next
    assume "r = 1000 * a \<and> a = (h * 60 + mi) * 60 + s"
    then have "r = 1000 * ((h * 60 + mi) * 60 + s)" by simp
    then show "r = makeTime h mi s 0" unfolding makeTime_def by (simp add: algebra_simps)
  qed
  ultimately show ?thesis unfolding nested r a_def [symmetric] by blast
qed

lemma monthly_matches:
  assumes "StoredRecurringMonthlyUtcV1Schema m"
  shows "getUTCDate t = mu_dayOfMonth m \<and> getUTCHours t = mu_hour m \<and> getUTCMinutes t = mu_minute m \<and> getUTCSeconds t = mu_second m
      \<and> getUTCMilliseconds t = 0 \<longleftrightarrow> t = monthAt (timeMonth t) m"
proof -
  have time: "getUTCHours t = mu_hour m \<and> getUTCMinutes t = mu_minute m \<and> getUTCSeconds t = mu_second m \<and> getUTCMilliseconds t = 0
      \<longleftrightarrow> t mod msPerDay = timeOfDay m"
    using time_fields [of "t mod msPerDay" "mu_hour m" "mu_minute m" "mu_second m"] assms
    by (auto simp: getUTCHours_def getUTCMinutes_def getUTCSeconds_def getUTCMilliseconds_def timeOfDay_def StoredRecurringMonthlyUtcV1Schema_def)
  have day: "getUTCDate t = mu_dayOfMonth m \<longleftrightarrow> t div msPerDay = monthDay (timeMonth t) (mu_dayOfMonth m)"
    using day_back [of "t div msPerDay"] by (auto simp: getUTCDate_def timeMonth_def) (simp add: monthDay_def makeDay_def)
  have "t = monthAt (timeMonth t) m" if "t div msPerDay = monthDay (timeMonth t) (mu_dayOfMonth m)" "t mod msPerDay = timeOfDay m"
    unfolding monthAt_def that [symmetric] by simp
  moreover have "t div msPerDay = monthDay (timeMonth t) (mu_dayOfMonth m)" "t mod msPerDay = timeOfDay m" if "t = monthAt (timeMonth t) m"
    using monthAt_parts [OF assms, of "timeMonth t"] that by simp_all
  ultimately show ?thesis using time day by blast
qed

lemma matches_monthly:
  assumes "cd_monthlyUtc c = Some m"
  shows "recurringNominalMatches c t = Inr True \<longleftrightarrow>
    StoredAutomationCadenceV1Schema c \<and> 0 \<le> timeMonth t \<and> timeMonth t < 120000 \<and> t = monthAt (timeMonth t) m"
proof -
  have "StoredRecurringMonthlyUtcV1Schema m" if "StoredAutomationCadenceV1Schema c"
    using that assms by (simp add: StoredAutomationCadenceV1Schema_def)
  then show ?thesis using monthly_matches [of m t] assms
    by (auto simp: recurringNominalMatches_def parseCadence_def bindE_Inr_iff checkedDate_month)
qed

lemma matches_interval:
  assumes "cd_monthlyUtc c = None"
  shows "recurringNominalMatches c t = Inr True \<longleftrightarrow> StoredAutomationCadenceV1Schema c \<and> 0 \<le> timeMonth t \<and> timeMonth t < 120000"
  using assms by (auto simp: recurringNominalMatches_def parseCadence_def bindE_Inr_iff checkedDate_month)

section \<open>The sequence of nominal instants\<close>

definition inCalendar :: "int \<Rightarrow> bool" where
  "inCalendar t = (0 \<le> timeMonth t \<and> timeMonth t < 120000)"

lemma dayMonth_mono: "d \<le> e \<Longrightarrow> dayMonth d \<le> dayMonth e"
  using dayMonth_spec [of d] dayMonth_spec [of e] monthDay_less [of "dayMonth e + 1" "dayMonth d"]
  by (cases "dayMonth e + 1 = dayMonth d"; cases "dayMonth e < dayMonth d") auto

lemma timeMonth_mono: "t \<le> u \<Longrightarrow> timeMonth t \<le> timeMonth u"
  unfolding timeMonth_def by (rule dayMonth_mono) (simp add: msPerDay_def zdiv_mono1)

lemma timeMonth_less: "timeMonth t < timeMonth u \<Longrightarrow> t < u"
  using timeMonth_mono [of u t] by linarith

lemma inCalendar_between: "inCalendar t \<Longrightarrow> inCalendar v \<Longrightarrow> t \<le> u \<Longrightarrow> u \<le> v \<Longrightarrow> inCalendar u"
  using timeMonth_mono [of t u] timeMonth_mono [of u v] by (simp add: inCalendar_def)

lemma checkedDate_calendar: "checkedDate t = Inr u \<longleftrightarrow> u = t \<and> inCalendar t"
  by (simp add: checkedDate_month inCalendar_def)

lemma checkedDate_if:
  "checkedDate t = (if inCalendar t then Inr t
    else Inl (CadenceRange ''Recurring nominal timestamp is outside the supported UTC range.''))"
  using checkedDate_calendar [of t t] by (auto simp: checkedDate_def split: if_splits)

lemma monthAt_less:
  assumes "StoredRecurringMonthlyUtcV1Schema m"
  shows "monthAt k m < monthAt l m \<longleftrightarrow> k < l"
  using timeMonth_less [of "monthAt k m" "monthAt l m"] timeMonth_mono [of "monthAt k m" "monthAt l m"]
  by (cases "k = l") (auto simp: timeMonth_monthAt [OF assms])

lemma monthAt_le:
  assumes "StoredRecurringMonthlyUtcV1Schema m"
  shows "monthAt k m \<le> monthAt l m \<longleftrightarrow> k \<le> l"
  using monthAt_less [OF assms, of l k] by linarith

text \<open>The \<open>n\<close>-th instant of a cadence from a first one, without regard to the end of the calendar.\<close>

definition nominalAt :: "AutomationCadence \<Rightarrow> int \<Rightarrow> nat \<Rightarrow> int" where
  "nominalAt c first n =
    (case cd_monthlyUtc c of
       None \<Rightarrow> first + int n * (the (cd_intervalSeconds c) * 1000)
     | Some m \<Rightarrow> monthAt (timeMonth first + int n) m)"

definition onRule :: "AutomationCadence \<Rightarrow> int \<Rightarrow> bool" where
  "onRule c t = (recurringNominalMatches c t = Inr True)"

lemma onRule_cases:
  assumes "onRule c t"
  obtains (interval) s where "cd_monthlyUtc c = None" "cd_intervalSeconds c = Some s" "5 \<le> s" "StoredAutomationCadenceV1Schema c" "inCalendar t"
  | (monthly) m where "cd_monthlyUtc c = Some m" "StoredRecurringMonthlyUtcV1Schema m" "StoredAutomationCadenceV1Schema c" "inCalendar t"
      "t = monthAt (timeMonth t) m"
proof (cases "cd_monthlyUtc c")
  case None
  then have "StoredAutomationCadenceV1Schema c" "inCalendar t" using assms by (simp_all add: onRule_def matches_interval inCalendar_def)
  then show ?thesis using None interval by (auto simp: StoredAutomationCadenceV1Schema_def split: option.splits)
next
  case (Some m)
  then have "StoredAutomationCadenceV1Schema c" "inCalendar t" "t = monthAt (timeMonth t) m"
    using assms by (simp_all add: onRule_def matches_monthly inCalendar_def)
  then show ?thesis using Some monthly by (simp add: StoredAutomationCadenceV1Schema_def)
qed

lemma onRule_calendar: "onRule c t \<Longrightarrow> inCalendar t"
  by (erule onRule_cases) simp_all

lemma step_in_calendar:
  assumes "inCalendar t" "inCalendar (t + s * 1000)" "5 \<le> s"
  shows "isSafeInteger (s * 1000)"
proof -
  have "\<bar>t\<bar> \<le> 300000000000000" if "inCalendar t" for t
  proof -
    define d where "d = t div msPerDay"
    have "0 \<le> yearFromDay d" "yearFromDay d \<le> 9999" using that timeMonth_year [of t] by (simp_all add: d_def inCalendar_def getUTCFullYear_def)
    then have "- 1000000 \<le> d" "d \<le> 3000000"
      using yearFromDay_spec [of d] dayFromYear_bounds [of "yearFromDay d"] dayFromYear_bounds [of "yearFromDay d + 1"] by simp_all
    moreover have "86400000 * d \<le> t" "t < 86400000 * d + 86400000" using div_between [of 86400000 t] by (simp_all add: d_def msPerDay_def)
    ultimately show ?thesis by linarith
  qed
  then have "\<bar>t\<bar> \<le> 300000000000000" "\<bar>t + s * 1000\<bar> \<le> 300000000000000" using assms by blast+
  then show ?thesis using assms(3) by (simp add: isSafeInteger_def MAX_SAFE_INTEGER_def)
qed

lemma advance_on_rule:
  assumes "onRule c t"
  shows "advanceRecurringNominal c t = (if inCalendar (nominalAt c t 1) then Inr (nominalAt c t 1) else Inl CadenceExhausted)"
  using assms
proof (cases rule: onRule_cases)
  case (interval s)
  have match: "recurringNominalMatches c t = Inr True" using assms by (simp add: onRule_def)
  have next_at: "nominalAt c t 1 = t + s * 1000" by (simp add: nominalAt_def interval)
  show ?thesis
  proof (cases "isSafeInteger (s * 1000)")
    case True
    then show ?thesis using interval next_at
      by (simp add: advanceRecurringNominal_def parseCadence_def match intervalStep_def exhaust_def checkedDate_if)
  next
    case False
    then have "\<not> inCalendar (t + s * 1000)" using step_in_calendar [of t s] interval by blast
    then show ?thesis using interval next_at False
      by (simp add: advanceRecurringNominal_def parseCadence_def match intervalStep_def exhaust_def)
  qed
next
  case (monthly m)
  have match: "recurringNominalMatches c t = Inr True" using assms by (simp add: onRule_def)
  define k where "k = timeMonth t"
  have index: "monthIndex t = Inr k" "0 \<le> k" "k < 120000" using monthly(4) by (simp_all add: monthIndex_iff inCalendar_def k_def)
  have next_at: "nominalAt c t 1 = monthAt (k + 1) m" by (simp add: nominalAt_def monthly(1) k_def)
  have calendar: "inCalendar (monthAt (k + 1) m) \<longleftrightarrow> k + 1 < 120000"
    using index by (simp add: inCalendar_def timeMonth_monthAt [OF monthly(2)])
  have "advanceRecurringNominal c t = exhaust (monthlyInstant (k + 1) m)"
    by (simp add: advanceRecurringNominal_def parseCadence_def match monthly(1,3) index(1))
  then show ?thesis unfolding next_at calendar using index(2) by (simp add: monthlyInstant_iff [OF monthly(2)] exhaust_def)
qed

lemma nominalAt_mono:
  assumes "onRule c t" "i < j"
  shows "nominalAt c t i < nominalAt c t j"
  using assms(1)
proof (cases rule: onRule_cases)
  case (interval s)
  then show ?thesis using assms(2) by (simp add: nominalAt_def)
next
  case (monthly m)
  then show ?thesis using assms(2) by (simp add: nominalAt_def monthAt_less)
qed

lemma nominalAt_onRule:
  assumes "onRule c t" "inCalendar (nominalAt c t n)"
  shows "onRule c (nominalAt c t n)" "nominalAt c (nominalAt c t n) k = nominalAt c t (n + k)"
proof -
  show "onRule c (nominalAt c t n)"
    using assms(1) by (cases rule: onRule_cases; use assms(2) in \<open>simp add: onRule_def matches_interval matches_monthly
      inCalendar_def nominalAt_def timeMonth_monthAt\<close>)
  show "nominalAt c (nominalAt c t n) k = nominalAt c t (n + k)"
    using assms(1) by (cases rule: onRule_cases) (simp_all add: nominalAt_def algebra_simps timeMonth_monthAt)
qed

lemma nominalAt_0: "onRule c t \<Longrightarrow> nominalAt c t 0 = t"
  by (erule onRule_cases) (simp_all add: nominalAt_def)

section \<open>Rules that step one instant at a time\<close>

text \<open>
  A rule that steps from one instant to the next until a set of valid instants ends: \<open>position\<close> is the closed form of
  the iterated step. The laws are what the prefix computation relies on.
\<close>

locale stepping_rule =
  fixes advance :: "'c \<Rightarrow> int \<Rightarrow> 'e + int" and position :: "'c \<Rightarrow> int \<Rightarrow> nat \<Rightarrow> int"
    and admitted :: "'c \<Rightarrow> int \<Rightarrow> bool" and valid :: "int \<Rightarrow> bool" and exhausted :: 'e
    and iterate :: "'c \<Rightarrow> nat \<Rightarrow> int \<Rightarrow> 'e + int"
  assumes start: "admitted c t \<Longrightarrow> position c t 0 = t"
    and admitted_valid: "admitted c t \<Longrightarrow> valid t"
    and compose: "admitted c t \<Longrightarrow> valid (position c t n) \<Longrightarrow> position c (position c t n) k = position c t (n + k)"
    and remains: "admitted c t \<Longrightarrow> valid (position c t n) \<Longrightarrow> admitted c (position c t n)"
    and increasing: "admitted c t \<Longrightarrow> i < j \<Longrightarrow> position c t i < position c t j"
    and between: "valid t \<Longrightarrow> valid v \<Longrightarrow> t \<le> u \<Longrightarrow> u \<le> v \<Longrightarrow> valid u"
    and step: "admitted c t \<Longrightarrow> advance c t = (if valid (position c t 1) then Inr (position c t 1) else Inl exhausted)"
    and iterate_0: "iterate c 0 t = Inr t"
    and iterate_Suc: "iterate c (Suc n) t = bindE (iterate c n t) (advance c)"
begin

lemma valid_below:
  assumes "admitted c t" "valid (position c t n)" "i \<le> n"
  shows "valid (position c t i)"
proof -
  have "t \<le> position c t i" using increasing [OF assms(1), of 0 i] start [OF assms(1)] by (cases i) auto
  moreover have "position c t i \<le> position c t n" using increasing [OF assms(1), of i n] assms(3) by (cases "i = n") auto
  ultimately show ?thesis using between [OF admitted_valid [OF assms(1)] assms(2)] by blast
qed

lemma advance_position:
  assumes "admitted c t" "valid (position c t n)"
  shows "advance c (position c t n) = (if valid (position c t (Suc n)) then Inr (position c t (Suc n)) else Inl exhausted)"
  using step [OF remains [OF assms]] compose [OF assms, of 1] by simp

lemma iterate_position:
  assumes "admitted c t"
  shows "iterate c n t = (if valid (position c t n) then Inr (position c t n) else Inl exhausted)"
proof (induction n)
  case 0
  then show ?case using start [OF assms] admitted_valid [OF assms] by (simp add: iterate_0)
next
  case (Suc n)
  then show ?case using advance_position [OF assms, of n] valid_below [OF assms, of "Suc n" n] by (auto simp: iterate_Suc)
qed

lemma iterate_inj:
  assumes "admitted c t" "iterate c n t = Inr u" "iterate c k t = Inr u"
  shows "n = k"
  using assms increasing [OF assms(1), of n k] increasing [OF assms(1), of k n]
  by (cases n k rule: linorder_cases) (auto simp: iterate_position split: if_splits)

end

section \<open>The prefix through a cutoff\<close>

text \<open>The reference: the cadence advanced \<open>n\<close> times, one occurrence after the other.\<close>

fun iterateNominal :: "AutomationCadence \<Rightarrow> nat \<Rightarrow> int \<Rightarrow> CadenceError + int" where
  "iterateNominal c 0 t = Inr t"
| "iterateNominal c (Suc n) t = bindE (iterateNominal c n t) (advanceRecurringNominal c)"

interpretation cadence: stepping_rule advanceRecurringNominal nominalAt onRule inCalendar CadenceExhausted iterateNominal
  by unfold_locales (rule nominalAt_0 onRule_calendar nominalAt_onRule nominalAt_mono inCalendar_between advance_on_rule iterateNominal.simps; assumption)+

text \<open>What the computed prefix must be: the instant at its position, not after the cutoff, its successor after it.\<close>

definition prefixSpec :: "AutomationCadence \<Rightarrow> int \<Rightarrow> int \<Rightarrow> RecurringNominalPrefix \<Rightarrow> bool" where
  "prefixSpec c first through p \<longleftrightarrow>
    1 \<le> rn_count p \<and> iterateNominal c (nat (rn_count p - 1)) first = Inr (rn_last p) \<and> rn_last p \<le> through
    \<and> (case rn_next p of
         Some n \<Rightarrow> advanceRecurringNominal c (rn_last p) = Inr n \<and> through < n
       | None \<Rightarrow> advanceRecurringNominal c (rn_last p) = Inl CadenceExhausted)"

lemma prefix_at:
  assumes "onRule c first" "nominalAt c first n \<le> through" "through < nominalAt c first (Suc n)" "inCalendar through"
  shows "inCalendar (nominalAt c first n)" "nextOrNull c (nominalAt c first n) = Inr next \<Longrightarrow>
      prefixSpec c first through \<lparr>rn_count = int n + 1, rn_last = nominalAt c first n, rn_next = next\<rparr>"
    "\<exists>next. nextOrNull c (nominalAt c first n) = Inr next"
proof -
  have "first \<le> nominalAt c first n" using cadence.increasing [OF assms(1), of 0 n] cadence.start [OF assms(1)] by (cases n) auto
  then show valid: "inCalendar (nominalAt c first n)" using inCalendar_between [OF onRule_calendar [OF assms(1)] assms(4)] assms(2) by blast
  note advance = cadence.advance_position [OF assms(1) valid]
  show "\<exists>next. nextOrNull c (nominalAt c first n) = Inr next" by (simp add: nextOrNull_def advance)
  show "prefixSpec c first through \<lparr>rn_count = int n + 1, rn_last = nominalAt c first n, rn_next = next\<rparr>"
    if "nextOrNull c (nominalAt c first n) = Inr next"
    using that assms(2,3) valid advance cadence.iterate_position [OF assms(1), of n]
    by (auto simp: prefixSpec_def nextOrNull_def split: if_splits)
qed

lemma prefix_interval:
  assumes rule: "onRule c first" and cutoff: "inCalendar through" "first \<le> through" and "cd_monthlyUtc c = None"
  shows "\<exists>p. recurringPrefixThrough c first through = Inr (Some p) \<and> prefixSpec c first through p"
  using rule
proof (cases rule: onRule_cases)
  case (interval s)
  define step where "step = s * 1000"
  define n where "n = nat ((through - first) div step)"
  have step: "0 < step" using interval by (simp add: step_def)
  have quotient: "(through - first) div step = int n" using cutoff step by (simp add: n_def pos_imp_zdiv_nonneg_iff)
  have at: "nominalAt c first k = first + int k * step" for k by (simp add: nominalAt_def interval step_def)
  have here: "nominalAt c first n \<le> through" "through < nominalAt c first (Suc n)"
    using div_between [OF step, of "through - first"] unfolding at quotient by (simp_all add: algebra_simps)
  note prefix = prefix_at [OF rule here cutoff(1)]
  obtain after where after: "nextOrNull c (nominalAt c first n) = Inr after" using prefix(3) by blast
  have match: "recurringNominalMatches c first = Inr True" using rule by (simp add: onRule_def)
  have call: "recurringPrefixThrough c first through = (if isSafeInteger step
      then bindE (checkedDate (nominalAt c first n)) (\<lambda>checked. bindE (nextOrNull c (nominalAt c first n)) (\<lambda>next.
        Inr (Some \<lparr>rn_count = int n + 1, rn_last = checked, rn_next = next\<rparr>)))
      else Inr (Some \<lparr>rn_count = 1, rn_last = first, rn_next = None\<rparr>))"
    using cutoff interval by (simp add: recurringPrefixThrough_def parseCadence_def checkedDate_if match intervalStep_def step_def [symmetric] quotient at Let_def)
  show ?thesis
  proof (cases "isSafeInteger step")
    case True
    then show ?thesis using call after prefix(2) [OF after] prefix(1) by (simp add: checkedDate_if)
  next
    case False
    then have out: "\<not> inCalendar (nominalAt c first 1)" using step_in_calendar [of first s] interval at [of 1] by (auto simp: step_def)
    have "n = 0" using cadence.valid_below [OF rule prefix(1), of 1] out by (cases n) auto
    then have "nextOrNull c first = Inr None" using out advance_on_rule [OF rule] by (simp add: nextOrNull_def)
    then show ?thesis using call False prefix(2) [of None] nominalAt_0 [OF rule] \<open>n = 0\<close> by simp
  qed
qed (use assms(4) in simp)

lemma prefix_monthly:
  assumes rule: "onRule c first" and cutoff: "inCalendar through" "first \<le> through" and "cd_monthlyUtc c = Some m"
  shows "\<exists>p. recurringPrefixThrough c first through = Inr (Some p) \<and> prefixSpec c first through p"
  using rule
proof (cases rule: onRule_cases)
  case (monthly m')
  define f k where "f = timeMonth first" "k = timeMonth through"
  define l where "l = (if through < monthAt k m' then k - 1 else k)"
  have month: "0 \<le> f" "f < 120000" "0 \<le> k" "k < 120000" using cutoff(1) monthly(4) by (simp_all add: f_k_def inCalendar_def)
  have first: "first = monthAt f m'" using monthly(5) by (simp add: f_k_def)
  have below: "monthAt i m' \<le> through" if "i < k" for i
    using timeMonth_less [of "monthAt i m'" through] that by (simp add: timeMonth_monthAt [OF monthly(2)] f_k_def)
  have above: "through < monthAt i m'" if "k < i" for i
    using timeMonth_less [of through "monthAt i m'"] that by (simp add: timeMonth_monthAt [OF monthly(2)] f_k_def)
  have "f \<le> l"
  proof (cases "through < monthAt k m'")
    case True
    then have "monthAt f m' < monthAt k m'" using cutoff(2) first by linarith
    then show ?thesis using True by (simp add: l_def monthAt_less [OF monthly(2)])
  next
    case False
    then show ?thesis using timeMonth_mono [OF cutoff(2)] by (simp add: l_def f_k_def)
  qed
  define n where "n = nat (l - f)"
  have n: "f + int n = l" using \<open>f \<le> l\<close> by (simp add: n_def)
  have at: "nominalAt c first i = monthAt (f + int i) m'" for i by (simp add: nominalAt_def monthly(1) f_k_def)
  have here: "nominalAt c first n \<le> through" "through < nominalAt c first (Suc n)"
  proof -
    have positions: "nominalAt c first n = monthAt l m'" "nominalAt c first (Suc n) = monthAt (l + 1) m'"
      using at [of n] at [of "Suc n"] n by (simp_all add: add.commute add.left_commute)
    have "monthAt l m' \<le> through \<and> through < monthAt (l + 1) m'"
    proof (cases "through < monthAt k m'")
      case True
      then show ?thesis using below [of "k - 1"] by (simp add: l_def)
    next
      case False
      then show ?thesis using above [of "k + 1"] by (simp add: l_def)
    qed
    then show "nominalAt c first n \<le> through" "through < nominalAt c first (Suc n)" unfolding positions by blast+
  qed
  note prefix = prefix_at [OF rule here cutoff(1)]
  obtain after where after: "nextOrNull c (nominalAt c first n) = Inr after" using prefix(3) by blast
  have match: "recurringNominalMatches c first = Inr True" using rule by (simp add: onRule_def)
  have instants: "monthlyInstant k m' = Inr (monthAt k m')" "monthlyInstant l m' = Inr (nominalAt c first n)"
  proof -
    have "0 \<le> l" "l < 120000" using month \<open>f \<le> l\<close> by (simp_all add: l_def)
    then show "monthlyInstant k m' = Inr (monthAt k m')" "monthlyInstant l m' = Inr (nominalAt c first n)"
      unfolding at n monthlyInstant_iff [OF monthly(2)] using month by simp_all
  qed
  have indices: "monthIndex first = Inr f" "monthIndex through = Inr k" using month by (simp_all add: monthIndex_iff f_k_def)
  have "recurringPrefixThrough c first through =
      Inr (Some \<lparr>rn_count = int n + 1, rn_last = nominalAt c first n, rn_next = after\<rparr>)"
    using cutoff monthly(1,3) instants indices after n
    by (simp add: recurringPrefixThrough_def parseCadence_def checkedDate_if match l_def [symmetric] Let_def)
  then show ?thesis using prefix(2) [OF after] by blast
qed (use assms(4) in simp)

lemma prefix_spec:
  assumes "onRule c first" "inCalendar through" "first \<le> through"
  shows "\<exists>p. recurringPrefixThrough c first through = Inr (Some p) \<and> prefixSpec c first through p"
  using prefix_interval [OF assms] prefix_monthly [OF assms] by (cases "cd_monthlyUtc c") blast+

lemma prefix_counts:
  assumes "onRule c first" "prefixSpec c first through p" "iterateNominal c n first = Inr u"
  shows "u \<le> through \<longleftrightarrow> int n < rn_count p"
proof -
  define k where "k = nat (rn_count p - 1)"
  have k: "rn_count p = int k + 1" "iterateNominal c k first = Inr (rn_last p)" "rn_last p \<le> through"
    using assms(2) by (simp_all add: prefixSpec_def k_def)
  have u: "u = nominalAt c first n" "rn_last p = nominalAt c first k" "inCalendar (nominalAt c first k)" "inCalendar u"
    using assms(3) k(2) cadence.iterate_position [OF assms(1)] by (simp_all split: if_splits)
  show ?thesis
  proof (cases "n \<le> k")
    case True
    then have "u \<le> rn_last p" using cadence.increasing [OF assms(1), of n k] u by (cases "n = k") auto
    then show ?thesis using True k by simp
  next
    case False
    then have later: "inCalendar (nominalAt c first (Suc k))" "nominalAt c first (Suc k) \<le> u"
      using cadence.valid_below [OF assms(1), of n "Suc k"] cadence.increasing [OF assms(1), of "Suc k" n] u by (cases "n = Suc k"; simp)+
    then have "advanceRecurringNominal c (rn_last p) = Inr (nominalAt c first (Suc k))"
      using cadence.advance_position [OF assms(1) u(3)] u(2) by simp
    then have "through < nominalAt c first (Suc k)" using assms(2) by (auto simp: prefixSpec_def split: option.splits)
    then show ?thesis using later False k by simp
  qed
qed

lemma prefix_range:
  "(\<exists>p. recurringPrefixThrough c first final = Inr (Some p) \<and> rn_last p = final \<and> rn_count p = k) \<longleftrightarrow>
    recurringNominalMatches c first = Inr True \<and> 1 \<le> k \<and> iterateNominal c (nat (k - 1)) first = Inr final"
proof
  assume "\<exists>p. recurringPrefixThrough c first final = Inr (Some p) \<and> rn_last p = final \<and> rn_count p = k"
  then obtain p where p: "recurringPrefixThrough c first final = Inr (Some p)" "rn_last p = final" "rn_count p = k" by blast
  then have rule: "onRule c first" "inCalendar final" "first \<le> final"
    by (auto simp: recurringPrefixThrough_def bindE_Inr_iff parseCadence_def checkedDate_calendar onRule_def split: if_splits)
  then show "recurringNominalMatches c first = Inr True \<and> 1 \<le> k \<and> iterateNominal c (nat (k - 1)) first = Inr final"
    using prefix_spec [OF rule] p by (auto simp: prefixSpec_def onRule_def)
next
  assume "recurringNominalMatches c first = Inr True \<and> 1 \<le> k \<and> iterateNominal c (nat (k - 1)) first = Inr final"
  then have rule: "onRule c first" and k: "1 \<le> k" "iterateNominal c (nat (k - 1)) first = Inr final" by (simp_all add: onRule_def)
  have final: "final = nominalAt c first (nat (k - 1))" "inCalendar final"
    using k(2) cadence.iterate_position [OF rule, of "nat (k - 1)"] by (auto split: if_splits)
  have "first \<le> final" using cadence.increasing [OF rule, of 0 "nat (k - 1)"] nominalAt_0 [OF rule] final by (cases "nat (k - 1)") auto
  then obtain p where p: "recurringPrefixThrough c first final = Inr (Some p)" "prefixSpec c first final p"
    using prefix_spec [OF rule final(2)] by blast
  have last: "iterateNominal c (nat (rn_count p - 1)) first = Inr (rn_last p)" "rn_last p \<le> final" "1 \<le> rn_count p"
    using p(2) by (simp_all add: prefixSpec_def)
  have "int (nat (k - 1)) < rn_count p" using prefix_counts [OF rule p(2) k(2)] by simp
  moreover have "final \<le> rn_last p" if "k \<le> rn_count p"
  proof -
    have "rn_last p = nominalAt c first (nat (rn_count p - 1))"
      using last(1) cadence.iterate_position [OF rule, of "nat (rn_count p - 1)"] by (auto split: if_splits)
    then show ?thesis using cadence.increasing [OF rule, of "nat (k - 1)" "nat (rn_count p - 1)"] final that k(1) by (cases "k = rn_count p") auto
  qed
  ultimately have "rn_last p = final" using last(2) k(1) by simp
  then have "nat (rn_count p - 1) = nat (k - 1)" using cadence.iterate_inj [OF rule last(1)] k(2) by simp
  then show "\<exists>p. recurringPrefixThrough c first final = Inr (Some p) \<and> rn_last p = final \<and> rn_count p = k"
    using p(1) \<open>rn_last p = final\<close> k(1) last(3) by (intro exI [of _ p]) linarith
qed

lemma range_accepted:
  "validateRecurringRangeCoverage covered = Inr () \<longleftrightarrow>
    (\<exists>first final. dateParse (rr_firstScheduledAt covered) = Some first \<and> dateParse (rr_lastScheduledAt covered) = Some final
      \<and> (\<exists>p. recurringPrefixThrough (rr_cadence covered) first final = Inr (Some p) \<and> rn_last p = final \<and> rn_count p = rr_count covered))
    \<and> cd_monthlyUtc (rr_cadence covered) = rr_snapshotMonthly covered"
proof (cases "\<exists>first final. dateParse (rr_firstScheduledAt covered) = Some first \<and> dateParse (rr_lastScheduledAt covered) = Some final")
  case True
  then obtain first final where parsed: "dateParse (rr_firstScheduledAt covered) = Some first" "dateParse (rr_lastScheduledAt covered) = Some final"
    by blast
  show ?thesis
  proof (cases "recurringPrefixThrough (rr_cadence covered) first final")
    case (Inr q)
    then show ?thesis by (cases q) (simp_all add: validateRecurringRangeCoverage_def parsed)
  qed (simp add: validateRecurringRangeCoverage_def parsed)
next
  case False
  then show ?thesis by (auto simp: validateRecurringRangeCoverage_def bindE_Inr_iff split: option.splits)
qed

section \<open>Properties\<close>

text \<open>C18: The constant-work prefix is the one the occurrence-by-occurrence reference gives. For a cursor on its cadence and
  any cutoff inside the calendar, \<^verbatim>\<open>recurringPrefixThrough\<close> never throws: it returns null when the cursor is after
  the cutoff, and otherwise a count such that exactly the first \<open>count\<close> occurrences of the cadence advanced one at a time are not after
  the cutoff, the last of them, and its successor, which is null exactly when the cadence is exhausted there.\<close>

theorem cadence_prefix_exact:
  assumes "recurringNominalMatches c first = Inr True" "checkedDate through = Inr through"
  shows "if through < first then recurringPrefixThrough c first through = Inr None
    else \<exists>p. recurringPrefixThrough c first through = Inr (Some p)
      \<and> 1 \<le> rn_count p \<and> iterateNominal c (nat (rn_count p - 1)) first = Inr (rn_last p)
      \<and> (\<forall>n u. iterateNominal c n first = Inr u \<longrightarrow> (u \<le> through \<longleftrightarrow> int n < rn_count p))
      \<and> (case rn_next p of
           Some n \<Rightarrow> advanceRecurringNominal c (rn_last p) = Inr n \<and> through < n
         | None \<Rightarrow> advanceRecurringNominal c (rn_last p) = Inl CadenceExhausted)"
proof (cases "through < first")
  case True
  have "StoredAutomationCadenceV1Schema c"
    using assms(1) by (simp add: recurringNominalMatches_def bindE_Inr_iff parseCadence_def split: if_splits)
  then show ?thesis using True assms by (simp add: recurringPrefixThrough_def parseCadence_def)
next
  case False
  have rule: "onRule c first" "inCalendar through" using assms by (simp_all add: onRule_def checkedDate_calendar)
  with False obtain p where p: "recurringPrefixThrough c first through = Inr (Some p)" "prefixSpec c first through p"
    using prefix_spec by fastforce
  have "1 \<le> rn_count p" "iterateNominal c (nat (rn_count p - 1)) first = Inr (rn_last p)"
    "case rn_next p of Some n \<Rightarrow> advanceRecurringNominal c (rn_last p) = Inr n \<and> through < n
       | None \<Rightarrow> advanceRecurringNominal c (rn_last p) = Inl CadenceExhausted"
    using p(2) by (simp_all add: prefixSpec_def)
  then show ?thesis using False p(1) prefix_counts [OF rule(1) p(2)] by simp
qed

text \<open>C37: Advancing keeps a cursor well-typed: from an instant on its cadence, \<^verbatim>\<open>advanceRecurringNominal\<close> either
  reports exhaustion, or returns a later instant that is again on the cadence, one interval or exactly one calendar month on; it never fails to
  parse the cadence, never reports a mismatch and never leaves the four-digit years.\<close>

theorem cadence_advance_typed:
  assumes "recurringNominalMatches c t = Inr True"
  shows "advanceRecurringNominal c t = Inl CadenceExhausted
    \<or> (\<exists>n. advanceRecurringNominal c t = Inr n \<and> t < n \<and> recurringNominalMatches c n = Inr True
        \<and> (case cd_monthlyUtc c of
             None \<Rightarrow> n = t + 1000 * the (cd_intervalSeconds c)
           | Some m \<Rightarrow> getUTCFullYear n * 12 + getUTCMonth n = getUTCFullYear t * 12 + getUTCMonth t + 1))"
proof (cases "inCalendar (nominalAt c t 1)")
  case True
  have rule: "onRule c t" using assms by (simp add: onRule_def)
  have "recurringNominalMatches c (nominalAt c t 1) = Inr True" using nominalAt_onRule(1) [OF rule True] by (simp add: onRule_def)
  moreover have "t < nominalAt c t 1" using nominalAt_mono [OF rule, of 0 1] nominalAt_0 [OF rule] by simp
  moreover have "case cd_monthlyUtc c of None \<Rightarrow> nominalAt c t 1 = t + 1000 * the (cd_intervalSeconds c)
      | Some m \<Rightarrow> timeMonth (nominalAt c t 1) = timeMonth t + 1"
    using rule by (cases rule: onRule_cases) (simp_all add: nominalAt_def timeMonth_monthAt)
  ultimately show ?thesis using advance_on_rule [OF rule] True
    by (simp add: timeMonth_def dayMonth_def getUTCFullYear_def getUTCMonth_def del: One_nat_def split: option.splits)
next
  case False
  then show ?thesis using advance_on_rule [of c t] assms by (simp add: onRule_def)
qed

text \<open>Retained expired ranges are checked exactly: \<^verbatim>\<open>validateRecurringRangeCoverage\<close> accepts a range if and only if its
  two timestamps parse, the first lies on the range's cadence, advancing it \<open>count - 1\<close> times gives the last, and the snapshot retains
  the same monthly rule.\<close>

theorem recurring_range_exact:
  "validateRecurringRangeCoverage covered = Inr () \<longleftrightarrow>
    (\<exists>first final. dateParse (rr_firstScheduledAt covered) = Some first \<and> dateParse (rr_lastScheduledAt covered) = Some final
      \<and> recurringNominalMatches (rr_cadence covered) first = Inr True \<and> 1 \<le> rr_count covered
      \<and> iterateNominal (rr_cadence covered) (nat (rr_count covered - 1)) first = Inr final)
    \<and> cd_monthlyUtc (rr_cadence covered) = rr_snapshotMonthly covered"
  by (simp add: range_accepted prefix_range)

end
