(* ===== verification/Cadence_Samples.thy ===== *)
theory Cadence_Samples
  imports Recurring_Cadence
begin

text \<open>
  Concrete cadences: a rule on the fifteenth of every month at 09:30:00 UTC, from 2024-01-15, and the instants at which the
  cadence properties are applied.
\<close>

definition sampleCadence :: AutomationCadence where
  "sampleCadence = \<lparr>cd_intervalSeconds = None, cd_monthlyUtc = Some \<lparr>mu_zone = ''UTC'', mu_dayOfMonth = 15, mu_hour = 9, mu_minute = 30,
    mu_second = 0\<rparr>\<rparr>"

lemma sample_matches: "recurringNominalMatches sampleCadence 1705311000000 = Inr True"
  by code_simp

text \<open>The cutoff is one second before the June occurrence, so the prefix is January to May.\<close>

lemma sample_prefix:
  "recurringPrefixThrough sampleCadence 1705311000000 1718443799000 =
    Inr (Some \<lparr>rn_count = 5, rn_last = 1715765400000, rn_next = Some 1718443800000\<rparr>)"
  by code_simp

lemma sample_cutoff: "checkedDate 1718443799000 = Inr 1718443799000"
  by code_simp

theorem cadence_prefix_exact_witness:
  "recurringPrefixThrough sampleCadence 1705311000000 1718443799000 =
      Inr (Some \<lparr>rn_count = 5, rn_last = 1715765400000, rn_next = Some 1718443800000\<rparr>)
    \<and> iterateNominal sampleCadence 4 1705311000000 = Inr 1715765400000
    \<and> advanceRecurringNominal sampleCadence 1715765400000 = Inr 1718443800000"
  using cadence_prefix_exact [OF sample_matches sample_cutoff] by (simp add: sample_prefix)

theorem cadence_advance_typed_witness:
  "\<exists>n. advanceRecurringNominal sampleCadence 1705311000000 = Inr n \<and> 1705311000000 < n \<and> recurringNominalMatches sampleCadence n = Inr True"
proof -
  have "advanceRecurringNominal sampleCadence 1705311000000 = Inr 1707989400000" by code_simp
  then show ?thesis using cadence_advance_typed [OF sample_matches] by auto
qed

lemma sample_range:
  "validateRecurringRangeCoverage \<lparr>rr_cadence = sampleCadence, rr_firstScheduledAt = ''2024-01-15T09:30:00.000Z'',
    rr_lastScheduledAt = ''2024-05-15T09:30:00.000Z'', rr_count = 5, rr_snapshotMonthly = cd_monthlyUtc sampleCadence\<rparr> = Inr ()"
  by code_simp

end
