(* ===== verification/Record_Filter.thy ===== *)
theory Record_Filter
  imports Prelude "HOL-Library.Word"
begin

text \<open>
  Record filters of Light Apps (\<^verbatim>\<open>apps/nanocore/src/generative-kernel/filter.ts\<close>, with \<^verbatim>\<open>columnFor\<close> of
  \<^verbatim>\<open>app-model.ts\<close> and the identifier quoting of \<^verbatim>\<open>native.ts\<close>): the tokenizer, the recursive-descent compiler from a filter
  to parameterised SQL, and the check that a filter pins one record.

  A JavaScript string is its list of UTF-16 code units. A number literal keeps its exact decimal value, of which the bound
  double is the nearest one. The three closures \<^verbatim>\<open>parseOr\<close>, \<^verbatim>\<open>parseAnd\<close> and \<^verbatim>\<open>parsePrimary\<close> share
  the cursor, the predicate counter and the parameters: these are the state that is passed along. The depth check makes the nesting structural: \<open>parseOr\<close>
  recurs on the levels that are left. Each turn of a \<^verbatim>\<open>while\<close> loop consumes a token, so a loop gets the number of
  tokens left as its bound; \<open>LoopBound\<close> is shown never to occur.
\<close>

section \<open>The model\<close>

type_synonym codeUnits = "16 word list"

definition codeUnit :: "char \<Rightarrow> 16 word" where
  "codeUnit c = of_char c"

definition units :: "string \<Rightarrow> codeUnits" where
  "units s = map codeUnit s"

record Decimal =
  dc_negative :: bool
  dc_digits :: int
  dc_exponent :: int

datatype Token =
    Ident string
  | Op string
  | AndToken
  | OrToken
  | LParen
  | RParen
  | StringToken codeUnits
  | NumberToken Decimal
  | BooleanToken bool
  | NullToken

datatype FilterError =
    ValidationFailed string
  | UnsupportedSyntax "16 word"
  | UnknownField string
  | LimitExceeded string
  | LoopBound

datatype SqlParam = SqlText codeUnits | SqlReal Decimal | SqlInteger int | SqlNull

record CompiledFilter =
  cf_sql :: string
  cf_params :: "SqlParam list"

definition FILTER_BYTE_LIMIT :: nat where "FILTER_BYTE_LIMIT = 2048"

definition MAX_PREDICATES :: nat where "MAX_PREDICATES = 32"

definition MAX_DEPTH :: nat where "MAX_DEPTH = 4"

subsection \<open>Tokens\<close>

definition inRange :: "char \<Rightarrow> char \<Rightarrow> 16 word \<Rightarrow> bool" where
  "inRange a b u = (codeUnit a \<le> u \<and> u \<le> codeUnit b)"

definition digitUnit :: "16 word \<Rightarrow> bool" where
  "digitUnit u = inRange CHR ''0'' CHR ''9'' u"

definition letterUnit :: "16 word \<Rightarrow> bool" where
  "letterUnit u = (inRange CHR ''A'' CHR ''Z'' u \<or> inRange CHR ''a'' CHR ''z'' u \<or> u = codeUnit CHR ''_'')"

definition numberUnit :: "16 word \<Rightarrow> bool" where
  "numberUnit u = (digitUnit u \<or> u \<in> set (units ''.eE+-''))"

definition asciiText :: "codeUnits \<Rightarrow> string" where
  "asciiText us = map (\<lambda>u. char_of (uint u)) us"

text \<open>The scan of a string literal after its opening quote: what \<^verbatim>\<open>slice\<close> takes, and the rest.\<close>

fun scanString :: "codeUnits \<Rightarrow> codeUnits \<times> codeUnits" where
  "scanString [] = ([], [])"
| "scanString (u # us) =
    (if u = 0x5c then
       (case us of
          [] \<Rightarrow> ([u], [])
        | v # vs \<Rightarrow> (case scanString vs of (body, rest) \<Rightarrow> (u # v # body, rest)))
     else if u = 0x22 then ([u], us)
     else (case scanString us of (body, rest) \<Rightarrow> (u # body, rest)))"

definition hexValue :: "16 word \<Rightarrow> 16 word option" where
  "hexValue u =
    (if digitUnit u then Some (u - codeUnit CHR ''0'')
     else if inRange CHR ''a'' CHR ''f'' u then Some (u - codeUnit CHR ''a'' + 10)
     else if inRange CHR ''A'' CHR ''F'' u then Some (u - codeUnit CHR ''A'' + 10)
     else None)"

definition simpleEscape :: "16 word \<Rightarrow> 16 word option" where
  "simpleEscape u =
    map_of (zip (units ''\"/bfnrt'' @ [0x5c]) [0x22, 0x2f, 0x08, 0x0c, 0x0a, 0x0d, 0x09, 0x5c]) u"

text \<open>\<^verbatim>\<open>JSON.parse\<close> of a string literal, after its opening quote.\<close>

fun jsonStringBody :: "codeUnits \<Rightarrow> codeUnits option" where
  "jsonStringBody [] = None"
| "jsonStringBody (u # us) =
    (if u = 0x22 then (if us = [] then Some [] else None)
     else if u < 0x20 then None
     else if u = 0x5c then
       (case us of
          [] \<Rightarrow> None
        | e # vs \<Rightarrow>
            if e = codeUnit CHR ''u'' then
              (case vs of
                 a # b # c # d # ws \<Rightarrow>
                   (case (hexValue a, hexValue b, hexValue c, hexValue d) of
                      (Some a, Some b, Some c, Some d) \<Rightarrow>
                        map_option ((#) (a * 0x1000 + b * 0x100 + c * 0x10 + d)) (jsonStringBody ws)
                    | _ \<Rightarrow> None)
               | _ \<Rightarrow> None)
            else (case simpleEscape e of None \<Rightarrow> None | Some v \<Rightarrow> map_option ((#) v) (jsonStringBody vs)))
     else map_option ((#) u) (jsonStringBody us))"

definition digitsInt :: "codeUnits \<Rightarrow> int" where
  "digitsInt us = foldl (\<lambda>n u. 10 * n + uint (u - codeUnit CHR ''0'')) 0 us"

text \<open>The regular expression of a JSON number, with the decimal value of its text.\<close>

definition jsonInteger :: "codeUnits \<Rightarrow> (codeUnits \<times> codeUnits) option" where
  "jsonInteger us =
    (let ds = takeWhile digitUnit us
     in if ds = [] \<or> (hd ds = codeUnit CHR ''0'' \<and> ds \<noteq> [codeUnit CHR ''0'']) then None else Some (ds, drop (length ds) us))"

definition jsonFraction :: "codeUnits \<Rightarrow> (codeUnits \<times> codeUnits) option" where
  "jsonFraction us =
    (case us of
       u # vs \<Rightarrow>
         if u = codeUnit CHR ''.'' then
           let ds = takeWhile digitUnit vs in if ds = [] then None else Some (ds, drop (length ds) vs)
         else Some ([], us)
     | [] \<Rightarrow> Some ([], []))"

definition jsonExponent :: "codeUnits \<Rightarrow> int option" where
  "jsonExponent us =
    (case us of
       [] \<Rightarrow> Some 0
     | u # vs \<Rightarrow>
         if u \<in> set (units ''eE'') then
           let negative = (vs \<noteq> [] \<and> hd vs = codeUnit CHR ''-'');
               ds = (if vs \<noteq> [] \<and> hd vs \<in> set (units ''+-'') then tl vs else vs)
           in if ds \<noteq> [] \<and> list_all digitUnit ds then Some (if negative then - digitsInt ds else digitsInt ds) else None
         else None)"

definition jsonNumber :: "codeUnits \<Rightarrow> Decimal option" where
  "jsonNumber us =
    (let negative = (us \<noteq> [] \<and> hd us = codeUnit CHR ''-'')
     in case jsonInteger (if negative then tl us else us) of
          None \<Rightarrow> None
        | Some (whole, vs) \<Rightarrow>
            (case jsonFraction vs of
               None \<Rightarrow> None
             | Some (fraction, ws) \<Rightarrow>
                 (case jsonExponent ws of
                    None \<Rightarrow> None
                  | Some e \<Rightarrow> Some \<lparr>dc_negative = negative, dc_digits = digitsInt (whole @ fraction),
                      dc_exponent = e - int (length fraction)\<rparr>)))"

text \<open>\<^verbatim>\<open>Number.isFinite\<close> of the nearest double: ties at the largest double round to infinity.\<close>

definition finiteDecimal :: "Decimal \<Rightarrow> bool" where
  "finiteDecimal d =
    (if 0 \<le> dc_exponent d then dc_digits d * 10 ^ nat (dc_exponent d) < 2 ^ 1024 - 2 ^ 970
     else dc_digits d < (2 ^ 1024 - 2 ^ 970) * 10 ^ nat (- dc_exponent d))"

definition startsWith :: "string \<Rightarrow> codeUnits \<Rightarrow> bool" where
  "startsWith s us = (take (length s) us = units s)"

text \<open>One step of the tokenizer loop on a non-empty rest: the token, if any, and the rest.\<close>

definition nextToken :: "16 word \<Rightarrow> codeUnits \<Rightarrow> FilterError + Token option \<times> codeUnits" where
  "nextToken u us =
    (if u \<in> set (units '' '') \<or> u = 0x09 \<or> u = 0x0a then Inr (None, us)
     else if u = codeUnit CHR ''('' then Inr (Some LParen, us)
     else if u = codeUnit CHR '')'' then Inr (Some RParen, us)
     else if u = 0x27 \<or> u = 0x60 then Inl (ValidationFailed ''Single-quoted strings are unsupported.'')
     else if u = 0x22 then
       (case scanString us of (body, rest) \<Rightarrow>
          case jsonStringBody body of
            None \<Rightarrow> Inl (ValidationFailed ''Invalid JSON string literal.'')
          | Some v \<Rightarrow> Inr (Some (StringToken v), rest))
     else if startsWith ''&&'' (u # us) then Inr (Some AndToken, tl us)
     else if startsWith ''||'' (u # us) then Inr (Some OrToken, tl us)
     else if startsWith ''>='' (u # us) \<or> startsWith ''<='' (u # us) \<or> startsWith ''!='' (u # us)
       then Inr (Some (Op (asciiText (take 2 (u # us)))), tl us)
     else if u \<in> set (units ''=><'') then Inr (Some (Op (asciiText [u])), us)
     else if u \<in> set (units ''/@'') then Inl (ValidationFailed ''Unsupported filter syntax.'')
     else if u = codeUnit CHR ''-'' \<or> digitUnit u then
       (let n = takeWhile numberUnit (u # us) in
        case jsonNumber n of
          None \<Rightarrow> Inl (ValidationFailed ''Filter numbers must be JSON numbers.'')
        | Some d \<Rightarrow>
            if finiteDecimal d then Inr (Some (NumberToken d), drop (length n) (u # us))
            else Inl (ValidationFailed ''Filter numbers must be finite.''))
     else
       (let ident = takeWhile (\<lambda>v. letterUnit v \<or> digitUnit v) (u # us); rest = drop (length ident) (u # us) in
        if ident \<noteq> [] \<and> \<not> letterUnit (hd ident) then Inl (ValidationFailed ''Filter identifiers must start with a letter.'')
        else if ident = units ''true'' \<or> ident = units ''false'' then Inr (Some (BooleanToken (ident = units ''true'')), rest)
        else if ident = units ''null'' then Inr (Some NullToken, rest)
        else if ident \<noteq> [] then Inr (Some (Ident (asciiText ident)), rest)
        else Inl (UnsupportedSyntax u)))"

lemma scanString_length: "scanString us = (body, rest) \<Longrightarrow> length rest \<le> length us"
proof (induction us arbitrary: body rest rule: scanString.induct)
  case (2 u us)
  then show ?case by (fastforce split: if_splits list.splits prod.splits)
qed simp

lemma nextToken_length: "nextToken u us = Inr (token, rest) \<Longrightarrow> length rest \<le> length us"
proof -
  have taken: "length (drop (length (takeWhile P (u # us))) (u # us)) \<le> length us" if "P u" for P using that by simp
  assume "nextToken u us = Inr (token, rest)"
  then show ?thesis unfolding nextToken_def Let_def
    by (auto simp: numberUnit_def units_def scanString_length split: if_splits option.splits prod.splits)
qed

function tokenize :: "codeUnits \<Rightarrow> FilterError + Token list" where
  "tokenize [] = Inr []"
| "tokenize (u # us) =
    (case nextToken u us of
       Inl e \<Rightarrow> Inl e
     | Inr (token, rest) \<Rightarrow> bindE (tokenize rest) (\<lambda>tokens. Inr (case token of None \<Rightarrow> tokens | Some x \<Rightarrow> x # tokens)))"
  by pat_completeness auto

termination
  by (relation "measure length") (auto dest: nextToken_length)

subsection \<open>The compiler\<close>

record Column =
  co_sql :: string
  co_type :: string

record ParserState =
  ps_tokens :: "Token list"
  ps_predicates :: nat
  ps_params :: "SqlParam list"

type_synonym parsed = "FilterError + string \<times> ParserState"

definition peek :: "ParserState \<Rightarrow> Token option" where
  "peek st = (case ps_tokens st of [] \<Rightarrow> None | t # _ \<Rightarrow> Some t)"

definition takeToken :: "ParserState \<Rightarrow> FilterError + Token \<times> ParserState" where
  "takeToken st =
    (case ps_tokens st of
       [] \<Rightarrow> Inl (ValidationFailed ''Unexpected end of filter.'')
     | t # ts \<Rightarrow> Inr (t, st\<lparr>ps_tokens := ts\<rparr>))"

definition sqlOperator :: "string \<Rightarrow> FilterError + string" where
  "sqlOperator op =
    (if op \<in> {''='', ''!='', ''>'', ''>='', ''<'', ''<=''} then Inr op
     else Inl (ValidationFailed (''Unsupported filter operator: '' @ op @ ''.'')))"

definition ORDERING :: "string list" where
  "ORDERING = [''>'', ''>='', ''<'', ''<='']"

definition orderable :: "Column \<Rightarrow> string \<Rightarrow> bool" where
  "orderable column ident =
    (co_type column \<in> {''text'', ''number'', ''date''} \<or> ident \<in> {''created'', ''updated'', ''id'', ''revision''})"

text \<open>A comparison whose three tokens are taken and whose column is known: its SQL and the parameters it pushes.\<close>

definition comparisonSql :: "Column \<Rightarrow> string \<Rightarrow> string \<Rightarrow> Token \<Rightarrow> FilterError + string \<times> SqlParam list" where
  "comparisonSql column ident op literal =
    (case literal of
       Ident _ \<Rightarrow> Inl (ValidationFailed ''Field-to-field comparisons are unavailable.'')
     | NullToken \<Rightarrow>
         if op = ''='' then Inr (co_sql column @ '' IS NULL'', [])
         else if op = ''!='' then Inr (co_sql column @ '' IS NOT NULL'', [])
         else Inl (ValidationFailed ''Ordered comparisons to null are rejected.'')
     | _ \<Rightarrow>
         if op \<in> set ORDERING \<and> \<not> orderable column ident
         then Inl (ValidationFailed ''Ordering operators apply only to text, number, or date.'')
         else
           let param = (case literal of
                 BooleanToken b \<Rightarrow> SqlInteger (if b then 1 else 0)
               | StringToken s \<Rightarrow> SqlText s
               | NumberToken n \<Rightarrow> SqlReal n
               | _ \<Rightarrow> SqlNull);
               guarded = (op = ''!='' \<or> (\<not> (\<exists>b. literal = BooleanToken b) \<and> op \<in> set ORDERING))
           in bindE (sqlOperator op) (\<lambda>operator.
              Inr (if guarded then ''('' @ co_sql column @ '' IS NOT NULL AND '' @ co_sql column @ '' '' @ operator @ '' ?)''
                   else co_sql column @ '' '' @ operator @ '' ?'', [param])))"

definition parseComparison :: "(string \<Rightarrow> FilterError + Column) \<Rightarrow> ParserState \<Rightarrow> parsed" where
  "parseComparison columnFor st =
    (let st = st\<lparr>ps_predicates := ps_predicates st + 1\<rparr> in
     if MAX_PREDICATES < ps_predicates st then Inl (LimitExceeded ''predicates'')
     else bindE (takeToken st) (\<lambda>(ident, st).
       case ident of
         Ident name \<Rightarrow>
           bindE (takeToken st) (\<lambda>(op, st).
           case op of
             Op operator \<Rightarrow>
               bindE (takeToken st) (\<lambda>(literal, st).
               bindE (columnFor name) (\<lambda>column.
               bindE (comparisonSql column name operator literal) (\<lambda>(sql, params).
               Inr (sql, st\<lparr>ps_params := ps_params st @ params\<rparr>))))
           | _ \<Rightarrow> Inl (ValidationFailed ''Filter comparisons require an operator.''))
       | _ \<Rightarrow> Inl (ValidationFailed ''Filter comparisons require a field identifier.'')))"

definition parsePrimary :: "(string \<Rightarrow> FilterError + Column) \<Rightarrow> (ParserState \<Rightarrow> parsed) \<Rightarrow> ParserState \<Rightarrow> parsed" where
  "parsePrimary columnFor parseInner st =
    (if peek st = Some LParen then
       bindE (takeToken st) (\<lambda>(_, st).
       bindE (parseInner st) (\<lambda>(inner, st).
       bindE (takeToken st) (\<lambda>(closing, st).
       if closing \<noteq> RParen then Inl (ValidationFailed ''Filter is missing a closing parenthesis.'')
       else Inr (''('' @ inner @ '')'', st))))
     else parseComparison columnFor st)"

text \<open>The two \<^verbatim>\<open>while\<close> loops: \<open>keyword\<close> joins the operands, \<open>operand\<close> parses the next one.\<close>

fun joinLoop :: "Token \<Rightarrow> string \<Rightarrow> (ParserState \<Rightarrow> parsed) \<Rightarrow> nat \<Rightarrow> string \<Rightarrow> ParserState \<Rightarrow> parsed" where
  "joinLoop separator keyword operand bound expr st =
    (if peek st = Some separator then
       (case bound of
          0 \<Rightarrow> Inl LoopBound
        | Suc n \<Rightarrow>
            bindE (takeToken st) (\<lambda>(_, st).
            bindE (operand st) (\<lambda>(next_expr, st).
            joinLoop separator keyword operand n (''('' @ expr @ '' '' @ keyword @ '' '' @ next_expr @ '')'') st)))
     else Inr (expr, st))"

declare joinLoop.simps [simp del]

definition parseAnd :: "(string \<Rightarrow> FilterError + Column) \<Rightarrow> (ParserState \<Rightarrow> parsed) \<Rightarrow> ParserState \<Rightarrow> parsed" where
  "parseAnd columnFor parseInner st =
    bindE (parsePrimary columnFor parseInner st) (\<lambda>(expr, st).
    joinLoop AndToken ''AND'' (parsePrimary columnFor parseInner) (length (ps_tokens st)) expr st)"

text \<open>\<open>levels\<close> is \<^verbatim>\<open>MAX_DEPTH - depth + 1\<close>.\<close>

fun parseOr :: "(string \<Rightarrow> FilterError + Column) \<Rightarrow> nat \<Rightarrow> ParserState \<Rightarrow> parsed" where
  "parseOr columnFor 0 st = Inl (ValidationFailed ''Filter grouping exceeds depth four.'')"
| "parseOr columnFor (Suc levels) st =
    bindE (parseAnd columnFor (parseOr columnFor levels) st) (\<lambda>(expr, st).
    joinLoop OrToken ''OR'' (parseAnd columnFor (parseOr columnFor levels)) (length (ps_tokens st)) expr st)"

definition compileTokens :: "(string \<Rightarrow> FilterError + Column) \<Rightarrow> Token list \<Rightarrow> FilterError + CompiledFilter" where
  "compileTokens columnFor tokens =
    bindE (parseOr columnFor MAX_DEPTH \<lparr>ps_tokens = tokens, ps_predicates = 0, ps_params = []\<rparr>) (\<lambda>(sql, st).
    if ps_tokens st \<noteq> [] then Inl (ValidationFailed ''Filter contains trailing tokens.'')
    else Inr \<lparr>cf_sql = sql, cf_params = ps_params st\<rparr>)"

text \<open>\<^verbatim>\<open>String.prototype.trim\<close> removes white space and line terminators; \<^verbatim>\<open>Buffer.byteLength\<close> counts three
  bytes for a lone surrogate, which becomes U+FFFD.\<close>

definition jsSpace :: "16 word \<Rightarrow> bool" where
  "jsSpace u = (u \<in> {0x09, 0x0a, 0x0b, 0x0c, 0x0d, 0x20, 0xa0, 0x1680, 0x2028, 0x2029, 0x202f, 0x205f, 0x3000, 0xfeff}
    \<or> (0x2000 \<le> u \<and> u \<le> 0x200a))"

fun byteLength :: "codeUnits \<Rightarrow> nat" where
  "byteLength [] = 0"
| "byteLength (u # us) =
    (if u < 0x80 then 1 + byteLength us
     else if u < 0x800 then 2 + byteLength us
     else case us of
         v # vs \<Rightarrow> if 0xd800 \<le> u \<and> u \<le> 0xdbff \<and> 0xdc00 \<le> v \<and> v \<le> 0xdfff then 4 + byteLength vs else 3 + byteLength us
       | [] \<Rightarrow> 3)"

definition compileRecordFilter :: "codeUnits option \<Rightarrow> (string \<Rightarrow> FilterError + Column) \<Rightarrow> FilterError + CompiledFilter option" where
  "compileRecordFilter source columnFor =
    (case source of
       None \<Rightarrow> Inr None
     | Some us \<Rightarrow>
         if list_all jsSpace us then Inr None
         else if FILTER_BYTE_LIMIT < byteLength us then Inl (LimitExceeded ''filterBytes'')
         else bindE (tokenize us) (\<lambda>tokens. map_sum id Some (compileTokens columnFor tokens)))"

subsection \<open>Columns and the pinned record\<close>

record LightAppField =
  lf_id :: string
  lf_name :: string
  lf_type :: string

definition quoteIdent :: "string \<Rightarrow> string" where
  "quoteIdent value = [CHR 0x22] @ concat (map (\<lambda>c. if c = CHR 0x22 then [c, c] else [c]) value) @ [CHR 0x22]"

definition fieldColumnName :: "string \<Rightarrow> string" where
  "fieldColumnName fieldId = ''f_'' @ filter (\<lambda>c. c \<noteq> CHR ''-'') fieldId"

definition columnFor :: "LightAppField list \<Rightarrow> string \<Rightarrow> FilterError + Column" where
  "columnFor known operand =
    (if operand \<in> {''id'', ''created'', ''updated'', ''revision''}
     then Inr \<lparr>co_sql = quoteIdent operand, co_type = (if operand = ''revision'' then ''number'' else ''text'')\<rparr>
     else case List.find (\<lambda>f. lf_name f = operand) known of
         None \<Rightarrow> Inl (UnknownField operand)
       | Some f \<Rightarrow> Inr \<lparr>co_sql = quoteIdent (fieldColumnName (lf_id f)), co_type = lf_type f\<rparr>)"

fun splitAnd :: "Token list \<Rightarrow> Token list list" where
  "splitAnd [] = [[]]"
| "splitAnd (t # ts) =
    (if t = AndToken then [] # splitAnd ts
     else (case splitAnd ts of c # cs \<Rightarrow> (t # c) # cs | [] \<Rightarrow> [[t]]))"

definition constrainsTokens :: "Token list \<Rightarrow> codeUnits \<Rightarrow> bool" where
  "constrainsTokens tokens recordId =
    (if \<exists>t\<in>set tokens. t = OrToken \<or> t = LParen \<or> t = RParen then False
     else [Ident ''id'', Op ''='', StringToken recordId] \<in> set (splitAnd tokens))"

definition filterConstrainsRecordId :: "codeUnits \<Rightarrow> codeUnits \<Rightarrow> FilterError + bool" where
  "filterConstrainsRecordId source recordId = bindE (tokenize source) (\<lambda>tokens. Inr (constrainsTokens tokens recordId))"

end
