(* ===== verification/Filter_Grammar.thy ===== *)
theory Filter_Grammar
  imports Record_Filter
begin

text \<open>
  The grammar of record filters as data, and the compiler against it: an expression tree, its tokens, its SQL with parameters, and the lemmas
  that the recursive-descent compiler accepts exactly the token lists of well-shaped trees within its limits. The two loops of the
  compiler share their lemmas through the locale \<open>joined\<close>.
\<close>

section \<open>Filter expressions\<close>

datatype FilterExpr =
    Compare string string Token
  | Both FilterExpr FilterExpr
  | Either FilterExpr FilterExpr
  | Group FilterExpr

fun tokensOf :: "FilterExpr \<Rightarrow> Token list" where
  "tokensOf (Compare ident op literal) = [Ident ident, Op op, literal]"
| "tokensOf (Both l r) = tokensOf l @ AndToken # tokensOf r"
| "tokensOf (Either l r) = tokensOf l @ OrToken # tokensOf r"
| "tokensOf (Group e) = LParen # tokensOf e @ [RParen]"

fun comparisons :: "FilterExpr \<Rightarrow> nat" where
  "comparisons (Compare _ _ _) = 1"
| "comparisons (Both l r) = comparisons l + comparisons r"
| "comparisons (Either l r) = comparisons l + comparisons r"
| "comparisons (Group e) = comparisons e"

fun groupDepth :: "FilterExpr \<Rightarrow> nat" where
  "groupDepth (Compare _ _ _) = 0"
| "groupDepth (Both l r) = max (groupDepth l) (groupDepth r)"
| "groupDepth (Either l r) = max (groupDepth l) (groupDepth r)"
| "groupDepth (Group e) = Suc (groupDepth e)"

fun rank :: "FilterExpr \<Rightarrow> nat" where
  "rank (Compare _ _ _) = 0" | "rank (Group _) = 0" | "rank (Both _ _) = 1" | "rank (Either _ _) = 2"

text \<open>Precedence and association: \<open>&&\<close> binds tighter than \<open>||\<close>, both to the left, and only a group nests.\<close>

fun shaped :: "FilterExpr \<Rightarrow> bool" where
  "shaped (Compare _ _ _) = True"
| "shaped (Group e) = shaped e"
| "shaped (Both l r) = (shaped l \<and> rank l \<le> 1 \<and> shaped r \<and> rank r \<le> 0)"
| "shaped (Either l r) = (shaped l \<and> rank l \<le> 2 \<and> shaped r \<and> rank r \<le> 1)"

definition joinSql :: "string \<Rightarrow> string \<times> SqlParam list \<Rightarrow> string \<times> SqlParam list \<Rightarrow> string \<times> SqlParam list" where
  "joinSql keyword = (\<lambda>(a, ps) (b, qs). (''('' @ a @ '' '' @ keyword @ '' '' @ b @ '')'', ps @ qs))"

fun sqlOf :: "(string \<Rightarrow> FilterError + Column) \<Rightarrow> FilterExpr \<Rightarrow> FilterError + string \<times> SqlParam list" where
  "sqlOf cf (Compare ident op literal) = bindE (cf ident) (\<lambda>column. comparisonSql column ident op literal)"
| "sqlOf cf (Both l r) = bindE (sqlOf cf l) (\<lambda>a. bindE (sqlOf cf r) (\<lambda>b. Inr (joinSql ''AND'' a b)))"
| "sqlOf cf (Either l r) = bindE (sqlOf cf l) (\<lambda>a. bindE (sqlOf cf r) (\<lambda>b. Inr (joinSql ''OR'' a b)))"
| "sqlOf cf (Group e) = bindE (sqlOf cf e) (\<lambda>(a, ps). Inr (''('' @ a @ '')'', ps))"

text \<open>The state after an expression: its tokens consumed, its comparisons counted, its parameters pushed.\<close>

definition afterExpr :: "FilterExpr \<Rightarrow> SqlParam list \<Rightarrow> Token list \<Rightarrow> ParserState \<Rightarrow> ParserState" where
  "afterExpr e ps rest st = \<lparr>ps_tokens = rest, ps_predicates = ps_predicates st + comparisons e, ps_params = ps_params st @ ps\<rparr>"

definition parsedAs :: "(string \<Rightarrow> FilterError + Column) \<Rightarrow> nat \<Rightarrow> nat \<Rightarrow> string \<Rightarrow> ParserState \<Rightarrow> ParserState \<Rightarrow> FilterExpr \<Rightarrow> bool" where
  "parsedAs cf d r sql st st' e \<longleftrightarrow>
    shaped e \<and> rank e \<le> r \<and> groupDepth e \<le> d \<and> ps_tokens st = tokensOf e @ ps_tokens st'
    \<and> (\<exists>ps. sqlOf cf e = Inr (sql, ps) \<and> ps_params st' = ps_params st @ ps)
    \<and> ps_predicates st' = ps_predicates st + comparisons e \<and> ps_predicates st' \<le> MAX_PREDICATES"

section \<open>The two loops\<close>

text \<open>One binary connective of the grammar, with what the loop that reads it relies on.\<close>

locale joined =
  fixes C :: "FilterExpr \<Rightarrow> FilterExpr \<Rightarrow> FilterExpr" and separator :: Token and keyword :: string and r :: nat
  assumes tokens_C: "tokensOf (C a b) = tokensOf a @ separator # tokensOf b"
    and comparisons_C: "comparisons (C a b) = comparisons a + comparisons b"
    and depth_C: "groupDepth (C a b) = max (groupDepth a) (groupDepth b)"
    and shaped_C: "shaped (C a b) \<longleftrightarrow> shaped a \<and> rank a \<le> Suc r \<and> shaped b \<and> rank b \<le> r"
    and rank_C: "rank (C a b) = Suc r"
    and sql_C: "sqlOf cf (C a b) = bindE (sqlOf cf a) (\<lambda>x. bindE (sqlOf cf b) (\<lambda>y. Inr (joinSql keyword x y)))"
begin

lemma parsedAs_C:
  assumes "parsedAs cf d (Suc r) x st st1 a" "ps_tokens st1 = separator # ts" "parsedAs cf d r y (st1\<lparr>ps_tokens := ts\<rparr>) st2 b"
  shows "parsedAs cf d (Suc r) (''('' @ x @ '' '' @ keyword @ '' '' @ y @ '')'') st st2 (C a b)"
  using assms by (auto simp: parsedAs_def tokens_C comparisons_C depth_C shaped_C rank_C sql_C joinSql_def)

lemma joinLoop_sound:
  assumes operand: "\<And>st y st'. operand st = Inr (y, st') \<Longrightarrow> \<exists>b. parsedAs cf d r y st st' b"
  shows "joinLoop separator keyword operand n x st1 = Inr (sql, st') \<Longrightarrow> parsedAs cf d (Suc r) x st st1 a
    \<Longrightarrow> \<exists>e. parsedAs cf d (Suc r) sql st st' e"
proof (induction n arbitrary: x st1 a)
  case 0
  then show ?case by (subst (asm) joinLoop.simps) (auto split: if_splits)
next
  case (Suc n)
  show ?case
  proof (cases "peek st1 = Some separator")
    case True
    then obtain ts where ts: "ps_tokens st1 = separator # ts" by (auto simp: peek_def split: list.splits)
    obtain y st2 where y: "operand (st1\<lparr>ps_tokens := ts\<rparr>) = Inr (y, st2)"
      and loop: "joinLoop separator keyword operand n (''('' @ x @ '' '' @ keyword @ '' '' @ y @ '')'') st2 = Inr (sql, st')"
      using Suc.prems(1) True ts by (subst (asm) joinLoop.simps) (auto simp: takeToken_def bindE_Inr_iff)
    obtain b where "parsedAs cf d r y (st1\<lparr>ps_tokens := ts\<rparr>) st2 b" using operand [OF y] by blast
    from Suc.IH [OF loop parsedAs_C [OF Suc.prems(2) ts this]] show ?thesis .
  next
    case False
    then show ?thesis using Suc.prems by (subst (asm) joinLoop.simps) auto
  qed
qed

lemma joinLoop_turn:
  assumes "operand (st\<lparr>ps_tokens := ts\<rparr>) = Inr (y, st')" "ps_tokens st = separator # ts" "n = Suc m"
  shows "joinLoop separator keyword operand n x st = joinLoop separator keyword operand m (''('' @ x @ '' '' @ keyword @ '' '' @ y @ '')'') st'"
  using assms by (subst joinLoop.simps) (simp add: peek_def takeToken_def)

end

lemma joinLoop_stops: "peek st \<noteq> Some separator \<Longrightarrow> joinLoop separator keyword operand n x st = Inr (x, st)"
  by (subst joinLoop.simps) simp

interpretation both: joined Both AndToken "''AND''" 0
  by unfold_locales simp_all

interpretation either: joined Either OrToken "''OR''" 1
  by unfold_locales (simp_all add: numeral_2_eq_2)

section \<open>Soundness\<close>

lemma comparison_sound:
  assumes "parseComparison cf st = Inr (sql, st')"
  shows "\<exists>e. parsedAs cf d 0 sql st st' e"
proof -
  obtain name op literal rest where tokens: "ps_tokens st = Ident name # Op op # literal # rest"
    and bound: "ps_predicates st + 1 \<le> MAX_PREDICATES"
    and sql: "bindE (cf name) (\<lambda>column. bindE (comparisonSql column name op literal) (\<lambda>(sql, params).
        Inr (sql, st\<lparr>ps_tokens := rest, ps_predicates := ps_predicates st + 1, ps_params := ps_params st @ params\<rparr>))) = Inr (sql, st')"
    using assms
    by (auto simp: parseComparison_def Let_def bindE_Inr_iff takeToken_def split: if_splits list.splits Token.splits)
  then have "parsedAs cf d 0 sql st st' (Compare name op literal)" by (auto simp: parsedAs_def bindE_Inr_iff)
  then show ?thesis by blast
qed

lemma primary_sound:
  assumes inner: "\<And>st y st'. parseInner st = Inr (y, st') \<Longrightarrow> \<exists>e. parsedAs cf k 2 y st st' e \<and> Suc k = d"
    and "parsePrimary cf parseInner st = Inr (sql, st')"
  shows "\<exists>e. parsedAs cf d 0 sql st st' e"
proof (cases "peek st = Some LParen")
  case True
  then obtain ts where ts: "ps_tokens st = LParen # ts" by (auto simp: peek_def split: list.splits)
  obtain y st1 rest where y: "parseInner (st\<lparr>ps_tokens := ts\<rparr>) = Inr (y, st1)" "ps_tokens st1 = RParen # rest"
    and result: "sql = ''('' @ y @ '')''" "st' = st1\<lparr>ps_tokens := rest\<rparr>"
    using assms(2) True ts by (auto simp: parsePrimary_def takeToken_def bindE_Inr_iff split: if_splits list.splits)
  obtain e where "parsedAs cf k 2 y (st\<lparr>ps_tokens := ts\<rparr>) st1 e" "Suc k = d" using inner [OF y(1)] by blast
  then have "parsedAs cf d 0 sql st st' (Group e)" using ts y(2) result by (auto simp: parsedAs_def)
  then show ?thesis by blast
next
  case False
  then show ?thesis using assms(2) comparison_sound by (simp add: parsePrimary_def)
qed

lemma and_sound:
  assumes primary: "\<And>st y st'. parsePrimary cf parseInner st = Inr (y, st') \<Longrightarrow> \<exists>e. parsedAs cf d 0 y st st' e"
    and "parseAnd cf parseInner st = Inr (sql, st')"
  shows "\<exists>e. parsedAs cf d 1 sql st st' e"
proof -
  obtain x st1 where x: "parsePrimary cf parseInner st = Inr (x, st1)"
    and loop: "joinLoop AndToken ''AND'' (parsePrimary cf parseInner) (length (ps_tokens st1)) x st1 = Inr (sql, st')"
    using assms(2) by (auto simp: parseAnd_def bindE_Inr_iff)
  obtain e where "parsedAs cf d 0 x st st1 e" using primary [OF x] by blast
  then have "parsedAs cf d (Suc 0) x st st1 e" by (simp add: parsedAs_def)
  from both.joinLoop_sound [OF primary loop this] show ?thesis by simp
qed

lemma or_sound: "parseOr cf levels st = Inr (sql, st') \<Longrightarrow> \<exists>e k. parsedAs cf k 2 sql st st' e \<and> Suc k = levels"
proof (induction levels arbitrary: sql st st')
  case (Suc levels)
  have primary: "\<exists>e. parsedAs cf levels 0 y st st' e" if "parsePrimary cf (parseOr cf levels) st = Inr (y, st')" for y st st'
  proof (cases levels)
    case 0
    then show ?thesis using that primary_sound [of "parseOr cf levels" cf 0 levels] by fastforce
  next
    case (Suc l)
    then show ?thesis using that primary_sound [of "parseOr cf levels" cf l levels] Suc.IH by fastforce
  qed
  have conjunction: "\<exists>e. parsedAs cf levels 1 y st st' e" if "parseAnd cf (parseOr cf levels) st = Inr (y, st')" for y st st'
    using and_sound [OF primary that] .
  obtain x st1 where x: "parseAnd cf (parseOr cf levels) st = Inr (x, st1)"
    and loop: "joinLoop OrToken ''OR'' (parseAnd cf (parseOr cf levels)) (length (ps_tokens st1)) x st1 = Inr (sql, st')"
    using Suc.prems by (auto simp: bindE_Inr_iff)
  obtain e where "parsedAs cf levels 1 x st st1 e" using conjunction [OF x] by blast
  then have "parsedAs cf levels (Suc 1) x st st1 e" by (simp add: parsedAs_def)
  from either.joinLoop_sound [OF conjunction loop this] show ?case by (simp add: numeral_2_eq_2)
qed simp

section \<open>Completeness\<close>

definition at :: "Token list \<Rightarrow> nat \<Rightarrow> SqlParam list \<Rightarrow> ParserState" where
  "at ts n qs = \<lparr>ps_tokens = ts, ps_predicates = n, ps_params = qs\<rparr>"

lemma at_simps [simp]:
  "ps_tokens (at ts n qs) = ts" "ps_predicates (at ts n qs) = n" "ps_params (at ts n qs) = qs"
  "(at ts n qs)\<lparr>ps_tokens := us\<rparr> = at us n qs" "(at ts n qs)\<lparr>ps_predicates := m\<rparr> = at ts m qs"
  "(at ts n qs)\<lparr>ps_params := rs\<rparr> = at ts n rs"
  by (simp_all add: at_def)

lemma peek_at [simp]: "peek (at [] n qs) = None" "peek (at (t # ts) n qs) = Some t"
  by (simp_all add: peek_def)

lemma takeToken_at [simp]: "takeToken (at (t # ts) n qs) = Inr (t, at ts n qs)"
  by (simp add: takeToken_def)

text \<open>What each parser does on the tokens of an expression with parameters \<open>ps\<close> followed by \<open>rest\<close>.\<close>

definition primaryReads :: "(string \<Rightarrow> FilterError + Column) \<Rightarrow> FilterExpr \<Rightarrow> string \<Rightarrow> SqlParam list \<Rightarrow> bool" where
  "primaryReads cf e sql ps \<longleftrightarrow> (\<forall>levels rest n qs. groupDepth e \<le> levels \<longrightarrow> n + comparisons e \<le> MAX_PREDICATES \<longrightarrow>
    parsePrimary cf (parseOr cf levels) (at (tokensOf e @ rest) n qs) = Inr (sql, at rest (n + comparisons e) (qs @ ps)))"

definition andReads :: "(string \<Rightarrow> FilterError + Column) \<Rightarrow> FilterExpr \<Rightarrow> string \<Rightarrow> SqlParam list \<Rightarrow> bool" where
  "andReads cf e sql ps \<longleftrightarrow> (\<forall>levels rest n qs. groupDepth e \<le> levels \<longrightarrow> n + comparisons e \<le> MAX_PREDICATES \<longrightarrow>
    (\<exists>f\<ge>length rest. parseAnd cf (parseOr cf levels) (at (tokensOf e @ rest) n qs) =
      joinLoop AndToken ''AND'' (parsePrimary cf (parseOr cf levels)) f sql (at rest (n + comparisons e) (qs @ ps))))"

definition orReads :: "(string \<Rightarrow> FilterError + Column) \<Rightarrow> FilterExpr \<Rightarrow> string \<Rightarrow> SqlParam list \<Rightarrow> bool" where
  "orReads cf e sql ps \<longleftrightarrow> (\<forall>levels rest n qs. groupDepth e \<le> levels \<longrightarrow> n + comparisons e \<le> MAX_PREDICATES \<longrightarrow>
    peek (at rest 0 []) \<noteq> Some AndToken \<longrightarrow>
    (\<exists>f\<ge>length rest. parseOr cf (Suc levels) (at (tokensOf e @ rest) n qs) =
      joinLoop OrToken ''OR'' (parseAnd cf (parseOr cf levels)) f sql (at rest (n + comparisons e) (qs @ ps))))"

lemma peek_rest: "peek (at rest n qs) = peek (at rest 0 [])"
  by (simp add: peek_def)

lemma compare_reads:
  assumes "sqlOf cf (Compare name op literal) = Inr (sql, ps)"
  shows "primaryReads cf (Compare name op literal) sql ps"
  using assms by (auto simp: primaryReads_def parsePrimary_def parseComparison_def bindE_Inr_iff)

lemma primary_and:
  assumes "primaryReads cf e sql ps"
  shows "andReads cf e sql ps"
  using assms by (auto simp: andReads_def primaryReads_def parseAnd_def)

lemma and_or:
  assumes "andReads cf e sql ps"
  shows "orReads cf e sql ps"
  unfolding orReads_def
proof (intro allI impI)
  fix levels rest n qs
  assume bounds: "groupDepth e \<le> levels" "n + comparisons e \<le> MAX_PREDICATES" "peek (at rest 0 []) \<noteq> Some AndToken"
  obtain f where "parseAnd cf (parseOr cf levels) (at (tokensOf e @ rest) n qs) =
      joinLoop AndToken ''AND'' (parsePrimary cf (parseOr cf levels)) f sql (at rest (n + comparisons e) (qs @ ps))"
    using assms bounds unfolding andReads_def by blast
  also have "\<dots> = Inr (sql, at rest (n + comparisons e) (qs @ ps))"
    by (rule joinLoop_stops) (use bounds(3) peek_rest in metis)
  finally show "\<exists>f\<ge>length rest. parseOr cf (Suc levels) (at (tokensOf e @ rest) n qs) =
      joinLoop OrToken ''OR'' (parseAnd cf (parseOr cf levels)) f sql (at rest (n + comparisons e) (qs @ ps))"
    by auto
qed

lemma and_reads_stop:
  assumes "andReads cf e sql ps" "groupDepth e \<le> levels" "n + comparisons e \<le> MAX_PREDICATES" "peek (at rest 0 []) \<noteq> Some AndToken"
  shows "parseAnd cf (parseOr cf levels) (at (tokensOf e @ rest) n qs) = Inr (sql, at rest (n + comparisons e) (qs @ ps))"
proof -
  obtain f where "parseAnd cf (parseOr cf levels) (at (tokensOf e @ rest) n qs) =
      joinLoop AndToken ''AND'' (parsePrimary cf (parseOr cf levels)) f sql (at rest (n + comparisons e) (qs @ ps))"
    using assms(1-3) unfolding andReads_def by blast
  also have "\<dots> = Inr (sql, at rest (n + comparisons e) (qs @ ps))"
    by (rule joinLoop_stops) (use assms(4) peek_rest in metis)
  finally show ?thesis .
qed

lemma both_reads:
  assumes l: "andReads cf l x ps" and r: "primaryReads cf r y qs"
  shows "andReads cf (Both l r) (''('' @ x @ '' AND '' @ y @ '')'') (ps @ qs)"
  unfolding andReads_def
proof (intro allI impI)
  fix levels rest n rs
  assume bounds: "groupDepth (Both l r) \<le> levels" "n + comparisons (Both l r) \<le> MAX_PREDICATES"
  obtain f where f: "length (AndToken # tokensOf r @ rest) \<le> f"
    and loop: "parseAnd cf (parseOr cf levels) (at (tokensOf l @ AndToken # tokensOf r @ rest) n rs) =
      joinLoop AndToken ''AND'' (parsePrimary cf (parseOr cf levels)) f x (at (AndToken # tokensOf r @ rest) (n + comparisons l) (rs @ ps))"
    using l bounds unfolding andReads_def by (metis add_leE add.assoc comparisons.simps(2) groupDepth.simps(2) max.boundedE)
  obtain g where g: "f = Suc g" "length rest \<le> g" using f by (cases f) auto
  have "parsePrimary cf (parseOr cf levels) (at (tokensOf r @ rest) (n + comparisons l) (rs @ ps)) =
      Inr (y, at rest (n + comparisons l + comparisons r) ((rs @ ps) @ qs))"
    using r bounds unfolding primaryReads_def by simp
  then show "\<exists>f\<ge>length rest. parseAnd cf (parseOr cf levels) (at (tokensOf (Both l r) @ rest) n rs) =
      joinLoop AndToken ''AND'' (parsePrimary cf (parseOr cf levels)) f (''('' @ x @ '' AND '' @ y @ '')'')
        (at rest (n + comparisons (Both l r)) (rs @ ps @ qs))"
    using both.joinLoop_turn [where operand = "parsePrimary cf (parseOr cf levels)" and y = y and n = f and m = g and x = x
        and st = "at (AndToken # tokensOf r @ rest) (n + comparisons l) (rs @ ps)" and ts = "tokensOf r @ rest"] loop g by (intro exI [of _ g]) (simp add: add.assoc)
qed

lemma either_reads:
  assumes l: "orReads cf l x ps" and r: "andReads cf r y qs"
  shows "orReads cf (Either l r) (''('' @ x @ '' OR '' @ y @ '')'') (ps @ qs)"
  unfolding orReads_def
proof (intro allI impI)
  fix levels rest n rs
  assume bounds: "groupDepth (Either l r) \<le> levels" "n + comparisons (Either l r) \<le> MAX_PREDICATES" "peek (at rest 0 []) \<noteq> Some AndToken"
  have "peek (at (OrToken # tokensOf r @ rest) 0 []) \<noteq> Some AndToken" by simp
  then obtain f where f: "length (OrToken # tokensOf r @ rest) \<le> f"
    and loop: "parseOr cf (Suc levels) (at (tokensOf l @ OrToken # tokensOf r @ rest) n rs) =
      joinLoop OrToken ''OR'' (parseAnd cf (parseOr cf levels)) f x (at (OrToken # tokensOf r @ rest) (n + comparisons l) (rs @ ps))"
    using l bounds(1,2) unfolding orReads_def by (metis add_leE add.assoc comparisons.simps(3) groupDepth.simps(3) max.boundedE)
  obtain g where g: "f = Suc g" "length rest \<le> g" using f by (cases f) auto
  have "parseAnd cf (parseOr cf levels) (at (tokensOf r @ rest) (n + comparisons l) (rs @ ps)) =
      Inr (y, at rest (n + comparisons l + comparisons r) ((rs @ ps) @ qs))"
    by (rule and_reads_stop [OF r]) (use bounds in simp_all)
  then show "\<exists>f\<ge>length rest. parseOr cf (Suc levels) (at (tokensOf (Either l r) @ rest) n rs) =
      joinLoop OrToken ''OR'' (parseAnd cf (parseOr cf levels)) f (''('' @ x @ '' OR '' @ y @ '')'')
        (at rest (n + comparisons (Either l r)) (rs @ ps @ qs))"
    using either.joinLoop_turn [where operand = "parseAnd cf (parseOr cf levels)" and y = y and n = f and m = g and x = x
        and st = "at (OrToken # tokensOf r @ rest) (n + comparisons l) (rs @ ps)" and ts = "tokensOf r @ rest"] loop g by (intro exI [of _ g]) (simp add: add.assoc del: parseOr.simps)
qed

lemma group_reads:
  assumes "orReads cf e x ps"
  shows "primaryReads cf (Group e) (''('' @ x @ '')'') ps"
  unfolding primaryReads_def
proof (intro allI impI)
  fix levels rest n qs
  assume bounds: "groupDepth (Group e) \<le> levels" "n + comparisons (Group e) \<le> MAX_PREDICATES"
  then obtain l where l: "levels = Suc l" "groupDepth e \<le> l" by (cases levels) auto
  have "peek (at (RParen # rest) 0 []) \<noteq> Some AndToken" by simp
  then obtain f where "parseOr cf (Suc l) (at (tokensOf e @ RParen # rest) n qs) =
      joinLoop OrToken ''OR'' (parseAnd cf (parseOr cf l)) f x (at (RParen # rest) (n + comparisons e) (qs @ ps))"
    using assms l(2) bounds(2) unfolding orReads_def by (metis comparisons.simps(4))
  also have "\<dots> = Inr (x, at (RParen # rest) (n + comparisons e) (qs @ ps))" by (rule joinLoop_stops) simp
  finally show "parsePrimary cf (parseOr cf levels) (at (tokensOf (Group e) @ rest) n qs) =
      Inr (''('' @ x @ '')'', at rest (n + comparisons (Group e)) (qs @ ps))"
    by (simp add: parsePrimary_def l(1) del: parseOr.simps)
qed

lemma shaped_reads:
  "shaped e \<Longrightarrow> sqlOf cf e = Inr (sql, ps) \<Longrightarrow>
    (rank e = 0 \<longrightarrow> primaryReads cf e sql ps) \<and> (rank e \<le> 1 \<longrightarrow> andReads cf e sql ps) \<and> orReads cf e sql ps"
proof (induction e arbitrary: sql ps)
  case (Compare name op literal)
  then show ?case using compare_reads primary_and and_or by simp
next
  case (Both l r)
  then obtain x xs y ys where "sqlOf cf l = Inr (x, xs)" "sqlOf cf r = Inr (y, ys)" "(sql, ps) = (''('' @ x @ '' AND '' @ y @ '')'', xs @ ys)"
    by (auto simp: bindE_Inr_iff joinSql_def)
  then have "andReads cf (Both l r) sql ps" using Both both_reads by simp
  then show ?case using and_or by simp
next
  case (Either l r)
  then obtain x xs y ys where "sqlOf cf l = Inr (x, xs)" "sqlOf cf r = Inr (y, ys)" "(sql, ps) = (''('' @ x @ '' OR '' @ y @ '')'', xs @ ys)"
    by (auto simp: bindE_Inr_iff joinSql_def)
  then show ?case using Either either_reads by simp
next
  case (Group e)
  then obtain x where "sqlOf cf e = Inr (x, ps)" "sql = ''('' @ x @ '')''" by (auto simp: bindE_Inr_iff)
  then show ?case using Group group_reads primary_and and_or by simp
qed

end
