(* ===== verification/Filter_Properties.thy ===== *)
theory Filter_Properties
  imports Filter_Grammar
begin

text \<open>
  What the filter compiler guarantees: it accepts exactly the grammar within its limits and always returns; literals reach SQL only as
  bound parameters; and a filter that pins a record selects no other one.
\<close>

section \<open>Acceptance\<close>

lemma compileTokens_iff:
  "compileTokens cf ts = Inr c \<longleftrightarrow>
    (\<exists>e. shaped e \<and> tokensOf e = ts \<and> groupDepth e < MAX_DEPTH \<and> comparisons e \<le> MAX_PREDICATES \<and> sqlOf cf e = Inr (cf_sql c, cf_params c))"
proof
  assume "compileTokens cf ts = Inr c"
  then obtain st where parsed: "parseOr cf MAX_DEPTH \<lparr>ps_tokens = ts, ps_predicates = 0, ps_params = []\<rparr> = Inr (cf_sql c, st)"
    and st: "ps_tokens st = []" "cf_params c = ps_params st"
    by (auto simp: compileTokens_def bindE_Inr_iff split: if_splits)
  from or_sound [OF parsed] obtain e k
    where "parsedAs cf k 2 (cf_sql c) \<lparr>ps_tokens = ts, ps_predicates = 0, ps_params = []\<rparr> st e" "Suc k = MAX_DEPTH" by blast
  then show "\<exists>e. shaped e \<and> tokensOf e = ts \<and> groupDepth e < MAX_DEPTH \<and> comparisons e \<le> MAX_PREDICATES \<and> sqlOf cf e = Inr (cf_sql c, cf_params c)"
    using st by (intro exI [of _ e]) (auto simp: parsedAs_def)
next
  assume "\<exists>e. shaped e \<and> tokensOf e = ts \<and> groupDepth e < MAX_DEPTH \<and> comparisons e \<le> MAX_PREDICATES \<and> sqlOf cf e = Inr (cf_sql c, cf_params c)"
  then obtain e where e: "shaped e" "tokensOf e = ts" "groupDepth e \<le> 3" "comparisons e \<le> MAX_PREDICATES" "sqlOf cf e = Inr (cf_sql c, cf_params c)"
    by (auto simp: MAX_DEPTH_def)
  have depth: "MAX_DEPTH = Suc 3" by (simp add: MAX_DEPTH_def)
  have reads: "orReads cf e (cf_sql c) (cf_params c)" using shaped_reads [OF e(1,5)] by blast
  have "peek (at [] 0 []) \<noteq> Some AndToken" "0 + comparisons e \<le> MAX_PREDICATES" using e(4) by simp_all
  with reads obtain f where "parseOr cf MAX_DEPTH (at (tokensOf e @ []) 0 []) =
      joinLoop OrToken ''OR'' (parseAnd cf (parseOr cf 3)) f (cf_sql c) (at [] (0 + comparisons e) ([] @ cf_params c))"
    using e(3) unfolding orReads_def depth by metis
  also have "\<dots> = Inr (cf_sql c, at [] (0 + comparisons e) ([] @ cf_params c))" by (rule joinLoop_stops) simp
  finally show "compileTokens cf ts = Inr c" using e(2) by (simp add: compileTokens_def at_def)
qed

subsection \<open>The loop bound is never reached\<close>

definition consumes :: "(ParserState \<Rightarrow> parsed) \<Rightarrow> bool" where
  "consumes parser \<longleftrightarrow> (\<forall>st. parser st \<noteq> Inl LoopBound
    \<and> (\<forall>sql st'. parser st = Inr (sql, st') \<longrightarrow> length (ps_tokens st') \<le> length (ps_tokens st)))"

lemma joinLoop_consumes:
  assumes "consumes operand"
  shows "length (ps_tokens st) \<le> n \<Longrightarrow> joinLoop separator keyword operand n x st \<noteq> Inl LoopBound
    \<and> (\<forall>sql st'. joinLoop separator keyword operand n x st = Inr (sql, st') \<longrightarrow> length (ps_tokens st') \<le> length (ps_tokens st))"
proof (induction n arbitrary: x st)
  case 0
  then show ?case using joinLoop_stops [of st separator] by (auto simp: peek_def)
next
  case (Suc n)
  show ?case
  proof (cases "peek st = Some separator")
    case True
    then obtain ts where ts: "ps_tokens st = separator # ts" by (auto simp: peek_def split: list.splits)
    have loop: "joinLoop separator keyword operand (Suc n) x st = bindE (operand (st\<lparr>ps_tokens := ts\<rparr>))
        (\<lambda>(y, st). joinLoop separator keyword operand n (''('' @ x @ '' '' @ keyword @ '' '' @ y @ '')'') st)"
      using True ts by (subst joinLoop.simps) (simp add: takeToken_def)
    show ?thesis
    proof (cases "operand (st\<lparr>ps_tokens := ts\<rparr>)")
      case (Inl e)
      then show ?thesis using assms loop by (auto simp: consumes_def)
    next
      case (Inr r)
      obtain y st1 where r: "r = (y, st1)" by (cases r)
      then have "length (ps_tokens st1) \<le> length ts" using assms Inr unfolding consumes_def by fastforce
      moreover have step: "joinLoop separator keyword operand (Suc n) x st =
          joinLoop separator keyword operand n (''('' @ x @ '' '' @ keyword @ '' '' @ y @ '')'') st1" using loop Inr r by simp
      moreover have "length (ps_tokens st1) \<le> n" using calculation(1) Suc.prems ts by simp
      ultimately show ?thesis
        using Suc.IH [of st1 "''('' @ x @ '' '' @ keyword @ '' '' @ y @ '')''"] ts unfolding step by (simp, meson le_SucI le_trans)
    qed
  next
    case False
    then show ?thesis by (simp add: joinLoop_stops)
  qed
qed

lemma bind_consumes:
  assumes "consumes p" "\<And>x st. k x st \<noteq> Inl LoopBound \<and> (\<forall>sql st'. k x st = Inr (sql, st') \<longrightarrow> length (ps_tokens st') \<le> length (ps_tokens st))"
  shows "consumes (\<lambda>st. bindE (p st) (\<lambda>(x, st). k x st))"
  unfolding consumes_def
proof (intro allI conjI impI)
  fix st
  show "bindE (p st) (\<lambda>(x, st). k x st) \<noteq> Inl LoopBound" using assms by (cases "p st") (auto simp: consumes_def)
  fix sql st'
  assume "bindE (p st) (\<lambda>(x, st). k x st) = Inr (sql, st')"
  then obtain x st1 where "p st = Inr (x, st1)" "k x st1 = Inr (sql, st')" by (auto simp: bindE_Inr_iff)
  then show "length (ps_tokens st') \<le> length (ps_tokens st)" using assms le_trans unfolding consumes_def by blast
qed

lemma takeToken_consumes:
  "takeToken st \<noteq> Inl LoopBound" "takeToken st = Inr (t, st') \<Longrightarrow> length (ps_tokens st') \<le> length (ps_tokens st)"
  by (auto simp: takeToken_def split: list.splits)

lemma comparison_consumes:
  assumes "\<And>name. cf name \<noteq> Inl LoopBound"
  shows "consumes (parseComparison cf)"
  unfolding consumes_def
proof (intro allI conjI impI)
  fix st
  have sql: "comparisonSql column name op literal \<noteq> Inl LoopBound" for column name op literal
    by (cases literal) (auto simp: comparisonSql_def sqlOperator_def Let_def)
  show "parseComparison cf st \<noteq> Inl LoopBound"
    using assms sql takeToken_consumes(1) by (auto simp: parseComparison_def Let_def bindE_Inl_iff split: if_splits Token.splits)
  fix x st'
  assume "parseComparison cf st = Inr (x, st')"
  then show "length (ps_tokens st') \<le> length (ps_tokens st)" using comparison_sound [of cf st x st' 0] by (auto simp: parsedAs_def)
qed

lemma primary_consumes:
  assumes "\<And>name. cf name \<noteq> Inl LoopBound" "consumes parseInner"
  shows "consumes (parsePrimary cf parseInner)"
  unfolding consumes_def
proof (intro allI)
  fix st
  show "parsePrimary cf parseInner st \<noteq> Inl LoopBound
    \<and> (\<forall>sql st'. parsePrimary cf parseInner st = Inr (sql, st') \<longrightarrow> length (ps_tokens st') \<le> length (ps_tokens st))"
  proof (cases "peek st = Some LParen")
    case True
    then obtain ts where ts: "ps_tokens st = LParen # ts" by (auto simp: peek_def split: list.splits)
    show ?thesis
    proof (cases "parseInner (st\<lparr>ps_tokens := ts\<rparr>)")
      case (Inl e)
      then show ?thesis using assms(2) True ts by (auto simp: parsePrimary_def takeToken_def consumes_def)
    next
      case (Inr r)
      obtain y st1 where r: "r = (y, st1)" by (cases r)
      then have "length (ps_tokens st1) \<le> length ts" using assms(2) Inr unfolding consumes_def by fastforce
      then show ?thesis using True ts Inr r by (auto simp: parsePrimary_def takeToken_def split: list.splits)
    qed
  next
    case False
    then show ?thesis using comparison_consumes [OF assms(1)] by (simp add: parsePrimary_def consumes_def)
  qed
qed

lemma and_consumes:
  assumes "\<And>name. cf name \<noteq> Inl LoopBound" "consumes parseInner"
  shows "consumes (parseAnd cf parseInner)"
  unfolding parseAnd_def [abs_def]
  by (intro bind_consumes joinLoop_consumes primary_consumes assms order_refl)

lemma or_consumes:
  assumes "\<And>name. cf name \<noteq> Inl LoopBound"
  shows "consumes (parseOr cf levels)"
proof (induction levels)
  case 0
  then show ?case by (simp add: consumes_def)
next
  case (Suc levels)
  have "consumes (\<lambda>st. parseOr cf (Suc levels) st)" unfolding parseOr.simps
    by (intro bind_consumes joinLoop_consumes and_consumes assms Suc order_refl)
  then show ?case by simp
qed

section \<open>Literals are only parameters\<close>

text \<open>Any other content of the string and number literals: on tokens, on parameters and on parser states.\<close>

fun onLiteral :: "(codeUnits \<Rightarrow> codeUnits) \<Rightarrow> (Decimal \<Rightarrow> Decimal) \<Rightarrow> Token \<Rightarrow> Token" where
  "onLiteral f g (StringToken s) = StringToken (f s)"
| "onLiteral f g (NumberToken d) = NumberToken (g d)"
| "onLiteral f g t = t"

fun onParam :: "(codeUnits \<Rightarrow> codeUnits) \<Rightarrow> (Decimal \<Rightarrow> Decimal) \<Rightarrow> SqlParam \<Rightarrow> SqlParam" where
  "onParam f g (SqlText s) = SqlText (f s)"
| "onParam f g (SqlReal d) = SqlReal (g d)"
| "onParam f g p = p"

fun onExpr :: "(codeUnits \<Rightarrow> codeUnits) \<Rightarrow> (Decimal \<Rightarrow> Decimal) \<Rightarrow> FilterExpr \<Rightarrow> FilterExpr" where
  "onExpr f g (Compare ident op literal) = Compare ident op (onLiteral f g literal)"
| "onExpr f g (Both l r) = Both (onExpr f g l) (onExpr f g r)"
| "onExpr f g (Either l r) = Either (onExpr f g l) (onExpr f g r)"
| "onExpr f g (Group e) = Group (onExpr f g e)"

lemma onExpr_shape [simp]:
  "rank (onExpr f g e) = rank e" "shaped (onExpr f g e) = shaped e" "groupDepth (onExpr f g e) = groupDepth e"
  "comparisons (onExpr f g e) = comparisons e" "tokensOf (onExpr f g e) = map (onLiteral f g) (tokensOf e)"
proof -
  show rank: "rank (onExpr f g e) = rank e" for e by (cases e) simp_all
  show "shaped (onExpr f g e) = shaped e" by (induction e) (simp_all add: rank)
qed (induction e; simp)+

lemma comparisonSql_literal:
  "comparisonSql column ident op literal = Inr (sql, ps) \<Longrightarrow>
    comparisonSql column ident op (onLiteral f g literal) = Inr (sql, map (onParam f g) ps)"
  by (cases literal) (auto simp: comparisonSql_def Let_def bindE_Inr_iff split: if_splits)

lemma sqlOf_literal: "sqlOf cf e = Inr (sql, ps) \<Longrightarrow> sqlOf cf (onExpr f g e) = Inr (sql, map (onParam f g) ps)"
proof (induction e arbitrary: sql ps)
  case (Compare ident op literal)
  then show ?case by (auto simp: bindE_Inr_iff comparisonSql_literal)
next
  case (Both l r)
  then obtain a b where "sqlOf cf l = Inr a" "sqlOf cf r = Inr b" "(sql, ps) = joinSql ''AND'' a b" by (auto simp: bindE_Inr_iff)
  then show ?case using Both.IH(1) [of "fst a" "snd a"] Both.IH(2) [of "fst b" "snd b"] by (auto simp: joinSql_def split: prod.splits)
next
  case (Either l r)
  then obtain a b where "sqlOf cf l = Inr a" "sqlOf cf r = Inr b" "(sql, ps) = joinSql ''OR'' a b" by (auto simp: bindE_Inr_iff)
  then show ?case using Either.IH(1) [of "fst a" "snd a"] Either.IH(2) [of "fst b" "snd b"] by (auto simp: joinSql_def split: prod.splits)
next
  case (Group e)
  then show ?case by (auto simp: bindE_Inr_iff)
qed

text \<open>The placeholders of an SQL text.\<close>

definition placeholders :: "string \<Rightarrow> nat" where
  "placeholders sql = length (filter (\<lambda>c. c = CHR ''?'') sql)"

lemma placeholders_simps [simp]:
  "placeholders [] = 0" "placeholders (a @ b) = placeholders a + placeholders b"
  "placeholders (c # cs) = (if c = CHR ''?'' then 1 else 0) + placeholders cs"
  by (simp_all add: placeholders_def)

lemma sqlOperator_placeholders: "sqlOperator op = Inr operator \<Longrightarrow> placeholders operator = 0"
  by (auto simp: sqlOperator_def split: if_splits)

lemma sqlOf_placeholders:
  assumes "\<And>name column. cf name = Inr column \<Longrightarrow> placeholders (co_sql column) = 0"
  shows "sqlOf cf e = Inr (sql, ps) \<Longrightarrow> placeholders sql = length ps"
proof (induction e arbitrary: sql ps)
  case (Compare ident op literal)
  then obtain column where "cf ident = Inr column" "comparisonSql column ident op literal = Inr (sql, ps)" by (auto simp: bindE_Inr_iff)
  moreover have "placeholders (co_sql column) = 0" using assms calculation(1) .
  ultimately show ?case
    by (cases literal) (auto simp: comparisonSql_def Let_def bindE_Inr_iff sqlOperator_placeholders split: if_splits)
next
  case (Both l r)
  then show ?case by (auto simp: bindE_Inr_iff joinSql_def)
next
  case (Either l r)
  then show ?case by (auto simp: bindE_Inr_iff joinSql_def)
next
  case (Group e)
  then show ?case by (auto simp: bindE_Inr_iff)
qed

lemma columnFor_placeholders:
  assumes "\<And>k. k \<in> set known \<Longrightarrow> CHR ''?'' \<notin> set (lf_id k)" "columnFor known name = Inr column"
  shows "placeholders (co_sql column) = 0"
proof -
  have quoted: "placeholders (quoteIdent s) = 0" if "CHR ''?'' \<notin> set s" for s
    using that by (auto simp: quoteIdent_def placeholders_def filter_empty_conv)
  show ?thesis
  proof (cases "name \<in> {''id'', ''created'', ''updated'', ''revision''}")
    case True
    then have "co_sql column = quoteIdent name" "CHR ''?'' \<notin> set name" using assms(2) by (auto simp: columnFor_def)
    then show ?thesis using quoted by simp
  next
    case False
    then obtain k where "List.find (\<lambda>f. lf_name f = name) known = Some k" "co_sql column = quoteIdent (fieldColumnName (lf_id k))"
      using assms(2) by (auto simp: columnFor_def split: option.splits)
    then have "CHR ''?'' \<notin> set (fieldColumnName (lf_id k))" "co_sql column = quoteIdent (fieldColumnName (lf_id k))"
      using assms(1) by (auto simp: find_Some_iff fieldColumnName_def)
    then show ?thesis using quoted by simp
  qed
qed

lemma columnFor_bound: "columnFor known name \<noteq> Inl LoopBound"
  by (auto simp: columnFor_def split: option.splits)

section \<open>The pinned record\<close>

text \<open>
  The rows a filter selects: \<open>compare_values\<close> is SQLite's comparison of a stored value with a bound one. A comparison with a null is not true
  except by the two null tests, and \<^verbatim>\<open>AND\<close>, \<^verbatim>\<open>OR\<close> are true when both or one of their operands are.
\<close>

fun literalParam :: "Token \<Rightarrow> SqlParam" where
  "literalParam (StringToken s) = SqlText s"
| "literalParam (NumberToken d) = SqlReal d"
| "literalParam (BooleanToken b) = SqlInteger (if b then 1 else 0)"
| "literalParam _ = SqlNull"

fun selects :: "(string \<Rightarrow> SqlParam \<Rightarrow> SqlParam \<Rightarrow> bool) \<Rightarrow> (string \<Rightarrow> SqlParam) \<Rightarrow> FilterExpr \<Rightarrow> bool" where
  "selects compare_values row (Compare ident op literal) =
    (if literal = NullToken then (if op = ''='' then row ident = SqlNull else row ident \<noteq> SqlNull)
     else row ident \<noteq> SqlNull \<and> literalParam literal \<noteq> SqlNull \<and> compare_values op (row ident) (literalParam literal))"
| "selects compare_values row (Both l r) = (selects compare_values row l \<and> selects compare_values row r)"
| "selects compare_values row (Either l r) = (selects compare_values row l \<or> selects compare_values row r)"
| "selects compare_values row (Group e) = selects compare_values row e"

lemma splitAnd_nonempty: "splitAnd ts \<noteq> []"
  by (induction ts) (auto split: list.splits)

lemma splitAnd_append: "splitAnd (xs @ AndToken # ys) = splitAnd xs @ splitAnd ys"
  by (induction xs) (auto split: list.splits simp: splitAnd_nonempty)

lemma split_pins:
  assumes "[Ident ''id'', Op ''='', StringToken recordId] \<in> set (splitAnd (tokensOf e))"
    and "\<forall>t\<in>set (tokensOf e). t \<noteq> OrToken \<and> t \<noteq> LParen \<and> t \<noteq> RParen" "selects compare_values row e"
  shows "compare_values ''='' (row ''id'') (SqlText recordId)"
  using assms
proof (induction e)
  case (Compare ident op literal)
  then show ?case by (auto split: if_splits)
next
  case (Both l r)
  have "[Ident ''id'', Op ''='', StringToken recordId] \<in> set (splitAnd (tokensOf l)) \<union> set (splitAnd (tokensOf r))"
    using Both.prems(1) by (simp add: splitAnd_append)
  then show ?case using Both.IH Both.prems(2,3) by auto
next
  case (Either l r)
  have "OrToken \<in> set (tokensOf (Either l r))" by simp
  then show ?case using Either.prems(2) by blast
next
  case (Group e)
  have "LParen \<in> set (tokensOf (Group e))" by simp
  then show ?case using Group.prems(2) by blast
qed

section \<open>Properties\<close>

text \<open>The documented grammar: the literal of a comparison is a JSON string, a number, a boolean or null.\<close>

fun literalToken :: "Token \<Rightarrow> bool" where
  "literalToken (StringToken _) = True"
| "literalToken (NumberToken _) = True"
| "literalToken (BooleanToken _) = True"
| "literalToken NullToken = True"
| "literalToken _ = False"

fun documented :: "FilterExpr \<Rightarrow> bool" where
  "documented (Compare _ _ literal) = literalToken literal"
| "documented (Both l r) = (documented l \<and> documented r)"
| "documented (Either l r) = (documented l \<and> documented r)"
| "documented (Group e) = documented e"

text \<open>After an operator comes a literal or a name, and how deep parentheses nest.\<close>

fun operandsPlaced :: "Token list \<Rightarrow> bool" where
  "operandsPlaced (Op op # t # ts) = ((literalToken t \<or> (case t of Ident _ \<Rightarrow> True | _ \<Rightarrow> False)) \<and> operandsPlaced (t # ts))"
| "operandsPlaced (t # ts) = operandsPlaced ts"
| "operandsPlaced [] = True"

fun nesting :: "nat \<Rightarrow> Token list \<Rightarrow> nat" where
  "nesting d [] = d"
| "nesting d (t # ts) = (if t = LParen then nesting (d + 1) ts else if t = RParen then max d (nesting (d - 1) ts) else nesting d ts)"

lemma operandsPlaced_append: "operandsPlaced (xs @ ys) \<Longrightarrow> operandsPlaced xs \<and> operandsPlaced ys"
proof (induction xs rule: operandsPlaced.induct)
  case (1 op t ts)
  then show ?case by auto
qed (auto elim: operandsPlaced.elims)

lemma placed_documented: "operandsPlaced (tokensOf e) \<Longrightarrow> sqlOf cf e = Inr x \<Longrightarrow> documented e"
proof (induction e arbitrary: x)
  case (Compare name op literal)
  then show ?case by (cases literal) (auto simp: bindE_Inr_iff comparisonSql_def)
next
  case (Both l r)
  then show ?case using operandsPlaced_append [of "tokensOf l" "AndToken # tokensOf r"] by (auto simp: bindE_Inr_iff)
next
  case (Either l r)
  then show ?case using operandsPlaced_append [of "tokensOf l" "OrToken # tokensOf r"] by (auto simp: bindE_Inr_iff)
next
  case (Group e)
  then show ?case using operandsPlaced_append [of "tokensOf e" "[RParen]"] by (auto simp: bindE_Inr_iff)
qed

lemma nesting_ge: "d \<le> nesting d ts"
  by (induction d ts rule: nesting.induct) auto

lemma nesting_tokens: "documented e \<Longrightarrow> nesting d (tokensOf e @ rest) = max (d + groupDepth e) (nesting d rest)"
proof (induction e arbitrary: d rest)
  case (Compare name op literal)
  then show ?case using nesting_ge [of d rest] by (cases literal) simp_all
next
  case (Group e)
  then show ?case using nesting_ge [of d rest] by simp
qed simp_all

text \<open>C20: The filter compiler accepts exactly the documented grammar. On tokens in which every operator is followed by a literal or a name
  and parentheses nest less than four deep, a token list compiles if and only if it is the token list of an expression whose literals are
  strings, numbers, booleans or null, in which \<open>&&\<close> binds tighter than \<open>||\<close>, both associate to the left and only parentheses
  regroup, with at most 32 comparisons, each admitted; the SQL and the parameters are then those of that expression. On
  every other such input the compiler returns an error, and its loops never run past the tokens.\<close>

theorem filter_grammar_exact:
  assumes "operandsPlaced ts" "nesting 0 ts < MAX_DEPTH"
  shows "(compileTokens (columnFor known) ts = Inr c \<longleftrightarrow>
    (\<exists>e. shaped e \<and> documented e \<and> tokensOf e = ts \<and> comparisons e \<le> MAX_PREDICATES
      \<and> sqlOf (columnFor known) e = Inr (cf_sql c, cf_params c)))
    \<and> compileTokens (columnFor known) ts \<noteq> Inl LoopBound"
proof -
  have "parseOr (columnFor known) MAX_DEPTH st \<noteq> Inl LoopBound" for st
    using or_consumes [of "columnFor known" MAX_DEPTH] columnFor_bound unfolding consumes_def by blast
  then have "compileTokens (columnFor known) ts \<noteq> Inl LoopBound" by (auto simp: compileTokens_def bindE_Inl_iff split: if_splits)
  moreover have "groupDepth e < MAX_DEPTH" if "documented e" "tokensOf e = ts" for e
    using nesting_tokens [OF that(1), of 0 "[]"] that(2) assms(2) by simp
  ultimately show ?thesis unfolding compileTokens_iff using placed_documented assms(1) by blast
qed

text \<open>C19: No literal reaches the SQL text. Whatever other content the string and number literals of an accepted filter are given, it compiles to
  the same SQL with the changed parameters; and when no field identifier holds a question mark, the placeholders of the SQL are as many as the parameters.\<close>

theorem filter_injection_safe:
  assumes "compileTokens (columnFor known) ts = Inr c" "\<forall>k\<in>set known. CHR ''?'' \<notin> set (lf_id k)"
  shows "compileTokens (columnFor known) (map (onLiteral f g) ts) = Inr (c\<lparr>cf_params := map (onParam f g) (cf_params c)\<rparr>)
    \<and> placeholders (cf_sql c) = length (cf_params c)"
proof -
  obtain e where e: "shaped e" "tokensOf e = ts" "groupDepth e < MAX_DEPTH" "comparisons e \<le> MAX_PREDICATES"
      "sqlOf (columnFor known) e = Inr (cf_sql c, cf_params c)"
    using assms(1) unfolding compileTokens_iff by blast
  have "compileTokens (columnFor known) (map (onLiteral f g) ts) = Inr (c\<lparr>cf_params := map (onParam f g) (cf_params c)\<rparr>)"
    unfolding compileTokens_iff by (rule exI [of _ "onExpr f g e"]) (simp add: e sqlOf_literal [OF e(5)])
  moreover have "placeholders (cf_sql c) = length (cf_params c)"
    using sqlOf_placeholders [OF _ e(5)] columnFor_placeholders assms(2) by blast
  ultimately show ?thesis by blast
qed

text \<open>A filter that \<^verbatim>\<open>filterConstrainsRecordId\<close> accepts pins the record: when it compiles, it compiles as an expression of which every
  selected row has exactly the given identifier, provided the database compares a stored value as equal to a bound text only when they are the same text.\<close>

theorem filter_pins_record:
  assumes "compileRecordFilter (Some source) (columnFor known) = Inr (Some c)" "filterConstrainsRecordId source recordId = Inr True"
    and "\<forall>v s. compare_values ''='' v (SqlText s) \<longrightarrow> v = SqlText s"
  shows "\<exists>e. tokenize source = Inr (tokensOf e) \<and> sqlOf (columnFor known) e = Inr (cf_sql c, cf_params c)
    \<and> (\<forall>row. selects compare_values row e \<longrightarrow> row ''id'' = SqlText recordId)"
proof -
  have some: "map_sum id Some r = Inr (Some c) \<longleftrightarrow> r = Inr c" for r :: "FilterError + CompiledFilter" by (cases r) simp_all
  obtain ts where ts: "tokenize source = Inr ts" "compileTokens (columnFor known) ts = Inr c"
    using assms(1) by (auto simp: compileRecordFilter_def bindE_Inr_iff some split: if_splits)
  then obtain e where e: "tokensOf e = ts" "sqlOf (columnFor known) e = Inr (cf_sql c, cf_params c)"
    unfolding compileTokens_iff by blast
  have "constrainsTokens ts recordId" using assms(2) ts(1) by (simp add: filterConstrainsRecordId_def)
  then have pins: "[Ident ''id'', Op ''='', StringToken recordId] \<in> set (splitAnd (tokensOf e))"
    "\<forall>t\<in>set (tokensOf e). t \<noteq> OrToken \<and> t \<noteq> LParen \<and> t \<noteq> RParen"
    unfolding constrainsTokens_def e(1) by (auto split: if_splits)
  have "row ''id'' = SqlText recordId" if "selects compare_values row e" for row
    using split_pins [OF pins that] assms(3) by blast
  then show ?thesis using e ts by blast
qed

text \<open>The position of a literal takes any token that is neither a name nor null: a stray parenthesis or operator there compiles as a
  comparison with a null parameter, which selects nothing, instead of being refused.\<close>

lemma filter_malformed_literal:
  "map_sum id (map_option cf_params) (compileRecordFilter (Some (units ''id = )'')) (columnFor known)) = Inr (Some [SqlNull])"
  by code_simp

text \<open>Four nested groups are refused, since the ungrouped expression counts as the first level.\<close>

lemma filter_four_groups: "compileRecordFilter (Some (units ''((((id = null))))'')) (columnFor known)
    = Inl (ValidationFailed ''Filter grouping exceeds depth four.'')"
  by code_simp

end
