(* ===== verification/Filter_Samples.thy ===== *)
theory Filter_Samples
  imports Filter_Properties
begin

text \<open>A collection with one number field, and two filters at which the properties of the compiler are applied.\<close>

definition sampleFields :: "LightAppField list" where
  "sampleFields = [\<lparr>lf_id = ''fld_0a-1b'', lf_name = ''score'', lf_type = ''number''\<rparr>]"

definition sampleFilter :: codeUnits where
  "sampleFilter = units ''id = \"rec-1\" && score >= -2.5e1''"

definition sampleTokens :: "Token list" where
  "sampleTokens = [Ident ''id'', Op ''='', StringToken (units ''rec-1''), AndToken, Ident ''score'', Op ''>='',
    NumberToken \<lparr>dc_negative = True, dc_digits = 25, dc_exponent = 0\<rparr>]"

definition sampleCompiled :: CompiledFilter where
  "sampleCompiled = \<lparr>cf_sql = ''(\"id\" = ? AND (\"f_fld_0a1b\" IS NOT NULL AND \"f_fld_0a1b\" >= ?))'',
    cf_params = [SqlText (units ''rec-1''), SqlReal \<lparr>dc_negative = True, dc_digits = 25, dc_exponent = 0\<rparr>]\<rparr>"

lemma sample_tokenized: "tokenize sampleFilter = Inr sampleTokens"
  by code_simp

lemma sample_compiled: "compileTokens (columnFor sampleFields) sampleTokens = Inr sampleCompiled"
  by code_simp

lemma sample_filter: "compileRecordFilter (Some sampleFilter) (columnFor sampleFields) = Inr (Some sampleCompiled)"
proof -
  have "list_all jsSpace sampleFilter = False" "(FILTER_BYTE_LIMIT < byteLength sampleFilter) = False" by code_simp+
  then show ?thesis by (simp add: compileRecordFilter_def sample_tokenized sample_compiled)
qed

lemma sample_constrains: "filterConstrainsRecordId sampleFilter (units ''rec-1'') = Inr True"
  by code_simp

theorem filter_injection_safe_witness:
  "compileTokens (columnFor sampleFields) (map (onLiteral (\<lambda>_. units ''\" OR 1=1 --'') (\<lambda>d. d)) sampleTokens) =
      Inr (sampleCompiled\<lparr>cf_params := map (onParam (\<lambda>_. units ''\" OR 1=1 --'') (\<lambda>d. d)) (cf_params sampleCompiled)\<rparr>)
    \<and> placeholders (cf_sql sampleCompiled) = 2"
  using filter_injection_safe [OF sample_compiled, of "\<lambda>_. units ''\" OR 1=1 --''" "\<lambda>d. d"]
  by (simp add: sampleFields_def) (simp add: sampleCompiled_def)

theorem filter_pins_record_witness:
  "\<exists>e. tokenize sampleFilter = Inr (tokensOf e)
    \<and> {row. selects (\<lambda>_ v p. v = p) row e} \<subseteq> {row. row ''id'' = SqlText (units ''rec-1'')}"
  using filter_pins_record [OF sample_filter sample_constrains, of "\<lambda>_ v p. v = p"] by auto

theorem filter_grammar_exact_witness:
  "\<exists>e. documented e \<and> tokensOf e = sampleTokens \<and> sqlOf (columnFor sampleFields) e = Inr (cf_sql sampleCompiled, cf_params sampleCompiled)"
proof -
  have "operandsPlaced sampleTokens" "nesting 0 sampleTokens < MAX_DEPTH" by code_simp+
  from filter_grammar_exact [OF this] sample_compiled show ?thesis by blast
qed

end
