(* ===== verification/Pending_Requests.thy ===== *)
theory Pending_Requests
  imports Derived_Entity_Id Permission_Decisions "HOL-Library.Product_Lexorder"
begin

text \<open>
  The pending request ledger of a Workspace (\<^verbatim>\<open>apps/nanocore/src/runtime/pending-requests.ts\<close>): approvals and questions
  that wait for a human, the claim and disposition of an approved execution and the delivery of the outcome to a later
  Turn.

  A table is the list of its rows in insertion order. The check constraints of the migrations close the text columns, so
  they are datatypes here and \<^verbatim>\<open>closedValue\<close> cannot refuse; the two columns of an actor, always written together, are one
  optional actor; a JSON column holds the value its text denotes, except \<^verbatim>\<open>canonical_arguments_json\<close>, whose bytes are
  hashed. A row of another retained format, or with a JSON column of another shape, stays unreadable as in the source.
  A transaction that throws leaves the table as it was: the operations return an error or the new table.
\<close>

section \<open>Records\<close>

datatype PendingRequesterKind = WorkerRequester | AssistantRequester | CoordinatorRequester | PersonRequester

datatype PendingRequestKind = ApprovalKind | UserInputKind

datatype PendingRequestState = PendingState | ResolvedState | EndedState

datatype PendingRequestResolution = Granted | Denied | Answered

datatype PendingRequestEnding = Withdrawn | Invalidated

datatype PendingRequestClaim = Unclaimed | Claimed | Finished

datatype PendingRequestDisposition = ApprovedExecuted | DeniedNotExecuted | ExecutionError | OutcomeUnknown

datatype PendingRequestDelivery = Undelivered | Frozen | Delivered | DeliveryUnknown | ClosedOut

datatype PendingDeliveryCause = OutcomeCause | CarriedCause

datatype ApprovalProjectionKind = PermissionApproval | DestructiveActionApproval

datatype PendingRequestActor = PendingUser string | PendingSystem string

datatype AssistantHandoff =
    TaskHandoff string string "string option" "string option"
  | GoalHandoff string string

fun AssistantHandoffSchema :: "AssistantHandoff \<Rightarrow> bool" where
  "AssistantHandoffSchema (TaskHandoff ws input agentId modelId) =
    (isEntityId ''ws'' ws \<and> input \<noteq> [] \<and> length input \<le> 65536 \<and> nullable textSchema agentId \<and> nullable textSchema modelId)"
| "AssistantHandoffSchema (GoalHandoff ws intent) = (isEntityId ''ws'' ws \<and> intent \<noteq> [] \<and> length intent \<le> 65536)"

record PendingRequestRecord =
  pq_requestId :: string
  pq_workspaceId :: string
  pq_threadId :: string
  pq_raisingTurnId :: string
  pq_requestItemId :: string
  pq_kind :: PendingRequestKind
  pq_requesterKind :: PendingRequesterKind
  pq_agentId :: "string option"
  pq_agentSessionId :: "string option"
  pq_responsibleUserId :: string
  pq_state :: PendingRequestState
  pq_resolution :: "PendingRequestResolution option"
  pq_decidingActor :: "PendingRequestActor option"
  pq_decidingActorContext :: "JsValue option"
  pq_decidedAt :: "string option"
  pq_answerMap :: "JsValue option"
  pq_ending :: "PendingRequestEnding option"
  pq_invalidatingEvent :: "string option"
  pq_endingActor :: "PendingRequestActor option"
  pq_endedAt :: "string option"
  pq_serverId :: "string option"
  pq_catalogRevision :: "string option"
  pq_schemaSnapshotId :: "string option"
  pq_toolName :: "string option"
  pq_canonicalArgumentsJson :: "string option"
  pq_argumentsDigest :: "string option"
  pq_packageDigest :: "string option"
  pq_policyDecisionId :: "string option"
  pq_authorizationContext :: "JsValue option"
  pq_governedIntent :: "JsValue option"
  pq_questions :: "JsValue option"
  pq_assistantHandoff :: "AssistantHandoff option"
  pq_approvalKind :: "ApprovalProjectionKind option"
  pq_title :: "string option"
  pq_description :: "string option"
  pq_claim :: PendingRequestClaim
  pq_executionCallId :: "string option"
  pq_disposition :: "PendingRequestDisposition option"
  pq_dispositionReason :: "string option"
  pq_heldResult :: "JsValue option"
  pq_publicationTurnId :: "string option"
  pq_invalidationTurnId :: "string option"
  pq_delivery :: PendingRequestDelivery
  pq_deliveryTurnId :: "string option"
  pq_deliveryCause :: "PendingDeliveryCause option"
  pq_createdAt :: string
  pq_updatedAt :: string

record PendingRequestRow =
  pr_schemaVersion :: int
  pr_record :: PendingRequestRecord

type_synonym PendingTable = "PendingRequestRow list"

record PendingAuthorizationContext =
  ac_threadId :: string
  ac_turnId :: string
  ac_agentSessionId :: "string option"
  ac_agentId :: "string option"
  ac_responsibleUserId :: string
  ac_packageDigest :: "string option"
  ac_policyDecisionId :: "string option"

record PendingCall =
  pl_serverId :: string
  pl_catalogRevision :: string
  pl_schemaSnapshotId :: string
  pl_toolName :: string
  pl_canonicalArgumentsJson :: string
  pl_argumentsDigest :: string
  pl_packageDigest :: "string option"
  pl_policyDecisionId :: "string option"
  pl_authorizationContext :: PendingAuthorizationContext

record PendingApproval =
  pv_kind :: ApprovalProjectionKind
  pv_title :: string
  pv_description :: string

record RaisePendingRequestInput =
  ri_requestId :: string
  ri_workspaceId :: string
  ri_threadId :: string
  ri_raisingTurnId :: string
  ri_requestItemId :: string
  ri_kind :: PendingRequestKind
  ri_requesterKind :: PendingRequesterKind
  ri_agentId :: "string option"
  ri_agentSessionId :: "string option"
  ri_responsibleUserId :: string
  ri_call :: "PendingCall option"
  ri_governedIntent :: "JsValue option"
  ri_assistantHandoff :: "AssistantHandoff option"
  ri_questions :: "JsValue list option"
  ri_questionDigest :: "string option"
  ri_approval :: "PendingApproval option"
  ri_now :: string

datatype GrantEvaluation =
    ClaimOutcome
  | RefuseOutcome string
  | EndOutcome string PendingRequestActor

datatype GrantApplied = AppliedClaimed | AppliedRefused | AppliedEnded | AppliedLost

text \<open>The code outside the repository's sources and the JSON reader: SHA-256 in hexadecimal and \<^verbatim>\<open>JSON.parse\<close>.\<close>

record PendingPlatform =
  pt_sha256Hex :: "string \<Rightarrow> string"
  pt_parseJson :: "string \<Rightarrow> JsValue option"

definition PENDING_REQUEST_BOUND :: nat where
  "PENDING_REQUEST_BOUND = 16"

definition OUTCOME_DELIVERY_BOUND :: nat where
  "OUTCOME_DELIVERY_BOUND = 16"

definition isCommandIntentApproval :: "PendingRequestRecord \<Rightarrow> bool" where
  "isCommandIntentApproval r \<longleftrightarrow> pq_kind r = ApprovalKind \<and> pq_serverId r = None \<and> pq_governedIntent r \<noteq> None"

definition executionCallIdForRequest :: "string \<Rightarrow> string result" where
  "executionCallIdForRequest requestId = deriveEntityId ''cap'' (JArr [JStr ''pending'', JStr requestId])"

definition pendingRequestItemId :: "string \<Rightarrow> string \<Rightarrow> string result" where
  "pendingRequestItemId requestId role = deriveEntityId ''it'' (JArr [JStr requestId, JStr role])"

section \<open>Reading\<close>

text \<open>
  \<^verbatim>\<open>String(v)\<close> of a JSON value is one of some texts without commas: a string, or an array around such a value.
\<close>

fun stringAmong :: "string list \<Rightarrow> JsValue \<Rightarrow> bool" where
  "stringAmong texts (JStr s) = (s \<in> set texts)"
| "stringAmong texts (JArr [v]) = stringAmong texts v"
| "stringAmong texts _ = False"

definition memberOf :: "JsValue \<Rightarrow> string \<Rightarrow> JsValue" where
  "memberOf v field = (case v of JObj members \<Rightarrow> (case map_of members field of Some w \<Rightarrow> w | None \<Rightarrow> JUndefined) | _ \<Rightarrow> JUndefined)"

fun isText :: "JsValue \<Rightarrow> bool" where
  "isText (JStr s) = True"
| "isText _ = False"

fun isObject :: "JsValue \<Rightarrow> bool" where
  "isObject (JObj members) = True"
| "isObject _ = False"

fun isArray :: "JsValue \<Rightarrow> bool" where
  "isArray (JArr vs) = True"
| "isArray _ = False"

definition parseObject :: "JsValue option \<Rightarrow> JsValue option result" where
  "parseObject v = (if pred_option isObject v then Inr v else Inl ''The pending request object is not readable.'')"

definition parseAnswerMap :: "JsValue option \<Rightarrow> JsValue option result" where
  "parseAnswerMap v = (if pred_option isObject v then Inr v else Inl ''The pending request answer map is not readable.'')"

definition parseQuestions :: "JsValue option \<Rightarrow> JsValue option result" where
  "parseQuestions v = (if pred_option isArray v then Inr v else Inl ''The pending request questions are not readable.'')"

definition keptMembers :: "(string \<times> (JsValue \<Rightarrow> bool)) list \<Rightarrow> JsValue \<Rightarrow> (string \<times> JsValue) list" where
  "keptMembers wanted v = map (\<lambda>(k, _). (k, memberOf v k)) (filter (\<lambda>(k, keep). keep (memberOf v k)) wanted)"

definition parseDecisionContext :: "JsValue option \<Rightarrow> JsValue option result" where
  "parseDecisionContext bytes =
    bindE (parseObject bytes) (\<lambda>value. case value of
      None \<Rightarrow> Inr None
    | Some v \<Rightarrow>
        let field = memberOf v;
            absent = (\<lambda>k. field k = JUndefined)
        in bindE (ensure (stringAmong [''local'', ''session'', ''token''] (field ''kind'')
               \<and> isText (field ''userId'') \<and> field ''userId'' \<noteq> JStr []
               \<and> (absent ''tokenScope'' \<or> stringAmong [''server-admin'', ''workspace'', ''workspace-readonly''] (field ''tokenScope''))
               \<and> (absent ''sessionId'' \<or> isText (field ''sessionId'') \<and> field ''sessionId'' \<noteq> JStr [])
               \<and> (absent ''tokenId'' \<or> isText (field ''tokenId''))
               \<and> (absent ''adminTokenId'' \<or> isText (field ''adminTokenId''))
               \<and> (absent ''tokenWorkspaceIds'' \<or> (case field ''tokenWorkspaceIds'' of JArr ids \<Rightarrow> list_all isText ids | _ \<Rightarrow> False)))
             ''Invalid deciding credential context.'') (\<lambda>_.
           Inr (Some (JObj ([(''kind'', field ''kind''), (''userId'', field ''userId'')]
             @ keptMembers [(''sessionId'', isText), (''tokenId'', isText), (''tokenScope'', isText),
                 (''tokenWorkspaceIds'', isArray), (''adminTokenId'', isText)] v)))))"

definition parsePendingRequestRow :: "PendingRequestRow \<Rightarrow> PendingRequestRecord result" where
  "parsePendingRequestRow row =
    readRetainedV1 (pr_schemaVersion row)
      (let r = pr_record row in
       bindE (parseDecisionContext (pq_decidingActorContext r)) (\<lambda>context.
       bindE (parseAnswerMap (pq_answerMap r)) (\<lambda>_.
       bindE (parseObject (pq_authorizationContext r)) (\<lambda>_.
       bindE (parseObject (pq_governedIntent r)) (\<lambda>_.
       bindE (parseQuestions (pq_questions r)) (\<lambda>_.
       bindE (case pq_assistantHandoff r of None \<Rightarrow> Inr () | Some h \<Rightarrow> ensure (AssistantHandoffSchema h) ZodError) (\<lambda>_.
       Inr (r\<lparr>pq_decidingActorContext := context\<rparr>))))))))"

definition readPendingRequest :: "PendingTable \<Rightarrow> string \<Rightarrow> PendingRequestRecord option result" where
  "readPendingRequest table requestId =
    (case List.find (\<lambda>row. pq_requestId (pr_record row) = requestId) table of
       None \<Rightarrow> Inr None
     | Some row \<Rightarrow> bindE (parsePendingRequestRow row) (\<lambda>r. Inr (Some r)))"

text \<open>The creation order, and the pages of 128 rows that follow the last row of the page before.\<close>

definition creationKey :: "PendingRequestRow \<Rightarrow> string \<times> string" where
  "creationKey row = (pq_createdAt (pr_record row), pq_requestId (pr_record row))"

definition threadRows :: "PendingTable \<Rightarrow> string \<Rightarrow> string \<Rightarrow> PendingRequestRow list" where
  "threadRows table workspaceId threadId =
    sort_key creationKey (filter (\<lambda>row. pq_workspaceId (pr_record row) = workspaceId \<and> pq_threadId (pr_record row) = threadId) table)"

definition readableRows :: "PendingRequestRow list \<Rightarrow> PendingRequestRecord list" where
  "readableRows rows = List.map_filter (\<lambda>row. case parsePendingRequestRow row of Inl _ \<Rightarrow> None | Inr r \<Rightarrow> Some r) rows"

definition followingRows :: "PendingRequestRow list \<Rightarrow> (string \<times> string) option \<Rightarrow> PendingRequestRow list" where
  "followingRows rows after = (case after of None \<Rightarrow> rows | Some key \<Rightarrow> filter (\<lambda>row. key < creationKey row) rows)"

function readThreadPendingRequestPages ::
  "PendingRequestRow list \<Rightarrow> (string \<times> string) option \<Rightarrow> PendingRequestRecord list list" where
  "readThreadPendingRequestPages selected after =
    (let rows = take 128 (followingRows selected after) in
     if rows = [] then []
     else readableRows rows #
       (if length rows < 128 then [] else readThreadPendingRequestPages selected (Some (creationKey (last rows)))))"
  by pat_completeness auto

lemma following_shrinks:
  assumes "row \<in> set (followingRows selected after)"
  shows "length (followingRows selected (Some (creationKey row))) < length (followingRows selected after)"
proof -
  let ?next = "\<lambda>r. creationKey row < creationKey r"
  have "followingRows selected (Some (creationKey row)) = filter ?next (followingRows selected after)"
  proof (cases after)
    case (Some key)
    then have "key < creationKey row" using assms by (simp add: followingRows_def)
    then have "filter ?next selected = filter (\<lambda>r. key < creationKey r \<and> ?next r) selected"
      by (intro filter_cong) (auto intro: less_trans)
    then show ?thesis by (simp add: Some followingRows_def)
  qed (simp add: followingRows_def)
  moreover have "length (filter ?next (followingRows selected after)) < length (followingRows selected after)"
    by (rule length_filter_less [OF assms]) simp
  ultimately show ?thesis by simp
qed

termination readThreadPendingRequestPages
proof (relation "measure (\<lambda>(selected, after). length (followingRows selected after))")
  fix selected :: "PendingRequestRow list" and after :: "(string \<times> string) option" and rows
  assume rows: "rows = take 128 (followingRows selected after)" and "rows \<noteq> []"
  from last_in_set [OF this(2)] have "last rows \<in> set (followingRows selected after)" unfolding rows by (rule in_set_takeD)
  then show "((selected, Some (creationKey (last rows))), selected, after)
      \<in> measure (\<lambda>(selected, after). length (followingRows selected after))"
    using following_shrinks by simp
qed simp

declare readThreadPendingRequestPages.simps [simp del]

definition listThreadPendingRequests :: "PendingTable \<Rightarrow> string \<Rightarrow> string \<Rightarrow> PendingRequestRecord list" where
  "listThreadPendingRequests table workspaceId threadId =
    concat (readThreadPendingRequestPages (threadRows table workspaceId threadId) None)"

section \<open>Raising\<close>

definition textJson :: "string option \<Rightarrow> JsValue" where
  "textJson = nullJson JStr"

definition contextJson :: "PendingAuthorizationContext \<Rightarrow> JsValue" where
  "contextJson c =
    JObj [(''threadId'', JStr (ac_threadId c)), (''turnId'', JStr (ac_turnId c)), (''agentSessionId'', textJson (ac_agentSessionId c)),
      (''agentId'', textJson (ac_agentId c)), (''responsibleUserId'', JStr (ac_responsibleUserId c)),
      (''packageDigest'', textJson (ac_packageDigest c)), (''policyDecisionId'', textJson (ac_policyDecisionId c))]"

fun handoffJson :: "AssistantHandoff \<Rightarrow> JsValue" where
  "handoffJson (TaskHandoff ws input agentId modelId) =
    JObj ([(''kind'', JStr ''task''), (''targetWorkspaceId'', JStr ws), (''input'', JStr input)]
      @ (case agentId of None \<Rightarrow> [] | Some a \<Rightarrow> [(''agentId'', JStr a)])
      @ (case modelId of None \<Rightarrow> [] | Some m \<Rightarrow> [(''modelId'', JStr m)]))"
| "handoffJson (GoalHandoff ws intent) =
    JObj [(''kind'', JStr ''goal''), (''targetWorkspaceId'', JStr ws), (''intent'', JStr intent)]"

definition insertedRecord :: "RaisePendingRequestInput \<Rightarrow> PendingRequestRecord" where
  "insertedRecord i =
    \<lparr>pq_requestId = ri_requestId i, pq_workspaceId = ri_workspaceId i, pq_threadId = ri_threadId i,
     pq_raisingTurnId = ri_raisingTurnId i, pq_requestItemId = ri_requestItemId i, pq_kind = ri_kind i,
     pq_requesterKind = ri_requesterKind i, pq_agentId = ri_agentId i, pq_agentSessionId = ri_agentSessionId i,
     pq_responsibleUserId = ri_responsibleUserId i, pq_state = PendingState, pq_resolution = None,
     pq_decidingActor = None, pq_decidingActorContext = None, pq_decidedAt = None, pq_answerMap = None,
     pq_ending = None, pq_invalidatingEvent = None, pq_endingActor = None, pq_endedAt = None,
     pq_serverId = map_option pl_serverId (ri_call i), pq_catalogRevision = map_option pl_catalogRevision (ri_call i),
     pq_schemaSnapshotId = map_option pl_schemaSnapshotId (ri_call i), pq_toolName = map_option pl_toolName (ri_call i),
     pq_canonicalArgumentsJson = map_option pl_canonicalArgumentsJson (ri_call i),
     pq_argumentsDigest = orElse (map_option pl_argumentsDigest (ri_call i)) (ri_questionDigest i),
     pq_packageDigest = Option.bind (ri_call i) pl_packageDigest,
     pq_policyDecisionId = Option.bind (ri_call i) pl_policyDecisionId,
     pq_authorizationContext = map_option (contextJson \<circ> pl_authorizationContext) (ri_call i),
     pq_governedIntent = map_option jsonClone (ri_governedIntent i),
     pq_questions = map_option (jsonClone \<circ> JArr) (ri_questions i), pq_assistantHandoff = ri_assistantHandoff i,
     pq_approvalKind = map_option pv_kind (ri_approval i), pq_title = map_option pv_title (ri_approval i),
     pq_description = map_option pv_description (ri_approval i), pq_claim = Unclaimed, pq_executionCallId = None,
     pq_disposition = None, pq_dispositionReason = None, pq_heldResult = None, pq_publicationTurnId = None,
     pq_invalidationTurnId = None, pq_delivery = Undelivered, pq_deliveryTurnId = None, pq_deliveryCause = None,
     pq_createdAt = ri_now i, pq_updatedAt = ri_now i\<rparr>"

definition insertPendingRequest :: "PendingTable \<Rightarrow> RaisePendingRequestInput \<Rightarrow> PendingTable result" where
  "insertPendingRequest table i =
    bindE (case ri_assistantHandoff i of None \<Rightarrow> Inr () | Some h \<Rightarrow> ensure (AssistantHandoffSchema h) ZodError) (\<lambda>_.
    bindE (ensure (ri_requestId i \<notin> (pq_requestId \<circ> pr_record) ` set table)
        ''UNIQUE constraint failed: pending_requests.request_id'') (\<lambda>_.
    Inr (table @ [\<lparr>pr_schemaVersion = RETAINED_FORMAT_VERSION, pr_record = insertedRecord i\<rparr>])))"

text \<open>\<^verbatim>\<open>isDeepStrictEqual\<close> of parsed JSON objects does not see the order of members.\<close>

definition sameCapturedArguments :: "PendingPlatform \<Rightarrow> PendingRequestRecord \<Rightarrow> PendingCall \<Rightarrow> bool" where
  "sameCapturedArguments pt r c =
    (case truthy (pq_canonicalArgumentsJson r) of
       None \<Rightarrow> False
     | Some text \<Rightarrow>
         pq_argumentsDigest r = Some (''sha256:'' @ pt_sha256Hex pt text)
         \<and> pl_argumentsDigest c = ''sha256:'' @ pt_sha256Hex pt (pl_canonicalArgumentsJson c)
         \<and> (case (pt_parseJson pt text, pt_parseJson pt (pl_canonicalArgumentsJson c)) of
              (Some retained, Some incoming) \<Rightarrow>
                isObject retained \<and> isObject incoming \<and> canonicalValue False retained = canonicalValue False incoming
            | _ \<Rightarrow> False))"

definition sameJson :: "JsValue option \<Rightarrow> JsValue option \<Rightarrow> bool result" where
  "sameJson v w =
    bindE (canonicalJsonText (nullJson id v)) (\<lambda>s. bindE (canonicalJsonText (nullJson id w)) (\<lambda>t. Inr (s = t)))"

definition sameRaiseIdentity :: "PendingPlatform \<Rightarrow> PendingRequestRecord \<Rightarrow> RaisePendingRequestInput \<Rightarrow> bool result" where
  "sameRaiseIdentity pt r i =
    (if pq_workspaceId r = ri_workspaceId i \<and> pq_threadId r = ri_threadId i \<and> pq_raisingTurnId r = ri_raisingTurnId i
       \<and> pq_kind r = ri_kind i \<and> pq_requesterKind r = ri_requesterKind i
       \<and> pq_responsibleUserId r = ri_responsibleUserId i \<and> pq_agentId r = ri_agentId i
       \<and> (case ri_call i of Some c \<Rightarrow> sameCapturedArguments pt r c | None \<Rightarrow> pq_argumentsDigest r = ri_questionDigest i)
     then bindE (sameJson (pq_governedIntent r) (ri_governedIntent i)) (\<lambda>same.
       if same then sameJson (map_option handoffJson (pq_assistantHandoff r)) (map_option handoffJson (ri_assistantHandoff i))
       else Inr False)
     else Inr False)"

definition sameQualifiedBinding :: "PendingPlatform \<Rightarrow> PendingRequestRecord \<Rightarrow> RaisePendingRequestInput \<Rightarrow> bool result" where
  "sameQualifiedBinding pt r i =
    (if pq_workspaceId r \<noteq> ri_workspaceId i \<or> pq_threadId r \<noteq> ri_threadId i \<or> pq_kind r \<noteq> ri_kind i then Inr False
     else if ri_kind i = UserInputKind then
       Inr (pq_agentId r = ri_agentId i \<and> pq_argumentsDigest r \<noteq> None \<and> pq_argumentsDigest r = ri_questionDigest i)
     else case ri_call i of
       None \<Rightarrow>
         if pq_serverId r = None \<and> pq_governedIntent r \<noteq> None \<and> ri_governedIntent i \<noteq> None
           \<and> pq_requesterKind r = ri_requesterKind i \<and> pq_agentId r = ri_agentId i
           \<and> pq_responsibleUserId r = ri_responsibleUserId i
         then sameJson (pq_governedIntent r) (ri_governedIntent i) else Inr False
     | Some c \<Rightarrow>
         Inr (truthy (pq_serverId r) \<noteq> None \<and> pq_serverId r = Some (pl_serverId c)
           \<and> pq_catalogRevision r = Some (pl_catalogRevision c) \<and> pq_schemaSnapshotId r = Some (pl_schemaSnapshotId c)
           \<and> pq_toolName r = Some (pl_toolName c) \<and> sameCapturedArguments pt r c
           \<and> pq_agentId r = ri_agentId i \<and> pq_responsibleUserId r = ri_responsibleUserId i))"

text \<open>\<^verbatim>\<open>pending.find(...)\<close> with a predicate that may throw.\<close>

fun firstMatchE :: "('a \<Rightarrow> bool result) \<Rightarrow> 'a list \<Rightarrow> 'a option result" where
  "firstMatchE p [] = Inr None"
| "firstMatchE p (x # xs) = bindE (p x) (\<lambda>found. if found then Inr (Some x) else firstMatchE p xs)"

definition outstanding :: "PendingTable \<Rightarrow> string \<Rightarrow> string \<Rightarrow> nat" where
  "outstanding table workspaceId threadId =
    length (filter (\<lambda>row. pq_workspaceId (pr_record row) = workspaceId \<and> pq_threadId (pr_record row) = threadId
      \<and> pq_state (pr_record row) \<notin> {ResolvedState, EndedState}) table)"

definition preflightPendingRequest ::
  "PendingPlatform \<Rightarrow> PendingTable \<Rightarrow> RaisePendingRequestInput \<Rightarrow> PendingRequestRecord option result" where
  "preflightPendingRequest pt table i =
    bindE (ensure (\<not> (ri_assistantHandoff i \<noteq> None \<and> (ri_kind i \<noteq> UserInputKind \<or> ri_requesterKind i \<noteq> AssistantRequester)))
        ''Only an Assistant user-input request can retain a handoff selection.'') (\<lambda>_.
    bindE (readPendingRequest table (ri_requestId i)) (\<lambda>existing. case existing of
      Some r \<Rightarrow>
        bindE (sameRaiseIdentity pt r i) (\<lambda>same.
        if same then Inr (Some r) else Inl ''The request id was already used for a different pending request.'')
    | None \<Rightarrow>
        let pending = filter (\<lambda>r. pq_state r = PendingState) (listThreadPendingRequests table (ri_workspaceId i) (ri_threadId i))
        in bindE (firstMatchE (\<lambda>r. sameQualifiedBinding pt r i) pending) (\<lambda>duplicate. case duplicate of
             Some r \<Rightarrow> Inr (Some r)
           | None \<Rightarrow>
               bindE (ensure (\<not> outstanding table (ri_workspaceId i) (ri_threadId i) \<ge> PENDING_REQUEST_BOUND)
                 ''The Thread already has 16 pending requests.'') (\<lambda>_. Inr None))))"

text \<open>The second component says whether the request was created.\<close>

definition raisePendingRequest ::
  "PendingPlatform \<Rightarrow> PendingTable \<Rightarrow> RaisePendingRequestInput \<Rightarrow> (PendingTable \<times> PendingRequestRecord \<times> bool) result" where
  "raisePendingRequest pt table i =
    bindE (preflightPendingRequest pt table i) (\<lambda>existing. case existing of
      Some r \<Rightarrow> Inr (table, r, False)
    | None \<Rightarrow>
        bindE (insertPendingRequest table i) (\<lambda>table.
        bindE (readPendingRequest table (ri_requestId i)) (\<lambda>created. case created of
          None \<Rightarrow> Inl ''The pending request was not readable after its write.''
        | Some r \<Rightarrow> Inr (table, r, True))))"

definition deletePendingRequest :: "PendingTable \<Rightarrow> string \<Rightarrow> PendingTable result" where
  "deletePendingRequest table requestId =
    (case List.find (\<lambda>row. pq_requestId (pr_record row) = requestId) table of
       None \<Rightarrow> Inr table
     | Some row \<Rightarrow>
         readRetainedV1 (pr_schemaVersion row) (Inr (filter (\<lambda>row. pq_requestId (pr_record row) \<noteq> requestId) table)))"

end
