(* ===== verification/Pending_Lifecycle.thy ===== *)
theory Pending_Lifecycle
  imports Pending_Requests
begin

text \<open>
  The transitions of a pending request (\<^verbatim>\<open>apps/nanocore/src/runtime/pending-requests.ts\<close>): denial, answer, grant, claim,
  execution, ending, and the freezing, release, proof and closeout of its delivery. Each is a compare-and-set on the
  row; the callback that re-evaluates a grant is the value it returns, since it must not touch the request.
\<close>

section \<open>Compare and set\<close>

definition updateWhere ::
  "(PendingRequestRecord \<Rightarrow> bool) \<Rightarrow> (PendingRequestRecord \<Rightarrow> PendingRequestRecord) \<Rightarrow> PendingTable \<Rightarrow> PendingTable" where
  "updateWhere p f table = map (\<lambda>row. if p (pr_record row) then row\<lparr>pr_record := f (pr_record row)\<rparr> else row) table"

definition changes :: "(PendingRequestRecord \<Rightarrow> bool) \<Rightarrow> PendingTable \<Rightarrow> nat" where
  "changes p table = length (filter (p \<circ> pr_record) table)"

text \<open>\<^verbatim>\<open>UPDATE ... WHERE request_id = ? AND ...\<close>, then the updated record when exactly one row changed.\<close>

definition compareAndSet ::
  "PendingTable \<Rightarrow> string \<Rightarrow> (PendingRequestRecord \<Rightarrow> bool) \<Rightarrow> (PendingRequestRecord \<Rightarrow> PendingRequestRecord)
    \<Rightarrow> (PendingTable \<times> PendingRequestRecord option) result" where
  "compareAndSet table requestId p f =
    (let here = (\<lambda>r. pq_requestId r = requestId \<and> p r);
         table' = updateWhere here f table
     in if changes here table = 1 then bindE (readPendingRequest table' requestId) (\<lambda>r. Inr (table', r)) else Inr (table', None))"

text \<open>Most operations first read the request: a missing one changes nothing, an unreadable one is an error.\<close>

definition whenReadable ::
  "PendingTable \<Rightarrow> string \<Rightarrow> (PendingRequestRecord \<Rightarrow> (PendingTable \<times> PendingRequestRecord option) result)
    \<Rightarrow> (PendingTable \<times> PendingRequestRecord option) result" where
  "whenReadable table requestId f =
    bindE (readPendingRequest table requestId) (\<lambda>current. case current of None \<Rightarrow> Inr (table, None) | Some r \<Rightarrow> f r)"

definition unclaimedPending :: "PendingRequestRecord \<Rightarrow> bool" where
  "unclaimedPending r \<longleftrightarrow> pq_state r = PendingState \<and> pq_claim r = Unclaimed"

section \<open>Decisions\<close>

definition setDecision ::
  "PendingRequestResolution \<Rightarrow> PendingRequestActor \<Rightarrow> string \<Rightarrow> JsValue option \<Rightarrow> PendingRequestRecord \<Rightarrow> PendingRequestRecord" where
  "setDecision resolution actor now decisionContext r =
    r\<lparr>pq_state := ResolvedState, pq_resolution := Some resolution, pq_decidingActor := Some actor, pq_decidedAt := Some now,
      pq_decidingActorContext := map_option jsonClone decisionContext, pq_updatedAt := now\<rparr>"

definition denyPendingRequest ::
  "PendingTable \<Rightarrow> string \<Rightarrow> PendingRequestActor \<Rightarrow> string \<Rightarrow> JsValue option \<Rightarrow> (PendingTable \<times> PendingRequestRecord option) result" where
  "denyPendingRequest table requestId actor now decisionContext =
    whenReadable table requestId (\<lambda>current.
      if \<not> unclaimedPending current then Inr (table, None)
      else
        let governsCall = (pq_kind current = ApprovalKind \<and> pq_serverId current \<noteq> None)
        in compareAndSet table requestId unclaimedPending (\<lambda>r.
             (setDecision Denied actor now decisionContext r)
               \<lparr>pq_claim := Unclaimed, pq_disposition := (if governsCall then Some DeniedNotExecuted else None),
                pq_dispositionReason := (if governsCall then Some ''denied'' else None)\<rparr>))"

definition answerPendingRequest ::
  "PendingTable \<Rightarrow> string \<Rightarrow> PendingRequestActor \<Rightarrow> (string \<times> string) list \<Rightarrow> string \<Rightarrow> JsValue option
    \<Rightarrow> (PendingTable \<times> PendingRequestRecord option) result" where
  "answerPendingRequest table requestId actor answers now decisionContext =
    whenReadable table requestId (\<lambda>_.
      compareAndSet table requestId (\<lambda>r. unclaimedPending r \<and> pq_kind r = UserInputKind) (\<lambda>r.
        (setDecision Answered actor now decisionContext r)
          \<lparr>pq_answerMap := Some (JObj (map (\<lambda>(k, v). (k, JArr [JStr v])) answers))\<rparr>))"

definition endPendingRequest ::
  "PendingTable \<Rightarrow> string \<Rightarrow> PendingRequestEnding \<Rightarrow> string option \<Rightarrow> PendingRequestActor \<Rightarrow> string
    \<Rightarrow> (PendingTable \<times> PendingRequestRecord option) result" where
  "endPendingRequest table requestId ending event actor now =
    whenReadable table requestId (\<lambda>_.
      compareAndSet table requestId unclaimedPending (\<lambda>r.
        r\<lparr>pq_state := EndedState, pq_ending := Some ending, pq_invalidatingEvent := event, pq_endingActor := Some actor,
          pq_endedAt := Some now, pq_updatedAt := now\<rparr>))"

definition withdrawPendingRequest ::
  "PendingTable \<Rightarrow> string \<Rightarrow> PendingRequestActor \<Rightarrow> string \<Rightarrow> (PendingTable \<times> PendingRequestRecord option) result" where
  "withdrawPendingRequest table requestId actor now = endPendingRequest table requestId Withdrawn None actor now"

definition invalidatePendingRequest ::
  "PendingTable \<Rightarrow> string \<Rightarrow> string \<Rightarrow> PendingRequestActor \<Rightarrow> string \<Rightarrow> (PendingTable \<times> PendingRequestRecord option) result" where
  "invalidatePendingRequest table requestId event actor now =
    endPendingRequest table requestId Invalidated (Some event) actor now"

text \<open>A lost compare-and-set reports the stored record, or the one read before.\<close>

definition claimOrRefuseGrant ::
  "PendingTable \<Rightarrow> string \<Rightarrow> PendingRequestActor \<Rightarrow> string \<Rightarrow> GrantEvaluation \<Rightarrow> JsValue option
    \<Rightarrow> (PendingTable \<times> GrantApplied \<times> PendingRequestRecord) result" where
  "claimOrRefuseGrant table requestId actor now evaluation decisionContext =
    bindE (readPendingRequest table requestId) (\<lambda>read. case read of
      None \<Rightarrow> Inl ''The pending request is missing.''
    | Some current \<Rightarrow>
        if \<not> unclaimedPending current then Inr (table, AppliedLost, current)
        else
          let applied = (\<lambda>label table' changed.
                bindE (readPendingRequest table' requestId) (\<lambda>r.
                Inr (table', if changed = 1 then label else AppliedLost, orDefault r current)));
              here = (\<lambda>r. pq_requestId r = requestId \<and> unclaimedPending r)
          in case evaluation of
               EndOutcome event endingActor \<Rightarrow>
                 bindE (endPendingRequest table requestId Invalidated (Some event) endingActor now) (\<lambda>(table', ended).
                 case ended of
                   Some r \<Rightarrow> Inr (table', AppliedEnded, r)
                 | None \<Rightarrow> bindE (readPendingRequest table' requestId) (\<lambda>r. Inr (table', AppliedLost, orDefault r current)))
             | RefuseOutcome reason \<Rightarrow>
                 applied AppliedRefused (updateWhere here (\<lambda>r.
                     (setDecision Granted actor now decisionContext r)
                       \<lparr>pq_claim := Unclaimed, pq_disposition := Some DeniedNotExecuted, pq_dispositionReason := Some reason\<rparr>) table)
                   (changes here table)
             | ClaimOutcome \<Rightarrow>
                 bindE (executionCallIdForRequest requestId) (\<lambda>callId.
                 applied AppliedClaimed (updateWhere here (\<lambda>r.
                     (setDecision Granted actor now decisionContext r)\<lparr>pq_claim := Claimed, pq_executionCallId := Some callId\<rparr>) table)
                   (changes here table)))"

definition commandIntentRow :: "PendingRequestRecord \<Rightarrow> bool" where
  "commandIntentRow r \<longleftrightarrow> pq_serverId r = None \<and> pq_governedIntent r \<noteq> None"

definition grantCommandIntentRequest ::
  "PendingTable \<Rightarrow> string \<Rightarrow> PendingRequestActor \<Rightarrow> string \<Rightarrow> JsValue option \<Rightarrow> (PendingTable \<times> PendingRequestRecord option) result" where
  "grantCommandIntentRequest table requestId actor now decisionContext =
    whenReadable table requestId (\<lambda>_.
      compareAndSet table requestId (\<lambda>r. unclaimedPending r \<and> commandIntentRow r) (setDecision Granted actor now decisionContext))"

definition claimCommandIntentGrant :: "PendingTable \<Rightarrow> string \<Rightarrow> string \<Rightarrow> (PendingTable \<times> PendingRequestRecord option) result" where
  "claimCommandIntentGrant table requestId now =
    whenReadable table requestId (\<lambda>_.
      bindE (executionCallIdForRequest requestId) (\<lambda>callId.
      compareAndSet table requestId
        (\<lambda>r. pq_state r = ResolvedState \<and> pq_resolution r = Some Granted \<and> pq_claim r = Unclaimed \<and> commandIntentRow r
          \<and> pq_disposition r = None)
        (\<lambda>r. r\<lparr>pq_claim := Claimed, pq_executionCallId := Some callId, pq_updatedAt := now\<rparr>)))"

definition refuseCommandIntentGrant ::
  "PendingTable \<Rightarrow> string \<Rightarrow> string \<Rightarrow> string \<Rightarrow> (PendingTable \<times> PendingRequestRecord option) result" where
  "refuseCommandIntentGrant table requestId reason now =
    whenReadable table requestId (\<lambda>_.
      compareAndSet table requestId
        (\<lambda>r. pq_state r = ResolvedState \<and> pq_resolution r = Some Granted \<and> pq_claim r = Unclaimed \<and> pq_disposition r = None
          \<and> commandIntentRow r)
        (\<lambda>r. r\<lparr>pq_disposition := Some DeniedNotExecuted, pq_dispositionReason := Some reason, pq_updatedAt := now\<rparr>))"

section \<open>Execution\<close>

definition unfinishedClaim :: "PendingRequestRecord \<Rightarrow> bool" where
  "unfinishedClaim r \<longleftrightarrow> pq_claim r = Claimed \<and> pq_disposition r = None"

definition finishPendingExecution ::
  "PendingTable \<Rightarrow> string \<Rightarrow> PendingRequestDisposition \<Rightarrow> string option \<Rightarrow> JsValue \<Rightarrow> string
    \<Rightarrow> (PendingTable \<times> PendingRequestRecord option) result" where
  "finishPendingExecution table requestId disposition reason heldResult now =
    whenReadable table requestId (\<lambda>_.
      compareAndSet table requestId unfinishedClaim (\<lambda>r.
        r\<lparr>pq_claim := Finished, pq_disposition := Some disposition, pq_dispositionReason := reason,
          pq_heldResult := (if heldResult = JUndefined then None else Some (jsonClone heldResult)), pq_updatedAt := now\<rparr>))"

definition settleRow :: "string \<Rightarrow> (PendingRequestRecord \<Rightarrow> bool) \<Rightarrow> PendingRequestRow \<Rightarrow> PendingTable \<times> nat \<Rightarrow> PendingTable \<times> nat" where
  "settleRow now usable row =
    (\<lambda>(table, changed). case parsePendingRequestRow row of
       Inl _ \<Rightarrow> (table, changed)
     | Inr r \<Rightarrow>
         if \<not> usable r then (table, changed)
         else
           let here = (\<lambda>s. pq_requestId s = pq_requestId r \<and> unfinishedClaim s)
           in (updateWhere here (\<lambda>s. s\<lparr>pq_claim := Finished, pq_disposition := Some OutcomeUnknown,
                 pq_dispositionReason := Some ''restart'', pq_updatedAt := now\<rparr>) table, changed + changes here table))"

definition settleUnfinishedClaims :: "PendingTable \<Rightarrow> string \<Rightarrow> (PendingRequestRecord \<Rightarrow> bool) \<Rightarrow> PendingTable \<times> nat" where
  "settleUnfinishedClaims table now usable = fold (settleRow now usable) (filter (unfinishedClaim \<circ> pr_record) table) (table, 0)"

section \<open>Delivery\<close>

definition isFinalOutcome :: "PendingRequestRecord \<Rightarrow> bool" where
  "isFinalOutcome r =
    (if pq_state r = EndedState then True
     else if pq_state r \<noteq> ResolvedState \<or> pq_resolution r = None then False
     else if pq_resolution r = Some Denied \<or> pq_resolution r = Some Answered then True
     else if isCommandIntentApproval r then True
     else pq_disposition r \<noteq> None)"

definition isReadyOutcome :: "PendingRequestRecord \<Rightarrow> bool" where
  "isReadyOutcome r = (if pq_delivery r \<noteq> Undelivered then False else isFinalOutcome r)"

definition readinessKey :: "PendingRequestRecord \<Rightarrow> string \<times> string" where
  "readinessKey r = (orDefault (orElse (pq_decidedAt r) (pq_endedAt r)) (pq_createdAt r), pq_requestId r)"

record DeliverySelection =
  sl_executor :: PendingRequesterKind
  sl_agentId :: "string option"
  sl_cause :: PendingDeliveryCause
  sl_responsibleUserId :: "string option"

definition selectReadyOutcomes :: "PendingRequestRecord list \<Rightarrow> DeliverySelection \<Rightarrow> PendingRequestRecord list" where
  "selectReadyOutcomes records i =
    (let principalBound = (sl_cause i = OutcomeCause \<and> (sl_executor i = WorkerRequester \<or> sl_executor i = AssistantRequester))
     in take OUTCOME_DELIVERY_BOUND (sort_key readinessKey (filter (\<lambda>r.
          pq_requesterKind r = sl_executor i
          \<and> (sl_executor i \<noteq> WorkerRequester \<or> pq_agentId r = sl_agentId i)
          \<and> (\<not> principalBound \<or> Some (pq_responsibleUserId r) = sl_responsibleUserId i)
          \<and> isReadyOutcome r) records)))"

text \<open>The records as they are stored after a batch of updates; one that disappeared is reported as it was selected.\<close>

definition reread :: "PendingTable \<Rightarrow> PendingRequestRecord list \<Rightarrow> PendingRequestRecord list result" where
  "reread table records = mapE (\<lambda>r. bindE (readPendingRequest table (pq_requestId r)) (\<lambda>s. Inr (orDefault s r))) records"

definition freezeReadyOutcomes ::
  "PendingTable \<Rightarrow> string \<Rightarrow> string \<Rightarrow> string \<Rightarrow> DeliverySelection \<Rightarrow> string \<Rightarrow> (PendingRequestRecord \<Rightarrow> bool)
    \<Rightarrow> (PendingTable \<times> PendingRequestRecord list) result" where
  "freezeReadyOutcomes table workspaceId threadId turnId i now usable =
    (let selected = selectReadyOutcomes (filter usable (listThreadPendingRequests table workspaceId threadId)) i;
         table' = fold (\<lambda>s. updateWhere (\<lambda>r. pq_requestId r = pq_requestId s \<and> pq_delivery r = Undelivered) (\<lambda>r.
           r\<lparr>pq_delivery := Frozen, pq_deliveryTurnId := Some turnId, pq_deliveryCause := Some (sl_cause i),
             pq_publicationTurnId := orElse (pq_publicationTurnId r) (Some turnId), pq_updatedAt := now\<rparr>)) selected table
     in bindE (reread table' selected) (\<lambda>records. Inr (table', records)))"

definition frozenBy :: "string \<Rightarrow> PendingRequestRecord \<Rightarrow> bool" where
  "frozenBy turnId r \<longleftrightarrow> pq_delivery r = Frozen \<and> pq_deliveryTurnId r = Some turnId"

definition frozenRecords :: "PendingTable \<Rightarrow> string \<Rightarrow> PendingRequestRecord list result" where
  "frozenRecords table turnId = mapE parsePendingRequestRow (filter (frozenBy turnId \<circ> pr_record) table)"

definition releaseFrozenOutcomes :: "PendingTable \<Rightarrow> string \<Rightarrow> string \<Rightarrow> (PendingTable \<times> PendingRequestRecord list) result" where
  "releaseFrozenOutcomes table turnId now =
    bindE (frozenRecords table turnId) (\<lambda>records.
    let table' = updateWhere (frozenBy turnId) (\<lambda>r.
          r\<lparr>pq_delivery := Undelivered, pq_deliveryTurnId := None, pq_deliveryCause := None, pq_updatedAt := now\<rparr>) table
    in bindE (reread table' records) (\<lambda>records. Inr (table', records)))"

definition moveFrozenDelivery ::
  "PendingTable \<Rightarrow> string \<Rightarrow> PendingRequestDelivery \<Rightarrow> bool \<Rightarrow> string \<Rightarrow> (PendingTable \<times> PendingRequestRecord list) result" where
  "moveFrozenDelivery table turnId delivery clearResult now =
    bindE (frozenRecords table turnId) (\<lambda>records.
    let table' = updateWhere (frozenBy turnId) (\<lambda>r.
          r\<lparr>pq_delivery := delivery, pq_heldResult := (if clearResult then None else pq_heldResult r), pq_updatedAt := now\<rparr>) table
    in bindE (mapE (\<lambda>r. readPendingRequest table' (pq_requestId r)) records) (\<lambda>moved.
       Inr (table', List.map_filter id moved)))"

definition proveFrozenDelivery :: "PendingTable \<Rightarrow> string \<Rightarrow> string \<Rightarrow> (PendingTable \<times> PendingRequestRecord list) result" where
  "proveFrozenDelivery table turnId now = moveFrozenDelivery table turnId Delivered True now"

definition markFrozenDeliveryUnknown :: "PendingTable \<Rightarrow> string \<Rightarrow> string \<Rightarrow> (PendingTable \<times> PendingRequestRecord list) result" where
  "markFrozenDeliveryUnknown table turnId now = moveFrozenDelivery table turnId DeliveryUnknown False now"

section \<open>Closeout\<close>

definition orStored :: "PendingTable \<Rightarrow> PendingRequestRecord \<Rightarrow> PendingRequestRecord result" where
  "orStored table r = bindE (readPendingRequest table (pq_requestId r)) (\<lambda>s. Inr (orDefault s r))"

record CloseoutInput =
  co_workspaceId :: string
  co_threadId :: string
  co_closeoutTurnId :: string
  co_actor :: PendingRequestActor
  co_now :: string

definition grantUnconsumed :: "PendingRequestRecord \<Rightarrow> bool" where
  "grantUnconsumed r \<longleftrightarrow> isCommandIntentApproval r \<and> pq_resolution r = Some Granted \<and> pq_claim r = Unclaimed \<and> pq_disposition r = None"

definition outstandingInvalidation :: "PendingRequestRecord \<Rightarrow> bool" where
  "outstandingInvalidation r \<longleftrightarrow> pq_disposition r = Some DeniedNotExecuted \<and> isCommandIntentApproval r
     \<and> pq_resolution r = Some Granted \<and> pq_invalidationTurnId r = None"

definition closeoutEnd :: "CloseoutInput \<Rightarrow> string \<Rightarrow> PendingRequestRecord \<Rightarrow> PendingTable \<Rightarrow> PendingTable result" where
  "closeoutEnd i event r table =
    (if unclaimedPending r
     then bindE (endPendingRequest table (pq_requestId r) Invalidated (Some event) (co_actor i) (co_now i)) (\<lambda>(table, _). Inr table)
     else Inr table)"

definition closeoutRefuse :: "CloseoutInput \<Rightarrow> string \<Rightarrow> PendingRequestRecord \<Rightarrow> PendingTable \<Rightarrow> PendingTable" where
  "closeoutRefuse i event current table =
    (if grantUnconsumed current
     then updateWhere (\<lambda>r. pq_requestId r = pq_requestId current \<and> pq_claim r = Unclaimed \<and> pq_disposition r = None) (\<lambda>r.
        r\<lparr>pq_disposition := Some DeniedNotExecuted, pq_dispositionReason := Some event,
          pq_invalidationTurnId := orElse (pq_invalidationTurnId r) (Some (co_closeoutTurnId i)), pq_updatedAt := co_now i\<rparr>) table
     else table)"

definition closeoutInvalidate :: "CloseoutInput \<Rightarrow> PendingRequestRecord \<Rightarrow> PendingTable \<Rightarrow> PendingTable" where
  "closeoutInvalidate i nxt table =
    (if outstandingInvalidation nxt
     then updateWhere (\<lambda>r. pq_requestId r = pq_requestId nxt \<and> pq_invalidationTurnId r = None) (\<lambda>r.
        r\<lparr>pq_invalidationTurnId := Some (co_closeoutTurnId i), pq_updatedAt := co_now i\<rparr>) table
     else table)"

definition closeoutDeliver :: "CloseoutInput \<Rightarrow> PendingRequestRecord \<Rightarrow> PendingTable \<Rightarrow> PendingTable result" where
  "closeoutDeliver i nxt table =
    (if pq_delivery nxt = Undelivered
     then bindE (orStored table nxt) (\<lambda>stored.
       Inr (if isFinalOutcome stored
         then updateWhere (\<lambda>r. pq_requestId r = pq_requestId nxt \<and> pq_delivery r = Undelivered) (\<lambda>r.
           r\<lparr>pq_delivery := ClosedOut, pq_publicationTurnId := orElse (pq_publicationTurnId r) (Some (co_closeoutTurnId i)),
             pq_updatedAt := co_now i\<rparr>) table
         else table))
     else Inr table)"

definition closeoutRecord ::
  "CloseoutInput \<Rightarrow> (PendingRequestRecord \<Rightarrow> string) \<Rightarrow> PendingRequestRecord \<Rightarrow> PendingTable
    \<Rightarrow> (PendingTable \<times> PendingRequestRecord list) result" where
  "closeoutRecord i invalidatingEvent r table =
    bindE (closeoutEnd i (invalidatingEvent r) r table) (\<lambda>table.
    bindE (orStored table r) (\<lambda>current.
    let table = closeoutRefuse i (invalidatingEvent r) current table in
    bindE (bindE (readPendingRequest table (pq_requestId r)) (\<lambda>s. Inr (orDefault s current))) (\<lambda>nxt.
    let table = closeoutInvalidate i nxt table in
    bindE (closeoutDeliver i nxt table) (\<lambda>table.
    bindE (readPendingRequest table (pq_requestId r)) (\<lambda>stored.
    Inr (table, case stored of
        Some s \<Rightarrow>
          if pq_publicationTurnId s = Some (co_closeoutTurnId i) \<or> pq_invalidationTurnId s = Some (co_closeoutTurnId i) then [s] else []
      | None \<Rightarrow> []))))))"

fun closeoutRecords ::
  "CloseoutInput \<Rightarrow> (PendingRequestRecord \<Rightarrow> string) \<Rightarrow> PendingRequestRecord list \<Rightarrow> PendingTable
    \<Rightarrow> (PendingTable \<times> PendingRequestRecord list) result" where
  "closeoutRecords i invalidatingEvent [] table = Inr (table, [])"
| "closeoutRecords i invalidatingEvent (r # rs) table =
    bindE (closeoutRecord i invalidatingEvent r table) (\<lambda>(table, published).
    bindE (closeoutRecords i invalidatingEvent rs table) (\<lambda>(table, more). Inr (table, published @ more)))"

definition applyPendingCloseout ::
  "PendingTable \<Rightarrow> CloseoutInput \<Rightarrow> (PendingRequestRecord \<Rightarrow> bool) \<Rightarrow> (PendingRequestRecord \<Rightarrow> string)
    \<Rightarrow> (PendingTable \<times> PendingRequestRecord list) result" where
  "applyPendingCloseout table i usable invalidatingEvent =
    (let records = filter usable (listThreadPendingRequests table (co_workspaceId i) (co_threadId i)) in
     if list_ex unfinishedClaim records then Inl ''A pending request execution is still claimed.''
     else closeoutRecords i invalidatingEvent records table)"

definition archiveSelects :: "PendingRequestRecord \<Rightarrow> bool" where
  "archiveSelects r =
    (if pq_state r = PendingState then True
     else if pq_delivery r = Frozen then True
     else if pq_delivery r = Undelivered \<and> isFinalOutcome r then True
     else isCommandIntentApproval r \<and> pq_resolution r = Some Granted \<and> pq_claim r = Unclaimed
       \<and> (pq_disposition r = None \<or> pq_disposition r = Some DeniedNotExecuted \<and> pq_invalidationTurnId r = None))"

section \<open>Ending the requests of a Goal\<close>

definition goalRequest :: "string \<Rightarrow> bool \<Rightarrow> PendingRequestRecord \<Rightarrow> bool" where
  "goalRequest goalId plansOnly r \<longleftrightarrow> isCommandIntentApproval r
     \<and> (case pq_governedIntent r of
          None \<Rightarrow> False
        | Some intent \<Rightarrow> memberOf intent ''goalId'' = JStr goalId
            \<and> (plansOnly \<longrightarrow> memberOf intent ''operation'' = JStr ''goal.plan.approve''))"

fun invalidateRows ::
  "(PendingRequestRecord \<Rightarrow> bool) \<Rightarrow> string \<Rightarrow> PendingRequestActor \<Rightarrow> string \<Rightarrow> PendingRequestRow list
    \<Rightarrow> PendingTable \<times> nat \<Rightarrow> (PendingTable \<times> nat) result" where
  "invalidateRows p reason actor now [] acc = Inr acc"
| "invalidateRows p reason actor now (row # rows) (table, count) =
    bindE (parsePendingRequestRow row) (\<lambda>r.
    if \<not> p r then invalidateRows p reason actor now rows (table, count)
    else bindE (invalidatePendingRequest table (pq_requestId r) reason actor now) (\<lambda>(table, ended).
      invalidateRows p reason actor now rows (table, if ended = None then count else count + 1)))"

definition invalidateGoalPendingRequests ::
  "PendingTable \<Rightarrow> string \<Rightarrow> string \<Rightarrow> PendingRequestActor \<Rightarrow> string \<Rightarrow> bool \<Rightarrow> (PendingTable \<times> nat) result" where
  "invalidateGoalPendingRequests table goalId reason actor now plansOnly =
    invalidateRows (goalRequest goalId plansOnly) reason actor now
      (filter (\<lambda>row. pq_state (pr_record row) = PendingState) table) (table, 0)"

text \<open>The association of an invalidation Turn with refused grants, a case of \<^verbatim>\<open>applyControlPendingCommand\<close>.\<close>

definition requirePending :: "PendingTable \<Rightarrow> string \<Rightarrow> PendingRequestRecord result" where
  "requirePending table requestId =
    bindE (readPendingRequest table requestId) (\<lambda>r. case r of None \<Rightarrow> Inl ''The Pending request is missing.'' | Some s \<Rightarrow> Inr s)"

definition associateInvalidation ::
  "PendingTable \<Rightarrow> string list \<Rightarrow> string \<Rightarrow> string \<Rightarrow> (PendingTable \<times> PendingRequestRecord list) result" where
  "associateInvalidation table requestIds turnId now =
    bindE (ensure (distinct requestIds) ''The invalidation association has duplicate requests.'') (\<lambda>_.
    bindE (mapE (requirePending table) requestIds) (\<lambda>selected.
    bindE (traverseE (\<lambda>r. ensure (isCommandIntentApproval r \<and> pq_resolution r = Some Granted \<and> pq_claim r = Unclaimed
          \<and> pq_disposition r = Some DeniedNotExecuted
          \<and> \<not> (pq_invalidationTurnId r \<noteq> None \<and> pq_invalidationTurnId r \<noteq> Some turnId))
        ''The request no longer admits this invalidation association.'') selected) (\<lambda>_.
    Inr (fold (\<lambda>s. updateWhere (\<lambda>r. pq_requestId r = pq_requestId s \<and> pq_invalidationTurnId r = None)
        (\<lambda>r. r\<lparr>pq_invalidationTurnId := Some turnId, pq_updatedAt := now\<rparr>)) selected table, selected))))"

section \<open>Projections\<close>

datatype ApprovalStatus = PendingApprovalStatus | GrantedStatus | DeniedStatus | WithdrawnStatus | ExpiredStatus

definition approvalStatusForRecord :: "PendingRequestRecord \<Rightarrow> ApprovalStatus" where
  "approvalStatusForRecord r =
    (if pq_ending r = Some Withdrawn then WithdrawnStatus
     else if pq_ending r = Some Invalidated then ExpiredStatus
     else if pq_resolution r = Some Granted then GrantedStatus
     else if pq_resolution r = Some Denied then DeniedStatus
     else PendingApprovalStatus)"

section \<open>Canonical load\<close>

text \<open>
  The checks of \<^verbatim>\<open>validateCanonicalLoad\<close> that read the record alone, in the order of the source; the ones that read the
  Turns, Items and receipts of the Thread are not modelled. A text that is empty is falsy, as a missing one.
\<close>

definition partiesFailure :: "PendingRequestRecord \<Rightarrow> string option" where
  "partiesFailure r =
    (if (pq_requesterKind r \<in> {WorkerRequester, CoordinatorRequester} \<and> truthy (pq_agentId r) = None)
       \<or> (pq_requesterKind r = CoordinatorRequester \<and> (pq_agentSessionId r \<noteq> None \<or> \<not> isCommandIntentApproval r))
       \<or> (pq_requesterKind r = PersonRequester \<and> truthy (pq_agentId r) \<noteq> None)
     then Some ''parties'' else None)"

definition boundContext :: "PendingRequestRecord \<Rightarrow> JsValue \<Rightarrow> bool" where
  "boundContext r context \<longleftrightarrow>
    memberOf context ''threadId'' = JStr (pq_threadId r) \<and> memberOf context ''turnId'' = JStr (pq_raisingTurnId r)
    \<and> memberOf context ''agentId'' = textJson (pq_agentId r) \<and> memberOf context ''agentSessionId'' = textJson (pq_agentSessionId r)
    \<and> memberOf context ''responsibleUserId'' = JStr (pq_responsibleUserId r)
    \<and> memberOf context ''packageDigest'' = textJson (pq_packageDigest r)
    \<and> memberOf context ''policyDecisionId'' = textJson (pq_policyDecisionId r)"

definition capturedFailure :: "PendingPlatform \<Rightarrow> PendingRequestRecord \<Rightarrow> string option" where
  "capturedFailure pt r =
    (if pq_serverId r = None then None
     else if truthy (pq_toolName r) = None \<or> truthy (pq_catalogRevision r) = None \<or> truthy (pq_schemaSnapshotId r) = None
         \<or> truthy (pq_canonicalArgumentsJson r) = None \<or> truthy (pq_argumentsDigest r) = None
         \<or> \<not> (case pq_authorizationContext r of None \<Rightarrow> False | Some context \<Rightarrow> boundContext r context)
       then Some ''captured-authorization-binding''
     else let text = orDefault (pq_canonicalArgumentsJson r) [] in
       (case pt_parseJson pt text of
          None \<Rightarrow> Some ''captured-arguments''
        | Some args \<Rightarrow>
            if \<not> isObject args \<or> Some (''sha256:'' @ pt_sha256Hex pt text) \<noteq> pq_argumentsDigest r
            then Some ''captured-arguments'' else None))"

definition policyGrant :: "PendingRequestRecord \<Rightarrow> bool" where
  "policyGrant r \<longleftrightarrow> pq_kind r = ApprovalKind \<and> pq_resolution r = Some Granted
     \<and> pq_decidingActor r = Some (PendingSystem ''nanocore-repo-push-policy'')"

fun actorId :: "PendingRequestActor \<Rightarrow> string" where
  "actorId (PendingUser i) = i"
| "actorId (PendingSystem i) = i"

definition resolutionActorFailure :: "PendingRequestRecord \<Rightarrow> string option" where
  "resolutionActorFailure r =
    (if (case pq_decidingActorContext r of
           None \<Rightarrow> False
         | Some context \<Rightarrow> memberOf context ''userId''
             \<noteq> (case pq_decidingActor r of None \<Rightarrow> JUndefined | Some a \<Rightarrow> JStr (actorId a)))
       then Some ''deciding-credential-actor''
     else if pq_resolution r \<noteq> None
         \<and> (truthy (pq_decidedAt r) = None
            \<or> (case pq_decidingActor r of
                 None \<Rightarrow> True
               | Some a \<Rightarrow> \<not> policyGrant r
                   \<and> (case a of PendingSystem _ \<Rightarrow> True
                      | PendingUser u \<Rightarrow> u = [] \<or> u \<noteq> pq_responsibleUserId r \<and> pq_decidingActorContext r = None)))
       then Some ''resolution-actor''
     else None)"

text \<open>The content of an answer. Reading a member of a null question throws; a text without content after \<^verbatim>\<open>trim\<close>
  is all white space.\<close>

definition blank :: "string \<Rightarrow> bool" where
  "blank s \<longleftrightarrow> list_all (\<lambda>c. of_char c \<in> {9, 10, 11, 12, 13, 32, 160 :: nat}) s"

fun truthyValue :: "JsValue \<Rightarrow> bool" where
  "truthyValue (JBool b) = b"
| "truthyValue (JNum n) = (n \<noteq> 0)"
| "truthyValue (JStr s) = (s \<noteq> [])"
| "truthyValue (JArr vs) = True"
| "truthyValue (JObj ms) = True"
| "truthyValue _ = False"

fun elementsOf :: "JsValue option \<Rightarrow> JsValue list" where
  "elementsOf (Some (JArr vs)) = vs"
| "elementsOf _ = []"

fun validAnswer :: "JsValue \<Rightarrow> bool" where
  "validAnswer (JArr [JStr s]) = (\<not> blank s)"
| "validAnswer _ = False"

definition answerFailure :: "PendingRequestRecord \<Rightarrow> string option result" where
  "answerFailure r =
    (if pq_resolution r \<noteq> Some Answered then Inr None
     else let questions = elementsOf (pq_questions r); ids = map (\<lambda>q. memberOf q ''id'') questions in
       bindE (ensure (JNull \<notin> set questions \<and> JUndefined \<notin> set questions) ''Cannot read properties of null'') (\<lambda>_.
       Inr (case pq_answerMap r of
          Some (JObj answers) \<Rightarrow>
            if distinct ids \<and> ids \<noteq> [] \<and> length (remdups (map fst answers)) = length ids
              \<and> list_all (\<lambda>i. case i of JStr k \<Rightarrow> validAnswer (memberOf (JObj answers) k) | _ \<Rightarrow> False) ids
              \<and> \<not> list_ex (\<lambda>q. truthyValue (memberOf q ''isSecret'')) questions
            then None else Some ''answer-content''
        | _ \<Rightarrow> Some ''answer-content'')))"

definition resolutionKindFailure :: "PendingRequestRecord \<Rightarrow> string option" where
  "resolutionKindFailure r =
    (if (pq_kind r = ApprovalKind \<and> pq_resolution r = Some Answered)
       \<or> (pq_kind r = UserInputKind \<and> pq_resolution r \<noteq> None \<and> pq_resolution r \<noteq> Some Answered)
     then Some ''resolution-kind''
     else if pq_resolution r \<noteq> Some Answered \<and> pq_answerMap r \<noteq> None then Some ''answer-without-resolution''
     else None)"

definition combinationFailure :: "PendingRequestRecord \<Rightarrow> string option" where
  "combinationFailure r =
    (if pq_ending r \<noteq> None \<and> (pq_endingActor r = None \<or> truthy (pq_endedAt r) = None
         \<or> (pq_ending r = Some Invalidated \<and> truthy (pq_invalidatingEvent r) = None)) then Some ''ending-content''
     else if pq_state r = PendingState \<and> (pq_decidingActor r \<noteq> None \<or> truthy (pq_decidedAt r) \<noteq> None \<or> pq_endingActor r \<noteq> None
         \<or> truthy (pq_endedAt r) \<noteq> None \<or> pq_claim r \<noteq> Unclaimed \<or> truthy (pq_executionCallId r) \<noteq> None \<or> pq_delivery r \<noteq> Undelivered)
       then Some ''pending-combination''
     else if (pq_resolution r = Some Denied \<or> pq_resolution r = Some Answered) \<and> pq_claim r \<noteq> Unclaimed
       then Some ''unclaimed-resolution''
     else if pq_resolution r = Some Granted \<and> \<not> isCommandIntentApproval r \<and> \<not> policyGrant r \<and> pq_claim r = Unclaimed
         \<and> pq_disposition r \<noteq> Some DeniedNotExecuted then Some ''agent-grant-unclaimed''
     else if pq_claim r = Finished \<and> pq_disposition r \<notin> {Some ApprovedExecuted, Some ExecutionError, Some OutcomeUnknown}
       then Some ''finished-disposition''
     else if pq_claim r \<noteq> Unclaimed
         \<and> (pq_resolution r \<noteq> Some Granted \<or> map_option Inr (pq_executionCallId r) \<noteq> Some (executionCallIdForRequest (pq_requestId r)))
       then Some ''claim-association''
     else if \<not> isFinalOutcome r \<and> pq_delivery r \<noteq> Undelivered then Some ''not-ready-delivery''
     else None)"

definition stateFailure :: "PendingRequestRecord \<Rightarrow> string option" where
  "stateFailure r =
    (if pq_state r = PendingState \<and> (pq_resolution r \<noteq> None \<or> pq_ending r \<noteq> None \<or> pq_disposition r \<noteq> None)
       then Some ''pending-has-outcome''
     else if pq_state r = ResolvedState \<and> (pq_resolution r = None \<or> pq_ending r \<noteq> None) then Some ''resolution''
     else if pq_state r = EndedState \<and> (pq_ending r = None \<or> pq_resolution r \<noteq> None) then Some ''ending''
     else if pq_claim r = Claimed \<and> pq_disposition r \<noteq> None then Some ''claimed-finished''
     else if pq_claim r = Finished \<and> pq_disposition r = None then Some ''finished-without-disposition''
     else if pq_state r = EndedState \<and> pq_claim r \<noteq> Unclaimed then Some ''ended-claim''
     else if pq_delivery r \<in> {Frozen, Delivered, DeliveryUnknown} \<and> truthy (pq_deliveryTurnId r) = None then Some ''delivery-turn''
     else if pq_delivery r \<in> {Undelivered, ClosedOut} \<and> truthy (pq_deliveryTurnId r) \<noteq> None then Some ''delivery-turn''
     else if pq_delivery r \<in> {Frozen, Delivered} \<and> pq_publicationTurnId r = None then Some ''publication-phase''
     else None)"

definition closeoutFailure :: "PendingRequestRecord \<Rightarrow> string option" where
  "closeoutFailure r =
    (if truthy (pq_publicationTurnId r) = None \<and> pq_delivery r = ClosedOut then Some ''closeout-publication'' else None)"

end
