(* ===== verification/Pending_Invariant.thy ===== *)
theory Pending_Invariant
  imports Pending_Lifecycle
begin

text \<open>
  The life of one pending request as a transition system on its record, the operations of the ledger as steps of a table,
  and the refinement between them: every operation moves each row along the record's transitions and raises at most one
  new row. The invariants of records are then proved once per transition.
\<close>

section \<open>Transitions of a record\<close>

definition executed :: "PendingRequestDisposition \<Rightarrow> bool" where
  "executed d \<longleftrightarrow> d \<in> {ApprovedExecuted, ExecutionError, OutcomeUnknown}"

definition readableContext :: "JsValue option \<Rightarrow> bool" where
  "readableContext c \<longleftrightarrow> succeeds (parseDecisionContext (map_option jsonClone c))"

definition claimableGrant :: "PendingRequestRecord \<Rightarrow> bool" where
  "claimableGrant r \<longleftrightarrow> pq_state r = ResolvedState \<and> pq_resolution r = Some Granted \<and> pq_claim r = Unclaimed \<and> commandIntentRow r
     \<and> pq_disposition r = None"

inductive row_step :: "PendingRequestRecord \<Rightarrow> PendingRequestRecord \<Rightarrow> bool" where
  denied: "unclaimedPending r \<Longrightarrow> pq_kind r = ApprovalKind \<Longrightarrow> d \<in> {None, Some DeniedNotExecuted} \<Longrightarrow> readableContext c \<Longrightarrow>
    row_step r ((setDecision Denied a now c r)\<lparr>pq_claim := Unclaimed, pq_disposition := d, pq_dispositionReason := reason\<rparr>)"
| answered: "unclaimedPending r \<Longrightarrow> pq_kind r = UserInputKind \<Longrightarrow> readableContext c \<Longrightarrow>
    row_step r ((setDecision Answered a now c r)\<lparr>pq_answerMap := Some (JObj answers)\<rparr>)"
| ended: "unclaimedPending r \<Longrightarrow> now \<noteq> [] \<Longrightarrow> (ending = Invalidated \<longrightarrow> truthy event \<noteq> None) \<Longrightarrow>
    row_step r (r\<lparr>pq_state := EndedState, pq_ending := Some ending, pq_invalidatingEvent := event, pq_endingActor := Some a,
      pq_endedAt := Some now, pq_updatedAt := now\<rparr>)"
| refused: "unclaimedPending r \<Longrightarrow> pq_kind r = ApprovalKind \<Longrightarrow> readableContext c \<Longrightarrow>
    row_step r ((setDecision Granted a now c r)
      \<lparr>pq_claim := Unclaimed, pq_disposition := Some DeniedNotExecuted, pq_dispositionReason := Some why\<rparr>)"
| claimed: "unclaimedPending r \<Longrightarrow> pq_kind r = ApprovalKind \<Longrightarrow> readableContext c \<Longrightarrow>
    executionCallIdForRequest (pq_requestId r) = Inr callId \<Longrightarrow>
    row_step r ((setDecision Granted a now c r)\<lparr>pq_claim := Claimed, pq_executionCallId := Some callId\<rparr>)"
| granted: "unclaimedPending r \<Longrightarrow> isCommandIntentApproval r \<Longrightarrow> readableContext c \<Longrightarrow> row_step r (setDecision Granted a now c r)"
| consumed: "claimableGrant r \<Longrightarrow> executionCallIdForRequest (pq_requestId r) = Inr callId \<Longrightarrow>
    row_step r (r\<lparr>pq_claim := Claimed, pq_executionCallId := Some callId, pq_updatedAt := now\<rparr>)"
| revoked: "claimableGrant r \<Longrightarrow> turn = pq_invalidationTurnId r \<or> pq_invalidationTurnId r = None \<Longrightarrow>
    row_step r (r\<lparr>pq_disposition := Some DeniedNotExecuted, pq_dispositionReason := Some why, pq_invalidationTurnId := turn,
      pq_updatedAt := now\<rparr>)"
| finished: "unfinishedClaim r \<Longrightarrow> executed d \<Longrightarrow>
    row_step r (r\<lparr>pq_claim := Finished, pq_disposition := Some d, pq_dispositionReason := reason, pq_heldResult := held,
      pq_updatedAt := now\<rparr>)"
| frozen: "pq_delivery r = Undelivered \<Longrightarrow> isFinalOutcome r \<Longrightarrow> turnId \<noteq> [] \<Longrightarrow>
    row_step r (r\<lparr>pq_delivery := Frozen, pq_deliveryTurnId := Some turnId, pq_deliveryCause := Some cause,
      pq_publicationTurnId := orElse (pq_publicationTurnId r) (Some turnId), pq_updatedAt := now\<rparr>)"
| released: "pq_delivery r = Frozen \<Longrightarrow>
    row_step r (r\<lparr>pq_delivery := Undelivered, pq_deliveryTurnId := None, pq_deliveryCause := None, pq_updatedAt := now\<rparr>)"
| delivered: "pq_delivery r = Frozen \<Longrightarrow> d \<in> {Delivered, DeliveryUnknown} \<Longrightarrow>
    row_step r (r\<lparr>pq_delivery := d, pq_heldResult := held, pq_updatedAt := now\<rparr>)"
| closedOut: "pq_delivery r = Undelivered \<Longrightarrow> isFinalOutcome r \<Longrightarrow> turnId \<noteq> [] \<Longrightarrow>
    row_step r (r\<lparr>pq_delivery := ClosedOut, pq_publicationTurnId := orElse (pq_publicationTurnId r) (Some turnId), pq_updatedAt := now\<rparr>)"
| invalidation: "pq_invalidationTurnId r = None \<Longrightarrow> row_step r (r\<lparr>pq_invalidationTurnId := Some turnId, pq_updatedAt := now\<rparr>)"

section \<open>What every transition keeps\<close>

lemma intent_updates [simp]:
  "isCommandIntentApproval (pq_state_update f1 r) = isCommandIntentApproval r"
  "isCommandIntentApproval (pq_resolution_update f2 r) = isCommandIntentApproval r"
  "isCommandIntentApproval (pq_decidingActor_update f3 r) = isCommandIntentApproval r"
  "isCommandIntentApproval (pq_decidingActorContext_update f4 r) = isCommandIntentApproval r"
  "isCommandIntentApproval (pq_decidedAt_update f5 r) = isCommandIntentApproval r"
  "isCommandIntentApproval (pq_answerMap_update f6 r) = isCommandIntentApproval r"
  "isCommandIntentApproval (pq_ending_update f7 r) = isCommandIntentApproval r"
  "isCommandIntentApproval (pq_invalidatingEvent_update f8 r) = isCommandIntentApproval r"
  "isCommandIntentApproval (pq_endingActor_update f9 r) = isCommandIntentApproval r"
  "isCommandIntentApproval (pq_endedAt_update f10 r) = isCommandIntentApproval r"
  "isCommandIntentApproval (pq_claim_update f11 r) = isCommandIntentApproval r"
  "isCommandIntentApproval (pq_executionCallId_update f12 r) = isCommandIntentApproval r"
  "isCommandIntentApproval (pq_disposition_update f13 r) = isCommandIntentApproval r"
  "isCommandIntentApproval (pq_dispositionReason_update f14 r) = isCommandIntentApproval r"
  "isCommandIntentApproval (pq_heldResult_update f15 r) = isCommandIntentApproval r"
  "isCommandIntentApproval (pq_publicationTurnId_update f16 r) = isCommandIntentApproval r"
  "isCommandIntentApproval (pq_invalidationTurnId_update f17 r) = isCommandIntentApproval r"
  "isCommandIntentApproval (pq_delivery_update f18 r) = isCommandIntentApproval r"
  "isCommandIntentApproval (pq_deliveryTurnId_update f19 r) = isCommandIntentApproval r"
  "isCommandIntentApproval (pq_deliveryCause_update f20 r) = isCommandIntentApproval r"
  "isCommandIntentApproval (pq_updatedAt_update f21 r) = isCommandIntentApproval r"
  by (simp_all add: isCommandIntentApproval_def)

text \<open>The raised content.\<close>

definition raisedContent :: "PendingRequestRecord \<Rightarrow> PendingRequestRecord" where
  "raisedContent r =
    r\<lparr>pq_state := PendingState, pq_resolution := None, pq_decidingActor := None, pq_decidingActorContext := None,
      pq_decidedAt := None, pq_answerMap := None, pq_ending := None, pq_invalidatingEvent := None, pq_endingActor := None,
      pq_endedAt := None, pq_claim := Unclaimed, pq_executionCallId := None, pq_disposition := None,
      pq_dispositionReason := None, pq_heldResult := None, pq_publicationTurnId := None, pq_invalidationTurnId := None,
      pq_delivery := Undelivered, pq_deliveryTurnId := None, pq_deliveryCause := None, pq_updatedAt := pq_createdAt r\<rparr>"

text \<open>The decision or ending.\<close>

definition decisionContent :: "PendingRequestRecord \<Rightarrow> PendingRequestRecord" where
  "decisionContent r =
    r\<lparr>pq_claim := Unclaimed, pq_executionCallId := None, pq_disposition := None, pq_dispositionReason := None,
      pq_heldResult := None, pq_publicationTurnId := None, pq_invalidationTurnId := None, pq_delivery := Undelivered,
      pq_deliveryTurnId := None, pq_deliveryCause := None, pq_updatedAt := pq_createdAt r\<rparr>"

lemma step_raised: "row_step r r' \<Longrightarrow> raisedContent r' = raisedContent r"
  by (induction rule: row_step.induct) (simp_all add: raisedContent_def setDecision_def)

lemma step_decided: "row_step r r' \<Longrightarrow> pq_state r \<noteq> PendingState \<Longrightarrow> decisionContent r' = decisionContent r"
  by (induction rule: row_step.induct) (simp_all add: decisionContent_def unclaimedPending_def)

section \<open>Canonical records\<close>

definition canonicalRecord :: "PendingRequestRecord \<Rightarrow> bool" where
  "canonicalRecord r \<longleftrightarrow> resolutionKindFailure r = None \<and> combinationFailure r = None \<and> stateFailure r = None \<and> closeoutFailure r = None"

text \<open>
  The invariant behind the canonical load: what the lifecycle columns of a record say together.
\<close>

definition phase_ok :: "PendingRequestRecord \<Rightarrow> bool" where
  "phase_ok r \<longleftrightarrow>
    (pq_state r = PendingState \<longrightarrow> pq_decidingActor r = None \<and> pq_decidedAt r = None \<and> pq_endingActor r = None \<and> pq_endedAt r = None
       \<and> pq_claim r = Unclaimed \<and> pq_executionCallId r = None \<and> pq_disposition r = None \<and> pq_delivery r = Undelivered)
    \<and> (pq_state r = ResolvedState \<longleftrightarrow> pq_resolution r \<noteq> None)
    \<and> (pq_state r = EndedState \<longleftrightarrow> pq_ending r \<noteq> None)
    \<and> (pq_state r = EndedState \<longrightarrow> pq_endingActor r \<noteq> None \<and> truthy (pq_endedAt r) \<noteq> None)
    \<and> (pq_ending r = Some Invalidated \<longrightarrow> truthy (pq_invalidatingEvent r) \<noteq> None)
    \<and> (pq_resolution r = Some Answered \<longrightarrow> pq_kind r = UserInputKind)
    \<and> (pq_resolution r = Some Denied \<or> pq_resolution r = Some Granted \<longrightarrow> pq_kind r = ApprovalKind)
    \<and> (pq_resolution r \<noteq> Some Granted \<longrightarrow> pq_claim r = Unclaimed)
    \<and> (pq_resolution r = Some Granted \<and> pq_claim r = Unclaimed
         \<longrightarrow> pq_disposition r = Some DeniedNotExecuted \<or> isCommandIntentApproval r \<and> pq_disposition r = None)
    \<and> (pq_claim r = Claimed \<longrightarrow> pq_disposition r = None)
    \<and> (pq_claim r = Finished \<longrightarrow> (\<exists>d. pq_disposition r = Some d \<and> executed d))
    \<and> (pq_claim r \<noteq> Unclaimed \<longrightarrow> (\<exists>c. pq_executionCallId r = Some c \<and> executionCallIdForRequest (pq_requestId r) = Inr c))
    \<and> (pq_resolution r \<noteq> Some Answered \<longrightarrow> pq_answerMap r = None)"

definition delivery_ok :: "PendingRequestRecord \<Rightarrow> bool" where
  "delivery_ok r \<longleftrightarrow>
    (pq_delivery r \<noteq> Undelivered \<longrightarrow> pq_publicationTurnId r \<noteq> None)
    \<and> (pq_delivery r \<in> {Undelivered, ClosedOut} \<longrightarrow> pq_deliveryTurnId r = None)
    \<and> (pq_delivery r \<notin> {Undelivered, ClosedOut} \<longrightarrow> truthy (pq_deliveryTurnId r) \<noteq> None)
    \<and> pq_publicationTurnId r \<noteq> Some []"

definition record_ok :: "PendingRequestRecord \<Rightarrow> bool" where
  "record_ok r \<longleftrightarrow> phase_ok r \<and> delivery_ok r \<and> (pq_delivery r \<noteq> Undelivered \<longrightarrow> isFinalOutcome r)"

lemmas record_ok_defs = record_ok_def phase_ok_def delivery_ok_def

lemma truthy_None [simp]: "truthy None = None"
  by (simp add: truthy_def)

lemma truthy_None_iff: "truthy v = None \<longleftrightarrow> v = None \<or> v = Some []"
  by (cases v) (auto simp: truthy_def)

lemma record_ok_canonical: "record_ok r \<Longrightarrow> canonicalRecord r"
  unfolding canonicalRecord_def
proof (intro conjI)
  assume ok: "record_ok r"
  then have phase: "phase_ok r" and delivery: "delivery_ok r" and final: "pq_delivery r \<noteq> Undelivered \<longrightarrow> isFinalOutcome r"
    by (simp_all add: record_ok_def)
  show "resolutionKindFailure r = None" using phase
    by (cases "pq_resolution r"; cases "the (pq_resolution r)") (auto simp: phase_ok_def resolutionKindFailure_def)
  show "combinationFailure r = None" using phase final
    by (cases "pq_state r"; cases "pq_claim r") (auto simp: phase_ok_def combinationFailure_def executed_def)
  show "stateFailure r = None" using phase delivery
    by (cases "pq_state r"; cases "pq_claim r"; cases "pq_delivery r") (auto simp: phase_ok_def delivery_ok_def stateFailure_def)
  show "closeoutFailure r = None" using delivery by (auto simp: delivery_ok_def closeoutFailure_def truthy_None_iff)
qed

lemma inserted_ok: "record_ok (insertedRecord i)"
  by (simp add: record_ok_defs insertedRecord_def)

lemma isFinalOutcome_iff:
  "isFinalOutcome r \<longleftrightarrow> pq_state r = EndedState \<or> pq_state r = ResolvedState
     \<and> (pq_resolution r \<in> {Some Denied, Some Answered}
        \<or> pq_resolution r = Some Granted \<and> (isCommandIntentApproval r \<or> pq_disposition r \<noteq> None))"
  by (cases "pq_resolution r"; cases "the (pq_resolution r)") (auto simp: isFinalOutcome_def)

lemma final_not_pending: "isFinalOutcome r \<Longrightarrow> pq_state r \<noteq> PendingState"
  by (auto simp: isFinalOutcome_def)

lemma step_phase: "row_step r r' \<Longrightarrow> phase_ok r \<Longrightarrow> phase_ok r'"
proof (induction rule: row_step.induct)
  case (ended r now ending event a)
  then show ?case by (auto simp: phase_ok_def unclaimedPending_def truthy_def)
next
  case (consumed r callId now)
  then show ?case by (auto simp: phase_ok_def claimableGrant_def)
next
  case (revoked r turn why now)
  then show ?case by (auto simp: phase_ok_def claimableGrant_def)
next
  case (finished r d reason held now)
  then show ?case by (auto simp: phase_ok_def unfinishedClaim_def)
next
  case (granted r c a now)
  then show ?case by (simp add: phase_ok_def unclaimedPending_def setDecision_def isCommandIntentApproval_def)
next
  case (frozen r turnId cause now)
  from final_not_pending [OF this(2)] this(4) show ?case by (simp add: phase_ok_def)
next
  case (closedOut r turnId now)
  from final_not_pending [OF this(2)] this(4) show ?case by (simp add: phase_ok_def)
qed (simp_all add: phase_ok_def unclaimedPending_def setDecision_def)

lemma step_final: "row_step r r' \<Longrightarrow> isFinalOutcome r \<Longrightarrow> isFinalOutcome r'"
proof (induction rule: row_step.induct)
  case (finished r d reason held now)
  then show ?case by (auto simp: isFinalOutcome_iff)
qed (simp_all add: isFinalOutcome_iff unclaimedPending_def claimableGrant_def setDecision_def)

lemma step_delivers: "row_step r r' \<Longrightarrow> pq_delivery r' \<noteq> Undelivered \<Longrightarrow> pq_delivery r \<noteq> Undelivered \<or> isFinalOutcome r"
  by (induction rule: row_step.induct) (simp_all add: setDecision_def)

lemma step_delivery: "row_step r r' \<Longrightarrow> delivery_ok r \<Longrightarrow> delivery_ok r'"
proof (induction rule: row_step.induct)
  case (frozen r turnId cause now)
  then show ?case by (cases "pq_publicationTurnId r") (auto simp: delivery_ok_def truthy_def)
next
  case (closedOut r turnId now)
  then show ?case by (cases "pq_publicationTurnId r") (auto simp: delivery_ok_def)
qed (auto simp: delivery_ok_def setDecision_def)

lemma record_step_ok: "row_step r r' \<Longrightarrow> record_ok r \<Longrightarrow> record_ok r'"
  using step_phase step_delivery step_delivers step_final unfolding record_ok_def by blast

end
