(* ===== verification/Pending_History.thy ===== *)
theory Pending_History
  imports Pending_Invariant
begin

text \<open>
  Histories of the pending request ledger: the operations as steps of a table, and that each step moves every row along
  its transitions.
\<close>

section \<open>Rows and keys\<close>

definition keys :: "PendingTable \<Rightarrow> string list" where
  "keys table = map (pq_requestId \<circ> pr_record) table"

definition row_moves :: "PendingRequestRow \<Rightarrow> PendingRequestRow \<Rightarrow> bool" where
  "row_moves row row' \<longleftrightarrow> pr_schemaVersion row' = pr_schemaVersion row \<and> row_step\<^sup>*\<^sup>* (pr_record row) (pr_record row')"

definition moves :: "PendingTable \<Rightarrow> PendingTable \<Rightarrow> bool" where
  "moves table table' \<longleftrightarrow> list_all2 row_moves table table'"

lemma moves_refl [simp]: "moves t t"
  by (simp add: moves_def row_moves_def list_all2_refl)

lemma moves_trans: "moves s t \<Longrightarrow> moves t u \<Longrightarrow> moves s u"
  unfolding moves_def by (rule list_all2_trans) (auto simp: row_moves_def)

lemma steps_raised: "row_step\<^sup>*\<^sup>* r r' \<Longrightarrow> raisedContent r' = raisedContent r"
  by (induction rule: rtranclp_induct) (simp_all add: step_raised)

lemma raised_fields:
  assumes "raisedContent r' = raisedContent r"
  shows "pq_requestId r' = pq_requestId r" "pq_workspaceId r' = pq_workspaceId r" "pq_threadId r' = pq_threadId r"
    "pq_kind r' = pq_kind r" "pq_createdAt r' = pq_createdAt r"
  using arg_cong [OF assms, of pq_requestId] arg_cong [OF assms, of pq_workspaceId] arg_cong [OF assms, of pq_threadId]
    arg_cong [OF assms, of pq_kind] arg_cong [OF assms, of pq_createdAt]
  by (simp_all add: raisedContent_def)

lemma moves_keys: "moves s t \<Longrightarrow> keys t = keys s"
proof -
  assume "moves s t"
  then have "list_all2 (\<lambda>r r'. (pq_requestId \<circ> pr_record) r = (pq_requestId \<circ> pr_record) r') s t"
    unfolding moves_def by (rule list_all2_mono) (simp add: row_moves_def, metis steps_raised raised_fields(1))
  then show ?thesis by (auto simp: keys_def list_all2_conv_all_nth intro!: nth_equalityI)
qed

lemma moves_row: "moves s t \<Longrightarrow> row' \<in> set t \<Longrightarrow> \<exists>row\<in>set s. row_moves row row'"
  unfolding moves_def list_all2_conv_all_nth in_set_conv_nth by (metis nth_mem)

lemma updateWhere_moves:
  assumes "\<And>row. row \<in> set t \<Longrightarrow> p (pr_record row) \<Longrightarrow> row_step (pr_record row) (f (pr_record row))"
  shows "moves t (updateWhere p f t)"
  using assms by (auto simp: moves_def updateWhere_def list_all2_conv_all_nth row_moves_def)

lemma keys_updateWhere: "(\<And>r. pq_requestId (f r) = pq_requestId r) \<Longrightarrow> keys (updateWhere p f t) = keys t"
  by (auto simp: keys_def updateWhere_def)

section \<open>Reading a row\<close>

lemma parse_record:
  assumes "parsePendingRequestRow row = Inr r"
  obtains c where "r = (pr_record row)\<lparr>pq_decidingActorContext := c\<rparr>"
  using assms by (auto simp: parsePendingRequestRow_def readRetainedV1_def Let_def bindE_Inr_iff)

lemma final_context [simp]: "isFinalOutcome (r\<lparr>pq_decidingActorContext := c\<rparr>) = isFinalOutcome r"
  by (simp add: isFinalOutcome_def)

lemma key_unique: "distinct (keys t) \<Longrightarrow> row \<in> set t \<Longrightarrow> row' \<in> set t \<Longrightarrow>
    pq_requestId (pr_record row) = pq_requestId (pr_record row') \<Longrightarrow> row = row'"
  by (auto simp: keys_def distinct_map inj_on_def)

lemma read_Some:
  assumes "distinct (keys t)" "readPendingRequest t i = Inr (Some r)" "row \<in> set t" "pq_requestId (pr_record row) = i"
  shows "parsePendingRequestRow row = Inr r"
proof -
  obtain row' where row': "List.find (\<lambda>row. pq_requestId (pr_record row) = i) t = Some row'"
    using assms(2) by (auto simp: readPendingRequest_def split: option.splits)
  then have "row' \<in> set t" "pq_requestId (pr_record row') = i" by (auto simp: find_Some_iff)
  then have "row' = row" using key_unique [OF assms(1)] assms(3,4) by metis
  then show ?thesis using assms(2) row' by (auto simp: readPendingRequest_def bindE_Inr_iff)
qed

lemma read_None: "readPendingRequest t i = Inr None \<Longrightarrow> row \<in> set t \<Longrightarrow> pq_requestId (pr_record row) \<noteq> i"
  by (auto simp: readPendingRequest_def bindE_Inr_iff find_None_iff split: option.splits)

lemma read_row: "distinct (keys t) \<Longrightarrow> row \<in> set t \<Longrightarrow>
    readPendingRequest t (pq_requestId (pr_record row)) = bindE (parsePendingRequestRow row) (\<lambda>r. Inr (Some r))"
proof -
  assume t: "distinct (keys t)" and row: "row \<in> set t"
  obtain row' where row': "List.find (\<lambda>r. pq_requestId (pr_record r) = pq_requestId (pr_record row)) t = Some row'"
    using row by (metis (mono_tags, lifting) find_None_iff option.exhaust)
  then have "row' \<in> set t" "pq_requestId (pr_record row') = pq_requestId (pr_record row)" by (auto simp: find_Some_iff)
  then have "row' = row" using key_unique [OF t] row by metis
  then show ?thesis by (simp add: readPendingRequest_def row')
qed

lemma stored_row:
  assumes "distinct (keys t)" "readPendingRequest t i = Inr s" "row \<in> set t" "pq_requestId (pr_record row) = i"
  obtains c where "orDefault s d = (pr_record row)\<lparr>pq_decidingActorContext := c\<rparr>" "s = Some (orDefault s d)"
proof (cases s)
  case None
  then show thesis using read_None assms(2-4) by simp
next
  case (Some r)
  from read_Some [OF assms(1) assms(2) [unfolded Some] assms(3,4)] show thesis
    by (rule parse_record) (use that in \<open>simp add: Some orDefault_def\<close>)
qed

section \<open>Compare and set\<close>

lemma compareAndSet_table:
  "compareAndSet t i p f = Inr (t', res) \<Longrightarrow> t' = updateWhere (\<lambda>r. pq_requestId r = i \<and> p r) f t"
  by (auto simp: compareAndSet_def Let_def bindE_Inr_iff split: if_splits)

lemma whenReadable_cases:
  assumes "whenReadable t i f = Inr (t', res)"
  obtains (missing) "t' = t" "res = None" "readPendingRequest t i = Inr None"
    | (found) r where "readPendingRequest t i = Inr (Some r)" "f r = Inr (t', res)"
proof -
  obtain s where s: "readPendingRequest t i = Inr s" "(case s of None \<Rightarrow> Inr (t, None) | Some r \<Rightarrow> f r) = Inr (t', res)"
    using assms by (auto simp: whenReadable_def bindE_Inr_iff)
  then show thesis using missing found by (cases s) auto
qed

lemma compareAndSet_moves:
  assumes "whenReadable t i (\<lambda>_. compareAndSet t i p f) = Inr (t', res)"
    and "\<And>row. row \<in> set t \<Longrightarrow> pq_requestId (pr_record row) = i \<Longrightarrow> p (pr_record row) \<Longrightarrow> row_step (pr_record row) (f (pr_record row))"
  shows "moves t t'"
  using assms(1)
proof (cases rule: whenReadable_cases)
  case (found r)
  from compareAndSet_table [OF found(2)] show ?thesis by (auto intro!: updateWhere_moves assms(2))
qed simp

end
