(* ===== verification/Pending_Refinement.thy ===== *)
theory Pending_Refinement
  imports Pending_History
begin

text \<open>
  Every operation of the ledger moves the rows of its table along the transitions of a record, and a history of
  operations keeps every record canonical.
\<close>

section \<open>Decisions and executions\<close>

lemma end_moves:
  assumes "endPendingRequest t i ending event a now = Inr (t', res)" "now \<noteq> []" "ending = Invalidated \<longrightarrow> truthy event \<noteq> None"
  shows "moves t t'"
  using assms(1) unfolding endPendingRequest_def
  by (rule compareAndSet_moves) (use assms(2,3) in \<open>auto intro: row_step.ended\<close>)

lemma deny_moves:
  assumes "distinct (keys t)" "denyPendingRequest t i a now c = Inr (t', res)" "readableContext c"
    and "\<And>r. readPendingRequest t i = Inr (Some r) \<Longrightarrow> pq_kind r = ApprovalKind"
  shows "moves t t'"
  using assms(2) unfolding denyPendingRequest_def
proof (cases rule: whenReadable_cases)
  case (found r)
  show ?thesis
  proof (cases "unclaimedPending r")
    case True
    from found(2) True compareAndSet_table have t': "t' = updateWhere (\<lambda>r. pq_requestId r = i \<and> unclaimedPending r) (\<lambda>s.
        (setDecision Denied a now c s)\<lparr>pq_claim := Unclaimed,
          pq_disposition := (if pq_kind r = ApprovalKind \<and> pq_serverId r \<noteq> None then Some DeniedNotExecuted else None),
          pq_dispositionReason := (if pq_kind r = ApprovalKind \<and> pq_serverId r \<noteq> None then Some ''denied'' else None)\<rparr>) t"
      by (simp add: Let_def)
    show ?thesis unfolding t'
    proof (rule updateWhere_moves)
      fix row assume row: "row \<in> set t" "pq_requestId (pr_record row) = i \<and> unclaimedPending (pr_record row)"
      obtain d where "r = (pr_record row)\<lparr>pq_decidingActorContext := d\<rparr>"
        using read_Some [OF assms(1) found(1) row(1)] row(2) parse_record by blast
      then have "pq_kind (pr_record row) = ApprovalKind" using assms(4) [OF found(1)] by simp
      then show "row_step (pr_record row) ((setDecision Denied a now c (pr_record row))\<lparr>pq_claim := Unclaimed,
          pq_disposition := (if pq_kind r = ApprovalKind \<and> pq_serverId r \<noteq> None then Some DeniedNotExecuted else None),
          pq_dispositionReason := (if pq_kind r = ApprovalKind \<and> pq_serverId r \<noteq> None then Some ''denied'' else None)\<rparr>)"
        using row(2) assms(3) by (intro row_step.denied) auto
    qed
  qed (use found(2) in simp)
qed simp

lemma answer_moves:
  "answerPendingRequest t i a answers now c = Inr (t', res) \<Longrightarrow> readableContext c \<Longrightarrow> moves t t'"
  unfolding answerPendingRequest_def by (erule compareAndSet_moves) (auto intro: row_step.answered)

lemma grant_moves:
  assumes "distinct (keys t)" "grantCommandIntentRequest t i a now c = Inr (t', res)" "readableContext c"
    and "\<And>r. readPendingRequest t i = Inr (Some r) \<Longrightarrow> isCommandIntentApproval r"
  shows "moves t t'"
  using assms(2) unfolding grantCommandIntentRequest_def
proof (cases rule: whenReadable_cases)
  case (found r)
  have "isCommandIntentApproval (pr_record row)" if row: "row \<in> set t" "pq_requestId (pr_record row) = i" for row
  proof -
    obtain d where "r = (pr_record row)\<lparr>pq_decidingActorContext := d\<rparr>"
      using read_Some [OF assms(1) found(1) row] parse_record by blast
    then show ?thesis using assms(4) [OF found(1)] by simp
  qed
  then show ?thesis using compareAndSet_table [OF found(2)] assms(3)
    by (auto intro!: updateWhere_moves intro: row_step.granted)
qed simp

lemma consume_moves:
  assumes "claimCommandIntentGrant t i now = Inr (t', res)"
  shows "moves t t'"
  using assms unfolding claimCommandIntentGrant_def
proof (cases rule: whenReadable_cases)
  case (found r)
  then obtain callId where "executionCallIdForRequest i = Inr callId"
    and "compareAndSet t i (\<lambda>r. pq_state r = ResolvedState \<and> pq_resolution r = Some Granted \<and> pq_claim r = Unclaimed \<and> commandIntentRow r
          \<and> pq_disposition r = None) (\<lambda>r. r\<lparr>pq_claim := Claimed, pq_executionCallId := Some callId, pq_updatedAt := now\<rparr>) = Inr (t', res)"
    by (auto simp: bindE_Inr_iff)
  then show ?thesis
    by (auto dest!: compareAndSet_table intro!: updateWhere_moves row_step.consumed simp: claimableGrant_def)
qed simp

lemma same_invalidation: "r\<lparr>pq_disposition := d, pq_dispositionReason := x, pq_updatedAt := now\<rparr>
    = r\<lparr>pq_disposition := d, pq_dispositionReason := x, pq_invalidationTurnId := pq_invalidationTurnId r, pq_updatedAt := now\<rparr>"
  by simp

lemma revoke_moves: "refuseCommandIntentGrant t i reason now = Inr (t', res) \<Longrightarrow> moves t t'"
  unfolding refuseCommandIntentGrant_def
  by (erule compareAndSet_moves, subst same_invalidation, rule row_step.revoked) (auto simp: claimableGrant_def)

lemma finish_moves: "finishPendingExecution t i d reason held now = Inr (t', res) \<Longrightarrow> executed d \<Longrightarrow> moves t t'"
  unfolding finishPendingExecution_def by (erule compareAndSet_moves) (auto intro: row_step.finished)

lemma claim_moves:
  assumes "distinct (keys t)" "claimOrRefuseGrant t i a now e c = Inr (t', applied, res)" "readableContext c" "now \<noteq> []"
    and "\<And>event b. e = EndOutcome event b \<Longrightarrow> event \<noteq> []"
    and "\<And>r. readPendingRequest t i = Inr (Some r) \<Longrightarrow> pq_kind r = ApprovalKind"
  shows "moves t t'"
proof -
  obtain r where r: "readPendingRequest t i = Inr (Some r)"
    using assms(2) by (auto simp: claimOrRefuseGrant_def bindE_Inr_iff split: option.splits)
  have kind: "pq_kind (pr_record row) = ApprovalKind" if row: "row \<in> set t" "pq_requestId (pr_record row) = i" for row
  proof -
    obtain d where "r = (pr_record row)\<lparr>pq_decidingActorContext := d\<rparr>" using read_Some [OF assms(1) r row] parse_record by blast
    then show ?thesis using assms(6) [OF r] by simp
  qed
  show ?thesis
  proof (cases "unclaimedPending r")
    case False
    then show ?thesis using assms(2) r by (simp add: claimOrRefuseGrant_def)
  next
    case True
    show ?thesis
    proof (cases e)
      case ClaimOutcome
      then obtain callId where "executionCallIdForRequest i = Inr callId"
        and t': "t' = updateWhere (\<lambda>r. pq_requestId r = i \<and> unclaimedPending r) (\<lambda>r.
          (setDecision Granted a now c r)\<lparr>pq_claim := Claimed, pq_executionCallId := Some callId\<rparr>) t"
        using assms(2) r True by (auto simp: claimOrRefuseGrant_def Let_def bindE_Inr_iff)
      then show ?thesis unfolding t' using assms(3) kind by (intro updateWhere_moves row_step.claimed) auto
    next
      case (RefuseOutcome reason)
      then have t': "t' = updateWhere (\<lambda>r. pq_requestId r = i \<and> unclaimedPending r) (\<lambda>r.
          (setDecision Granted a now c r)\<lparr>pq_claim := Unclaimed, pq_disposition := Some DeniedNotExecuted, pq_dispositionReason := Some reason\<rparr>) t"
        using assms(2) r True by (auto simp: claimOrRefuseGrant_def Let_def bindE_Inr_iff)
      then show ?thesis unfolding t' using assms(3) kind by (intro updateWhere_moves row_step.refused) auto
    next
      case (EndOutcome event b)
      then obtain ended where "endPendingRequest t i Invalidated (Some event) b now = Inr (t', ended)"
        using assms(2) r True by (auto simp: claimOrRefuseGrant_def Let_def bindE_Inr_iff split: option.splits)
      then show ?thesis using end_moves assms(4,5) EndOutcome by (auto simp: truthy_def)
    qed
  qed
qed

section \<open>Batches\<close>

text \<open>Updates of single requests, none of which applies twice, are one update of all of them.\<close>

lemma fold_updateWhere:
  assumes "\<And>r. pq_requestId (f r) = pq_requestId r" "\<And>r. \<not> p (f r)"
  shows "fold (\<lambda>s. updateWhere (\<lambda>r. pq_requestId r = k s \<and> p r) f) xs t = updateWhere (\<lambda>r. pq_requestId r \<in> k ` set xs \<and> p r) f t"
proof (induction xs arbitrary: t)
  case Nil
  then show ?case by (simp add: updateWhere_def)
next
  case (Cons x xs)
  show ?case unfolding fold_Cons comp_def Cons.IH by (auto simp: updateWhere_def assms)
qed

lemma batch_moves:
  assumes "\<And>r. pq_requestId (f r) = pq_requestId r" "\<And>r. \<not> p (f r)"
    and "\<And>row s. row \<in> set t \<Longrightarrow> s \<in> set xs \<Longrightarrow> pq_requestId (pr_record row) = k s \<Longrightarrow> p (pr_record row) \<Longrightarrow>
      row_step (pr_record row) (f (pr_record row))"
  shows "moves t (fold (\<lambda>s. updateWhere (\<lambda>r. pq_requestId r = k s \<and> p r) f) xs t)"
  unfolding fold_updateWhere [where f = f and p = p, OF assms(1,2)] using assms(3) by (auto intro!: updateWhere_moves)

definition settled :: "string \<Rightarrow> PendingRequestRecord \<Rightarrow> PendingRequestRecord" where
  "settled now s = s\<lparr>pq_claim := Finished, pq_disposition := Some OutcomeUnknown, pq_dispositionReason := Some ''restart'', pq_updatedAt := now\<rparr>"

lemma settle_fold:
  "fst (fold (settleRow now usable) rows (t, n))
    = fold (\<lambda>s. updateWhere (\<lambda>r. pq_requestId r = pq_requestId s \<and> unfinishedClaim r) (settled now)) (filter usable (readableRows rows)) t"
proof (induction rows arbitrary: t n)
  case Nil
  then show ?case by (simp add: readableRows_def List.map_filter_def)
next
  case (Cons row rows)
  have "settled now = (\<lambda>s. s\<lparr>pq_claim := Finished, pq_disposition := Some OutcomeUnknown,
      pq_dispositionReason := Some ''restart'', pq_updatedAt := now\<rparr>)" by (rule ext) (simp add: settled_def)
  then show ?case using Cons.IH
    by (cases "parsePendingRequestRow row") (simp_all add: settleRow_def Let_def readableRows_def List.map_filter_def)
qed

lemma settle_update:
  "fst (settleUnfinishedClaims t now usable)
    = updateWhere (\<lambda>r. pq_requestId r \<in> pq_requestId ` set (filter usable (readableRows (filter (unfinishedClaim \<circ> pr_record) t)))
        \<and> unfinishedClaim r) (settled now) t"
  unfolding settleUnfinishedClaims_def settle_fold by (rule fold_updateWhere) (simp_all add: settled_def unfinishedClaim_def)

lemma settle_moves: "moves t (fst (settleUnfinishedClaims t now usable))"
proof -
  have "row_step r (settled now r)" if "unfinishedClaim r" for r
    using row_step.finished [OF that, where d = OutcomeUnknown and reason = "Some ''restart''" and held = "pq_heldResult r" and now = now]
    by (simp add: settled_def executed_def)
  then show ?thesis unfolding settle_update by (auto intro!: updateWhere_moves)
qed

section \<open>Delivery\<close>

lemma readableRows_in: "r \<in> set (readableRows rows) \<longleftrightarrow> (\<exists>row\<in>set rows. parsePendingRequestRow row = Inr r)"
  by (induction rows) (auto simp: readableRows_def List.map_filter_def split: sum.splits)

lemma set_followingRows: "set (followingRows rows after) \<subseteq> set rows"
  by (auto simp: followingRows_def split: option.splits)

lemma pages_in: "r \<in> set (concat (readThreadPendingRequestPages rows after)) \<Longrightarrow> \<exists>row\<in>set rows. parsePendingRequestRow row = Inr r"
proof (induction rows after rule: readThreadPendingRequestPages.induct)
  case (1 rows after)
  let ?page = "take 128 (followingRows rows after)"
  have page: "set ?page \<subseteq> set rows" using set_take_subset [of 128 "followingRows rows after"] set_followingRows by fastforce
  from "1.prems" have "r \<in> set (readableRows ?page)
      \<or> ?page \<noteq> [] \<and> \<not> length ?page < 128 \<and> r \<in> set (concat (readThreadPendingRequestPages rows (Some (creationKey (last ?page)))))"
    by (subst (asm) readThreadPendingRequestPages.simps) (auto simp: Let_def split: if_splits)
  then show ?case using "1.IH" page readableRows_in by blast
qed

lemma listed_row:
  assumes "r \<in> set (listThreadPendingRequests t ws th)"
  obtains row where "row \<in> set t" "parsePendingRequestRow row = Inr r" "pq_workspaceId r = ws" "pq_threadId r = th"
proof -
  obtain row where row: "row \<in> set (threadRows t ws th)" "parsePendingRequestRow row = Inr r"
    using pages_in [OF assms [unfolded listThreadPendingRequests_def]] by blast
  moreover obtain c where "r = (pr_record row)\<lparr>pq_decidingActorContext := c\<rparr>" using row(2) by (rule parse_record)
  ultimately show thesis using that by (auto simp: threadRows_def)
qed

text \<open>A record that was listed agrees with the row that carries its identity.\<close>

lemma listed_agrees:
  assumes "distinct (keys t)" "s \<in> set (listThreadPendingRequests t ws th)" "row \<in> set t" "pq_requestId (pr_record row) = pq_requestId s"
  obtains c where "s = (pr_record row)\<lparr>pq_decidingActorContext := c\<rparr>"
proof -
  obtain row' where row': "row' \<in> set t" "parsePendingRequestRow row' = Inr s" using assms(2) by (rule listed_row)
  obtain c where s: "s = (pr_record row')\<lparr>pq_decidingActorContext := c\<rparr>" using row'(2) by (rule parse_record)
  then have "row = row'" using key_unique [OF assms(1,3) row'(1)] assms(4) by simp
  then show thesis using s that by blast
qed

lemma selected_ready: "s \<in> set (selectReadyOutcomes records i) \<Longrightarrow> s \<in> set records \<and> isReadyOutcome s"
  unfolding selectReadyOutcomes_def Let_def by (drule in_set_takeD) auto

lemma freeze_moves:
  assumes "distinct (keys t)" "freezeReadyOutcomes t ws th turnId i now usable = Inr (t', res)" "turnId \<noteq> []"
  shows "moves t t'"
proof -
  let ?f = "\<lambda>r. r\<lparr>pq_delivery := Frozen, pq_deliveryTurnId := Some turnId, pq_deliveryCause := Some (sl_cause i),
      pq_publicationTurnId := orElse (pq_publicationTurnId r) (Some turnId), pq_updatedAt := now\<rparr>"
  let ?selected = "selectReadyOutcomes (filter usable (listThreadPendingRequests t ws th)) i"
  have t': "t' = fold (\<lambda>s. updateWhere (\<lambda>r. pq_requestId r = pq_requestId s \<and> pq_delivery r = Undelivered) ?f) ?selected t"
    using assms(2) by (auto simp: freezeReadyOutcomes_def Let_def bindE_Inr_iff)
  show ?thesis unfolding t'
  proof (rule batch_moves)
    fix row s assume row: "row \<in> set t" "s \<in> set ?selected" "pq_requestId (pr_record row) = pq_requestId s" "pq_delivery (pr_record row) = Undelivered"
    have listed: "s \<in> set (listThreadPendingRequests t ws th)" and ready: "isReadyOutcome s" using selected_ready [OF row(2)] by auto
    obtain c where "s = (pr_record row)\<lparr>pq_decidingActorContext := c\<rparr>" using listed_agrees [OF assms(1) listed row(1,3)] by blast
    then have "isFinalOutcome (pr_record row)" using ready by (simp add: isReadyOutcome_def split: if_splits)
    then show "row_step (pr_record row) (?f (pr_record row))" using row(4) assms(3) by (intro row_step.frozen)
  qed simp_all
qed

lemma release_moves: "releaseFrozenOutcomes t turnId now = Inr (t', res) \<Longrightarrow> moves t t'"
  by (auto simp: releaseFrozenOutcomes_def Let_def bindE_Inr_iff frozenBy_def intro!: updateWhere_moves row_step.released)

lemma deliver_moves: "moveFrozenDelivery t turnId d clear now = Inr (t', res) \<Longrightarrow> d \<in> {Delivered, DeliveryUnknown} \<Longrightarrow> moves t t'"
  by (auto simp: moveFrozenDelivery_def Let_def bindE_Inr_iff frozenBy_def intro!: updateWhere_moves row_step.delivered)

lemma associate_moves: "associateInvalidation t ids turnId now = Inr (t', res) \<Longrightarrow> moves t t'"
  by (auto simp: associateInvalidation_def bindE_Inr_iff intro!: batch_moves row_step.invalidation)

section \<open>Closeout\<close>

lemma closeoutEnd_moves:
  "closeoutEnd i event r t = Inr t' \<Longrightarrow> co_now i \<noteq> [] \<Longrightarrow> event \<noteq> [] \<Longrightarrow> moves t t'"
  by (auto simp: closeoutEnd_def bindE_Inr_iff truthy_def dest!: end_moves split: if_splits)

lemma closeoutRefuse_moves:
  assumes "distinct (keys t)" "readPendingRequest t (pq_requestId r) = Inr s" "current = orDefault s r" "pq_requestId current = pq_requestId r"
    and "\<And>row. row \<in> set t \<Longrightarrow> record_ok (pr_record row)"
  shows "moves t (closeoutRefuse i event current t)"
proof (cases "grantUnconsumed current")
  case True
  let ?f = "\<lambda>r. r\<lparr>pq_disposition := Some DeniedNotExecuted, pq_dispositionReason := Some event,
      pq_invalidationTurnId := orElse (pq_invalidationTurnId r) (Some (co_closeoutTurnId i)), pq_updatedAt := co_now i\<rparr>"
  have "row_step (pr_record row) (?f (pr_record row))" if row: "row \<in> set t" "pq_requestId (pr_record row) = pq_requestId r" for row
  proof -
    obtain c where "current = (pr_record row)\<lparr>pq_decidingActorContext := c\<rparr>"
      using stored_row [OF assms(1,2) row, of r] assms(3) by metis
    then have "claimableGrant (pr_record row)" using True assms(5) [OF row(1)]
      by (auto simp: grantUnconsumed_def claimableGrant_def commandIntentRow_def isCommandIntentApproval_def record_ok_def phase_ok_def)
    then show ?thesis by (intro row_step.revoked) (auto simp: orElse_def split: option.splits)
  qed
  then show ?thesis using True assms(4) by (auto simp: closeoutRefuse_def intro!: updateWhere_moves)
qed (simp add: closeoutRefuse_def)

lemma closeoutInvalidate_moves: "moves t (closeoutInvalidate i r t)"
  by (auto simp: closeoutInvalidate_def intro!: updateWhere_moves row_step.invalidation)

lemma closeoutDeliver_moves:
  assumes "distinct (keys t)" "closeoutDeliver i r t = Inr t'" "co_closeoutTurnId i \<noteq> []"
  shows "moves t t'"
proof (cases "t' = t")
  case False
  then obtain s where s: "readPendingRequest t (pq_requestId r) = Inr s" "isFinalOutcome (orDefault s r)"
    and t': "t' = updateWhere (\<lambda>s. pq_requestId s = pq_requestId r \<and> pq_delivery s = Undelivered) (\<lambda>r.
       r\<lparr>pq_delivery := ClosedOut, pq_publicationTurnId := orElse (pq_publicationTurnId r) (Some (co_closeoutTurnId i)), pq_updatedAt := co_now i\<rparr>) t"
    using assms(2) by (auto simp: closeoutDeliver_def orStored_def bindE_Inr_iff split: if_splits)
  have "isFinalOutcome (pr_record row)" if row: "row \<in> set t" "pq_requestId (pr_record row) = pq_requestId r" for row
    using stored_row [OF assms(1) s(1) row, of r] s(2) by (metis final_context)
  then show ?thesis unfolding t' using assms(3) by (auto intro!: updateWhere_moves row_step.closedOut)
qed simp

definition table_ok :: "PendingTable \<Rightarrow> bool" where
  "table_ok t \<longleftrightarrow> distinct (keys t) \<and> (\<forall>row\<in>set t. record_ok (pr_record row))"

lemma steps_record_ok: "row_step\<^sup>*\<^sup>* r r' \<Longrightarrow> record_ok r \<Longrightarrow> record_ok r'"
  by (induction rule: rtranclp_induct) (auto intro: record_step_ok)

lemma moves_ok:
  assumes "moves s t" "table_ok s"
  shows "table_ok t"
proof -
  have "record_ok (pr_record row')" if "row' \<in> set t" for row'
    using moves_row [OF assms(1) that] assms(2) steps_record_ok by (auto simp: table_ok_def row_moves_def)
  then show ?thesis using moves_keys [OF assms(1)] assms(2) by (simp add: table_ok_def)
qed

lemma read_id: "readPendingRequest t i = Inr (Some r) \<Longrightarrow> pq_requestId r = i"
  by (auto simp: readPendingRequest_def bindE_Inr_iff find_Some_iff split: option.splits elim!: parse_record)

lemma default_id: "readPendingRequest t (pq_requestId r) = Inr s \<Longrightarrow> pq_requestId (orDefault s r) = pq_requestId r"
  by (cases s) (auto simp: orDefault_def dest: read_id)

text \<open>The stages of the closeout of one record.\<close>

lemma closeoutRecord_stages:
  assumes "closeoutRecord i ev r t = Inr (t', published)"
  obtains t1 s current t2 v nxt t3 where "closeoutEnd i (ev r) r t = Inr t1" "readPendingRequest t1 (pq_requestId r) = Inr s"
    "current = orDefault s r" "t2 = closeoutRefuse i (ev r) current t1" "readPendingRequest t2 (pq_requestId r) = Inr v"
    "nxt = orDefault v current" "t3 = closeoutInvalidate i nxt t2" "closeoutDeliver i nxt t3 = Inr t'"
    "pq_requestId current = pq_requestId r" "pq_requestId nxt = pq_requestId r"
proof -
  from assms obtain t1 s v where parts: "closeoutEnd i (ev r) r t = Inr t1" "readPendingRequest t1 (pq_requestId r) = Inr s"
      "readPendingRequest (closeoutRefuse i (ev r) (orDefault s r) t1) (pq_requestId r) = Inr v"
      "closeoutDeliver i (orDefault v (orDefault s r)) (closeoutInvalidate i (orDefault v (orDefault s r)) (closeoutRefuse i (ev r) (orDefault s r) t1)) = Inr t'"
    by (auto simp: closeoutRecord_def Let_def bindE_Inr_iff orStored_def)
  have current: "pq_requestId (orDefault s r) = pq_requestId r" using parts(2) by (rule default_id)
  then have "pq_requestId (orDefault v (orDefault s r)) = pq_requestId r" using parts(3) default_id by metis
  then show thesis using that parts current by blast
qed

lemma closeoutRecord_moves:
  assumes "table_ok t" "closeoutRecord i ev r t = Inr (t', published)" "co_now i \<noteq> []" "co_closeoutTurnId i \<noteq> []" "ev r \<noteq> []"
  shows "moves t t'"
  using assms(2)
proof (rule closeoutRecord_stages)
  fix t1 s current t2 v nxt t3
  assume stages: "closeoutEnd i (ev r) r t = Inr t1" "readPendingRequest t1 (pq_requestId r) = Inr s" "current = orDefault s r"
    "t2 = closeoutRefuse i (ev r) current t1" "pq_requestId current = pq_requestId r"
    "t3 = closeoutInvalidate i nxt t2" "closeoutDeliver i nxt t3 = Inr t'"
  have 1: "moves t t1" using closeoutEnd_moves stages(1) assms(3,5) by blast
  have ok1: "table_ok t1" using moves_ok [OF 1 assms(1)] .
  have 2: "moves t1 t2" unfolding stages(4)
    by (rule closeoutRefuse_moves [OF _ stages(2,3,5)]) (use ok1 in \<open>auto simp: table_ok_def\<close>)
  have 3: "moves t2 t3" unfolding stages(6) by (rule closeoutInvalidate_moves)
  have "table_ok t3" using moves_ok moves_ok 2 3 ok1 by blast
  then have 4: "moves t3 t'" using closeoutDeliver_moves stages(7) assms(4) by (auto simp: table_ok_def)
  show ?thesis using 1 2 3 4 moves_trans by blast
qed

lemma closeoutRecords_moves:
  assumes "table_ok t" "closeoutRecords i ev rs t = Inr (t', published)" "co_now i \<noteq> []" "co_closeoutTurnId i \<noteq> []" "\<And>r. ev r \<noteq> []"
  shows "moves t t'"
  using assms(1,2)
proof (induction rs arbitrary: t published)
  case (Cons r rs)
  then obtain t1 p more where one: "closeoutRecord i ev r t = Inr (t1, p)" and rest: "closeoutRecords i ev rs t1 = Inr (t', more)"
    by (auto simp: bindE_Inr_iff)
  have 1: "moves t t1" using closeoutRecord_moves [OF Cons.prems(1) one assms(3,4,5)] .
  then show ?case using Cons.IH [OF moves_ok [OF 1 Cons.prems(1)] rest] moves_trans by blast
qed simp

lemma closeout_moves:
  "table_ok t \<Longrightarrow> applyPendingCloseout t i usable ev = Inr (t', published) \<Longrightarrow> co_now i \<noteq> [] \<Longrightarrow> co_closeoutTurnId i \<noteq> [] \<Longrightarrow>
    (\<And>r. ev r \<noteq> []) \<Longrightarrow> moves t t'"
  by (auto simp: applyPendingCloseout_def Let_def split: if_splits intro: closeoutRecords_moves)

lemma invalidateRows_moves:
  "invalidateRows p reason a now rows (t, n) = Inr (t', n') \<Longrightarrow> reason \<noteq> [] \<Longrightarrow> now \<noteq> [] \<Longrightarrow> moves t t'"
proof (induction rows arbitrary: t n)
  case (Cons row rows)
  then obtain r where r: "parsePendingRequestRow row = Inr r" by (auto simp: bindE_Inr_iff)
  show ?case
  proof (cases "p r")
    case True
    then obtain t1 m ended where "invalidatePendingRequest t (pq_requestId r) reason a now = Inr (t1, ended)"
      and rest: "invalidateRows p reason a now rows (t1, m) = Inr (t', n')"
      using Cons.prems(1) r by (auto simp: bindE_Inr_iff)
    then have "moves t t1" using end_moves Cons.prems(2,3) by (auto simp: invalidatePendingRequest_def truthy_def)
    then show ?thesis using Cons.IH [OF rest Cons.prems(2,3)] moves_trans by blast
  qed (use Cons r in simp)
qed simp

section \<open>Steps of a table\<close>

text \<open>
  Every operation that writes the table, with what its callers establish: a denial or a claim addresses an approval, a
  command grant a command intent (cases of \<^verbatim>\<open>applyControlPendingCommand\<close>), and the texts of the command schema are not empty.
  \<^verbatim>\<open>deletePendingRequest\<close>, which undoes a raise that was never visible and which no caller uses, is not a step.
\<close>

inductive pending_step :: "PendingTable \<Rightarrow> PendingTable \<Rightarrow> bool" where
  raise: "raisePendingRequest pt t i = Inr (t', r, created) \<Longrightarrow> pending_step t t'"
| deny: "denyPendingRequest t i a now c = Inr (t', res) \<Longrightarrow> readableContext c \<Longrightarrow>
    (\<And>r. readPendingRequest t i = Inr (Some r) \<Longrightarrow> pq_kind r = ApprovalKind) \<Longrightarrow> pending_step t t'"
| answer: "answerPendingRequest t i a answers now c = Inr (t', res) \<Longrightarrow> readableContext c \<Longrightarrow> pending_step t t'"
| withdraw: "withdrawPendingRequest t i a now = Inr (t', res) \<Longrightarrow> now \<noteq> [] \<Longrightarrow> pending_step t t'"
| invalidate: "invalidatePendingRequest t i event a now = Inr (t', res) \<Longrightarrow> now \<noteq> [] \<Longrightarrow> event \<noteq> [] \<Longrightarrow> pending_step t t'"
| claim: "claimOrRefuseGrant t i a now e c = Inr (t', applied, r) \<Longrightarrow> readableContext c \<Longrightarrow> now \<noteq> [] \<Longrightarrow>
    (\<And>event b. e = EndOutcome event b \<Longrightarrow> event \<noteq> []) \<Longrightarrow>
    (\<And>r. readPendingRequest t i = Inr (Some r) \<Longrightarrow> pq_kind r = ApprovalKind) \<Longrightarrow> pending_step t t'"
| grant: "grantCommandIntentRequest t i a now c = Inr (t', res) \<Longrightarrow> readableContext c \<Longrightarrow>
    (\<And>r. readPendingRequest t i = Inr (Some r) \<Longrightarrow> isCommandIntentApproval r) \<Longrightarrow> pending_step t t'"
| consume: "claimCommandIntentGrant t i now = Inr (t', res) \<Longrightarrow> pending_step t t'"
| revoke: "refuseCommandIntentGrant t i reason now = Inr (t', res) \<Longrightarrow> pending_step t t'"
| finish: "finishPendingExecution t i d reason held now = Inr (t', res) \<Longrightarrow> d \<noteq> DeniedNotExecuted \<Longrightarrow> pending_step t t'"
| settle: "settleUnfinishedClaims t now usable = (t', n) \<Longrightarrow> pending_step t t'"
| freeze: "freezeReadyOutcomes t ws th turnId s now usable = Inr (t', rs) \<Longrightarrow> turnId \<noteq> [] \<Longrightarrow> pending_step t t'"
| release: "releaseFrozenOutcomes t turnId now = Inr (t', rs) \<Longrightarrow> pending_step t t'"
| prove: "proveFrozenDelivery t turnId now = Inr (t', rs) \<Longrightarrow> pending_step t t'"
| unknown: "markFrozenDeliveryUnknown t turnId now = Inr (t', rs) \<Longrightarrow> pending_step t t'"
| closeout: "applyPendingCloseout t co usable ev = Inr (t', rs) \<Longrightarrow> co_now co \<noteq> [] \<Longrightarrow> co_closeoutTurnId co \<noteq> [] \<Longrightarrow>
    (\<And>r. ev r \<noteq> []) \<Longrightarrow> pending_step t t'"
| goal: "invalidateGoalPendingRequests t goalId reason a now plansOnly = Inr (t', n) \<Longrightarrow> reason \<noteq> [] \<Longrightarrow> now \<noteq> [] \<Longrightarrow> pending_step t t'"
| associate: "associateInvalidation t ids turnId now = Inr (t', rs) \<Longrightarrow> pending_step t t'"

text \<open>What raising does to a table.\<close>

definition raises :: "PendingTable \<Rightarrow> PendingTable \<Rightarrow> bool" where
  "raises t t' \<longleftrightarrow> (\<exists>i. t' = t @ [\<lparr>pr_schemaVersion = RETAINED_FORMAT_VERSION, pr_record = insertedRecord i\<rparr>]
    \<and> ri_requestId i \<notin> set (keys t) \<and> outstanding t (ri_workspaceId i) (ri_threadId i) < PENDING_REQUEST_BOUND
    \<and> succeeds (parsePendingRequestRow (last t')))"

lemma read_appended:
  "ri_requestId i \<notin> set (keys t) \<Longrightarrow> readPendingRequest (t @ [\<lparr>pr_schemaVersion = v, pr_record = insertedRecord i\<rparr>]) (ri_requestId i)
    = bindE (parsePendingRequestRow \<lparr>pr_schemaVersion = v, pr_record = insertedRecord i\<rparr>) (\<lambda>r. Inr (Some r))"
proof -
  assume new: "ri_requestId i \<notin> set (keys t)"
  have "List.find (\<lambda>row. pq_requestId (pr_record row) = ri_requestId i) t = None"
    using new by (auto simp: find_None_iff keys_def image_iff)
  then show ?thesis by (simp add: readPendingRequest_def find_append insertedRecord_def)
qed

lemma raise_effect:
  assumes "raisePendingRequest pt t i = Inr (t', r, created)"
  shows "\<not> created \<and> t' = t \<or> created \<and> raises t t'"
proof -
  obtain existing where e: "preflightPendingRequest pt t i = Inr existing"
    using assms by (auto simp: raisePendingRequest_def bindE_Inr_iff)
  show ?thesis
  proof (cases existing)
    case None
    have bound: "outstanding t (ri_workspaceId i) (ri_threadId i) < PENDING_REQUEST_BOUND"
      using e None by (auto simp: preflightPendingRequest_def Let_def bindE_Inr_iff ensure_Inr_iff split: option.splits if_splits)
    have new: "ri_requestId i \<notin> set (keys t)" and t': "t' = t @ [\<lparr>pr_schemaVersion = RETAINED_FORMAT_VERSION, pr_record = insertedRecord i\<rparr>]"
      and read: "readPendingRequest t' (ri_requestId i) = Inr (Some r)" and created
      using assms e None
      by (auto simp: raisePendingRequest_def insertPendingRequest_def bindE_Inr_iff ensure_Inr_iff keys_def image_image split: option.splits)
    have "succeeds (parsePendingRequestRow (last t'))"
      using read unfolding t' read_appended [OF new] by (auto simp: bindE_Inr_iff)
    then show ?thesis using bound new t' \<open>created\<close> unfolding raises_def by blast
  qed (use assms e in \<open>simp add: raisePendingRequest_def\<close>)
qed

text \<open>The refinement: a step moves rows along their transitions, or raises one row.\<close>

theorem pending_step_refines:
  assumes "pending_step t t'" "table_ok t"
  shows "moves t t' \<or> raises t t'"
proof -
  have keys: "distinct (keys t)" using assms(2) by (simp add: table_ok_def)
  from assms(1) show ?thesis
  proof cases
    case (raise pt i r created)
    then show ?thesis using raise_effect [OF raise] by auto
  next
    case (settle now usable n)
    then show ?thesis using settle_moves [of t now usable] by simp
  next
    case (finish i d reason held now res)
    then have "executed d" by (cases d) (auto simp: executed_def)
    then show ?thesis using finish(1) finish_moves by blast
  qed (auto simp: withdrawPendingRequest_def invalidatePendingRequest_def proveFrozenDelivery_def markFrozenDeliveryUnknown_def
      invalidateGoalPendingRequests_def truthy_def
      intro: deny_moves [OF keys] answer_moves end_moves claim_moves [OF keys] grant_moves [OF keys] consume_moves revoke_moves
      freeze_moves [OF keys] release_moves deliver_moves closeout_moves [OF assms(2)] invalidateRows_moves associate_moves)
qed

end
