(* ===== verification/Pending_Properties.thy ===== *)
theory Pending_Properties
  imports Pending_Refinement
begin

text \<open>
  What holds of every ledger that the operations can reach: records are readable and canonical, a Thread never waits for
  more requests than the bound, each step refines the life of a single record, a decision is final, and an approved call
  is claimed and finished once.
\<close>

section \<open>Readable rows\<close>

definition readableRecord :: "PendingRequestRecord \<Rightarrow> bool" where
  "readableRecord r \<longleftrightarrow> succeeds (parseDecisionContext (pq_decidingActorContext r)) \<and> succeeds (parseAnswerMap (pq_answerMap r))
     \<and> succeeds (parseObject (pq_authorizationContext r)) \<and> succeeds (parseObject (pq_governedIntent r))
     \<and> succeeds (parseQuestions (pq_questions r)) \<and> pred_option AssistantHandoffSchema (pq_assistantHandoff r)"

lemma parse_succeeds: "succeeds (parsePendingRequestRow row) \<longleftrightarrow> pr_schemaVersion row = RETAINED_FORMAT_VERSION \<and> readableRecord (pr_record row)"
  by (auto simp: succeeds_iff parsePendingRequestRow_def readRetainedV1_def Let_def bindE_Inr_iff ensure_Inr_iff readableRecord_def
      option.pred_set split: option.splits)

lemma step_readable: "row_step r r' \<Longrightarrow> readableRecord r \<Longrightarrow> readableRecord r'"
  by (induction rule: row_step.induct) (simp_all add: readableRecord_def setDecision_def readableContext_def parseAnswerMap_def)

lemma steps_readable: "row_step\<^sup>*\<^sup>* r r' \<Longrightarrow> readableRecord r \<Longrightarrow> readableRecord r'"
  by (induction rule: rtranclp_induct) (auto intro: step_readable)

section \<open>Reachable ledgers\<close>

definition pending_reachable :: "PendingTable \<Rightarrow> bool" where
  "pending_reachable t \<longleftrightarrow> pending_step\<^sup>*\<^sup>* [] t"

definition ledger_ok :: "PendingTable \<Rightarrow> bool" where
  "ledger_ok t \<longleftrightarrow> table_ok t \<and> (\<forall>row\<in>set t. succeeds (parsePendingRequestRow row))
     \<and> (\<forall>ws th. outstanding t ws th \<le> PENDING_REQUEST_BOUND)"

lemma step_pending: "row_step r r' \<Longrightarrow> pq_state r' = PendingState \<Longrightarrow> pq_state r = PendingState"
  by (induction rule: row_step.induct) (simp_all add: setDecision_def unclaimedPending_def)

lemma steps_pending: "row_step\<^sup>*\<^sup>* r r' \<Longrightarrow> pq_state r' = PendingState \<Longrightarrow> pq_state r = PendingState"
  by (induction rule: rtranclp_induct) (auto dest: step_pending)

lemma all2_filter_length:
  "list_all2 R xs ys \<Longrightarrow> (\<And>x y. R x y \<Longrightarrow> q y \<Longrightarrow> p x) \<Longrightarrow> length (filter q ys) \<le> length (filter p xs)"
  by (induction rule: list_all2_induct) (auto intro: le_SucI)

lemma waiting_state: "s \<notin> {ResolvedState, EndedState} \<longleftrightarrow> s = PendingState"
  by (cases s) auto

lemma moves_outstanding: "moves t t' \<Longrightarrow> outstanding t' ws th \<le> outstanding t ws th"
  unfolding moves_def outstanding_def waiting_state
  by (rule all2_filter_length, assumption)
    (auto simp: row_moves_def dest: steps_pending, (metis steps_raised raised_fields(2,3))+)

lemma raises_outstanding:
  "raises t t' \<Longrightarrow> \<forall>ws th. outstanding t ws th \<le> PENDING_REQUEST_BOUND \<Longrightarrow> outstanding t' ws th \<le> PENDING_REQUEST_BOUND"
  by (auto simp: raises_def outstanding_def insertedRecord_def)

lemma raises_ok: "raises t t' \<Longrightarrow> table_ok t \<Longrightarrow> table_ok t'"
  by (auto simp: raises_def table_ok_def keys_def inserted_ok) (simp add: insertedRecord_def)

lemma ledger_step:
  assumes "pending_step t t'" "ledger_ok t"
  shows "ledger_ok t'"
proof -
  have ok: "table_ok t" using assms(2) by (simp add: ledger_ok_def)
  from pending_step_refines [OF assms(1) ok] show ?thesis
  proof
    assume m: "moves t t'"
    have "succeeds (parsePendingRequestRow row')" if "row' \<in> set t'" for row'
      using moves_row [OF m that] assms(2) steps_readable by (auto simp: ledger_ok_def parse_succeeds row_moves_def)
    moreover have "outstanding t' ws th \<le> PENDING_REQUEST_BOUND" for ws th
      using moves_outstanding [OF m, of ws th] assms(2) order_trans unfolding ledger_ok_def by blast
    ultimately show ?thesis using moves_ok [OF m ok] by (simp add: ledger_ok_def)
  next
    assume r: "raises t t'"
    then have "succeeds (parsePendingRequestRow row')" if "row' \<in> set t'" for row'
      using that assms(2) by (auto simp: raises_def ledger_ok_def)
    then show ?thesis using raises_ok [OF r ok] raises_outstanding [OF r] assms(2) by (auto simp: ledger_ok_def)
  qed
qed

lemma ledger_steps: "pending_step\<^sup>*\<^sup>* s t \<Longrightarrow> ledger_ok s \<Longrightarrow> ledger_ok t"
  by (induction rule: rtranclp_induct) (auto intro: ledger_step)

lemma reachable_ledger: "pending_reachable t \<Longrightarrow> ledger_ok t"
  unfolding pending_reachable_def by (erule ledger_steps) (simp add: ledger_ok_def table_ok_def keys_def outstanding_def)

text \<open>No row is lost.\<close>

lemma row_moves_refl [simp]: "row_moves row row"
  by (simp add: row_moves_def)

lemma row_moves_trans: "row_moves a b \<Longrightarrow> row_moves b c \<Longrightarrow> row_moves a c"
  by (auto simp: row_moves_def)

lemma moves_forward: "moves s t \<Longrightarrow> row \<in> set s \<Longrightarrow> \<exists>row'\<in>set t. row_moves row row'"
  unfolding moves_def list_all2_conv_all_nth in_set_conv_nth by (metis nth_mem)

lemma step_forward: "pending_step s t \<Longrightarrow> ledger_ok s \<Longrightarrow> row \<in> set s \<Longrightarrow> \<exists>row'\<in>set t. row_moves row row'"
proof -
  assume step: "pending_step s t" and ok: "ledger_ok s" and row: "row \<in> set s"
  then have "moves s t \<or> raises s t" using pending_step_refines by (simp add: ledger_ok_def)
  moreover have "raises s t \<Longrightarrow> row \<in> set t" using row by (auto simp: raises_def)
  ultimately show ?thesis using moves_forward row row_moves_refl by blast
qed

lemma steps_forward: "pending_step\<^sup>*\<^sup>* s t \<Longrightarrow> ledger_ok s \<Longrightarrow> row \<in> set s \<Longrightarrow> \<exists>row'\<in>set t. row_moves row row'"
proof (induction rule: rtranclp_induct)
  case (step y z)
  then obtain row' where "row' \<in> set y" "row_moves row row'" by blast
  then show ?case using step_forward [OF step(2) ledger_steps [OF step(1,4)]] row_moves_trans by blast
qed (use row_moves_refl in blast)

section \<open>Records\<close>

lemma context_ok [simp]: "record_ok (r\<lparr>pq_decidingActorContext := c\<rparr>) = record_ok r"
  by (simp add: record_ok_def phase_ok_def delivery_ok_def)

lemma reachable_record:
  assumes "ledger_ok t" "row \<in> set t"
  obtains c where "parsePendingRequestRow row = Inr ((pr_record row)\<lparr>pq_decidingActorContext := c\<rparr>)" "record_ok (pr_record row)"
proof -
  obtain r where r: "parsePendingRequestRow row = Inr r" using assms by (auto simp: ledger_ok_def succeeds_iff)
  then obtain c where "r = (pr_record row)\<lparr>pq_decidingActorContext := c\<rparr>" by (rule parse_record)
  then show thesis using r assms that by (auto simp: ledger_ok_def table_ok_def)
qed

text \<open>C38: Whatever sequence of steps ran, no Thread of the ledger has more than sixteen outstanding requests.\<close>

theorem pending_bound:
  assumes "pending_reachable t"
  shows "outstanding t ws th \<le> 16"
  using reachable_ledger [OF assms] by (simp add: ledger_ok_def PENDING_REQUEST_BOUND_def)

text \<open>C13: Each step of a reachable ledger refines the life of a single record: every row moves along the transitions of its
  record and keeps its place, or exactly one row is added, for a new identity on a Thread below its bound.\<close>

theorem pending_ledger_refines:
  assumes "pending_reachable t" "pending_step t t'"
  shows "list_all2 (\<lambda>row row'. row_step\<^sup>*\<^sup>* (pr_record row) (pr_record row')) t t'
    \<or> (\<exists>i. t' = t @ [\<lparr>pr_schemaVersion = RETAINED_FORMAT_VERSION, pr_record = insertedRecord i\<rparr>]
         \<and> ri_requestId i \<notin> (pq_requestId \<circ> pr_record) ` set t \<and> outstanding t (ri_workspaceId i) (ri_threadId i) < PENDING_REQUEST_BOUND)"
proof -
  have "moves t t' \<or> raises t t'" using pending_step_refines assms(2) reachable_ledger [OF assms(1)] by (simp add: ledger_ok_def)
  then show ?thesis
  proof
    assume "moves t t'"
    then have "list_all2 (\<lambda>row row'. row_step\<^sup>*\<^sup>* (pr_record row) (pr_record row')) t t'"
      unfolding moves_def by (rule list_all2_mono) (simp add: row_moves_def)
    then show ?thesis ..
  qed (auto simp: raises_def keys_def)
qed

section \<open>Decisions\<close>

lemma steps_decided: "row_step\<^sup>*\<^sup>* r r' \<Longrightarrow> pq_state r \<noteq> PendingState \<Longrightarrow> decisionContent r' = decisionContent r"
proof (induction rule: rtranclp_induct)
  case (step y z)
  then have "pq_state y \<noteq> PendingState" using steps_pending by blast
  then show ?case using step step_decided by simp
qed simp

lemma decided_fields:
  assumes "decisionContent r' = decisionContent r"
  shows "pq_state r' = pq_state r" "pq_resolution r' = pq_resolution r" "pq_decidingActor r' = pq_decidingActor r"
    "pq_decidedAt r' = pq_decidedAt r" "pq_answerMap r' = pq_answerMap r" "pq_ending r' = pq_ending r"
    "pq_endingActor r' = pq_endingActor r" "pq_serverId r' = pq_serverId r" "pq_toolName r' = pq_toolName r"
    "pq_canonicalArgumentsJson r' = pq_canonicalArgumentsJson r" "pq_governedIntent r' = pq_governedIntent r" "pq_requestId r' = pq_requestId r"
  using arg_cong [OF assms, of pq_state] arg_cong [OF assms, of pq_resolution] arg_cong [OF assms, of pq_decidingActor]
    arg_cong [OF assms, of pq_decidedAt] arg_cong [OF assms, of pq_answerMap] arg_cong [OF assms, of pq_ending]
    arg_cong [OF assms, of pq_endingActor] arg_cong [OF assms, of pq_serverId] arg_cong [OF assms, of pq_toolName]
    arg_cong [OF assms, of pq_canonicalArgumentsJson] arg_cong [OF assms, of pq_governedIntent] arg_cong [OF assms, of pq_requestId]
  by (simp_all add: decisionContent_def)

section \<open>Canonical records\<close>

text \<open>Every row grew out of a raised record.\<close>

lemma steps_origin:
  "pending_step\<^sup>*\<^sup>* [] t \<Longrightarrow> row \<in> set t \<Longrightarrow> \<exists>i. row_step\<^sup>*\<^sup>* (insertedRecord i) (pr_record row)"
proof (induction arbitrary: row rule: rtranclp_induct)
  case (step t t')
  have "table_ok t" using reachable_ledger step(1) by (auto simp: pending_reachable_def ledger_ok_def)
  from pending_step_refines [OF step(2) this] show ?case
  proof
    assume "moves t t'"
    from moves_row [OF this step(4)] obtain earlier where "earlier \<in> set t" "row_moves earlier row" by blast
    with step(3) [of earlier] show ?thesis by (auto simp: row_moves_def intro: rtranclp_trans)
  next
    assume "raises t t'"
    then consider "row \<in> set t" | i where "pr_record row = insertedRecord i" using step(4) by (auto simp: raises_def)
    then show ?thesis using step(3) [of row] by cases auto
  qed
qed simp

text \<open>A record without a resolution carries no deciding credential.\<close>

lemma step_undecided:
  "row_step r r' \<Longrightarrow> (pq_resolution r = None \<longrightarrow> pq_decidingActorContext r = None) \<Longrightarrow>
    pq_resolution r' = None \<longrightarrow> pq_decidingActorContext r' = None"
  by (induction rule: row_step.induct) (simp_all add: setDecision_def)

lemma steps_undecided:
  "row_step\<^sup>*\<^sup>* r r' \<Longrightarrow> (pq_resolution r = None \<longrightarrow> pq_decidingActorContext r = None) \<Longrightarrow>
    pq_resolution r' = None \<longrightarrow> pq_decidingActorContext r' = None"
proof (induction rule: rtranclp_induct)
  case (step y z)
  from step_undecided [OF step(2) step(3) [OF step(4)]] show ?case .
qed

text \<open>What the checks of the parties and of the captured call read is the raised content; what the checks of the
  decision and of the answer read is fixed with the decision.\<close>

lemma raised_checks:
  "partiesFailure (raisedContent r) = partiesFailure r" "capturedFailure pt (raisedContent r) = capturedFailure pt r"
  by (simp_all add: raisedContent_def partiesFailure_def capturedFailure_def boundContext_def isCommandIntentApproval_def
      cong del: if_weak_cong option.case_cong_weak)

lemma decision_checks:
  "resolutionActorFailure ((decisionContent r)\<lparr>pq_decidingActorContext := c\<rparr>) = resolutionActorFailure (r\<lparr>pq_decidingActorContext := c\<rparr>)"
  "answerFailure ((decisionContent r)\<lparr>pq_decidingActorContext := c\<rparr>) = answerFailure (r\<lparr>pq_decidingActorContext := c\<rparr>)"
  by (simp_all add: decisionContent_def resolutionActorFailure_def answerFailure_def policyGrant_def
      cong del: if_weak_cong option.case_cong_weak PendingRequestActor.case_cong_weak)

lemma context_checks:
  "partiesFailure (r\<lparr>pq_decidingActorContext := c\<rparr>) = partiesFailure r" "capturedFailure pt (r\<lparr>pq_decidingActorContext := c\<rparr>) = capturedFailure pt r"
  by (simp_all add: partiesFailure_def capturedFailure_def boundContext_def isCommandIntentApproval_def
      cong del: if_weak_cong option.case_cong_weak)

lemma parse_context:
  assumes "parsePendingRequestRow row = Inr r"
  obtains c where "parseDecisionContext (pq_decidingActorContext (pr_record row)) = Inr c" "r = (pr_record row)\<lparr>pq_decidingActorContext := c\<rparr>"
  using assms by (auto simp: parsePendingRequestRow_def readRetainedV1_def Let_def bindE_Inr_iff split: if_splits)

lemma parse_context_none:
  assumes "parsePendingRequestRow row = Inr r" "pq_decidingActorContext (pr_record row) = None"
  shows "pq_decidingActorContext r = None"
proof -
  obtain c where c: "parseDecisionContext (pq_decidingActorContext (pr_record row)) = Inr c" "r = (pr_record row)\<lparr>pq_decidingActorContext := c\<rparr>"
    using parse_context [OF assms(1)] by blast
  then have "c = None" using assms(2) by (simp add: parseDecisionContext_def parseObject_def)
  with c(2) show ?thesis by simp
qed

lemma later_row:
  assumes "ledger_ok t" "pending_step\<^sup>*\<^sup>* t t'" "row \<in> set t" "row' \<in> set t'" "pq_requestId (pr_record row') = pq_requestId (pr_record row)"
  shows "row_moves row row'"
proof -
  obtain later where later: "later \<in> set t'" "row_moves row later" using steps_forward [OF assms(2,1,3)] by blast
  have "pq_requestId (pr_record later) = pq_requestId (pr_record row)"
    by (rule raised_fields(1), rule steps_raised) (use later(2) in \<open>simp add: row_moves_def\<close>)
  moreover have "distinct (map (pq_requestId \<circ> pr_record) t')"
    using ledger_steps [OF assms(2,1)] by (simp add: ledger_ok_def table_ok_def keys_def)
  ultimately have "later = row'" using assms(4,5) later(1) by (simp add: distinct_map inj_on_def)
  then show ?thesis using later(2) by simp
qed

lemma later_checks:
  assumes "row_moves row row'" "parsePendingRequestRow row = Inr r" "parsePendingRequestRow row' = Inr r'"
  shows "partiesFailure r' = partiesFailure r" "capturedFailure pt r' = capturedFailure pt r"
    "pq_state r \<noteq> PendingState \<Longrightarrow> resolutionActorFailure r' = resolutionActorFailure r \<and> answerFailure r' = answerFailure r"
proof -
  have steps: "row_step\<^sup>*\<^sup>* (pr_record row) (pr_record row')" using assms(1) by (simp add: row_moves_def)
  obtain c c' where r: "parseDecisionContext (pq_decidingActorContext (pr_record row)) = Inr c" "r = (pr_record row)\<lparr>pq_decidingActorContext := c\<rparr>"
      "parseDecisionContext (pq_decidingActorContext (pr_record row')) = Inr c'" "r' = (pr_record row')\<lparr>pq_decidingActorContext := c'\<rparr>"
    using parse_context [OF assms(2)] parse_context [OF assms(3)] by metis
  show "partiesFailure r' = partiesFailure r" "capturedFailure pt r' = capturedFailure pt r"
    unfolding r context_checks using steps_raised [OF steps] raised_checks by metis+
  assume "pq_state r \<noteq> PendingState"
  then have same: "decisionContent (pr_record row') = decisionContent (pr_record row)" using steps_decided [OF steps] r(2) by simp
  have "pq_decidingActorContext (pr_record row') = pq_decidingActorContext (pr_record row)"
    using arg_cong [OF same, of pq_decidingActorContext] by (simp add: decisionContent_def)
  then have "c' = c" using r(1,3) by simp
  then show "resolutionActorFailure r' = resolutionActorFailure r \<and> answerFailure r' = answerFailure r"
    unfolding r using same decision_checks by metis
qed

text \<open>C14: Every row of a ledger that the operations can reach is readable, and none of the checks of the canonical load
  on its lifecycle refuses it: the operations never leave a contradictory combination of state, resolution, ending, claim,
  disposition, delivery and publication. The remaining checks that read the record alone depend on what callers give, and the operations
  preserve their answer: those of the parties and of the captured call are fixed when the request is raised, those of
  the deciding actor and of the answer pass until a decision is made and are fixed with it. So a request that passed them
  when it was raised and when it was decided, where the dispatcher runs the load, passes them from then on.\<close>

theorem pending_records_canonical:
  assumes "pending_reachable t" "row \<in> set t"
  shows "\<exists>r. parsePendingRequestRow row = Inr r \<and> resolutionKindFailure r = None \<and> combinationFailure r = None
    \<and> stateFailure r = None \<and> closeoutFailure r = None
    \<and> (pq_resolution r = None \<longrightarrow> resolutionActorFailure r = None \<and> answerFailure r = Inr None)
    \<and> (\<forall>t' row'. pending_step\<^sup>*\<^sup>* t t' \<and> row' \<in> set t' \<and> pq_requestId (pr_record row') = pq_requestId r \<longrightarrow>
        (\<exists>r'. parsePendingRequestRow row' = Inr r' \<and> partiesFailure r' = partiesFailure r
          \<and> (\<forall>pt. capturedFailure pt r' = capturedFailure pt r)
          \<and> (pq_state r \<noteq> PendingState \<longrightarrow> resolutionActorFailure r' = resolutionActorFailure r \<and> answerFailure r' = answerFailure r)))"
proof -
  have ledger: "ledger_ok t" by (rule reachable_ledger [OF assms(1)])
  obtain c where parsed: "parsePendingRequestRow row = Inr ((pr_record row)\<lparr>pq_decidingActorContext := c\<rparr>)" and ok: "record_ok (pr_record row)"
    using reachable_record [OF ledger assms(2)] by blast
  let ?r = "(pr_record row)\<lparr>pq_decidingActorContext := c\<rparr>"
  have canonical: "canonicalRecord ?r" using ok by (intro record_ok_canonical) simp
  obtain i where origin: "row_step\<^sup>*\<^sup>* (insertedRecord i) (pr_record row)"
    using steps_origin assms unfolding pending_reachable_def by blast
  have "c = None" if "pq_resolution ?r = None"
  proof -
    have "pq_decidingActorContext (pr_record row) = None"
      using steps_undecided [OF origin] that by (simp add: insertedRecord_def)
    then have "pq_decidingActorContext ?r = None" using parse_context_none [OF parsed] by blast
    then show ?thesis by simp
  qed
  then have undecided: "resolutionActorFailure ?r = None \<and> answerFailure ?r = Inr None" if "pq_resolution ?r = None"
    using that by (simp add: resolutionActorFailure_def answerFailure_def)
  have "\<exists>r'. parsePendingRequestRow row' = Inr r' \<and> partiesFailure r' = partiesFailure ?r \<and> (\<forall>pt. capturedFailure pt r' = capturedFailure pt ?r)
      \<and> (pq_state ?r \<noteq> PendingState \<longrightarrow> resolutionActorFailure r' = resolutionActorFailure ?r \<and> answerFailure r' = answerFailure ?r)"
    if later: "pending_step\<^sup>*\<^sup>* t t'" "row' \<in> set t'" "pq_requestId (pr_record row') = pq_requestId ?r" for t' row'
  proof -
    have "row_moves row row'" using later_row [OF ledger later(1) assms(2) later(2)] later(3) by simp
    moreover obtain r' where "parsePendingRequestRow row' = Inr r'" using reachable_record [OF ledger_steps [OF later(1) ledger] later(2)] by blast
    ultimately show ?thesis using later_checks [OF _ parsed] by metis
  qed
  with parsed canonical undecided show ?thesis unfolding canonicalRecord_def
    by - (rule exI [of _ ?r], intro conjI allI impI, blast+)
qed

section \<open>Reading and changing a row\<close>

lemma read_reachable:
  assumes "ledger_ok t" "row \<in> set t"
  obtains c where "readPendingRequest t (pq_requestId (pr_record row)) = Inr (Some ((pr_record row)\<lparr>pq_decidingActorContext := c\<rparr>))"
proof -
  obtain c where "parsePendingRequestRow row = Inr ((pr_record row)\<lparr>pq_decidingActorContext := c\<rparr>)"
    using reachable_record [OF assms] by blast
  then show thesis using that read_row [of t row] assms by (simp add: ledger_ok_def table_ok_def)
qed

lemma no_change: "ledger_ok t \<Longrightarrow> row \<in> set t \<Longrightarrow> \<not> p (pr_record row) \<Longrightarrow>
    compareAndSet t (pq_requestId (pr_record row)) p f = Inr (t, None)"
proof -
  assume ok: "ledger_ok t" and row: "row \<in> set t" and no: "\<not> p (pr_record row)"
  let ?here = "\<lambda>r. pq_requestId r = pq_requestId (pr_record row) \<and> p r"
  have "\<not> ?here (pr_record q)" if "q \<in> set t" for q
    using key_unique [of t q row] ok row that no by (auto simp: ledger_ok_def table_ok_def)
  then have "updateWhere ?here f t = t" "changes ?here t = 0"
    by (auto simp: updateWhere_def changes_def intro!: map_idI)
  then show ?thesis by (simp add: compareAndSet_def Let_def)
qed

text \<open>C7: A decision is final. Once a request is resolved or ended, no later operation changes its outcome, who decided it or
  what was approved, and every further denial, answer, withdrawal or grant leaves the ledger as it is.\<close>

theorem pending_decision_final:
  assumes "pending_reachable s" "row \<in> set s" "pq_state (pr_record row) \<noteq> PendingState" "pending_step\<^sup>*\<^sup>* s t"
    and "pq_requestId (pr_record row) = i"
  shows "(\<exists>row'\<in>set t. pq_requestId (pr_record row') = i \<and> decisionContent (pr_record row') = decisionContent (pr_record row))
    \<and> denyPendingRequest t i a now c = Inr (t, None) \<and> answerPendingRequest t i a answers now c = Inr (t, None)
    \<and> withdrawPendingRequest t i a now = Inr (t, None) \<and> invalidatePendingRequest t i event a now = Inr (t, None)
    \<and> grantCommandIntentRequest t i a now c = Inr (t, None)"
proof -
  have ok: "ledger_ok t" using ledger_steps [OF assms(4) reachable_ledger [OF assms(1)]] .
  obtain row' where row': "row' \<in> set t" "row_moves row row'"
    using steps_forward [OF assms(4) reachable_ledger [OF assms(1)] assms(2)] by blast
  have same: "decisionContent (pr_record row') = decisionContent (pr_record row)"
    using steps_decided row'(2) assms(3) by (auto simp: row_moves_def)
  have id: "pq_requestId (pr_record row') = i" using decided_fields(12) [OF same] assms(5) by simp
  have decided: "\<not> unclaimedPending (pr_record row')" using decided_fields(1) [OF same] assms(3) by (simp add: unclaimedPending_def)
  obtain c' where read: "readPendingRequest t i = Inr (Some ((pr_record row')\<lparr>pq_decidingActorContext := c'\<rparr>))"
    using read_reachable [OF ok row'(1)] id by metis
  have none: "compareAndSet t i (\<lambda>q. unclaimedPending q \<and> p q) f = Inr (t, None)" for p f
    using no_change [OF ok row'(1), of "\<lambda>q. unclaimedPending q \<and> p q" f] decided id by simp
  show ?thesis
    using read decided none none [of "\<lambda>_. True"] row'(1) same id
    by (auto simp: denyPendingRequest_def answerPendingRequest_def withdrawPendingRequest_def invalidatePendingRequest_def
        endPendingRequest_def grantCommandIntentRequest_def whenReadable_def unclaimedPending_def [of "_\<lparr>pq_decidingActorContext := _\<rparr>"])
qed

section \<open>Execution\<close>

lemma step_claim: "row_step r r' \<Longrightarrow> record_ok r \<Longrightarrow> pq_claim r \<noteq> Unclaimed \<Longrightarrow>
    pq_claim r' \<noteq> Unclaimed \<and> pq_executionCallId r' = pq_executionCallId r \<and> (pq_claim r = Finished \<longrightarrow> pq_claim r' = Finished \<and> pq_disposition r' = pq_disposition r)"
  by (induction rule: row_step.induct)
    (auto simp: setDecision_def unclaimedPending_def claimableGrant_def unfinishedClaim_def record_ok_def phase_ok_def)

lemma steps_claim: "row_step\<^sup>*\<^sup>* r r' \<Longrightarrow> record_ok r \<Longrightarrow> pq_claim r \<noteq> Unclaimed \<Longrightarrow>
    pq_claim r' \<noteq> Unclaimed \<and> pq_executionCallId r' = pq_executionCallId r \<and> (pq_claim r = Finished \<longrightarrow> pq_claim r' = Finished \<and> pq_disposition r' = pq_disposition r)"
proof (induction rule: rtranclp_induct)
  case (step y z)
  then show ?case using step_claim [OF step(2)] steps_record_ok by auto
qed simp

text \<open>A request whose call was claimed cannot be claimed again, and one that finished cannot be finished again.\<close>

lemma claimed_forever:
  assumes "pending_reachable s" "row \<in> set s" "pq_claim (pr_record row) \<noteq> Unclaimed" "pending_step\<^sup>*\<^sup>* s t" "pq_requestId (pr_record row) = i"
  shows "\<exists>row'\<in>set t. pq_requestId (pr_record row') = i \<and> pq_executionCallId (pr_record row') = pq_executionCallId (pr_record row)
      \<and> claimOrRefuseGrant t i a now e c = Inr (t, AppliedLost, projr (parsePendingRequestRow row'))
      \<and> claimCommandIntentGrant t i now = Inr (t, None)
      \<and> (pq_claim (pr_record row) = Finished \<longrightarrow> finishPendingExecution t i d reason held now = Inr (t, None))"
proof -
  have ok: "ledger_ok s" "ledger_ok t" using ledger_steps [OF assms(4)] reachable_ledger [OF assms(1)] by auto
  obtain row' where row': "row' \<in> set t" "row_moves row row'" using steps_forward [OF assms(4) ok(1) assms(2)] by blast
  have "record_ok (pr_record row)" using ok(1) assms(2) by (simp add: ledger_ok_def table_ok_def)
  then have claim: "pq_claim (pr_record row') \<noteq> Unclaimed" "pq_executionCallId (pr_record row') = pq_executionCallId (pr_record row)"
      "pq_claim (pr_record row) = Finished \<Longrightarrow> pq_claim (pr_record row') = Finished"
    using steps_claim row'(2) assms(3) by (auto simp: row_moves_def)
  have id: "pq_requestId (pr_record row') = i" using row'(2) assms(5) raised_fields(1) steps_raised by (metis row_moves_def)
  obtain c' where parse: "parsePendingRequestRow row' = Inr ((pr_record row')\<lparr>pq_decidingActorContext := c'\<rparr>)"
    using reachable_record [OF ok(2) row'(1)] by blast
  have read: "readPendingRequest t i = Inr (Some ((pr_record row')\<lparr>pq_decidingActorContext := c'\<rparr>))"
    using read_row [of t row'] ok(2) row'(1) parse id by (simp add: ledger_ok_def table_ok_def)
  obtain callId where call: "executionCallIdForRequest i = Inr callId"
  proof -
    have "record_ok (pr_record row')" using ok(2) row'(1) by (simp add: ledger_ok_def table_ok_def)
    then show thesis using claim(1) id that by (auto simp: record_ok_def phase_ok_def)
  qed
  have "claimOrRefuseGrant t i a now e c = Inr (t, AppliedLost, projr (parsePendingRequestRow row'))"
    using read claim(1) parse by (simp add: claimOrRefuseGrant_def unclaimedPending_def)
  moreover have "claimCommandIntentGrant t i now = Inr (t, None)"
    using read claim(1) call no_change [OF ok(2) row'(1)] id by (simp add: claimCommandIntentGrant_def whenReadable_def)
  moreover have "finishPendingExecution t i d reason held now = Inr (t, None)" if "pq_claim (pr_record row) = Finished"
    using read claim(3) [OF that] no_change [OF ok(2) row'(1), of unfinishedClaim] id
    by (simp add: finishPendingExecution_def whenReadable_def unfinishedClaim_def)
  ultimately show ?thesis using row'(1) id claim(2) by blast
qed

lemma updated_row:
  "changes p t = 1 \<Longrightarrow> \<exists>row\<in>set t. p (pr_record row) \<and> (\<exists>row'\<in>set (updateWhere p f t). pr_record row' = f (pr_record row))"
proof -
  assume "changes p t = 1"
  then have "filter (p \<circ> pr_record) t \<noteq> []" by (auto simp: changes_def)
  then obtain row where row: "row \<in> set t" "p (pr_record row)" by (auto simp: filter_empty_conv)
  then have "row\<lparr>pr_record := f (pr_record row)\<rparr> \<in> set (updateWhere p f t)" by (auto simp: updateWhere_def image_iff intro!: bexI [of _ row])
  then show ?thesis using row by (intro bexI [of _ row]) (auto intro: bexI [rotated])
qed

lemma cas_Some:
  assumes "whenReadable t i (\<lambda>_. compareAndSet t i p f) = Inr (t', Some r)"
  obtains row row' where "row \<in> set t" "pq_requestId (pr_record row) = i" "row' \<in> set t'" "pr_record row' = f (pr_record row)"
proof -
  let ?here = "\<lambda>r. pq_requestId r = i \<and> p r"
  from assms have "changes ?here t = 1" and t': "t' = updateWhere ?here f t"
    by (auto simp: whenReadable_def compareAndSet_def Let_def bindE_Inr_iff split: if_splits option.splits)
  from updated_row [OF this(1), of f] show thesis unfolding t' [symmetric] using that by blast
qed

lemma consumed_claim:
  assumes "claimCommandIntentGrant t i now = Inr (t', Some r)"
  shows "\<exists>row\<in>set t'. pq_requestId (pr_record row) = i \<and> pq_claim (pr_record row) = Claimed"
proof -
  obtain callId where callId: "executionCallIdForRequest i = Inr callId"
    using assms by (auto simp: claimCommandIntentGrant_def whenReadable_def bindE_Inr_iff split: option.splits)
  from assms [unfolded claimCommandIntentGrant_def callId bindE.simps] show ?thesis
  proof (rule cas_Some)
    fix row row'
    assume "row' \<in> set t'" "pq_requestId (pr_record row) = i"
      "pr_record row' = (pr_record row)\<lparr>pq_claim := Claimed, pq_executionCallId := Some callId, pq_updatedAt := now\<rparr>"
    then show ?thesis by (intro bexI [of _ row']) simp_all
  qed
qed

lemma finished_claim:
  assumes "finishPendingExecution t i d reason held now = Inr (t', Some r)"
  shows "\<exists>row\<in>set t'. pq_requestId (pr_record row) = i \<and> pq_claim (pr_record row) = Finished"
  using assms unfolding finishPendingExecution_def
proof (rule cas_Some)
  fix row row'
  assume "row' \<in> set t'" "pq_requestId (pr_record row) = i"
    "pr_record row' = (pr_record row)\<lparr>pq_claim := Finished, pq_disposition := Some d, pq_dispositionReason := reason,
      pq_heldResult := if held = JUndefined then None else Some (jsonClone held), pq_updatedAt := now\<rparr>"
  then show ?thesis by (intro bexI [of _ row']) simp_all
qed

lemma applied_claim:
  assumes "claimOrRefuseGrant t i a now e c = Inr (t', AppliedClaimed, r)"
  shows "\<exists>row\<in>set t'. pq_requestId (pr_record row) = i \<and> pq_claim (pr_record row) = Claimed"
proof -
  let ?here = "\<lambda>r. pq_requestId r = i \<and> unclaimedPending r"
  obtain current where read: "readPendingRequest t i = Inr (Some current)" "unclaimedPending current"
    using assms by (auto simp: claimOrRefuseGrant_def bindE_Inr_iff split: option.splits if_splits)
  from assms read have e: "e = ClaimOutcome"
    by (cases e) (auto simp: claimOrRefuseGrant_def Let_def bindE_Inr_iff split: option.splits if_splits)
  obtain callId where t': "t' = updateWhere ?here (\<lambda>r. (setDecision Granted a now c r)\<lparr>pq_claim := Claimed, pq_executionCallId := Some callId\<rparr>) t"
      and one: "changes ?here t = 1"
    using assms read e by (auto simp: claimOrRefuseGrant_def Let_def bindE_Inr_iff split: if_splits)
  from updated_row [OF one, of "\<lambda>r. (setDecision Granted a now c r)\<lparr>pq_claim := Claimed, pq_executionCallId := Some callId\<rparr>"]
  obtain row row' where "row \<in> set t" "pq_requestId (pr_record row) = i" "row' \<in> set t'"
      "pr_record row' = (setDecision Granted a now c (pr_record row))\<lparr>pq_claim := Claimed, pq_executionCallId := Some callId\<rparr>"
    unfolding t' by blast
  then show ?thesis by (intro bexI [of _ row']) (simp_all add: setDecision_def)
qed

text \<open>C6: An approved call is executed at most once. After a claim of a request succeeded, whatever runs in between, every later
  claim of it is lost and changes nothing; after its execution finished, no later operation finishes it again.\<close>

theorem pending_execution_once:
  assumes "pending_reachable s" "pending_step s s1"
    and "claimOrRefuseGrant s i a now e c = Inr (s1, AppliedClaimed, r) \<or> claimCommandIntentGrant s i now = Inr (s1, Some r)"
    and "pending_step\<^sup>*\<^sup>* s1 t"
  shows "(\<exists>q. claimOrRefuseGrant t i a' now' e' c' = Inr (t, AppliedLost, q)) \<and> claimCommandIntentGrant t i now' = Inr (t, None)
    \<and> (\<forall>d reason held t1 q u. finishPendingExecution t i d reason held now' = Inr (t1, Some q) \<and> d \<noteq> DeniedNotExecuted
         \<and> pending_step\<^sup>*\<^sup>* t1 u \<longrightarrow> finishPendingExecution u i d' reason' held' now'' = Inr (u, None))"
proof -
  have reachable: "pending_reachable s1" using assms(1,2) by (auto simp: pending_reachable_def)
  have "\<exists>row\<in>set s1. pq_requestId (pr_record row) = i \<and> pq_claim (pr_record row) = Claimed"
    using assms(3) applied_claim consumed_claim by blast
  then obtain row where row: "row \<in> set s1" "pq_requestId (pr_record row) = i" "pq_claim (pr_record row) \<noteq> Unclaimed" by force
  have "finishPendingExecution u i d' reason' held' now'' = Inr (u, None)"
    if finish: "finishPendingExecution t i d reason held now' = Inr (t1, Some q)" "d \<noteq> DeniedNotExecuted" "pending_step\<^sup>*\<^sup>* t1 u" for d reason held t1 q u
  proof -
    have "pending_reachable t1"
      using reachable assms(4) pending_step.finish [OF finish(1,2)] by (auto simp: pending_reachable_def intro: rtranclp.rtrancl_into_rtrancl)
    moreover obtain row1 where "row1 \<in> set t1" "pq_requestId (pr_record row1) = i" "pq_claim (pr_record row1) = Finished"
      using finished_claim [OF finish(1)] by blast
    ultimately show ?thesis using claimed_forever [of t1 row1 u i] finish(3) by fastforce
  qed
  then show ?thesis using claimed_forever [OF reachable row(1,3) assms(4) row(2)] by blast
qed

end
