(* ===== verification/Pending_Listing.thy ===== *)
theory Pending_Listing
  imports Pending_Properties
begin

text \<open>
  Listing by pages is complete, and raising is idempotent along any history.
\<close>

section \<open>Pages\<close>

lemma readableRows_append: "readableRows (xs @ ys) = readableRows xs @ readableRows ys"
  by (simp add: readableRows_def List.map_filter_def)

lemma filter_after:
  "sorted_wrt (\<lambda>a b. creationKey a < creationKey b) xs \<Longrightarrow> n < length xs \<Longrightarrow>
    filter (\<lambda>r. creationKey (xs ! n) < creationKey r) xs = drop (Suc n) xs"
proof -
  assume sorted: "sorted_wrt (\<lambda>a b. creationKey a < creationKey b) xs" and n: "n < length xs"
  have "\<not> creationKey (xs ! n) < creationKey r" if "r \<in> set (take (Suc n) xs)" for r
  proof -
    from that obtain k where "k \<le> n" "r = xs ! k" using n by (auto simp: in_set_conv_nth less_Suc_eq_le)
    then show ?thesis using sorted n sorted_wrt_nth_less [OF sorted, of k n] less_asym by (cases "k = n") auto
  qed
  moreover have "creationKey (xs ! n) < creationKey r" if "r \<in> set (drop (Suc n) xs)" for r
  proof -
    from that obtain k where "k < length (drop (Suc n) xs)" "r = drop (Suc n) xs ! k" unfolding in_set_conv_nth by blast
    then show ?thesis using sorted_wrt_nth_less [OF sorted, of n "Suc n + k"] by simp
  qed
  ultimately have "filter (\<lambda>r. creationKey (xs ! n) < creationKey r) (take (Suc n) xs @ drop (Suc n) xs) = drop (Suc n) xs"
    unfolding filter_append by (simp add: filter_empty_conv filter_id_conv)
  then show ?thesis by simp
qed

lemma following_following:
  assumes "row \<in> set (followingRows rows after)"
  shows "followingRows rows (Some (creationKey row)) = filter (\<lambda>r. creationKey row < creationKey r) (followingRows rows after)"
proof (cases after)
  case (Some key)
  then have "key < creationKey row" using assms by (simp add: followingRows_def)
  then show ?thesis by (auto simp: Some followingRows_def intro!: filter_cong dest: less_trans)
qed (simp add: followingRows_def)

lemma sorted_following: "sorted_wrt P rows \<Longrightarrow> sorted_wrt P (followingRows rows after)"
  by (simp add: followingRows_def sorted_wrt_filter split: option.split)

lemma pages_complete:
  "sorted_wrt (\<lambda>a b. creationKey a < creationKey b) rows \<Longrightarrow>
    concat (readThreadPendingRequestPages rows after) = readableRows (followingRows rows after)"
proof (induction rows after rule: readThreadPendingRequestPages.induct)
  case (1 rows after)
  let ?all = "followingRows rows after"
  let ?page = "take 128 ?all"
  consider (empty) "?page = []" | (last) "?page \<noteq> []" "length ?page < 128" | (more) "?page \<noteq> []" "\<not> length ?page < 128" by blast
  then show ?case
  proof cases
    case empty
    then show ?thesis by (subst readThreadPendingRequestPages.simps) (simp add: readableRows_def List.map_filter_def)
  next
    case last
    then have "?page = ?all" by simp
    then show ?thesis using last by (subst readThreadPendingRequestPages.simps) (simp add: Let_def)
  next
    case more
    then have long: "127 < length ?all" by simp
    have sorted: "sorted_wrt (\<lambda>a b. creationKey a < creationKey b) ?all" using "1.prems" by (rule sorted_following)
    have end_of_page: "last ?page = ?all ! 127" using long more(1) by (simp add: last_conv_nth)
    then have "followingRows rows (Some (creationKey (last ?page))) = filter (\<lambda>r. creationKey (?all ! 127) < creationKey r) ?all"
      using following_following [of "?all ! 127" rows after] long by simp
    then have rest: "followingRows rows (Some (creationKey (last ?page))) = drop 128 ?all" using filter_after [OF sorted long] by simp
    have "concat (readThreadPendingRequestPages rows (Some (creationKey (last ?page)))) = readableRows (drop 128 ?all)"
      using "1.IH" [OF refl more "1.prems"] rest by simp
    then have "concat (readThreadPendingRequestPages rows after) = readableRows ?page @ readableRows (drop 128 ?all)"
      using more by (subst readThreadPendingRequestPages.simps) (simp add: Let_def del: take_eq_Nil)
    then show ?thesis by (simp flip: readableRows_append)
  qed
qed

lemma thread_rows_sorted:
  assumes "distinct (keys t)"
  shows "sorted_wrt (\<lambda>a b. creationKey a < creationKey b) (threadRows t ws th)"
proof -
  let ?rows = "filter (\<lambda>row. pq_workspaceId (pr_record row) = ws \<and> pq_threadId (pr_record row) = th) t"
  have "distinct (map creationKey ?rows)"
    using assms by (auto simp: creationKey_def keys_def distinct_map inj_on_def)
  then have "distinct (map creationKey (threadRows t ws th))" by (simp add: threadRows_def distinct_map)
  moreover have "sorted (map creationKey (threadRows t ws th))" by (simp add: threadRows_def)
  ultimately have "sorted_wrt (<) (map creationKey (threadRows t ws th))" by (simp add: strict_sorted_iff)
  then show ?thesis by (simp add: sorted_wrt_map)
qed

lemma listed: "distinct (keys t) \<Longrightarrow> listThreadPendingRequests t ws th = readableRows (threadRows t ws th)"
  unfolding listThreadPendingRequests_def using pages_complete [OF thread_rows_sorted, of t ws th None] by (simp add: followingRows_def)

text \<open>C40: The pages of a Thread, read one after the other with the last row as cursor, are the complete selection: every readable
  request of the Thread exactly once, in the order of creation, however many pages there are.\<close>

theorem pending_pages_exact:
  assumes "distinct (map (pq_requestId \<circ> pr_record) table)"
  shows "listThreadPendingRequests table workspaceId threadId = readableRows (sort_key creationKey
    (filter (\<lambda>row. pq_workspaceId (pr_record row) = workspaceId \<and> pq_threadId (pr_record row) = threadId) table))"
  using listed [of table workspaceId threadId] assms by (simp add: keys_def threadRows_def)

section \<open>Raising again\<close>

text \<open>What the schema of a raising command and its producer guarantee: the digest is the digest of the arguments, which are an
  object, and the governed intent is a JSON value.\<close>

definition raiseCanonical :: "PendingPlatform \<Rightarrow> RaisePendingRequestInput \<Rightarrow> bool" where
  "raiseCanonical pt i \<longleftrightarrow>
    (case ri_call i of
       None \<Rightarrow> True
     | Some c \<Rightarrow> pl_canonicalArgumentsJson c \<noteq> [] \<and> pl_argumentsDigest c = ''sha256:'' @ pt_sha256Hex pt (pl_canonicalArgumentsJson c)
         \<and> pred_option isObject (pt_parseJson pt (pl_canonicalArgumentsJson c)) \<and> pt_parseJson pt (pl_canonicalArgumentsJson c) \<noteq> None)
    \<and> (case ri_governedIntent i of None \<Rightarrow> True | Some v \<Rightarrow> jsonClone v = v \<and> succeeds (canonicalJsonText v))"

lemma handoff_text: "succeeds (canonicalJsonText (handoffJson h))"
  by (cases h rule: handoffJson.cases)
    (auto simp: canonicalJsonText_def succeeds_iff mapE_Inr_iff bindE_Inr_iff list_all2_Cons1 split: option.splits)

lemma sameJson_refl: "pred_option (\<lambda>v. succeeds (canonicalJsonText v)) v \<Longrightarrow> sameJson v v = Inr True"
  by (cases v) (auto simp: sameJson_def nullJson_def succeeds_iff canonicalJsonText_def)

lemma raised_identity:
  assumes "raisedContent r = raisedContent (insertedRecord i)" "raiseCanonical pt i"
  shows "sameRaiseIdentity pt (r\<lparr>pq_decidingActorContext := c\<rparr>) i = Inr True"
proof -
  let ?q = "r\<lparr>pq_decidingActorContext := c\<rparr>"
  have fields: "pq_workspaceId ?q = ri_workspaceId i" "pq_threadId ?q = ri_threadId i" "pq_raisingTurnId ?q = ri_raisingTurnId i"
      "pq_kind ?q = ri_kind i" "pq_requesterKind ?q = ri_requesterKind i" "pq_responsibleUserId ?q = ri_responsibleUserId i"
      "pq_agentId ?q = ri_agentId i" "pq_canonicalArgumentsJson ?q = map_option pl_canonicalArgumentsJson (ri_call i)"
      "pq_argumentsDigest ?q = orElse (map_option pl_argumentsDigest (ri_call i)) (ri_questionDigest i)"
      "pq_governedIntent ?q = map_option jsonClone (ri_governedIntent i)" "pq_assistantHandoff ?q = ri_assistantHandoff i"
    using assms(1) [THEN arg_cong, of pq_workspaceId] assms(1) [THEN arg_cong, of pq_threadId] assms(1) [THEN arg_cong, of pq_raisingTurnId]
      assms(1) [THEN arg_cong, of pq_kind] assms(1) [THEN arg_cong, of pq_requesterKind] assms(1) [THEN arg_cong, of pq_responsibleUserId]
      assms(1) [THEN arg_cong, of pq_agentId] assms(1) [THEN arg_cong, of pq_canonicalArgumentsJson]
      assms(1) [THEN arg_cong, of pq_argumentsDigest] assms(1) [THEN arg_cong, of pq_governedIntent]
      assms(1) [THEN arg_cong, of pq_assistantHandoff]
    by (simp_all add: raisedContent_def insertedRecord_def)
  have arguments: "case ri_call i of Some c \<Rightarrow> sameCapturedArguments pt ?q c | None \<Rightarrow> pq_argumentsDigest ?q = ri_questionDigest i"
    using assms(2) fields(8,9)
    by (cases "ri_call i") (auto simp: sameCapturedArguments_def raiseCanonical_def truthy_def split: option.splits)
  have intent: "sameJson (pq_governedIntent ?q) (ri_governedIntent i) = Inr True"
    using assms(2) fields(10) sameJson_refl [of "ri_governedIntent i"] by (cases "ri_governedIntent i") (auto simp: raiseCanonical_def)
  have "sameJson (map_option handoffJson (ri_assistantHandoff i)) (map_option handoffJson (ri_assistantHandoff i)) = Inr True"
    by (rule sameJson_refl) (simp add: option.pred_map comp_def handoff_text option.pred_True)
  then show ?thesis unfolding sameRaiseIdentity_def using fields(1-7,11) arguments intent by simp
qed

text \<open>C39: Raising is idempotent. Once a request was created, raising it again, at any later time and whatever became of it,
  answers with the stored request as it then reads, creates nothing and leaves the ledger as it is. The input is one the
  dispatcher builds: the arguments of a captured call are text of a JSON object with their own digest, and a governed
  intent is a JSON value.\<close>

theorem pending_raise_idempotent:
  assumes "pending_reachable s" "raisePendingRequest pt s i = Inr (s1, r, True)" "pending_step\<^sup>*\<^sup>* s1 t" "raiseCanonical pt i"
  shows "\<exists>q. raisePendingRequest pt t i = Inr (t, q, False) \<and> readPendingRequest t (ri_requestId i) = Inr (Some q)
    \<and> pq_requestId q = ri_requestId i"
proof -
  have reachable: "pending_reachable s1" using assms(1) pending_step.raise [OF assms(2)] by (auto simp: pending_reachable_def)
  have ok: "ledger_ok s1" "ledger_ok t" using reachable_ledger [OF reachable] ledger_steps [OF assms(3)] by auto
  have new: "insertPendingRequest s i = Inr s1" and handoff: "preflightPendingRequest pt s i = Inr None"
    using assms(2) by (auto simp: raisePendingRequest_def bindE_Inr_iff split: option.splits)
  let ?row = "\<lparr>pr_schemaVersion = RETAINED_FORMAT_VERSION, pr_record = insertedRecord i\<rparr>"
  have "?row \<in> set s1" using new by (auto simp: insertPendingRequest_def bindE_Inr_iff)
  then obtain row where row: "row \<in> set t" "row_moves ?row row" using steps_forward [OF assms(3) ok(1)] by blast
  have content: "raisedContent (pr_record row) = raisedContent (insertedRecord i)" using row(2) steps_raised by (auto simp: row_moves_def)
  have id: "pq_requestId (pr_record row) = ri_requestId i" using raised_fields(1) [OF content] by (simp add: insertedRecord_def)
  obtain c where read: "readPendingRequest t (ri_requestId i) = Inr (Some ((pr_record row)\<lparr>pq_decidingActorContext := c\<rparr>))"
    using read_reachable [OF ok(2) row(1)] id by metis
  have "preflightPendingRequest pt t i = Inr (Some ((pr_record row)\<lparr>pq_decidingActorContext := c\<rparr>))"
    using handoff read raised_identity [OF content assms(4)] by (auto simp: preflightPendingRequest_def bindE_Inr_iff ensure_def split: if_splits)
  then show ?thesis using id read by (simp add: raisePendingRequest_def)
qed

end
