(* ===== verification/Pending_Closeout.thy ===== *)
theory Pending_Closeout
  imports Pending_Listing
begin

text \<open>
  The closeout of a Thread: it is refused exactly when the execution of a call is still claimed, and otherwise completes
  and leaves no request of the Thread that an archive would still have to wait for, except a delivery already frozen to
  a Turn.
\<close>

section \<open>The table with one record replaced\<close>

definition setRow :: "string \<Rightarrow> PendingRequestRecord \<Rightarrow> PendingTable \<Rightarrow> PendingTable" where
  "setRow k q = updateWhere (\<lambda>r. pq_requestId r = k) (\<lambda>_. q)"

definition legible :: "PendingTable \<Rightarrow> bool" where
  "legible t \<longleftrightarrow> distinct (keys t) \<and> (\<forall>row\<in>set t. succeeds (parsePendingRequestRow row))"

lemma setRow_update:
  "pq_requestId q = k \<Longrightarrow> updateWhere (\<lambda>r. pq_requestId r = k \<and> p r) f (setRow k q t) = setRow k (if p q then f q else q) t"
  by (auto simp: setRow_def updateWhere_def)

lemma setRow_same: "distinct (keys t) \<Longrightarrow> row \<in> set t \<Longrightarrow> setRow (pq_requestId (pr_record row)) (pr_record row) t = t"
proof -
  assume t: "distinct (keys t)" and row: "row \<in> set t"
  have "(if pq_requestId (pr_record x) = pq_requestId (pr_record row) then x\<lparr>pr_record := pr_record row\<rparr> else x) = x" if "x \<in> set t" for x
    using key_unique [OF t that row] by auto
  then show ?thesis by (simp add: setRow_def updateWhere_def map_idI)
qed

lemma setRow_keys: "pq_requestId q = k \<Longrightarrow> keys (setRow k q t) = keys t"
  by (auto simp: setRow_def updateWhere_def keys_def)

lemma setRow_legible: "pq_requestId q = k \<Longrightarrow> readableRecord q \<Longrightarrow> legible t \<Longrightarrow> legible (setRow k q t)"
  unfolding legible_def by (simp add: setRow_keys) (auto simp: setRow_def updateWhere_def parse_succeeds)

lemma setRow_in: "row \<in> set t \<Longrightarrow> pq_requestId (pr_record row) = k \<Longrightarrow> row\<lparr>pr_record := q\<rparr> \<in> set (setRow k q t)"
  by (auto simp: setRow_def updateWhere_def image_iff intro!: bexI [of _ row])

lemma setRow_other: "row \<in> set t \<Longrightarrow> pq_requestId (pr_record row) \<noteq> k \<Longrightarrow> row \<in> set (setRow k q t)"
  by (auto simp: setRow_def updateWhere_def image_iff intro!: bexI [of _ row])

lemma legible_read:
  assumes "legible t" "row \<in> set t"
  obtains c where "readPendingRequest t (pq_requestId (pr_record row)) = Inr (Some ((pr_record row)\<lparr>pq_decidingActorContext := c\<rparr>))"
proof -
  obtain r where r: "parsePendingRequestRow row = Inr r" using assms by (auto simp: legible_def succeeds_iff)
  then obtain c where "r = (pr_record row)\<lparr>pq_decidingActorContext := c\<rparr>" by (rule parse_record)
  then show thesis using that read_row [of t row] assms r by (simp add: legible_def)
qed

lemma setRow_read:
  assumes "legible t" "k \<in> set (keys t)" "pq_requestId q = k" "readableRecord q"
  obtains c where "readPendingRequest (setRow k q t) k = Inr (Some (q\<lparr>pq_decidingActorContext := c\<rparr>))"
proof -
  obtain row where "row \<in> set t" "pq_requestId (pr_record row) = k" using assms(2) by (auto simp: keys_def)
  then have "row\<lparr>pr_record := q\<rparr> \<in> set (setRow k q t)" by (rule setRow_in)
  from legible_read [OF setRow_legible [OF assms(3,4,1)] this] show thesis using that assms(3) by auto
qed

section \<open>The closeout of one record\<close>

text \<open>The four updates of \<^verbatim>\<open>closeoutRecord\<close> as functions of the record alone.\<close>

definition endedRecord :: "CloseoutInput \<Rightarrow> string \<Rightarrow> PendingRequestRecord \<Rightarrow> PendingRequestRecord" where
  "endedRecord i event r = (if unclaimedPending r then r\<lparr>pq_state := EndedState, pq_ending := Some Invalidated,
     pq_invalidatingEvent := Some event, pq_endingActor := Some (co_actor i), pq_endedAt := Some (co_now i), pq_updatedAt := co_now i\<rparr> else r)"

definition refusedRecord :: "CloseoutInput \<Rightarrow> string \<Rightarrow> PendingRequestRecord \<Rightarrow> PendingRequestRecord" where
  "refusedRecord i event r = (if grantUnconsumed r then r\<lparr>pq_disposition := Some DeniedNotExecuted, pq_dispositionReason := Some event,
     pq_invalidationTurnId := orElse (pq_invalidationTurnId r) (Some (co_closeoutTurnId i)), pq_updatedAt := co_now i\<rparr> else r)"

definition invalidatedRecord :: "CloseoutInput \<Rightarrow> PendingRequestRecord \<Rightarrow> PendingRequestRecord" where
  "invalidatedRecord i r = (if outstandingInvalidation r then r\<lparr>pq_invalidationTurnId := Some (co_closeoutTurnId i), pq_updatedAt := co_now i\<rparr> else r)"

definition closedRecord :: "CloseoutInput \<Rightarrow> PendingRequestRecord \<Rightarrow> PendingRequestRecord" where
  "closedRecord i r = (if pq_delivery r = Undelivered \<and> isFinalOutcome r then r\<lparr>pq_delivery := ClosedOut,
     pq_publicationTurnId := orElse (pq_publicationTurnId r) (Some (co_closeoutTurnId i)), pq_updatedAt := co_now i\<rparr> else r)"

definition closeoutOf :: "CloseoutInput \<Rightarrow> string \<Rightarrow> PendingRequestRecord \<Rightarrow> PendingRequestRecord" where
  "closeoutOf i event r = closedRecord i (invalidatedRecord i (refusedRecord i event (endedRecord i event r)))"

lemmas closeout_record_defs = endedRecord_def refusedRecord_def invalidatedRecord_def closedRecord_def

lemma closeout_kept [simp]:
  "pq_requestId (endedRecord i e r) = pq_requestId r" "pq_requestId (refusedRecord i e r) = pq_requestId r"
  "pq_requestId (invalidatedRecord i r) = pq_requestId r" "pq_requestId (closedRecord i r) = pq_requestId r"
  "readableRecord (endedRecord i e r) = readableRecord r" "readableRecord (refusedRecord i e r) = readableRecord r"
  "readableRecord (invalidatedRecord i r) = readableRecord r" "readableRecord (closedRecord i r) = readableRecord r"
  by (simp_all add: closeout_record_defs readableRecord_def)

lemma context_blind [simp]:
  "unclaimedPending (r\<lparr>pq_decidingActorContext := c\<rparr>) = unclaimedPending r"
  "grantUnconsumed (r\<lparr>pq_decidingActorContext := c\<rparr>) = grantUnconsumed r"
  "outstandingInvalidation (r\<lparr>pq_decidingActorContext := c\<rparr>) = outstandingInvalidation r"
  "unfinishedClaim (r\<lparr>pq_decidingActorContext := c\<rparr>) = unfinishedClaim r"
  by (simp_all add: unclaimedPending_def grantUnconsumed_def outstandingInvalidation_def isCommandIntentApproval_def unfinishedClaim_def)

lemma invalidated_final [simp]: "isFinalOutcome (invalidatedRecord i r) = isFinalOutcome r" "pq_delivery (invalidatedRecord i r) = pq_delivery r"
proof -
  have "isFinalOutcome (r\<lparr>pq_invalidationTurnId := turn, pq_updatedAt := now\<rparr>) = isFinalOutcome r" for turn now
    by (auto simp: isFinalOutcome_def isCommandIntentApproval_def)
  then show "isFinalOutcome (invalidatedRecord i r) = isFinalOutcome r" unfolding invalidatedRecord_def by (cases "outstandingInvalidation r") simp_all
qed (simp add: invalidatedRecord_def)

text \<open>After it, an archive no longer selects the record, unless its outcome is frozen to a Turn.\<close>

definition grantOpen :: "PendingRequestRecord \<Rightarrow> bool" where
  "grantOpen r \<longleftrightarrow> isCommandIntentApproval r \<and> pq_resolution r = Some Granted \<and> pq_claim r = Unclaimed
     \<and> (pq_disposition r = None \<or> pq_disposition r = Some DeniedNotExecuted \<and> pq_invalidationTurnId r = None)"

lemma archive_iff:
  "archiveSelects r \<longleftrightarrow> pq_state r = PendingState \<or> pq_delivery r = Frozen \<or> pq_delivery r = Undelivered \<and> isFinalOutcome r \<or> grantOpen r"
  by (auto simp: archiveSelects_def grantOpen_def)

lemma grant_settled: "\<not> grantOpen (invalidatedRecord i (refusedRecord i e r))"
  by (cases "pq_invalidationTurnId r")
    (auto simp: grantOpen_def invalidatedRecord_def refusedRecord_def outstandingInvalidation_def grantUnconsumed_def isCommandIntentApproval_def)

lemma settled_fields: "pq_state (invalidatedRecord i (refusedRecord i e r)) = pq_state r" "pq_delivery (invalidatedRecord i (refusedRecord i e r)) = pq_delivery r"
  by (simp_all add: invalidatedRecord_def refusedRecord_def)

lemma closed_archive: "archiveSelects (closedRecord i r) \<Longrightarrow> pq_state r = PendingState \<or> pq_delivery r = Frozen \<or> grantOpen r"
  by (auto simp: archive_iff closedRecord_def grantOpen_def isCommandIntentApproval_def split: if_splits)

lemma closeout_done:
  assumes "record_ok r" "archiveSelects (closeoutOf i e r)"
  shows "pq_delivery r = Frozen"
proof -
  have "pq_state r = PendingState \<Longrightarrow> unclaimedPending r" using assms(1) by (simp add: record_ok_def phase_ok_def unclaimedPending_def)
  then have "pq_state (endedRecord i e r) \<noteq> PendingState" by (auto simp: endedRecord_def unclaimedPending_def)
  then have "pq_delivery (endedRecord i e r) = Frozen"
    using closed_archive [OF assms(2) [unfolded closeoutOf_def]] grant_settled settled_fields by metis
  then show ?thesis by (simp add: endedRecord_def split: if_splits)
qed

text \<open>In a legible table each of the four updates replaces the record and succeeds.\<close>

lemma closeoutEnd_row:
  assumes "legible t" "k \<in> set (keys t)" "pq_requestId q = k" "readableRecord q"
  shows "closeoutEnd i e (q\<lparr>pq_decidingActorContext := c\<rparr>) (setRow k q t) = Inr (setRow k (endedRecord i e q) t)"
proof (cases "unclaimedPending q")
  case True
  let ?f = "\<lambda>r. r\<lparr>pq_state := EndedState, pq_ending := Some Invalidated, pq_invalidatingEvent := Some e, pq_endingActor := Some (co_actor i),
    pq_endedAt := Some (co_now i), pq_updatedAt := co_now i\<rparr>"
  have new: "updateWhere (\<lambda>r. pq_requestId r = k \<and> unclaimedPending r) ?f (setRow k q t) = setRow k (endedRecord i e q) t"
    using setRow_update [OF assms(3), of unclaimedPending ?f t] by (simp add: endedRecord_def)
  obtain c1 where "readPendingRequest (setRow k q t) k = Inr (Some (q\<lparr>pq_decidingActorContext := c1\<rparr>))" using setRow_read [OF assms] by blast
  moreover obtain c2 where "readPendingRequest (setRow k (endedRecord i e q) t) k = Inr (Some ((endedRecord i e q)\<lparr>pq_decidingActorContext := c2\<rparr>))"
    using setRow_read [OF assms(1,2)] assms(3,4) by (metis closeout_kept(1,5))
  ultimately show ?thesis using True new assms(3)
    by (simp add: closeoutEnd_def endPendingRequest_def whenReadable_def compareAndSet_def Let_def)
qed (simp add: closeoutEnd_def endedRecord_def)

lemma closeoutRefuse_row:
  "pq_requestId q = k \<Longrightarrow> closeoutRefuse i e (q\<lparr>pq_decidingActorContext := c\<rparr>) (setRow k q t) = setRow k (refusedRecord i e q) t"
  by (auto simp: closeoutRefuse_def refusedRecord_def setRow_update grantUnconsumed_def)

lemma closeoutInvalidate_row:
  "pq_requestId q = k \<Longrightarrow> closeoutInvalidate i (q\<lparr>pq_decidingActorContext := c\<rparr>) (setRow k q t) = setRow k (invalidatedRecord i q) t"
  by (auto simp: closeoutInvalidate_def invalidatedRecord_def setRow_update outstandingInvalidation_def)

lemma closeoutDeliver_row:
  assumes "legible t" "k \<in> set (keys t)" "pq_requestId q = k" "readableRecord q"
  shows "closeoutDeliver i (q\<lparr>pq_decidingActorContext := c\<rparr>) (setRow k (invalidatedRecord i q) t) = Inr (setRow k (closedRecord i (invalidatedRecord i q)) t)"
proof -
  obtain c1 where "readPendingRequest (setRow k (invalidatedRecord i q) t) k = Inr (Some ((invalidatedRecord i q)\<lparr>pq_decidingActorContext := c1\<rparr>))"
    using setRow_read [OF assms(1,2)] assms(3,4) by (metis closeout_kept(3,7))
  then show ?thesis using assms(3)
    by (auto simp: closeoutDeliver_def orStored_def orDefault_def setRow_update closedRecord_def [of i "invalidatedRecord i q"])
qed

lemma closeoutRecord_row:
  assumes "legible t" "row \<in> set t" "parsePendingRequestRow row = Inr r"
  obtains published where "closeoutRecord i ev r t
    = Inr (setRow (pq_requestId (pr_record row)) (closeoutOf i (ev r) (pr_record row)) t, published)"
proof -
  let ?q = "pr_record row" and ?e = "ev r"
  let ?k = "pq_requestId ?q"
  obtain c where r: "r = ?q\<lparr>pq_decidingActorContext := c\<rparr>" using parse_record [OF assms(3)] by blast
  then have id: "pq_requestId r = ?k" by simp
  have at: "?k \<in> set (keys t)" and ok: "readableRecord ?q" and t: "setRow ?k ?q t = t"
    using assms setRow_same by (auto simp: keys_def legible_def parse_succeeds)
  define q1 where "q1 = endedRecord i ?e ?q"
  define q2 where "q2 = refusedRecord i ?e q1"
  define q3 where "q3 = closedRecord i (invalidatedRecord i q2)"
  have keep: "pq_requestId q1 = ?k" "pq_requestId q2 = ?k" "pq_requestId q3 = ?k" "readableRecord q1" "readableRecord q2" "readableRecord q3"
    using ok by (simp_all add: q1_def q2_def q3_def)
  obtain c1 where c1: "readPendingRequest (setRow ?k q1 t) ?k = Inr (Some (q1\<lparr>pq_decidingActorContext := c1\<rparr>))"
    using setRow_read [OF assms(1) at keep(1,4)] by blast
  obtain c2 where c2: "readPendingRequest (setRow ?k q2 t) ?k = Inr (Some (q2\<lparr>pq_decidingActorContext := c2\<rparr>))"
    using setRow_read [OF assms(1) at keep(2,5)] by blast
  obtain c3 where c3: "readPendingRequest (setRow ?k q3 t) ?k = Inr (Some (q3\<lparr>pq_decidingActorContext := c3\<rparr>))"
    using setRow_read [OF assms(1) at keep(3,6)] by blast
  have "closeoutEnd i ?e r t = Inr (setRow ?k q1 t)" using closeoutEnd_row [OF assms(1) at refl ok, of i ?e c] t by (simp add: q1_def flip: r)
  then have "\<exists>published. closeoutRecord i ev r t = Inr (setRow ?k q3 t, published)"
    using c1 c2 c3 closeoutRefuse_row [OF keep(1)] closeoutInvalidate_row [OF keep(2)] closeoutDeliver_row [OF assms(1) at keep(2,5)]
    by (simp add: closeoutRecord_def orStored_def orDefault_def Let_def id flip: q2_def q3_def)
  then show thesis using that by (auto simp: closeoutOf_def q1_def q2_def q3_def)
qed

section \<open>The closeout of a Thread\<close>

lemma closeoutRecords_rows:
  assumes "legible t" "distinct (map pq_requestId rs)" "\<And>r. r \<in> set rs \<Longrightarrow> \<exists>row\<in>set t. parsePendingRequestRow row = Inr r"
  shows "\<exists>t' published. closeoutRecords i ev rs t = Inr (t', published)
    \<and> (\<forall>r\<in>set rs. \<forall>row\<in>set t. parsePendingRequestRow row = Inr r \<longrightarrow> row\<lparr>pr_record := closeoutOf i (ev r) (pr_record row)\<rparr> \<in> set t')
    \<and> (\<forall>row\<in>set t. pq_requestId (pr_record row) \<notin> pq_requestId ` set rs \<longrightarrow> row \<in> set t')"
  using assms
proof (induction rs arbitrary: t)
  case (Cons r rs)
  obtain row where row: "row \<in> set t" "parsePendingRequestRow row = Inr r" using Cons.prems(3) by auto
  let ?k = "pq_requestId (pr_record row)" and ?q = "closeoutOf i (ev r) (pr_record row)"
  let ?t = "setRow ?k ?q t"
  have q: "pq_requestId ?q = ?k" "readableRecord ?q"
    using row Cons.prems(1) by (auto simp: closeoutOf_def legible_def parse_succeeds)
  have k: "pq_requestId r = ?k" using parse_record [OF row(2)] by force
  have id: "pq_requestId (pr_record x) = pq_requestId r'" if "parsePendingRequestRow x = Inr r'" for x r'
    using parse_record [OF that] by force
  obtain p where first: "closeoutRecord i ev r t = Inr (?t, p)" using closeoutRecord_row [OF Cons.prems(1) row] by blast
  have rest: "r' \<in> set rs \<Longrightarrow> x \<in> set t \<Longrightarrow> parsePendingRequestRow x = Inr r' \<Longrightarrow> x \<in> set ?t" for r' x
    using Cons.prems(2) id [of x r'] k by (intro setRow_other) (auto simp: image_iff)
  have "\<exists>x\<in>set ?t. parsePendingRequestRow x = Inr r'" if "r' \<in> set rs" for r'
    using Cons.prems(3) [of r'] rest [OF that] that by auto
  then obtain t' p' where IH: "closeoutRecords i ev rs ?t = Inr (t', p')"
      "\<forall>r'\<in>set rs. \<forall>x\<in>set ?t. parsePendingRequestRow x = Inr r' \<longrightarrow> x\<lparr>pr_record := closeoutOf i (ev r') (pr_record x)\<rparr> \<in> set t'"
      "\<forall>x\<in>set ?t. pq_requestId (pr_record x) \<notin> pq_requestId ` set rs \<longrightarrow> x \<in> set t'"
    using Cons.IH [OF setRow_legible [OF q Cons.prems(1)]] Cons.prems(2) by auto
  have new: "row\<lparr>pr_record := ?q\<rparr> \<in> set ?t" using row(1) by (intro setRow_in) simp_all
  have "row\<lparr>pr_record := ?q\<rparr> \<in> set t'" using IH(3) [rule_format, OF new] q(1) k Cons.prems(2) by auto
  moreover have "x = row" if "x \<in> set t" "parsePendingRequestRow x = Inr r" for x
    using key_unique [of t x row] Cons.prems(1) row that id [OF that(2)] k by (simp add: legible_def)
  moreover have "x \<in> set t'" if "x \<in> set t" "pq_requestId (pr_record x) \<notin> pq_requestId ` set (r # rs)" for x
    using IH(3) that setRow_other [of x t ?k ?q] k by auto
  ultimately show ?case using first IH(1,2) rest by (auto simp: Let_def)
qed simp

lemma listed_rows:
  assumes "ledger_ok t"
  shows "r \<in> set (listThreadPendingRequests t ws th) \<longleftrightarrow> (\<exists>row\<in>set t. parsePendingRequestRow row = Inr r
      \<and> pq_workspaceId (pr_record row) = ws \<and> pq_threadId (pr_record row) = th)"
    and "distinct (map pq_requestId (listThreadPendingRequests t ws th))"
proof -
  have keys: "distinct (keys t)" using assms by (simp add: ledger_ok_def table_ok_def)
  show "r \<in> set (listThreadPendingRequests t ws th) \<longleftrightarrow> (\<exists>row\<in>set t. parsePendingRequestRow row = Inr r
      \<and> pq_workspaceId (pr_record row) = ws \<and> pq_threadId (pr_record row) = th)"
    unfolding listed [OF keys] by (force simp: readableRows_def threadRows_def List.map_filter_def split: sum.splits)
  have "map pq_requestId (readableRows rows) = map (pq_requestId \<circ> pr_record) rows" if "set rows \<subseteq> set t" for rows
    using that
  proof (induction rows)
    case (Cons row rows)
    then obtain r where r: "parsePendingRequestRow row = Inr r" using assms by (auto simp: ledger_ok_def succeeds_iff)
    then have "pq_requestId r = pq_requestId (pr_record row)" using parse_record by force
    then show ?case using Cons r by (simp add: readableRows_def)
  qed (simp add: readableRows_def)
  then have "map pq_requestId (readableRows (threadRows t ws th)) = map (pq_requestId \<circ> pr_record) (threadRows t ws th)"
    by (auto simp: threadRows_def)
  moreover have "distinct (map (pq_requestId \<circ> pr_record) (threadRows t ws th))"
    using keys by (auto simp: threadRows_def distinct_map keys_def inj_on_def)
  ultimately show "distinct (map pq_requestId (listThreadPendingRequests t ws th))" unfolding listed [OF keys] by simp
qed

text \<open>C15: The closeout of a Thread of a reachable ledger is refused exactly when a usable request of it has an unfinished execution.
  Otherwise it completes: afterwards no usable request of the Thread is one that an archive selects, except one whose
  outcome was frozen to a Turn, and every row of another Thread is as it was.\<close>

theorem pending_closeout_completes:
  assumes "pending_reachable t"
  shows "if \<exists>r\<in>set (listThreadPendingRequests t (co_workspaceId i) (co_threadId i)). usable r \<and> unfinishedClaim r
    then applyPendingCloseout t i usable ev = Inl ''A pending request execution is still claimed.''
    else \<exists>t' published. applyPendingCloseout t i usable ev = Inr (t', published)
      \<and> (\<forall>r\<in>set (listThreadPendingRequests t (co_workspaceId i) (co_threadId i)). usable r \<longrightarrow>
           (\<exists>row'\<in>set t'. pq_requestId (pr_record row') = pq_requestId r \<and> (archiveSelects (pr_record row') \<longrightarrow> pq_delivery r = Frozen)))
      \<and> (\<forall>row\<in>set t. \<not> (pq_workspaceId (pr_record row) = co_workspaceId i \<and> pq_threadId (pr_record row) = co_threadId i) \<longrightarrow> row \<in> set t')"
proof -
  let ?all = "listThreadPendingRequests t (co_workspaceId i) (co_threadId i)"
  have ok: "ledger_ok t" using reachable_ledger [OF assms] .
  then have legible: "legible t" by (simp add: ledger_ok_def table_ok_def legible_def)
  show ?thesis
  proof (cases "\<exists>r\<in>set ?all. usable r \<and> unfinishedClaim r")
    case True
    then show ?thesis by (auto simp: applyPendingCloseout_def list_ex_iff)
  next
    case False
    have rows: "distinct (map pq_requestId (filter usable ?all))" "r \<in> set (filter usable ?all) \<Longrightarrow> \<exists>row\<in>set t. parsePendingRequestRow row = Inr r" for r
      using listed_rows [OF ok] by (auto simp: distinct_map_filter)
    obtain t' published where run: "closeoutRecords i ev (filter usable ?all) t = Inr (t', published)"
        and closed: "\<And>r row. r \<in> set (filter usable ?all) \<Longrightarrow> row \<in> set t \<Longrightarrow> parsePendingRequestRow row = Inr r \<Longrightarrow>
          row\<lparr>pr_record := closeoutOf i (ev r) (pr_record row)\<rparr> \<in> set t'"
        and others: "\<And>row. row \<in> set t \<Longrightarrow> pq_requestId (pr_record row) \<notin> pq_requestId ` set (filter usable ?all) \<Longrightarrow> row \<in> set t'"
      using closeoutRecords_rows [OF legible rows, of i ev] by blast
    have "\<exists>row'\<in>set t'. pq_requestId (pr_record row') = pq_requestId r \<and> (archiveSelects (pr_record row') \<longrightarrow> pq_delivery r = Frozen)"
      if selected: "r \<in> set ?all" "usable r" for r
    proof -
      obtain row where row: "row \<in> set t" "parsePendingRequestRow row = Inr r" using selected(1) unfolding listed_rows(1) [OF ok] by blast
      from row(2) obtain c where c: "r = (pr_record row)\<lparr>pq_decidingActorContext := c\<rparr>" by (rule parse_record)
      have "record_ok (pr_record row)" using ok row(1) by (simp add: ledger_ok_def table_ok_def)
      then have "archiveSelects (closeoutOf i (ev r) (pr_record row)) \<longrightarrow> pq_delivery r = Frozen" using closeout_done c by auto
      moreover have "pq_requestId (closeoutOf i (ev r) (pr_record row)) = pq_requestId r" by (simp add: closeoutOf_def c)
      ultimately show ?thesis using closed [OF _ row] selected
        by (intro bexI [of _ "row\<lparr>pr_record := closeoutOf i (ev r) (pr_record row)\<rparr>"]) simp_all
    qed
    moreover have "row \<in> set t'" if row: "row \<in> set t" "\<not> (pq_workspaceId (pr_record row) = co_workspaceId i \<and> pq_threadId (pr_record row) = co_threadId i)" for row
    proof (rule others [OF row(1)], rule notI)
      assume "pq_requestId (pr_record row) \<in> pq_requestId ` set (filter usable ?all)"
      then obtain r x where "x \<in> set t" "parsePendingRequestRow x = Inr r" "pq_requestId (pr_record row) = pq_requestId r"
          "pq_workspaceId (pr_record x) = co_workspaceId i" "pq_threadId (pr_record x) = co_threadId i"
        using listed_rows(1) [OF ok] by auto
      moreover from this(2) have "pq_requestId (pr_record x) = pq_requestId r" using parse_record by force
      ultimately show False using row key_unique [of t x row] legible by (simp add: legible_def)
    qed
    moreover have "applyPendingCloseout t i usable ev = Inr (t', published)" using False run by (simp add: applyPendingCloseout_def list_ex_iff)
    ultimately show ?thesis using False by auto
  qed
qed

end
