(* ===== verification/Pending_Samples.thy ===== *)
theory Pending_Samples
  imports Pending_Closeout
begin

text \<open>
  A short history of one Thread: a Worker asks to run a command and asks a question, the command is granted, or denied,
  and its call is claimed. The properties of the ledger are applied along it.
\<close>

definition pendingPlatform :: PendingPlatform where
  "pendingPlatform = \<lparr>pt_sha256Hex = (\<lambda>_. ''00''), pt_parseJson = (\<lambda>_. Some (JObj []))\<rparr>"

definition sampleCommand :: RaisePendingRequestInput where
  "sampleCommand = \<lparr>ri_requestId = ''apr_1'', ri_workspaceId = ''ws_1'', ri_threadId = ''th_1'', ri_raisingTurnId = ''tr_1'',
    ri_requestItemId = ''it_1'', ri_kind = ApprovalKind, ri_requesterKind = WorkerRequester, ri_agentId = Some ''ag_1'',
    ri_agentSessionId = None, ri_responsibleUserId = ''us_1'', ri_call = None,
    ri_governedIntent = Some (JObj [(''operation'', JStr ''goal.plan.approve''), (''goalId'', JStr ''goal_1'')]),
    ri_assistantHandoff = None, ri_questions = None, ri_questionDigest = None, ri_approval = None, ri_now = ''2024-01-01''\<rparr>"

definition sampleQuestion :: RaisePendingRequestInput where
  "sampleQuestion = sampleCommand\<lparr>ri_requestId := ''req_2'', ri_kind := UserInputKind, ri_governedIntent := None,
    ri_questions := Some [JStr ''Which branch?''], ri_questionDigest := Some ''d'', ri_now := ''2024-01-02''\<rparr>"

definition sampleRow :: "RaisePendingRequestInput \<Rightarrow> PendingRequestRow" where
  "sampleRow i = \<lparr>pr_schemaVersion = RETAINED_FORMAT_VERSION, pr_record = insertedRecord i\<rparr>"

lemmas sample_defs = pendingPlatform_def sampleCommand_def sampleQuestion_def sampleRow_def insertedRecord_def setDecision_def

lemma sample_parse:
  "pr_schemaVersion row = RETAINED_FORMAT_VERSION \<Longrightarrow> pq_decidingActorContext (pr_record row) = None \<Longrightarrow> readableRecord (pr_record row) \<Longrightarrow>
    parsePendingRequestRow row = Inr (pr_record row)"
  using parse_succeeds [of row]
  by (cases row) (auto simp: succeeds_iff parsePendingRequestRow_def readRetainedV1_def Let_def bindE_Inr_iff parseDecisionContext_def parseObject_def)

lemma sample_parsed [simp]:
  "parsePendingRequestRow (sampleRow sampleCommand) = Inr (insertedRecord sampleCommand)"
  "parsePendingRequestRow (sampleRow sampleQuestion) = Inr (insertedRecord sampleQuestion)"
  by (simp_all add: sample_parse sample_defs readableRecord_def succeeds_iff parseDecisionContext_def parseObject_def parseAnswerMap_def parseQuestions_def)

lemma sample_row [simp]: "pr_record (sampleRow i) = insertedRecord i" "pr_schemaVersion (sampleRow i) = RETAINED_FORMAT_VERSION"
  by (simp_all add: sampleRow_def)

lemma inserted_fields [simp]:
  "pq_requestId (insertedRecord i) = ri_requestId i" "pq_workspaceId (insertedRecord i) = ri_workspaceId i"
  "pq_threadId (insertedRecord i) = ri_threadId i" "pq_kind (insertedRecord i) = ri_kind i" "pq_state (insertedRecord i) = PendingState"
  "pq_claim (insertedRecord i) = Unclaimed" "pq_disposition (insertedRecord i) = None" "pq_serverId (insertedRecord i) = map_option pl_serverId (ri_call i)"
  "pq_governedIntent (insertedRecord i) = map_option jsonClone (ri_governedIntent i)" "pq_createdAt (insertedRecord i) = ri_now i"
  by (simp_all add: insertedRecord_def)

lemma sample_inputs [simp]:
  "ri_requestId sampleCommand = ''apr_1''" "ri_workspaceId sampleCommand = ''ws_1''" "ri_threadId sampleCommand = ''th_1''"
  "ri_kind sampleCommand = ApprovalKind" "ri_call sampleCommand = None" "ri_assistantHandoff sampleCommand = None"
  "ri_requestId sampleQuestion = ''req_2''" "ri_workspaceId sampleQuestion = ''ws_1''" "ri_threadId sampleQuestion = ''th_1''"
  "ri_kind sampleQuestion = UserInputKind" "ri_call sampleQuestion = None" "ri_assistantHandoff sampleQuestion = None"
  by (simp_all add: sampleCommand_def sampleQuestion_def)

lemmas raise_defs = raisePendingRequest_def preflightPendingRequest_def insertPendingRequest_def readPendingRequest_def ensure_def
  outstanding_def PENDING_REQUEST_BOUND_def listed keys_def threadRows_def readableRows_def List.map_filter_def sameQualifiedBinding_def

lemma sample_raise_command: "raisePendingRequest pendingPlatform [] sampleCommand = Inr ([sampleRow sampleCommand], insertedRecord sampleCommand, True)"
  by (simp add: raise_defs flip: sampleRow_def)

lemma sample_raise_question:
  "raisePendingRequest pendingPlatform [sampleRow sampleCommand] sampleQuestion
    = Inr ([sampleRow sampleCommand, sampleRow sampleQuestion], insertedRecord sampleQuestion, True)"
  by (simp add: raise_defs flip: sampleRow_def)

definition sampleTable :: PendingTable where
  "sampleTable = [sampleRow sampleCommand, sampleRow sampleQuestion]"

lemma sample_reachable: "pending_reachable sampleTable"
  using pending_step.raise [OF sample_raise_command] pending_step.raise [OF sample_raise_question]
  unfolding pending_reachable_def sampleTable_def by (meson converse_rtranclp_into_rtranclp r_into_rtranclp)

definition decidedRecord :: "PendingRequestResolution \<Rightarrow> PendingRequestRecord" where
  "decidedRecord d = setDecision d (PendingUser ''us_1'') ''2024-01-03'' None (insertedRecord sampleCommand)"

definition sampleDecided :: "PendingRequestResolution \<Rightarrow> PendingTable" where
  "sampleDecided d = [(sampleRow sampleCommand)\<lparr>pr_record := decidedRecord d\<rparr>, sampleRow sampleQuestion]"

lemma decided_parse [simp]: "parsePendingRequestRow ((sampleRow sampleCommand)\<lparr>pr_record := decidedRecord d\<rparr>) = Inr (decidedRecord d)"
  by (simp add: sample_parse sample_defs decidedRecord_def readableRecord_def succeeds_iff parseDecisionContext_def parseObject_def
      parseAnswerMap_def parseQuestions_def)

lemma decided_record [simp]:
  "pq_requestId (decidedRecord d) = ''apr_1''" "pq_state (decidedRecord d) = ResolvedState" "pq_resolution (decidedRecord d) = Some d"
  "pq_claim (decidedRecord d) = Unclaimed" "pq_disposition (decidedRecord d) = None" "commandIntentRow (decidedRecord d)"
  by (simp_all add: decidedRecord_def setDecision_def commandIntentRow_def insertedRecord_def sampleCommand_def)

lemma command_row [simp]: "commandIntentRow (insertedRecord sampleCommand)" "isCommandIntentApproval (insertedRecord sampleCommand)"
  by (simp_all add: commandIntentRow_def isCommandIntentApproval_def sampleCommand_def)

lemmas cas_defs = whenReadable_def compareAndSet_def Let_def readPendingRequest_def updateWhere_def changes_def unclaimedPending_def

lemma decision_id: "pq_requestId (setDecision d a now c r) = pq_requestId r"
  by (simp add: setDecision_def)

lemma sample_deny: "denyPendingRequest sampleTable ''apr_1'' (PendingUser ''us_1'') ''2024-01-03'' None = Inr (sampleDecided Denied, Some (decidedRecord Denied))"
proof -
  have same: "(setDecision Denied (PendingUser ''us_1'') ''2024-01-03'' None (insertedRecord sampleCommand))
      \<lparr>pq_claim := Unclaimed, pq_disposition := None, pq_dispositionReason := None\<rparr> = decidedRecord Denied"
    by (simp add: decidedRecord_def setDecision_def insertedRecord_def)
  show ?thesis by (simp add: denyPendingRequest_def cas_defs sampleTable_def sampleDecided_def same decision_id)
qed

lemma sample_grant: "grantCommandIntentRequest sampleTable ''apr_1'' (PendingUser ''us_1'') ''2024-01-03'' None
    = Inr (sampleDecided Granted, Some (decidedRecord Granted))"
  by (simp add: grantCommandIntentRequest_def cas_defs sampleTable_def sampleDecided_def flip: decidedRecord_def)

lemma sample_read: "readPendingRequest sampleTable ''apr_1'' = Inr (Some (insertedRecord sampleCommand))"
  by (simp add: readPendingRequest_def sampleTable_def)

lemma no_context: "readableContext None"
  by (simp add: readableContext_def succeeds_iff parseDecisionContext_def parseObject_def)

lemma sample_denied: "pending_step sampleTable (sampleDecided Denied)"
  using pending_step.deny [OF sample_deny] by (simp add: sample_read no_context)

lemma sample_granted: "pending_step sampleTable (sampleDecided Granted)"
  using pending_step.grant [OF sample_grant] by (simp add: sample_read no_context)

lemma decided_reachable: "pending_reachable (sampleDecided Denied)" "pending_reachable (sampleDecided Granted)"
  using sample_reachable sample_denied sample_granted unfolding pending_reachable_def by (blast intro: rtranclp.rtrancl_into_rtrancl)+

lemma sample_claim: "\<exists>t r. claimCommandIntentGrant (sampleDecided Granted) ''apr_1'' ''2024-01-04'' = Inr (t, Some r)"
proof -
  obtain callId where "executionCallIdForRequest ''apr_1'' = Inr callId"
    by (auto simp: executionCallIdForRequest_def deriveEntityId_def DERIVED_NAMESPACES_def canonicalIdentifierName_def)
  moreover have "\<exists>r. parsePendingRequestRow ((sampleRow sampleCommand)\<lparr>pr_record := (decidedRecord Granted)
      \<lparr>pq_claim := Claimed, pq_executionCallId := Some callId, pq_updatedAt := ''2024-01-04''\<rparr>\<rparr>) = Inr r"
    using parse_succeeds [of "(sampleRow sampleCommand)\<lparr>pr_record := decidedRecord Granted\<rparr>"] decided_parse
      parse_succeeds [of "(sampleRow sampleCommand)\<lparr>pr_record := (decidedRecord Granted)
        \<lparr>pq_claim := Claimed, pq_executionCallId := Some callId, pq_updatedAt := ''2024-01-04''\<rparr>\<rparr>"]
    by (simp add: succeeds_iff readableRecord_def)
  ultimately show ?thesis by (auto simp: claimCommandIntentGrant_def cas_defs sampleDecided_def)
qed

theorem pending_records_canonical_witness:
  "\<exists>r r'. parsePendingRequestRow (sampleRow sampleCommand) = Inr r \<and> combinationFailure r = None \<and> stateFailure r = None
    \<and> resolutionActorFailure r = None
    \<and> parsePendingRequestRow ((sampleRow sampleCommand)\<lparr>pr_record := decidedRecord Denied\<rparr>) = Inr r' \<and> partiesFailure r' = partiesFailure r"
proof -
  let ?row = "(sampleRow sampleCommand)\<lparr>pr_record := decidedRecord Denied\<rparr>"
  have "sampleRow sampleCommand \<in> set sampleTable" by (simp add: sampleTable_def)
  from pending_records_canonical [OF sample_reachable this] show ?thesis
  proof (elim exE conjE)
    fix r
    assume r: "parsePendingRequestRow (sampleRow sampleCommand) = Inr r" "combinationFailure r = None" "stateFailure r = None"
        "pq_resolution r = None \<longrightarrow> resolutionActorFailure r = None \<and> answerFailure r = Inr None"
      and later: "\<forall>t' row'. pending_step\<^sup>*\<^sup>* sampleTable t' \<and> row' \<in> set t' \<and> pq_requestId (pr_record row') = pq_requestId r \<longrightarrow>
        (\<exists>r'. parsePendingRequestRow row' = Inr r' \<and> partiesFailure r' = partiesFailure r \<and> (\<forall>pt. capturedFailure pt r' = capturedFailure pt r)
          \<and> (pq_state r \<noteq> PendingState \<longrightarrow> resolutionActorFailure r' = resolutionActorFailure r \<and> answerFailure r' = answerFailure r))"
    have inserted: "r = insertedRecord sampleCommand" using r(1) by simp
    have "pending_step\<^sup>*\<^sup>* sampleTable (sampleDecided Denied) \<and> ?row \<in> set (sampleDecided Denied) \<and> pq_requestId (pr_record ?row) = pq_requestId r"
      using sample_denied by (simp add: inserted sampleDecided_def r_into_rtranclp)
    with later obtain r' where "parsePendingRequestRow ?row = Inr r'" "partiesFailure r' = partiesFailure r" by blast
    moreover have "resolutionActorFailure r = None" using r(4) by (simp add: inserted insertedRecord_def)
    ultimately show ?thesis using r(1-3) by blast
  qed
qed

theorem pending_bound_witness: "outstanding sampleTable ''ws_1'' ''th_1'' \<le> 16 \<and> 0 < outstanding sampleTable ''ws_1'' ''th_1''"
  using pending_bound [OF sample_reachable, of "''ws_1''" "''th_1''"] by (simp add: outstanding_def sampleTable_def)

theorem pending_ledger_refines_witness:
  "list_all2 (\<lambda>row row'. row_step\<^sup>*\<^sup>* (pr_record row) (pr_record row')) sampleTable (sampleDecided Granted)"
  using pending_ledger_refines [OF sample_reachable sample_granted] by (auto simp: sampleTable_def sampleDecided_def)

theorem pending_decision_final_witness:
  "withdrawPendingRequest (sampleDecided Denied) ''apr_1'' (PendingUser ''us_2'') ''2024-01-05'' = Inr (sampleDecided Denied, None)"
  using pending_decision_final [OF decided_reachable(1), of "(sampleRow sampleCommand)\<lparr>pr_record := decidedRecord Denied\<rparr>"]
  by (simp add: sampleDecided_def)

theorem pending_execution_once_witness:
  "\<exists>t r. claimCommandIntentGrant (sampleDecided Granted) ''apr_1'' ''2024-01-04'' = Inr (t, Some r)
    \<and> claimCommandIntentGrant t ''apr_1'' ''2024-01-05'' = Inr (t, None)"
proof -
  obtain t r where claim: "claimCommandIntentGrant (sampleDecided Granted) ''apr_1'' ''2024-01-04'' = Inr (t, Some r)" using sample_claim by blast
  then have "claimCommandIntentGrant t ''apr_1'' ''2024-01-05'' = Inr (t, None)"
    using pending_execution_once [OF decided_reachable(2) pending_step.consume [OF claim] disjI2 [OF claim] rtranclp.rtrancl_refl] by blast
  then show ?thesis using claim by blast
qed

theorem pending_raise_idempotent_witness:
  "raisePendingRequest pendingPlatform (sampleDecided Denied) sampleCommand = Inr (sampleDecided Denied, decidedRecord Denied, False)"
proof -
  have steps: "pending_step\<^sup>*\<^sup>* [sampleRow sampleCommand] (sampleDecided Denied)"
    using pending_step.raise [OF sample_raise_question] sample_denied unfolding sampleTable_def by (meson converse_rtranclp_into_rtranclp r_into_rtranclp)
  have canonical: "raiseCanonical pendingPlatform sampleCommand"
    by (simp add: raiseCanonical_def sampleCommand_def succeeds_iff canonicalJsonText_def)
  have "readPendingRequest (sampleDecided Denied) (ri_requestId sampleCommand) = Inr (Some (decidedRecord Denied))"
    by (simp add: readPendingRequest_def sampleDecided_def)
  then show ?thesis using pending_raise_idempotent [OF _ sample_raise_command steps canonical] by (auto simp: pending_reachable_def)
qed

theorem pending_pages_exact_witness:
  "map pq_requestId (listThreadPendingRequests [sampleRow sampleQuestion, sampleRow sampleCommand] ''ws_1'' ''th_1'') = [''apr_1'', ''req_2'']"
proof -
  have "creationKey (sampleRow sampleCommand) \<le> creationKey (sampleRow sampleQuestion)"
    by code_simp
  then have "sort_key creationKey [sampleRow sampleQuestion, sampleRow sampleCommand] = [sampleRow sampleCommand, sampleRow sampleQuestion]"
    by (auto simp: creationKey_def)
  then show ?thesis using pending_pages_exact [of "[sampleRow sampleQuestion, sampleRow sampleCommand]" "''ws_1''" "''th_1''"]
    by (simp add: readableRows_def List.map_filter_def)
qed

theorem pending_closeout_completes_witness:
  "\<exists>t' published. applyPendingCloseout sampleTable \<lparr>co_workspaceId = ''ws_1'', co_threadId = ''th_1'', co_closeoutTurnId = ''tr_9'',
      co_actor = PendingSystem ''nanocore'', co_now = ''2024-01-09''\<rparr> (\<lambda>_. True) (\<lambda>_. ''thread-archived'') = Inr (t', published)
    \<and> (\<exists>row'\<in>set t'. pq_requestId (pr_record row') = ''apr_1'' \<and> \<not> archiveSelects (pr_record row'))"
proof -
  let ?i = "\<lparr>co_workspaceId = ''ws_1'', co_threadId = ''th_1'', co_closeoutTurnId = ''tr_9'', co_actor = PendingSystem ''nanocore'',
    co_now = ''2024-01-09''\<rparr>"
  have ok: "ledger_ok sampleTable" using reachable_ledger [OF sample_reachable] .
  have rows: "r \<in> set (listThreadPendingRequests sampleTable ''ws_1'' ''th_1'') \<longleftrightarrow> r = insertedRecord sampleCommand \<or> r = insertedRecord sampleQuestion" for r
    unfolding listed_rows(1) [OF ok] by (auto simp: sampleTable_def)
  then have no: "\<not> (\<exists>r\<in>set (listThreadPendingRequests sampleTable ''ws_1'' ''th_1''). True \<and> unfinishedClaim r)"
    by (auto simp: unfinishedClaim_def)
  have at: "insertedRecord sampleCommand \<in> set (listThreadPendingRequests sampleTable ''ws_1'' ''th_1'')"
      "pq_delivery (insertedRecord sampleCommand) = Undelivered" "pq_requestId (insertedRecord sampleCommand) = ''apr_1''"
    using rows by (simp_all add: insertedRecord_def)
  from pending_closeout_completes [OF sample_reachable, of ?i "\<lambda>_. True" "\<lambda>_. ''thread-archived''"]
  show ?thesis unfolding CloseoutInput.simps if_not_P [OF no] using at by fastforce
qed

end
