(* ===== verification/Spec2Isabelle.thy ===== *)
theory Spec2Isabelle
  imports Journal_Properties Derived_Entity_Id Interception_Samples Access_Samples Product_Access Cadence_Samples Filter_Samples Pending_Samples
begin

text \<open>
  \<^bold>\<open>Verification of the OpenKit governance core.\<close>

  OpenKit runs agents on behalf of people. NanoCore (\<^verbatim>\<open>apps/nanocore\<close>) is its server: it admits
  operations, decides who may do what, runs Workers and keeps durable evidence. This development models the parts that carry those
  decisions and proves what makes them correct. Paths below are under \<^verbatim>\<open>src/\<close>.

  \<^bold>\<open>How the parts interact.\<close> The Policy Kernel is a pure evaluator of NGAC graphs. Four bridges project current
  facts into such graphs and let the Kernel decide: product access (identity, credential, target), Thread and Workspace resource access
  (audience, allocations, prohibitions), Goal Task access (approved Goal envelope and Task selection) and MCP tool conditions. Policy documents hold
  authored statements, validated and compared by digests of canonical JSON. Policy interception composes these: it selects the participants
  a document binds to a proposed action, asks the gates, evaluates the Kernel once more, combines the results, and records one immutable permission decision with its
  linked Audit. What needs a human becomes a pending request, whose grant is claimed and executed once and whose outcome is delivered to a later Turn. The execution journal records what Workers intend and what became of it. Recurring cadences plan automatic work, entity
  identifiers name every record, and record filters are how apps query their own data.

  \<^bold>\<open>Theories and sources.\<close>

  \<^item> \<open>Prelude\<close>: errors as values (\<open>result\<close>, \<open>bindE\<close>, \<open>ensure\<close>, traversals that stop at the first error), insertion-ordered maps and sets, and
    the collections \<open>result_simps\<close> and \<open>collection_simps\<close>. \<open>Schema\<close>: schemas as predicates and \<open>parse\<close> as their guard.

  \<^item> \<open>Policy_Kernel\<close> (\<^verbatim>\<open>packages/policy-kernel/src/index.ts\<close>): graph data, validation, cycle detection, containment
    closure, associations, prohibitions, the decision with its trace. It is refined to the NGAC rule, and the locale \<open>access_kernel\<close> is what its clients rely on.

  \<^item> \<open>Entity_Id\<close>, \<open>Derived_Entity_Id\<close> (\<^verbatim>\<open>packages/protocol/src/common/entity-id.ts\<close>): canonical text, UUIDv7 allocation on
    bytes, UUIDv5 derivation with the source's own SHA-1 on 32-bit words, against FIPS 180-4 and RFC 9562.

  \<^item> \<open>Canonical_Json\<close> (\<^verbatim>\<open>packages/protocol/src/common/canonical-json.ts\<close>): the encoder and that its text
    identifies a value. \<open>Ecma_Date\<close>, \<open>Gregorian_Calendar\<close>: date parsing and the calendar of ECMAScript.

  \<^item> \<open>Protocol_Actors\<close>, \<open>Policy_Document\<close> (\<^verbatim>\<open>packages/protocol/src/models/policy-v1.ts\<close>, \<^verbatim>\<open>actor.ts\<close>): the data of statements and their
    JSON. \<open>Policy_Statements\<close> (\<^verbatim>\<open>policy/statements.ts\<close>): admission, classification of a candidate, selection, scopes, accountability; \<open>Policy_Admission\<close> and
    \<open>Policy_Selection\<close> hold its theorems, \<open>Policy_Samples\<close> concrete documents.

  \<^item> \<open>Audit_Events\<close> (\<^verbatim>\<open>audit-events.ts\<close>), \<open>Permission_Decisions\<close> (\<^verbatim>\<open>policy/permission-decisions.ts\<close>, \<^verbatim>\<open>retained-records-v1.ts\<close>):
    the store of decisions and Audits with its constraints. \<open>Decision_History\<close>: reachable stores as an \<open>inductive\<close> relation, with the locale \<open>decision_log\<close> of an append-only
    log per owner.

  \<^item> \<open>Policy_Interception\<close>, \<open>Interception_Properties\<close>, \<open>Circuit_Breaker\<close>, \<open>Interception_Samples\<close> (\<^verbatim>\<open>policy/interception.ts\<close>): every method of the deciding and
    completed points, the circuit of each participant, and results ordered by severity.

  \<^item> \<open>Layered_Policy\<close>: the locale \<open>layered_policy\<close> of graphs whose elements reach their classes in one or two steps, with the Kernel's answer on them proved once; interpreted
    as \<open>goal_scope\<close>, \<open>product_graph\<close> and \<open>tool_graph\<close>, and used for Threads through \<open>resource_layered\<close>.

  \<^item> \<open>Goal_Task_Access\<close>, \<open>Goal_Access_Properties\<close> (\<^verbatim>\<open>policy/goal-task-access.ts\<close>); \<open>Product_Access\<close> (\<^verbatim>\<open>policy/workspace-access.ts\<close>); \<open>Tool_Conditions\<close>
    (\<^verbatim>\<open>policy/mcp-tool-permissions.ts\<close>); \<open>Resource_Access\<close>, \<open>Resource_Access_Properties\<close> (\<^verbatim>\<open>policy/workspace-resource-access.ts\<close>, \<^verbatim>\<open>workspace-resource-policy.ts\<close>,
    \<^verbatim>\<open>thread.ts\<close>); \<open>Access_Samples\<close> holds their concrete inputs.

  \<^item> \<open>Journal_Types\<close>, \<open>Execution_Journal\<close> (\<^verbatim>\<open>runtime/execution-journal.ts\<close>, \<^verbatim>\<open>execution-step-journal.ts\<close>): tables as lists of rows with the
    triggers of their schema. \<open>Journal_Invariant\<close>, \<open>Journal_History\<close> (locale \<open>fenced_journal\<close>) and \<open>Journal_Properties\<close> prove the invariant, immutability, fencing and release.

  \<^item> \<open>Pending_Requests\<close> (records, reading, paging and raising), \<open>Pending_Lifecycle\<close> (every decision, claim, execution, ending, delivery and closeout, and all the
    checks of the canonical load that read the record alone) of \<^verbatim>\<open>runtime/pending-requests.ts\<close>; \<open>Pending_Invariant\<close>: the life of one record as an \<open>inductive\<close> transition system with its invariant;
    \<open>Pending_History\<close> and \<open>Pending_Refinement\<close>: every writing operation as a step of the table, and the refinement: a step moves each row along those
    transitions or raises one row; \<open>Pending_Properties\<close>: what holds of every reachable ledger (readable canonical records, the bound of sixteen outstanding
    requests, final decisions, a call claimed and finished once); \<open>Pending_Listing\<close>: paging is complete and raising is idempotent along any history;
    \<open>Pending_Closeout\<close>: when a closeout is refused, and that it otherwise leaves nothing for an archive to wait for; \<open>Pending_Samples\<close>: a history of one Thread.

  \<^item> \<open>Recurring_Cadence\<close>, \<open>Cadence_Samples\<close> (\<^verbatim>\<open>lib/recurring-cadence.ts\<close>): the locale \<open>stepping_rule\<close> is a rule that advances one occurrence at a time.

  \<^item> \<open>Record_Filter\<close>, \<open>Filter_Grammar\<close>, \<open>Filter_Properties\<close>, \<open>Filter_Samples\<close> (\<^verbatim>\<open>generative-kernel/filter.ts\<close>): tokenizer and compiler; the locale \<open>joined\<close> gives
    both loops of the compiler their lemmas.

  \<^bold>\<open>What is proved.\<close> The Kernel allows exactly what the NGAC rule permits on a valid graph, and its validation accepts exactly the well-formed ones; prohibitions only
  restrict. Each bridge is exact: the theorem lists the facts under which access is allowed, and they are necessary and sufficient. An interception allow rests on a current Kernel allow, on
  human approval of every condition and on every active gate; facts that are stale after the gates ran, a throwing Kernel or an invalid policy end in a retained error; every decision appends one record per asked gate and its own,
  to its own database only, and the store keeps owners apart and a linked Audit beside every decision. A finite statement is used at most as often as its limit along any history. Accepted documents root authority in people, responsibility chains end at a person, and a narrowing never widens.
  Journal rows are immutable once settled, writes are fenced by revisions, and unknown steps keep their exclusions until a qualified release. The ledger of pending requests refines the life of single records: decisions are final, an approved call is claimed once, and records that passed the canonical load when raised and decided keep passing its record checks. A failing participant is cut off and tried again
  after its recovery time. Cadence prefixes computed in constant work equal the occurrence-by-occurrence reference. Derived identifiers are UUIDv5. Filters compile exactly their documented grammar,
  literals reach SQL only as parameters, and a pinned filter selects one record.

  \<^bold>\<open>Conventions, bounds and assumptions.\<close> Every operation is executable; a thrown error is a left value. Recursions are structural or have a measure; the loops of the filter compiler carry the number of
  tokens left as a bound, shown never to be reached, and the walks along disclosure and responsibility chains carry the number of agents, shown to suffice (\<open>policy_validation_terminates\<close>). The clock, allocated identifiers, callbacks and participant replies are a
  \<open>World\<close> indexed by a growing tick; one decision runs at a time, and a throw keeps the store of before. The content hash is a parameter; where equality of digests must mean equality of content, the theorem assumes
  \<open>collision_free\<close> on the finitely many values compared. The registry of operations, URL parsing and SQLite's comparison of values are parameters too. Characters are below U+0100 except in filters, which use UTF-16 code units. JSON numbers are integers printed in decimal, as \<^verbatim>\<open>JSON.stringify\<close> prints them below 10 to the 21st. The callbacks that tell whether an author or an anchor is current always answer; the other callbacks may throw. Instants are
  integers; the doubles of the source are exact in the ranges its checks admit. Bytes and SHA-1 words are machine words.

  \<^bold>\<open>Not modelled.\<close> The text of the journal's JSON columns, its candidate listing and idle-cleanup membership; the listing queries and specialised recorders of Audits; the boot self-check and portable projections of permission decisions; the write-proposal
  envelopes of the policy protocol; the comparison of a pending request with the Items and Turns that publish it, the native command dispatcher around its operations and the rendering of its outcome. Beyond these components: the services that load policy, Goal plans and membership from storage; turn executors, schedulers and worker transports, which are asynchronous drivers of external processes;
  storage workers, migrations and file publication; HTTP routes; model providers; authentication, which rests on a third-party library; vault cryptography; knowledge maintenance; Light App databases apart from filters; the web application; and the Rust host. They are
  input and output around the modelled decisions, or need semantics of systems outside this repository.
\<close>

end
